(* ===== verification/Py_Prelude.thy ===== *)
theory Py_Prelude
  imports Complex_Main "HOL-Library.AList" "HOL-Library.List_Lexorder" "HOL-Library.Char_ord"
    "HOL-Library.Product_Lexorder"
begin

text \<open>
  Shared vocabulary of the development.

  \<^item> the exceptions the modelled code raises, by the name of the class;
  \<^item> results: a call that can raise is a value of \<open>'a res\<close>, \<open>Inl\<close> the exception;
  \<^item> state-passing calls: a method that mutates its object and can raise is a
    \<open>('s, 'a) st\<close>: it returns the outcome together with the state the object is left in,
    also when it raises (Python does not roll an object back);
  \<^item> insertion-ordered dictionaries: association lists with distinct keys, where
    \<open>AList.update\<close> keeps the place of an existing key and appends a new one, and
    \<open>AList.delete\<close> removes a key, as \<open>dict\<close> does.

  The collections \<open>res_simps\<close>, \<open>st_simps\<close> and \<open>dict_simps\<close> hold the rewrite rules that the
  component theories hand to the simplifier.
\<close>

named_theorems res_simps "unfolding of results"
named_theorems st_simps "unfolding of state-passing calls"
named_theorems dict_simps "lookup after update and delete"

section \<open>Exceptions and results\<close>

text \<open>
  An exception is the name of its class; the one whose payload a caller reads keeps it. Classes that
  differ in name are different, and the simplifier decides that on the literals.
\<close>

datatype exc = Error_Class string | PackageDependencyCycle "string list"

abbreviation InvalidOperation :: exc where "InvalidOperation \<equiv> Error_Class ''InvalidOperation''"
abbreviation DivisionByZero :: exc where "DivisionByZero \<equiv> Error_Class ''DivisionByZero''"
abbreviation FundingSourceInvalid :: exc where "FundingSourceInvalid \<equiv> Error_Class ''FundingSourceInvalid''"
abbreviation InvalidCapitalPlanError :: exc where "InvalidCapitalPlanError \<equiv> Error_Class ''InvalidCapitalPlanError''"
abbreviation UnknownLedgerItemError :: exc where "UnknownLedgerItemError \<equiv> Error_Class ''UnknownLedgerItemError''"
abbreviation LedgerFrozenError :: exc where "LedgerFrozenError \<equiv> Error_Class ''LedgerFrozenError''"
abbreviation MismatchedSnapshotError :: exc where "MismatchedSnapshotError \<equiv> Error_Class ''MismatchedSnapshotError''"
abbreviation LedgerSolvencyViolation :: exc where "LedgerSolvencyViolation \<equiv> Error_Class ''LedgerSolvencyViolation''"
abbreviation PositionStateError :: exc where "PositionStateError \<equiv> Error_Class ''PositionStateError''"
abbreviation SnapshotMismatchError :: exc where "SnapshotMismatchError \<equiv> Error_Class ''SnapshotMismatchError''"
abbreviation UnknownItemError :: exc where "UnknownItemError \<equiv> Error_Class ''UnknownItemError''"
abbreviation NoDecisionAtTickError :: exc where "NoDecisionAtTickError \<equiv> Error_Class ''NoDecisionAtTickError''"
abbreviation MandatoryEventNotAnIntentError :: exc where "MandatoryEventNotAnIntentError \<equiv> Error_Class ''MandatoryEventNotAnIntentError''"
abbreviation MismatchedItemViewError :: exc where "MismatchedItemViewError \<equiv> Error_Class ''MismatchedItemViewError''"
abbreviation UndirectedIntentError :: exc where "UndirectedIntentError \<equiv> Error_Class ''UndirectedIntentError''"
abbreviation MissingSizingInputsError :: exc where "MissingSizingInputsError \<equiv> Error_Class ''MissingSizingInputsError''"
abbreviation UnsupportedConflictPolicyError :: exc where "UnsupportedConflictPolicyError \<equiv> Error_Class ''UnsupportedConflictPolicyError''"
abbreviation MandatoryIntentNotArbitrableError :: exc where "MandatoryIntentNotArbitrableError \<equiv> Error_Class ''MandatoryIntentNotArbitrableError''"
abbreviation LedgerNotFrozenError :: exc where "LedgerNotFrozenError \<equiv> Error_Class ''LedgerNotFrozenError''"
abbreviation MismatchedTickError :: exc where "MismatchedTickError \<equiv> Error_Class ''MismatchedTickError''"
abbreviation UnknownArbitrationItemError :: exc where "UnknownArbitrationItemError \<equiv> Error_Class ''UnknownArbitrationItemError''"
abbreviation DuplicateIntentError :: exc where "DuplicateIntentError \<equiv> Error_Class ''DuplicateIntentError''"
abbreviation UnplaceableBarTimestampError :: exc where "UnplaceableBarTimestampError \<equiv> Error_Class ''UnplaceableBarTimestampError''"
abbreviation NonMonotonicBarStreamError :: exc where "NonMonotonicBarStreamError \<equiv> Error_Class ''NonMonotonicBarStreamError''"
abbreviation DuplicateItemStreamError :: exc where "DuplicateItemStreamError \<equiv> Error_Class ''DuplicateItemStreamError''"
abbreviation InvalidParticipantError :: exc where "InvalidParticipantError \<equiv> Error_Class ''InvalidParticipantError''"
abbreviation MisformedIntentError :: exc where "MisformedIntentError \<equiv> Error_Class ''MisformedIntentError''"
abbreviation UnsupportedIntentKindError :: exc where "UnsupportedIntentKindError \<equiv> Error_Class ''UnsupportedIntentKindError''"
abbreviation UnpriceableAdmissionError :: exc where "UnpriceableAdmissionError \<equiv> Error_Class ''UnpriceableAdmissionError''"
abbreviation UnsupportedStrategyShapeError :: exc where "UnsupportedStrategyShapeError \<equiv> Error_Class ''UnsupportedStrategyShapeError''"
abbreviation ParticipantDivergenceError :: exc where "ParticipantDivergenceError \<equiv> Error_Class ''ParticipantDivergenceError''"
abbreviation IllegalTransition :: exc where "IllegalTransition \<equiv> Error_Class ''IllegalTransition''"
abbreviation InvalidDirectivePriorityError :: exc where "InvalidDirectivePriorityError \<equiv> Error_Class ''InvalidDirectivePriorityError''"
abbreviation CapabilityTransitionRejectedError :: exc where "CapabilityTransitionRejectedError \<equiv> Error_Class ''CapabilityTransitionRejectedError''"
abbreviation CapabilityDependencyMissingError :: exc where "CapabilityDependencyMissingError \<equiv> Error_Class ''CapabilityDependencyMissingError''"
abbreviation CapabilityNotActiveError :: exc where "CapabilityNotActiveError \<equiv> Error_Class ''CapabilityNotActiveError''"
abbreviation UnauthenticatedError :: exc where "UnauthenticatedError \<equiv> Error_Class ''UnauthenticatedError''"
abbreviation AccessDeniedError :: exc where "AccessDeniedError \<equiv> Error_Class ''AccessDeniedError''"
abbreviation AdminPanelAccessRequiredError :: exc where "AdminPanelAccessRequiredError \<equiv> Error_Class ''AdminPanelAccessRequiredError''"
abbreviation TrashAccessForbiddenError :: exc where "TrashAccessForbiddenError \<equiv> Error_Class ''TrashAccessForbiddenError''"
abbreviation AdminManualWriteRequiredError :: exc where "AdminManualWriteRequiredError \<equiv> Error_Class ''AdminManualWriteRequiredError''"
abbreviation CapabilityAccessDeniedError :: exc where "CapabilityAccessDeniedError \<equiv> Error_Class ''CapabilityAccessDeniedError''"
abbreviation AgentRoleNotAssignableError :: exc where "AgentRoleNotAssignableError \<equiv> Error_Class ''AgentRoleNotAssignableError''"
abbreviation LastAdminProtectedError :: exc where "LastAdminProtectedError \<equiv> Error_Class ''LastAdminProtectedError''"
abbreviation ApprovalRequiresAdmin :: exc where "ApprovalRequiresAdmin \<equiv> Error_Class ''ApprovalRequiresAdmin''"
abbreviation ShareManagementForbiddenError :: exc where "ShareManagementForbiddenError \<equiv> Error_Class ''ShareManagementForbiddenError''"
abbreviation ShareNotAllowedForVisibilityError :: exc where "ShareNotAllowedForVisibilityError \<equiv> Error_Class ''ShareNotAllowedForVisibilityError''"
abbreviation ShareWithSelfError :: exc where "ShareWithSelfError \<equiv> Error_Class ''ShareWithSelfError''"
abbreviation InstrumentDeprecateRequiresAdminError :: exc where "InstrumentDeprecateRequiresAdminError \<equiv> Error_Class ''InstrumentDeprecateRequiresAdminError''"
abbreviation ToolPolicyScopeError :: exc where "ToolPolicyScopeError \<equiv> Error_Class ''ToolPolicyScopeError''"
abbreviation TimePolicyInvalid :: exc where "TimePolicyInvalid \<equiv> Error_Class ''TimePolicyInvalid''"
abbreviation LifecycleBlocked :: exc where "LifecycleBlocked \<equiv> Error_Class ''LifecycleBlocked''"
abbreviation CursorInvalidError :: exc where "CursorInvalidError \<equiv> Error_Class ''CursorInvalidError''"
abbreviation IdempotencyConflictError :: exc where "IdempotencyConflictError \<equiv> Error_Class ''IdempotencyConflictError''"
abbreviation StaleRevisionError :: exc where "StaleRevisionError \<equiv> Error_Class ''StaleRevisionError''"
abbreviation NotFoundError :: exc where "NotFoundError \<equiv> Error_Class ''NotFoundError''"
abbreviation ValidationError :: exc where "ValidationError \<equiv> Error_Class ''ValidationError''"
abbreviation PurgeInProgressError :: exc where "PurgeInProgressError \<equiv> Error_Class ''PurgeInProgressError''"
abbreviation ObjectAlreadyPurgedError :: exc where "ObjectAlreadyPurgedError \<equiv> Error_Class ''ObjectAlreadyPurgedError''"
abbreviation EntityNotSoftDeletedError :: exc where "EntityNotSoftDeletedError \<equiv> Error_Class ''EntityNotSoftDeletedError''"
abbreviation ObjectInActiveRunError :: exc where "ObjectInActiveRunError \<equiv> Error_Class ''ObjectInActiveRunError''"
abbreviation RationaleFamilyInUseError :: exc where "RationaleFamilyInUseError \<equiv> Error_Class ''RationaleFamilyInUseError''"
abbreviation DeletePolicyBlocked :: exc where "DeletePolicyBlocked \<equiv> Error_Class ''DeletePolicyBlocked''"
abbreviation HeadPointerMovedConflict :: exc where "HeadPointerMovedConflict \<equiv> Error_Class ''HeadPointerMovedConflict''"
abbreviation TargetMissingConflict :: exc where "TargetMissingConflict \<equiv> Error_Class ''TargetMissingConflict''"
abbreviation UnsupportedRestoreResolutionError :: exc where "UnsupportedRestoreResolutionError \<equiv> Error_Class ''UnsupportedRestoreResolutionError''"
abbreviation TrashEntryNotFoundError :: exc where "TrashEntryNotFoundError \<equiv> Error_Class ''TrashEntryNotFoundError''"
abbreviation PurgeConfirmationInvalidError :: exc where "PurgeConfirmationInvalidError \<equiv> Error_Class ''PurgeConfirmationInvalidError''"
abbreviation PurgeNotEligibleError :: exc where "PurgeNotEligibleError \<equiv> Error_Class ''PurgeNotEligibleError''"
abbreviation ReauthRequiredError :: exc where "ReauthRequiredError \<equiv> Error_Class ''ReauthRequiredError''"
abbreviation ReauthProofInvalidError :: exc where "ReauthProofInvalidError \<equiv> Error_Class ''ReauthProofInvalidError''"
abbreviation ArtifactOwnershipError :: exc where "ArtifactOwnershipError \<equiv> Error_Class ''ArtifactOwnershipError''"
abbreviation BacktestResultNotFoundError :: exc where "BacktestResultNotFoundError \<equiv> Error_Class ''BacktestResultNotFoundError''"
abbreviation RowVersionConflictError :: exc where "RowVersionConflictError \<equiv> Error_Class ''RowVersionConflictError''"
abbreviation ManualDocumentNotFoundError :: exc where "ManualDocumentNotFoundError \<equiv> Error_Class ''ManualDocumentNotFoundError''"
abbreviation BaselineManualImmutableError :: exc where "BaselineManualImmutableError \<equiv> Error_Class ''BaselineManualImmutableError''"
abbreviation ManualStreamConflictError :: exc where "ManualStreamConflictError \<equiv> Error_Class ''ManualStreamConflictError''"
abbreviation LastAdminProtectionError :: exc where "LastAdminProtectionError \<equiv> Error_Class ''LastAdminProtectionError''"
abbreviation UserRoleVersionConflictError :: exc where "UserRoleVersionConflictError \<equiv> Error_Class ''UserRoleVersionConflictError''"
abbreviation CapabilityNotFoundError :: exc where "CapabilityNotFoundError \<equiv> Error_Class ''CapabilityNotFoundError''"
abbreviation CapabilityStateStaleError :: exc where "CapabilityStateStaleError \<equiv> Error_Class ''CapabilityStateStaleError''"
abbreviation RuntimeError :: exc where "RuntimeError \<equiv> Error_Class ''RuntimeError''"
abbreviation KeyError :: exc where "KeyError \<equiv> Error_Class ''KeyError''"
abbreviation IndexError :: exc where "IndexError \<equiv> Error_Class ''IndexError''"
abbreviation TypeError :: exc where "TypeError \<equiv> Error_Class ''TypeError''"
abbreviation AssertionError :: exc where "AssertionError \<equiv> Error_Class ''AssertionError''"
abbreviation ValueError :: exc where "ValueError \<equiv> Error_Class ''ValueError''"

type_synonym 'a res = "exc + 'a"

abbreviation ok :: "'a \<Rightarrow> 'a res" where
  "ok x \<equiv> Inr x"

abbreviation raise :: "exc \<Rightarrow> 'a res" where
  "raise e \<equiv> Inl e"

definition rbind :: "'a res \<Rightarrow> ('a \<Rightarrow> 'b res) \<Rightarrow> 'b res" where
  "rbind m f = (case m of Inl e \<Rightarrow> Inl e | Inr x \<Rightarrow> f x)"

definition is_ok :: "'a res \<Rightarrow> bool" where
  "is_ok m = (case m of Inl e \<Rightarrow> False | Inr x \<Rightarrow> True)"

lemma rbind_simps [simp, res_simps]:
  "rbind (Inl e) f = Inl e"
  "rbind (Inr x) f = f x"
  by (simp_all add: rbind_def)

lemma rbind_Inr_iff [res_simps]: "rbind m f = Inr y \<longleftrightarrow> (\<exists>x. m = Inr x \<and> f x = Inr y)"
  by (cases m) auto

lemma rbind_Inl_iff:
  "rbind m f = Inl e \<longleftrightarrow> m = Inl e \<or> (\<exists>x. m = Inr x \<and> f x = Inl e)"
  by (cases m) auto

lemma is_ok_simps [simp]: "is_ok (Inr x)" "\<not> is_ok (Inl e)"
  by (simp_all add: is_ok_def)

lemma is_ok_iff: "is_ok m \<longleftrightarrow> (\<exists>x. m = Inr x)"
  by (cases m) auto

text \<open>
  The continuation of a bind is not simplified before the call it waits for has been: evaluating
  a program on concrete values then follows the order of the program.
\<close>

lemma rbind_cong [cong]: "m = m' \<Longrightarrow> rbind m f = rbind m' f"
  by simp

definition rmap_result :: "('a \<Rightarrow> 'b) \<Rightarrow> 'a res \<Rightarrow> 'b res" where
  "rmap_result f m = rbind m (\<lambda>x. ok (f x))"

text \<open>Evaluating a list of calls in order, stopping at the first exception.\<close>

fun rmap :: "('a \<Rightarrow> 'b res) \<Rightarrow> 'a list \<Rightarrow> 'b list res" where
  "rmap f [] = ok []"
| "rmap f (x # xs) = rbind (f x) (\<lambda>y. rbind (rmap f xs) (\<lambda>ys. ok (y # ys)))"

lemma rmap_length: "rmap f xs = Inr ys \<Longrightarrow> length ys = length xs"
  by (induction xs arbitrary: ys) (auto simp: rbind_Inr_iff)

lemma rmap_nth: "rmap f xs = Inr ys \<Longrightarrow> i < length xs \<Longrightarrow> f (xs ! i) = Inr (ys ! i)"
proof (induction xs arbitrary: ys i)
  case Nil
  then show ?case by simp
next
  case (Cons x xs)
  then show ?case by (cases i) (auto simp: rbind_Inr_iff)
qed

section \<open>State-passing calls\<close>

type_synonym ('s, 'a) st = "'s \<Rightarrow> 'a res \<times> 's"

definition sret :: "'a \<Rightarrow> ('s, 'a) st" where
  "sret x = (\<lambda>s. (Inr x, s))"

definition sthrow :: "exc \<Rightarrow> ('s, 'a) st" where
  "sthrow e = (\<lambda>s. (Inl e, s))"

definition slift :: "'a res \<Rightarrow> ('s, 'a) st" where
  "slift m = (\<lambda>s. (m, s))"

definition sget :: "('s, 's) st" where
  "sget = (\<lambda>s. (Inr s, s))"

definition smod :: "('s \<Rightarrow> 's) \<Rightarrow> ('s, unit) st" where
  "smod f = (\<lambda>s. (Inr (), f s))"

definition sbind :: "('s, 'a) st \<Rightarrow> ('a \<Rightarrow> ('s, 'b) st) \<Rightarrow> ('s, 'b) st" where
  "sbind m f = (\<lambda>s. case m s of (Inl e, s') \<Rightarrow> (Inl e, s') | (Inr x, s') \<Rightarrow> f x s')"

definition sguard :: "bool \<Rightarrow> exc \<Rightarrow> ('s, unit) st" where
  "sguard b e = (if b then sret () else sthrow e)"

lemma st_run [st_simps]:
  "sret x s = (Inr x, s)"
  "sthrow e s = (Inl e, s)"
  "slift r s = (r, s)"
  "sget s = (Inr s, s)"
  "smod f s = (Inr (), f s)"
  "sguard b e s = (if b then (Inr (), s) else (Inl e, s))"
  by (simp_all add: sret_def sthrow_def slift_def sget_def smod_def sguard_def)

lemma sbind_run [st_simps]:
  "sbind m f s = (case m s of (Inl e, s') \<Rightarrow> (Inl e, s') | (Inr x, s') \<Rightarrow> f x s')"
  by (simp add: sbind_def)

lemma sbind_cong [cong]: "m = m' \<Longrightarrow> s = s' \<Longrightarrow> sbind m f s = sbind m' f s'"
  by simp

lemma sbind_ok_iff:
  "sbind m f s = (Inr y, s'') \<longleftrightarrow> (\<exists>x s'. m s = (Inr x, s') \<and> f x s' = (Inr y, s''))"
  by (auto simp: sbind_def split: prod.splits sum.splits)

text \<open>
  \<open>keeps I m\<close>: the call \<open>m\<close> leaves a state that satisfies \<open>I\<close> in one that does, whether it
  returns or raises. The rules follow the program text.
\<close>

definition keeps :: "('s \<Rightarrow> bool) \<Rightarrow> ('s, 'a) st \<Rightarrow> bool" where
  "keeps I m \<longleftrightarrow> (\<forall>s. I s \<longrightarrow> I (snd (m s)))"

lemma keeps_run: "keeps I m \<Longrightarrow> I s \<Longrightarrow> I (snd (m s))"
  by (simp add: keeps_def)

lemma keeps_base [intro]:
  "keeps I (sret x)" "keeps I (sthrow e)" "keeps I (slift r)" "keeps I sget" "keeps I (sguard b e)"
  "(\<And>s. I s \<Longrightarrow> I (f s)) \<Longrightarrow> keeps I (smod f)"
  by (simp_all add: keeps_def st_run)

lemma keeps_bind: "keeps I m \<Longrightarrow> (\<And>x. keeps I (f x)) \<Longrightarrow> keeps I (sbind m f)"
  by (auto simp: keeps_def sbind_def split: prod.splits sum.splits)

lemma keeps_bind_lift: "(\<And>x. r = Inr x \<Longrightarrow> keeps I (f x)) \<Longrightarrow> keeps I (sbind (slift r) f)"
  by (auto simp: keeps_def sbind_run st_run split: sum.splits)

lemma keeps_if: "(b \<Longrightarrow> keeps I m) \<Longrightarrow> (\<not> b \<Longrightarrow> keeps I n) \<Longrightarrow> keeps I (if b then m else n)"
  by simp

section \<open>Dictionaries\<close>

type_synonym ('k, 'v) dict = "('k \<times> 'v) list"

abbreviation dget :: "('k, 'v) dict \<Rightarrow> 'k \<Rightarrow> 'v option" where
  "dget d k \<equiv> map_of d k"

abbreviation dset :: "'k \<Rightarrow> 'v \<Rightarrow> ('k, 'v) dict \<Rightarrow> ('k, 'v) dict" where
  "dset k v d \<equiv> AList.update k v d"

abbreviation dpop :: "'k \<Rightarrow> ('k, 'v) dict \<Rightarrow> ('k, 'v) dict" where
  "dpop k d \<equiv> AList.delete k d"

definition wf_dict :: "('k, 'v) dict \<Rightarrow> bool" where
  "wf_dict d = distinct (map fst d)"

lemma dget_dset [simp, dict_simps]: "dget (dset k v d) k' = (if k = k' then Some v else dget d k')"
  by (simp add: update_conv')

lemma dget_dpop [simp, dict_simps]: "dget (dpop k d) k' = (if k = k' then None else dget d k')"
  by (simp add: delete_conv')

lemma wf_dict_dset [simp, intro]: "wf_dict d \<Longrightarrow> wf_dict (dset k v d)"
  by (simp add: wf_dict_def distinct_update)

lemma wf_dict_dpop [simp, intro]: "wf_dict d \<Longrightarrow> wf_dict (dpop k d)"
  by (simp add: wf_dict_def distinct_delete)

lemma keys_dset: "fst ` set (dset k v d) = insert k (fst ` set d)"
  by (simp add: dom_update)

lemma dset_fst_mem: "k \<in> fst ` set d \<Longrightarrow> map fst (dset k v d) = map fst d"
  by (induction d) auto

lemma dset_fresh: "k \<notin> fst ` set d \<Longrightarrow> dset k v d = d @ [(k, v)]"
  by (induction d) auto

lemma dget_in: "dget d k = Some v \<Longrightarrow> (k, v) \<in> set d"
  by (rule map_of_SomeD)

lemma dget_key: "k \<in> fst ` set d \<longleftrightarrow> (\<exists>v. dget d k = Some v)"
  by (metis (no_types, opaque_lifting) domD domI dom_map_of_conv_image_fst)

text \<open>
  Sums over the values of a dictionary: replacing or removing one value changes the sum by
  that value. \<open>dsum\<close> is the exact sum of a measure of the values.
\<close>

definition dsum :: "('v \<Rightarrow> rat) \<Rightarrow> ('k, 'v) dict \<Rightarrow> rat" where
  "dsum f d = sum_list (map (f \<circ> snd) d)"

lemma dsum_simps [simp]: "dsum f [] = 0" "dsum f (p # d) = f (snd p) + dsum f d"
  by (simp_all add: dsum_def)

lemma dsum_dset: "wf_dict d \<Longrightarrow>
  dsum f (dset k v d) = dsum f d + f v - (case dget d k of None \<Rightarrow> 0 | Some w \<Rightarrow> f w)"
proof (induction d)
  case Nil
  then show ?case by simp
next
  case (Cons p d)
  then have "wf_dict d" and "fst p \<notin> fst ` set d"
    by (auto simp: wf_dict_def)
  with Cons.IH show ?case
    by (auto split: option.splits)
qed

lemma dsum_dpop: "wf_dict d \<Longrightarrow>
  dsum f (dpop k d) = dsum f d - (case dget d k of None \<Rightarrow> 0 | Some w \<Rightarrow> f w)"
proof (induction d)
  case Nil
  then show ?case by simp
next
  case (Cons p d)
  then have wf: "wf_dict d" and "fst p \<notin> fst ` set d"
    by (auto simp: wf_dict_def)
  then have "dget d (fst p) = None" by (simp add: map_of_eq_None_iff)
  with Cons.IH wf show ?case
    by (cases p) (auto split: option.splits)
qed

lemma dsum_nonneg: "(\<And>p. p \<in> set d \<Longrightarrow> 0 \<le> f (snd p)) \<Longrightarrow> 0 \<le> dsum f d"
  by (induction d) (auto intro!: add_nonneg_nonneg)

lemma dsum_cong: "(\<And>p. p \<in> set d \<Longrightarrow> f (snd p) = g (snd p)) \<Longrightarrow> dsum f d = dsum g d"
  by (induction d) auto

lemma dsum_diff: "dsum (\<lambda>v. f v - g v) d = dsum f d - dsum g d"
  by (induction d) auto

end
