(* ===== verification/Py_Decimal.thy ===== *)
theory Py_Decimal
  imports Py_Prelude
begin

text \<open>
  Python's \<open>decimal.Decimal\<close> under the default context: 28 significant digits,
  \<open>ROUND_HALF_EVEN\<close>, traps for \<open>InvalidOperation\<close> and \<open>DivisionByZero\<close>. The program never
  changes the context, so every arithmetic operation is the exact rational result rounded to
  28 significant digits (\<open>dfix\<close>), comparisons and \<open>min\<close>/\<open>max\<close> are exact, and
  \<open>quantize\<close> rounds to a fixed number of decimals and raises when the result would need more
  than 28 digits. A decimal is modelled by its value; the trailing zeros that only \<open>str\<close> shows,
  the sign of zero, infinities and NaN, and the exponent range (beyond 10 to the 999999) are
  outside the model.

  Lemmas: rounding is monotone, odd, idempotent, preserves signs, is exact on values that fit
  in 28 digits, and \<open>quantize\<close> moves a value by at most half a unit.
\<close>

named_theorems dec_simps "unfolding of decimal operations"

section \<open>Round half even\<close>

definition rhe :: "rat \<Rightarrow> int" where
  "rhe x = (let f = \<lfloor>x\<rfloor>; r = x - of_int f in
     if r < 1/2 then f else if 1/2 < r then f + 1 else if even f then f else f + 1)"

lemma rhe_of_int [simp]: "rhe (of_int i) = i"
  by (simp add: rhe_def)

lemma rhe_0 [simp]: "rhe 0 = 0"
  using rhe_of_int [of 0] by (simp del: rhe_of_int)

lemma rhe_error: "\<bar>of_int (rhe x) - x\<bar> \<le> 1/2"
proof -
  have "of_int \<lfloor>x\<rfloor> \<le> x" "x < of_int \<lfloor>x\<rfloor> + 1" by linarith+
  then show ?thesis by (auto simp: rhe_def Let_def abs_le_iff)
qed

lemma rhe_mono: assumes "x \<le> y" shows "rhe x \<le> rhe y"
proof -
  consider "\<lfloor>x\<rfloor> = \<lfloor>y\<rfloor>" | "\<lfloor>x\<rfloor> + 1 \<le> \<lfloor>y\<rfloor>"
    using floor_mono [OF assms] by linarith
  then show ?thesis
  proof cases
    case 1
    with assms show ?thesis by (auto simp: rhe_def Let_def)
  next
    case 2
    then show ?thesis by (auto simp: rhe_def Let_def)
  qed
qed

lemma rhe_minus: "rhe (- x) = - rhe x"
proof (cases "x = of_int \<lfloor>x\<rfloor>")
  case True
  then have "- x = of_int (- \<lfloor>x\<rfloor>)" by simp
  with True show ?thesis by (metis rhe_of_int)
next
  case False
  have le: "of_int \<lfloor>x\<rfloor> \<le> x" "x < of_int \<lfloor>x\<rfloor> + 1" by linarith+
  have "of_int \<lfloor>x\<rfloor> < x" using False le(1) by linarith
  then have "\<lfloor>- x\<rfloor> = - \<lfloor>x\<rfloor> - 1"
    using le by (intro floor_unique) auto
  with le show ?thesis by (auto simp: rhe_def Let_def)
qed

lemma rhe_ge: "of_int i \<le> x \<Longrightarrow> i \<le> rhe x"
  using rhe_mono [of "of_int i" x] by simp

lemma rhe_le: "x \<le> of_int i \<Longrightarrow> rhe x \<le> i"
  using rhe_mono [of x "of_int i"] by simp

lemma rhe_nonneg: "0 \<le> x \<Longrightarrow> 0 \<le> rhe x"
  using rhe_ge [of 0 x] by simp

section \<open>The decimal exponent of a value\<close>

fun ndigits :: "int \<Rightarrow> int" where
  "ndigits n = (if n < 10 then 1 else 1 + ndigits (n div 10))"

declare ndigits.simps [simp del]

definition dexp :: "rat \<Rightarrow> int" where
  "dexp x = (let (n, d) = quotient_of \<bar>x\<bar>; e = ndigits n - ndigits d in
     if 10 powi e \<le> \<bar>x\<bar> then e else e - 1)"

definition dfix :: "rat \<Rightarrow> rat" where
  "dfix x = (if x = 0 then 0 else
     (let s = 10 powi (dexp x - 27) in of_int (rhe (x / s)) * s))"

lemma p10_pos [simp]: "0 < (10::rat) powi i"
  by (simp add: zero_less_power_int)

lemma p10_mono: "i \<le> j \<Longrightarrow> (10::rat) powi i \<le> 10 powi j"
  by (rule power_int_increasing) auto

lemma p10_mono_iff [simp]: "(10::rat) powi i \<le> 10 powi j \<longleftrightarrow> i \<le> j"
proof
  assume le: "(10::rat) powi i \<le> 10 powi j"
  show "i \<le> j"
  proof (rule ccontr)
    assume "\<not> i \<le> j"
    then have "(10::rat) powi j < 10 powi i" by (intro power_int_strict_increasing) auto
    with le show False by simp
  qed
qed (rule p10_mono)

lemma p10_less_iff [simp]: "(10::rat) powi i < 10 powi j \<longleftrightarrow> i < j"
  using p10_mono_iff [of j i] by linarith

lemma p10_add: "(10::rat) powi (i + j) = 10 powi i * 10 powi j"
  by (simp add: power_int_add)

lemma p10_diff: "(10::rat) powi (i - j) = 10 powi i / 10 powi j"
  by (simp add: power_int_diff)

lemma p10_scale [simp]:
  "1000000000000000000000000000 * (10::rat) powi (e - 27) = 10 powi e"
  "10000000000000000000000000000 * (10::rat) powi (e - 27) = 10 powi (e + 1)"
  by (simp_all add: p10_diff p10_add)

lemma ndigits_pos: "1 \<le> ndigits n"
  by (induction n rule: ndigits.induct) (subst ndigits.simps, auto)

lemma ndigits_bounds: "0 < n \<Longrightarrow> (10::rat) powi (ndigits n - 1) \<le> of_int n \<and> of_int n < (10::rat) powi ndigits n"
proof (induction n rule: ndigits.induct)
  case (1 n)
  show ?case
  proof (cases "n < 10")
    case True
    with "1.prems" show ?thesis by (subst (1 2) ndigits.simps) auto
  next
    case False
    let ?m = "n div 10"
    let ?D = "ndigits ?m"
    have nd: "ndigits n = 1 + ?D" using False by (subst ndigits.simps) simp
    have "0 < ?m" using False by linarith
    with "1.IH" [OF False] have IH: "(10::rat) powi (?D - 1) \<le> of_int ?m" "of_int ?m < (10::rat) powi ?D"
      by auto
    have pD: "(10::rat) powi ?D = of_int (10 ^ nat ?D)"
      using ndigits_pos [of ?m] by (simp add: power_int_def)
    have "(10::rat) powi ?D \<le> of_int (10 * ?m)"
      using IH(1) p10_diff [of ?D 1] by simp
    also have "10 * ?m \<le> n" by simp
    finally have lo: "(10::rat) powi ?D \<le> of_int n" by simp
    have "?m < 10 ^ nat ?D" using IH(2) pD by (metis of_int_less_iff)
    then have "n < 10 * 10 ^ nat ?D" by linarith
    then have "rat_of_int n < of_int (10 * 10 ^ nat ?D)" by (rule iffD2 [OF of_int_less_iff])
    then have hi: "of_int n < (10::rat) powi (1 + ?D)" using pD p10_add [of 1 ?D] by simp
    from lo hi nd show ?thesis by simp
  qed
qed

lemma dexp_bounds:
  assumes "x \<noteq> 0"
  shows "10 powi dexp x \<le> \<bar>x\<bar>" and "\<bar>x\<bar> < 10 powi (dexp x + 1)"
proof -
  obtain n d where q: "quotient_of \<bar>x\<bar> = (n, d)" by fastforce
  have d: "0 < d" using quotient_of_denom_pos q by blast
  have x: "\<bar>x\<bar> = of_int n / of_int d" using quotient_of_div [OF q] .
  have "0 < \<bar>x\<bar>" using assms by simp
  then have n: "0 < n" using d unfolding x by (simp add: zero_less_divide_iff)
  let ?e = "ndigits n - ndigits d"
  note bn = ndigits_bounds [OF n] and bd = ndigits_bounds [OF d]
  have dpos: "(0::rat) < of_int d" using d by simp
  have up: "\<bar>x\<bar> < 10 powi (?e + 1)"
  proof -
    have "10 powi (?e + 1) * (of_int d :: rat) \<ge> 10 powi (?e + 1) * 10 powi (ndigits d - 1)"
      using bd by (intro mult_left_mono) auto
    also have "10 powi (?e + 1) * (10::rat) powi (ndigits d - 1) = 10 powi (ndigits n)"
      by (simp flip: p10_add)
    finally have "(10::rat) powi (ndigits n) \<le> 10 powi (?e + 1) * of_int d" .
    with bn have "of_int n < (10::rat) powi (?e + 1) * of_int d" by linarith
    then show ?thesis unfolding x using dpos by (subst pos_divide_less_eq)
  qed
  have lo: "10 powi (?e - 1) \<le> \<bar>x\<bar>"
  proof -
    have "10 powi (?e - 1) * (of_int d :: rat) \<le> 10 powi (?e - 1) * 10 powi (ndigits d)"
      using bd by (intro mult_left_mono) auto
    also have "10 powi (?e - 1) * (10::rat) powi (ndigits d) = 10 powi (ndigits n - 1)"
      by (simp flip: p10_add)
    finally have "10 powi (?e - 1) * of_int d \<le> (of_int n :: rat)" using bn by linarith
    then show ?thesis unfolding x using dpos by (subst pos_le_divide_eq)
  qed
  show "10 powi dexp x \<le> \<bar>x\<bar>" using lo by (simp add: dexp_def q Let_def)
  show "\<bar>x\<bar> < 10 powi (dexp x + 1)" using up by (auto simp add: dexp_def q Let_def)
qed

lemma dexp_unique:
  assumes "10 powi e \<le> \<bar>x\<bar>" "\<bar>x\<bar> < 10 powi (e + 1)" "x \<noteq> 0"
  shows "dexp x = e"
proof -
  note b = dexp_bounds [OF assms(3)]
  have "(10::rat) powi e < 10 powi (dexp x + 1)" using assms(1) b(2) by linarith
  moreover have "(10::rat) powi dexp x < 10 powi (e + 1)" using assms(2) b(1) by linarith
  ultimately show ?thesis by simp
qed

lemma dexp_minus [simp]: "dexp (- x) = dexp x"
  by (simp add: dexp_def)

lemma dexp_mono: "x \<noteq> 0 \<Longrightarrow> \<bar>x\<bar> \<le> \<bar>y\<bar> \<Longrightarrow> dexp x \<le> dexp y"
proof -
  assume x: "x \<noteq> 0" and le: "\<bar>x\<bar> \<le> \<bar>y\<bar>"
  then have y: "y \<noteq> 0" by auto
  have "(10::rat) powi dexp x < 10 powi (dexp y + 1)"
    using dexp_bounds(1) [OF x] dexp_bounds(2) [OF y] le by linarith
  then show ?thesis by simp
qed

section \<open>Context rounding\<close>

lemma dfix_0 [simp]: "dfix 0 = 0"
  by (simp add: dfix_def)

lemma dfix_minus: "dfix (- x) = - dfix x"
  by (simp add: dfix_def Let_def rhe_minus flip: minus_divide_left)

text \<open>A non-zero value rounds to a coefficient of 28 digits times its scale.\<close>

lemma dfix_form:
  assumes "x \<noteq> 0"
  obtains c s where "s = 10 powi (dexp x - 27)" "c = rhe (x / s)" "dfix x = of_int c * s"
  using assms by (simp add: dfix_def Let_def)

lemma dfix_scale_bounds:
  assumes "0 < x"
  shows "10 powi 27 \<le> x / 10 powi (dexp x - 27)" and "x / 10 powi (dexp x - 27) < 10 powi 28"
proof -
  have x: "x \<noteq> 0" "\<bar>x\<bar> = x" using assms by auto
  have "(10::rat) powi 27 * 10 powi (dexp x - 27) = 10 powi dexp x"
    "(10::rat) powi 28 * 10 powi (dexp x - 27) = 10 powi (dexp x + 1)"
    by simp_all
  with dexp_bounds [OF x(1)] x(2)
  show "10 powi 27 \<le> x / 10 powi (dexp x - 27)" "x / 10 powi (dexp x - 27) < 10 powi 28"
    by (simp_all add: field_simps)
qed

lemma dfix_between:
  assumes "0 < x"
  shows "10 powi dexp x \<le> dfix x" and "dfix x \<le> 10 powi (dexp x + 1)"
proof -
  let ?s = "(10::rat) powi (dexp x - 27)"
  obtain c where c: "c = rhe (x / ?s)" "dfix x = of_int c * ?s"
    using dfix_form [of x] assms by (metis less_irrefl)
  have "10 ^ 27 \<le> c" unfolding c(1)
    using dfix_scale_bounds(1) [OF assms] by (intro rhe_ge) simp
  then have "rat_of_int (10 ^ 27) \<le> of_int c" by (rule iffD2 [OF of_int_le_iff])
  then have "(10::rat) powi 27 * ?s \<le> dfix x" unfolding c(2)
    by (intro mult_right_mono) (auto intro: less_imp_le)
  then show "10 powi dexp x \<le> dfix x" by simp
  have "c \<le> 10 ^ 28" unfolding c(1)
    using dfix_scale_bounds(2) [OF assms] by (intro rhe_le) simp
  then have "of_int c \<le> rat_of_int (10 ^ 28)" by (rule iffD2 [OF of_int_le_iff])
  then have "dfix x \<le> (10::rat) powi 28 * ?s" unfolding c(2)
    by (intro mult_right_mono) (auto intro: less_imp_le)
  then show "dfix x \<le> 10 powi (dexp x + 1)" by simp
qed

lemma dfix_pos: "0 < x \<Longrightarrow> 0 < dfix x"
  using dfix_between(1) [of x] by (rule less_le_trans [OF p10_pos])

lemma dfix_neg: "x < 0 \<Longrightarrow> dfix x < 0"
  using dfix_pos [of "- x"] by (simp add: dfix_minus)

lemma dfix_sign [simp]:
  "0 < dfix x \<longleftrightarrow> 0 < x" "dfix x < 0 \<longleftrightarrow> x < 0" "dfix x = 0 \<longleftrightarrow> x = 0"
  "0 \<le> dfix x \<longleftrightarrow> 0 \<le> x" "dfix x \<le> 0 \<longleftrightarrow> x \<le> 0"
  using dfix_pos [of x] dfix_neg [of x] by (cases x "0::rat" rule: linorder_cases; force)+

lemma dfix_mono_pos:
  assumes "0 < x" "x \<le> y"
  shows "dfix x \<le> dfix y"
proof (cases "dexp x = dexp y")
  case True
  have "x / 10 powi (dexp y - 27) \<le> y / 10 powi (dexp y - 27)"
    using assms by (intro divide_right_mono) (auto intro: less_imp_le)
  then have "rhe (x / 10 powi (dexp y - 27)) \<le> rhe (y / 10 powi (dexp y - 27))"
    by (rule rhe_mono)
  then show ?thesis using assms True
    by (auto simp: dfix_def Let_def intro!: mult_right_mono less_imp_le)
next
  case False
  with dexp_mono [of x y] assms have "dexp x + 1 \<le> dexp y" by auto
  then have "(10::rat) powi (dexp x + 1) \<le> 10 powi dexp y" by (rule p10_mono)
  with dfix_between(2) [of x] dfix_between(1) [of y] assms show ?thesis by linarith
qed

lemma dfix_mono:
  assumes "x \<le> y" shows "dfix x \<le> dfix y"
proof -
  consider "0 < x" | "x \<le> 0" "0 \<le> y" | "y < 0" by linarith
  then show ?thesis
  proof cases
    case 1 then show ?thesis using assms by (rule dfix_mono_pos)
  next
    case 2
    then have "dfix x \<le> 0" "0 \<le> dfix y" by simp_all
    then show ?thesis by linarith
  next
    case 3 then show ?thesis using dfix_mono_pos [of "- y" "- x"] assms by (simp add: dfix_minus)
  qed
qed

text \<open>
  A value is representable when it is an integer of at most 28 digits (or exactly ten to the
  28) times a power of ten; rounding leaves such values alone, and its result is one.
\<close>

definition representable :: "rat \<Rightarrow> bool" where
  "representable x \<longleftrightarrow> (\<exists>c k. x = of_int c * 10 powi k \<and> \<bar>c\<bar> \<le> 10 ^ 28)"

lemma representableI: "x = of_int c * 10 powi k \<Longrightarrow> \<bar>c\<bar> \<le> 10 ^ 28 \<Longrightarrow> representable x"
  unfolding representable_def by blast

lemma dfix_exact_pos:
  assumes x: "x = of_int c * 10 powi k" and c: "0 < c" "c \<le> 10 ^ 28"
  shows "dfix x = x"
proof (cases "c = 10 ^ 28")
  case True
  have x': "x = 10 powi (k + 28)" using x True by (simp add: p10_add)
  then have e: "dexp x = k + 28" by (intro dexp_unique) (auto simp: p10_add)
  have "x / 10 powi (dexp x - 27) = of_int (10 ^ 27)"
    unfolding e unfolding x' by (simp add: p10_add)
  then have "rhe (x / 10 powi (dexp x - 27)) = 10 ^ 27" by (simp only: rhe_of_int)
  then have "dfix x = 10 ^ 27 * 10 powi (k + 28 - 27)"
    using x' e by (simp add: dfix_def Let_def)
  then show ?thesis using x' by (simp add: p10_add)
next
  case False
  with c(2) have "c < 10 ^ 28" by simp
  then have "rat_of_int c < of_int (10 ^ 28)" by (rule iffD2 [OF of_int_less_iff])
  then have "x < 10 powi (28 + k)" unfolding x p10_add by (intro mult_strict_right_mono) auto
  moreover have pos: "0 < x" using x c(1) by simp
  moreover from pos have "10 powi dexp x \<le> x" using dexp_bounds(1) [of x] by simp
  ultimately have "(10::rat) powi dexp x < 10 powi (28 + k)" by linarith
  then have "dexp x < 28 + k" by (simp only: p10_less_iff)
  then have kd: "0 \<le> k - (dexp x - 27)" by simp
  have "x / 10 powi (dexp x - 27) = of_int c * 10 powi (k - (dexp x - 27))"
    unfolding x p10_diff [of k] by simp
  also have "\<dots> = of_int (c * 10 ^ nat (k - (dexp x - 27)))"
    using kd by (simp add: power_int_def)
  finally have e: "x / 10 powi (dexp x - 27) = of_int (c * 10 ^ nat (k - (dexp x - 27)))" .
  then have "of_int (rhe (x / 10 powi (dexp x - 27))) = x / 10 powi (dexp x - 27)"
    by (simp only: rhe_of_int)
  then show ?thesis using pos by (simp add: dfix_def Let_def)
qed

lemma dfix_exact [simp]: "representable x \<Longrightarrow> dfix x = x"
proof -
  assume "representable x"
  then obtain c k where x: "x = of_int c * 10 powi k" "\<bar>c\<bar> \<le> 10 ^ 28"
    unfolding representable_def by blast
  consider "c = 0" | "0 < c" | "c < 0" by linarith
  then show ?thesis
  proof cases
    case 1 then show ?thesis using x by simp
  next
    case 2 then show ?thesis using x dfix_exact_pos by auto
  next
    case 3
    then have "dfix (- x) = - x" using x by (intro dfix_exact_pos [of _ "- c" k]) auto
    then show ?thesis by (simp add: dfix_minus)
  qed
qed

lemma representable_minus [simp]: "representable (- x) = representable x"
proof -
  have "representable x \<Longrightarrow> representable (- x)" for x
    unfolding representable_def by (metis abs_minus_cancel minus_mult_left of_int_minus)
  from this [of x] this [of "- x"] show ?thesis by auto
qed

lemma representable_dfix [simp]: "representable (dfix x)"
proof -
  have pos: "representable (dfix x)" if x: "0 < x" for x
  proof -
    obtain c s where c: "s = 10 powi (dexp x - 27)" "c = rhe (x / s)" "dfix x = of_int c * s"
      using dfix_form [of x] x by auto
    have "0 \<le> c" unfolding c(2) c(1) using x by (intro rhe_nonneg) (simp add: less_imp_le)
    moreover have "c \<le> 10 ^ 28" unfolding c(2) c(1)
      using dfix_scale_bounds(2) [OF x] by (intro rhe_le) simp
    ultimately show ?thesis using c by (intro representableI [of _ c "dexp x - 27"]) auto
  qed
  consider "0 < x" | "x = 0" | "0 < - x" by linarith
  then show ?thesis
  proof cases
    case 2 then show ?thesis by (auto intro!: representableI [of _ 0 0])
  next
    case 3 then show ?thesis using pos [of "- x"] by (simp add: dfix_minus)
  qed (rule pos)
qed

lemma dfix_idem [simp]: "dfix (dfix x) = dfix x"
  by simp

lemma dfix_error: "\<bar>dfix x - x\<bar> \<le> \<bar>x\<bar> / (2 * 10 ^ 27)"
proof (cases "x = 0")
  case False
  let ?s = "(10::rat) powi (dexp x - 27)"
  have "dfix x - x = (of_int (rhe (x / ?s)) - x / ?s) * ?s"
    using False by (simp add: dfix_def Let_def left_diff_distrib)
  then have "\<bar>dfix x - x\<bar> = \<bar>of_int (rhe (x / ?s)) - x / ?s\<bar> * ?s"
    by (simp add: abs_mult less_imp_le)
  also have "\<dots> \<le> 1 / 2 * ?s"
    by (intro mult_right_mono rhe_error) (simp add: less_imp_le)
  also have "1 / 2 * ?s = 10 powi dexp x / (2 * 10 ^ 27)" by (simp add: p10_diff)
  also have "\<dots> \<le> \<bar>x\<bar> / (2 * 10 ^ 27)"
    using dexp_bounds(1) [OF False] by (intro divide_right_mono) auto
  finally show ?thesis .
qed simp

section \<open>Rounding as an interface\<close>

text \<open>
  Context rounding and rounding to a fixed number of decimals are both monotone, odd
  retractions onto the values they leave alone. The client lemmas are proved once.
\<close>

locale rounding =
  fixes rnd :: "rat \<Rightarrow> rat" and exact :: "rat \<Rightarrow> bool"
  assumes rnd_mono: "x \<le> y \<Longrightarrow> rnd x \<le> rnd y"
    and rnd_exact: "exact x \<Longrightarrow> rnd x = x"
    and exact_rnd: "exact (rnd x)"
    and rnd_minus: "rnd (- x) = - rnd x"
begin

lemma rnd_zero: "rnd 0 = 0"
  using rnd_minus [of 0] by simp

lemma lower: "exact a \<Longrightarrow> a \<le> x \<Longrightarrow> a \<le> rnd x"
  using rnd_mono [of a x] by (simp add: rnd_exact)

lemma upper: "exact b \<Longrightarrow> x \<le> b \<Longrightarrow> rnd x \<le> b"
  using rnd_mono [of x b] by (simp add: rnd_exact)

lemma nonneg: "0 \<le> x \<Longrightarrow> 0 \<le> rnd x"
  using rnd_mono [of 0 x] by (simp add: rnd_zero)

lemma nonpos: "x \<le> 0 \<Longrightarrow> rnd x \<le> 0"
  using rnd_mono [of x 0] by (simp add: rnd_zero)

lemma pos_of_pos: "0 < rnd x \<Longrightarrow> 0 < x"
  using nonpos [of x] by linarith

lemma rnd_idem: "rnd (rnd x) = rnd x"
  by (intro rnd_exact exact_rnd)

lemma rnd_abs: "rnd \<bar>x\<bar> = \<bar>rnd x\<bar>"
  using nonneg [of x] nonpos [of x] by (cases "0 \<le> x") (auto simp: rnd_minus)

end

interpretation ctx: rounding dfix representable
  by unfold_locales (auto simp: dfix_mono dfix_minus)

section \<open>Rounding to a fixed number of decimals\<close>

definition qround :: "nat \<Rightarrow> rat \<Rightarrow> rat" where
  "qround k x = of_int (rhe (x * 10 ^ k)) / 10 ^ k"

definition on_grid :: "nat \<Rightarrow> rat \<Rightarrow> bool" where
  "on_grid k x \<longleftrightarrow> of_int \<lfloor>x * 10 ^ k\<rfloor> = x * 10 ^ k"

definition quantize :: "nat \<Rightarrow> rat \<Rightarrow> rat res" where
  "quantize k x =
     (if \<bar>rhe (x * 10 ^ k)\<bar> < 10 ^ 28 then ok (qround k x) else raise InvalidOperation)"

lemma on_gridI: "x * 10 ^ k = of_int c \<Longrightarrow> on_grid k x"
  by (simp add: on_grid_def)

lemma on_gridE:
  assumes "on_grid k x"
  obtains c where "x * 10 ^ k = of_int c" "x = of_int c / 10 ^ k" "\<bar>x\<bar> * 10 ^ k = of_int \<bar>c\<bar>"
proof -
  have c: "x * 10 ^ k = of_int \<lfloor>x * 10 ^ k\<rfloor>"
    using assms unfolding on_grid_def by (rule sym)
  then have "\<bar>x\<bar> * 10 ^ k = of_int \<bar>\<lfloor>x * 10 ^ k\<rfloor>\<bar>"
    by (metis abs_mult abs_numeral abs_of_nonneg of_int_abs power_abs)
  then show ?thesis using c by (intro that [of "\<lfloor>x * 10 ^ k\<rfloor>"]) (auto simp: field_simps)
qed

lemma on_grid_0 [simp, intro]: "on_grid k 0"
  by (simp add: on_grid_def)

lemma on_grid_add [intro]: "on_grid k x \<Longrightarrow> on_grid k y \<Longrightarrow> on_grid k (x + y)"
  by (elim on_gridE, rule on_gridI [of _ _ "_ + _"]) (simp add: distrib_right)

lemma on_grid_minus [simp]: "on_grid k (- x) = on_grid k x"
proof -
  have "on_grid k x \<Longrightarrow> on_grid k (- x)" for x
    by (elim on_gridE, rule on_gridI [of _ _ "- _"]) simp
  from this [of x] this [of "- x"] show ?thesis by auto
qed

lemma on_grid_diff [intro]: "on_grid k x \<Longrightarrow> on_grid k y \<Longrightarrow> on_grid k (x - y)"
  using on_grid_add [of k x "- y"] by simp

lemma on_grid_qround [simp, intro]: "on_grid k (qround k x)"
  by (rule on_gridI [of _ _ "rhe (x * 10 ^ k)"]) (simp add: qround_def)

lemma on_grid_max [intro]: "on_grid k x \<Longrightarrow> on_grid k y \<Longrightarrow> on_grid k (max x y)"
  by (simp add: max_def)

lemma qround_exact [simp]: "on_grid k x \<Longrightarrow> qround k x = x"
  by (elim on_gridE) (simp add: qround_def)

lemma qround_mono: "x \<le> y \<Longrightarrow> qround k x \<le> qround k y"
  by (simp add: qround_def divide_right_mono rhe_mono mult_right_mono)

lemma qround_minus: "qround k (- x) = - qround k x"
  by (simp add: qround_def rhe_minus)

interpretation grid: rounding "qround k" "on_grid k" for k
  by unfold_locales (auto simp: qround_mono qround_minus)

lemma qround_error: "\<bar>qround k x - x\<bar> \<le> 1 / (2 * 10 ^ k)"
proof -
  have "qround k x - x = (of_int (rhe (x * 10 ^ k)) - x * 10 ^ k) / 10 ^ k"
    by (simp add: qround_def diff_divide_distrib)
  then have "\<bar>qround k x - x\<bar> = \<bar>of_int (rhe (x * 10 ^ k)) - x * 10 ^ k\<bar> / 10 ^ k"
    by (simp add: abs_divide)
  also have "\<dots> \<le> 1 / 2 / 10 ^ k" by (intro divide_right_mono rhe_error) simp
  finally show ?thesis by simp
qed

lemma on_grid_step: "on_grid k x \<Longrightarrow> on_grid k y \<Longrightarrow> x < y \<Longrightarrow> x + 1 / 10 ^ k \<le> y"
proof (elim on_gridE)
  fix c d assume c: "x = of_int c / 10 ^ k" and d: "y = of_int d / 10 ^ k" and lt: "x < y"
  then have "c + 1 \<le> d" by (simp add: divide_less_cancel)
  then have "rat_of_int (c + 1) \<le> of_int d" by (rule iffD2 [OF of_int_le_iff])
  then have "(rat_of_int c + 1) / 10 ^ k \<le> of_int d / 10 ^ k"
    by (intro divide_right_mono) simp_all
  then show ?thesis unfolding c d by (simp add: add_divide_distrib)
qed

lemma quantize_Inr_iff:
  "quantize k x = Inr q \<longleftrightarrow> q = qround k x \<and> \<bar>q\<bar> * 10 ^ k < 10 ^ 28"
proof -
  have "(\<bar>rhe (x * 10 ^ k)\<bar> < 10 ^ 28) = (rat_of_int \<bar>rhe (x * 10 ^ k)\<bar> < of_int (10 ^ 28))"
    by (rule of_int_less_iff [symmetric])
  also have "rat_of_int \<bar>rhe (x * 10 ^ k)\<bar> = \<bar>qround k x\<bar> * 10 ^ k"
    by (simp add: qround_def abs_divide)
  finally show ?thesis by (auto simp: quantize_def)
qed

lemma quantizeD:
  assumes "quantize k x = Inr q"
  shows "q = qround k x" "on_grid k q" "\<bar>q\<bar> * 10 ^ k < 10 ^ 28" "representable q"
proof -
  show q: "q = qround k x" and b: "\<bar>q\<bar> * 10 ^ k < 10 ^ 28"
    using assms unfolding quantize_Inr_iff by blast+
  show "on_grid k q" using q by simp
  then obtain c where c: "\<bar>q\<bar> * 10 ^ k = of_int \<bar>c\<bar>" "q = of_int c / 10 ^ k" by (rule on_gridE)
  have "rat_of_int \<bar>c\<bar> < of_int (10 ^ 28)" using b c(1) by simp
  then have "\<bar>c\<bar> < 10 ^ 28" by (simp only: of_int_less_iff)
  with c(2) show "representable q"
    by (intro representableI [of _ c "- int k"]) (auto simp: power_int_minus divide_inverse)
qed

lemma quantize_exact: "on_grid k x \<Longrightarrow> \<bar>x\<bar> * 10 ^ k < 10 ^ 28 \<Longrightarrow> quantize k x = Inr x"
  by (simp add: quantize_Inr_iff)

lemma grid_representable:
  assumes "on_grid k x" "\<bar>x\<bar> * 10 ^ k \<le> 10 ^ 28"
  shows "representable x"
proof -
  obtain c where c: "\<bar>x\<bar> * 10 ^ k = of_int \<bar>c\<bar>" "x = of_int c / 10 ^ k"
    using assms(1) by (rule on_gridE)
  have "rat_of_int \<bar>c\<bar> \<le> of_int (10 ^ 28)" using assms(2) c(1) by simp
  then have "\<bar>c\<bar> \<le> 10 ^ 28" by (simp only: of_int_le_iff)
  with c(2) show ?thesis
    by (intro representableI [of _ c "- int k"]) (auto simp: power_int_minus divide_inverse)
qed

section \<open>The operations\<close>

definition dadd :: "rat \<Rightarrow> rat \<Rightarrow> rat" where "dadd x y = dfix (x + y)"
definition dsub :: "rat \<Rightarrow> rat \<Rightarrow> rat" where "dsub x y = dfix (x - y)"
definition dmul :: "rat \<Rightarrow> rat \<Rightarrow> rat" where "dmul x y = dfix (x * y)"
definition dneg :: "rat \<Rightarrow> rat" where "dneg x = dfix (- x)"
definition dabs :: "rat \<Rightarrow> rat" where "dabs x = dfix \<bar>x\<bar>"

text \<open>Division by a literal that is not zero, and division by a value that may be.\<close>

definition dquo :: "rat \<Rightarrow> rat \<Rightarrow> rat" where "dquo x y = dfix (x / y)"

definition ddiv :: "rat \<Rightarrow> rat \<Rightarrow> rat res" where
  "ddiv x y = (if y = 0 then (if x = 0 then raise InvalidOperation else raise DivisionByZero)
     else ok (dfix (x / y)))"

text \<open>\<open>sum(xs, Decimal(0))\<close>: a left fold of rounded additions.\<close>

definition dsum_list :: "rat list \<Rightarrow> rat" where
  "dsum_list xs = foldl dadd 0 xs"

lemmas dec_ops [dec_simps] = dadd_def dsub_def dmul_def dneg_def dabs_def dquo_def

lemma ddiv_nonzero [simp]: "y \<noteq> 0 \<Longrightarrow> ddiv x y = Inr (dfix (x / y))"
  by (simp add: ddiv_def)

text \<open>
  Money sums are exact while they stay below ten to the 25: a multiple of a cent below ten to
  the 26 fits in 28 digits.
\<close>

abbreviation cents :: "rat \<Rightarrow> bool" where "cents \<equiv> on_grid 2"

lemma cents_exact: "cents x \<Longrightarrow> \<bar>x\<bar> \<le> 10 ^ 26 \<Longrightarrow> dfix x = x"
  by (intro dfix_exact grid_representable [of 2]) auto

lemma quantize_nonneg: "quantize k x = Inr q \<Longrightarrow> 0 \<le> x \<Longrightarrow> 0 \<le> q"
  by (auto simp: quantize_Inr_iff grid.nonneg)

lemma quantize_cents_bound: "quantize 2 x = Inr q \<Longrightarrow> \<bar>q\<bar> < 10 ^ 26"
  using quantizeD(3) [of 2 x q] by simp

lemma dfix_less_p10: "\<bar>dfix z\<bar> < 10 ^ n \<Longrightarrow> \<bar>z\<bar> < 10 ^ n"
proof (rule ccontr)
  assume lt: "\<bar>dfix z\<bar> < 10 ^ n" and "\<not> \<bar>z\<bar> < 10 ^ n"
  moreover have "representable (10 ^ n)" by (rule representableI [of _ 1 "int n"]) simp_all
  ultimately have "10 ^ n \<le> dfix \<bar>z\<bar>" by (intro ctx.lower) auto
  with lt show False by (simp add: ctx.rnd_abs)
qed

lemma cents_round_exact: "cents z \<Longrightarrow> \<bar>dfix z\<bar> < 10 ^ 26 \<Longrightarrow> dfix z = z"
  using dfix_less_p10 [of z 26] by (intro cents_exact) auto

lemma dadd_exact: "cents x \<Longrightarrow> cents y \<Longrightarrow> \<bar>dadd x y\<bar> < 10 ^ 25 \<Longrightarrow> dadd x y = x + y"
  unfolding dadd_def by (intro cents_round_exact on_grid_add) simp_all

lemma dsub_exact: "cents x \<Longrightarrow> cents y \<Longrightarrow> \<bar>x\<bar> \<le> 5 * 10 ^ 25 \<Longrightarrow> \<bar>y\<bar> \<le> 5 * 10 ^ 25 \<Longrightarrow> dsub x y = x - y"
  unfolding dsub_def by (intro cents_exact on_grid_diff) auto

lemma dneg_cents: "cents x \<Longrightarrow> \<bar>x\<bar> \<le> 10 ^ 26 \<Longrightarrow> dneg x = - x"
  unfolding dneg_def by (intro cents_exact) auto

text \<open>
  A cap in money becomes units rounded half-even to eight decimals, so the notional of these
  units can exceed the cap, by at most half a quantity unit at the price and the relative error
  of the 28-digit quotient.
\<close>

definition with_slack :: "rat \<Rightarrow> rat \<Rightarrow> rat" where
  "with_slack price cap = cap + cap / (2 * 10 ^ 27) + price / (2 * 10 ^ 8)"

lemma quotient_slack:
  assumes "units \<le> qround 8 (dfix (h / price))" "0 < h" "0 < price"
  shows "units * price \<le> with_slack price h"
proof -
  have "qround 8 (dfix (h / price)) \<le> dfix (h / price) + 1 / (2 * 10 ^ 8)"
    using qround_error [of 8 "dfix (h / price)"] by linarith
  moreover have "dfix (h / price) \<le> h / price + h / price / (2 * 10 ^ 27)"
    using dfix_error [of "h / price"] assms(2,3) by (simp add: abs_le_iff)
  ultimately have "units \<le> h / price + h / price / (2 * 10 ^ 27) + 1 / (2 * 10 ^ 8)"
    using assms(1) by linarith
  then have "units * price \<le> (h / price + h / price / (2 * 10 ^ 27) + 1 / (2 * 10 ^ 8)) * price"
    using assms(3) by (intro mult_right_mono) simp_all
  also have "\<dots> = with_slack price h" using assms(3) by (simp add: with_slack_def field_simps)
  finally show ?thesis .
qed

section \<open>Evaluation on concrete values\<close>

text \<open>
  \<open>dec_eval\<close> lets the simplifier compute with literals: a value with at most twelve decimals
  and sixteen integer digits is its own context rounding, and floors of literal fractions are
  integer divisions.
\<close>

lemma floor_rat_frac:
  "\<lfloor>(numeral a / numeral b :: rat)\<rfloor> = numeral a div numeral b"
  "\<lfloor>(- (numeral a / numeral b) :: rat)\<rfloor> = (- numeral a) div numeral b"
  "\<lfloor>(1 / numeral b :: rat)\<rfloor> = 1 div numeral b"
  "\<lfloor>(- (1 / numeral b) :: rat)\<rfloor> = (- 1) div numeral b"
proof -
  have f: "\<lfloor>(of_int i / of_int j :: rat)\<rfloor> = i div j" for i j :: int
    by (rule floor_divide_of_int_eq)
  show "\<lfloor>(numeral a / numeral b :: rat)\<rfloor> = numeral a div numeral b"
    using f [of "numeral a" "numeral b"] by simp
  show "\<lfloor>(- (numeral a / numeral b) :: rat)\<rfloor> = (- numeral a) div numeral b"
    using f [of "- numeral a" "numeral b"] by simp
  show "\<lfloor>(1 / numeral b :: rat)\<rfloor> = 1 div numeral b"
    using f [of 1 "numeral b"] by simp
  show "\<lfloor>(- (1 / numeral b) :: rat)\<rfloor> = (- 1) div numeral b"
    using f [of "- 1" "numeral b"] by simp
qed

lemma dfix_grid: "on_grid 12 x \<Longrightarrow> \<bar>x\<bar> \<le> 10 ^ 16 \<Longrightarrow> dfix x = x"
  by (intro dfix_exact grid_representable [of 12]) simp_all

lemmas dec_eval =
  floor_rat_frac dfix_grid on_grid_def quantize_def qround_def rhe_def Let_def dec_ops

end
