(* ===== verification/Machine.thy ===== *)
theory Machine
  imports Py_Prelude
begin

text \<open>
  Runs of an object whose operations mutate it. \<open>run_ops exec fits ops s\<close> executes the
  operations in order; the run is defined only while every operation succeeds and every state
  satisfies \<open>fits\<close>. The locale \<open>machine\<close> is the contract a component offers its callers:
  an invariant that every successful operation keeps.
\<close>

fun run_ops :: "('op \<Rightarrow> ('s, 'a) st) \<Rightarrow> ('s \<Rightarrow> bool) \<Rightarrow> 'op list \<Rightarrow> 's \<Rightarrow> 's option" where
  "run_ops exec fits [] s = (if fits s then Some s else None)"
| "run_ops exec fits (p # ps) s =
     (if fits s then
        (case exec p s of (r, s') \<Rightarrow> if is_ok r then run_ops exec fits ps s' else None)
      else None)"

lemma run_ops_Cons:
  "run_ops exec fits (p # ps) s = Some t \<longleftrightarrow>
     fits s \<and> (\<exists>x s'. exec p s = (Inr x, s') \<and> run_ops exec fits ps s' = Some t)"
  by (cases "exec p s") (auto simp: is_ok_iff)

declare run_ops.simps(2) [simp del]

locale machine =
  fixes exec :: "'op \<Rightarrow> ('s, 'a) st"
    and fits :: "'s \<Rightarrow> bool"
    and good :: "'s \<Rightarrow> bool"
  assumes exec_inv: "good s \<Longrightarrow> fits s \<Longrightarrow> exec p s = (Inr x, s') \<Longrightarrow> fits s' \<Longrightarrow> good s'"
begin

lemma run_fits: "run_ops exec fits ps s = Some t \<Longrightarrow> fits s \<and> fits t"
proof (induction ps arbitrary: s)
  case Nil
  then show ?case by (auto split: if_split_asm)
next
  case (Cons p ps)
  then show ?case unfolding run_ops_Cons by blast
qed

lemma run_inv: "good s \<Longrightarrow> run_ops exec fits ps s = Some t \<Longrightarrow> good t"
proof (induction ps arbitrary: s)
  case Nil
  then show ?case by (auto split: if_split_asm)
next
  case (Cons p ps)
  from Cons.prems(2) obtain x s' where r: "fits s" and e: "exec p s = (Inr x, s')"
    and rest: "run_ops exec fits ps s' = Some t"
    unfolding run_ops_Cons by blast
  from run_fits [OF rest] have "fits s'" by simp
  with Cons.prems(1) r have "good s'" by (rule exec_inv [OF _ _ e])
  then show ?case using rest by (rule Cons.IH)
qed

end

text \<open>
  \<open>drive\<close> executes every operation and swallows the exceptions, as a caller that catches them
  and goes on does. A \<open>resilient\<close> machine keeps its invariant also when an operation fails.
\<close>

fun drive :: "('op \<Rightarrow> ('s, 'a) st) \<Rightarrow> 'op list \<Rightarrow> 's \<Rightarrow> 's" where
  "drive exec [] s = s"
| "drive exec (p # ps) s = drive exec ps (snd (exec p s))"

locale resilient = machine exec "\<lambda>_. True" good
  for exec :: "'op \<Rightarrow> ('s, 'a) st" and good :: "'s \<Rightarrow> bool" +
  assumes fail_inv: "good s \<Longrightarrow> exec p s = (Inl e, s') \<Longrightarrow> good s'"
begin

lemma step_inv: "good s \<Longrightarrow> good (snd (exec p s))"
proof (cases "exec p s")
  case (Pair r s')
  assume g: "good s"
  show ?thesis
  proof (cases r)
    case (Inl e)
    then show ?thesis using fail_inv [OF g, of p e s'] Pair by simp
  next
    case (Inr x)
    then show ?thesis using exec_inv [OF g _ _ TrueI, of p x s'] Pair by simp
  qed
qed

lemma drive_inv: "good s \<Longrightarrow> good (drive exec ps s)"
  by (induction ps arbitrary: s) (simp_all add: step_inv)

end

end
