(* ===== verification/Snapshot.thy ===== *)
theory Snapshot
  imports Py_Decimal
begin

text \<open>
  The frozen portfolio valuation of one tick (\<open>PortfolioSnapshot\<close> and \<open>build_snapshot\<close> of
  \<^verbatim>\<open>domain/backtest/execution/intents.py\<close>). The snapshot's identity is the SHA-256 of a
  rendering of its fields: the digest is a parameter \<open>H\<close> of the model, applied to the list of
  the rendered parts, and decimals enter it by their value, rounded to the context as
  \<open>normalize\<close> rounds them.
\<close>

type_synonym item_id = string

datatype ident_part = PText string | PInt int | PDec rat | PItem string rat rat

type_synonym digest = "ident_part list \<Rightarrow> string"

record portfolio_snapshot =
  sn_t_ms :: int
  sn_equity :: rat
  sn_reserve_nominal :: rat
  sn_allocatable :: rat
  sn_sleeve_capacity :: "(item_id, rat) dict"
  sn_deployed_notional :: "(item_id, rat) dict"
  sn_unallocated :: rat
  sn_item_ids :: "item_id list"
  sn_identity :: string

definition canonical_decimal :: "rat \<Rightarrow> ident_part" where
  "canonical_decimal x = PDec (dfix x)"

definition snapshot_identity_parts :: "portfolio_snapshot \<Rightarrow> ident_part list" where
  "snapshot_identity_parts s =
     [PText ''entropia.backtest.portfolio.snapshot'', PText ''item-intent-v1'', PInt (sn_t_ms s),
      canonical_decimal (sn_equity s), canonical_decimal (sn_reserve_nominal s),
      canonical_decimal (sn_allocatable s), canonical_decimal (sn_unallocated s)]
     @ map (\<lambda>i. PItem i (dfix (the (dget (sn_sleeve_capacity s) i)))
                         (dfix (the (dget (sn_deployed_notional s) i)))) (sn_item_ids s)"

text \<open>\<open>PortfolioSnapshot.__post_init__\<close>: both maps must name the same items.\<close>

definition snapshot_post_init :: "digest \<Rightarrow> portfolio_snapshot \<Rightarrow> portfolio_snapshot res" where
  "snapshot_post_init H s =
     (if fst ` set (sn_sleeve_capacity s) \<noteq> fst ` set (sn_deployed_notional s)
      then raise UnknownItemError
      else let s1 = s\<lparr>sn_item_ids := sort (map fst (sn_sleeve_capacity s))\<rparr>
           in ok (s1\<lparr>sn_identity := H (snapshot_identity_parts s1)\<rparr>))"

definition build_snapshot ::
  "digest \<Rightarrow> int \<Rightarrow> rat \<Rightarrow> rat \<Rightarrow> (item_id, rat) dict \<Rightarrow> (item_id, rat) dict \<Rightarrow> portfolio_snapshot res"
where
  "build_snapshot H t equity reserve sleeves deployed =
     (let allocatable = max 0 (dsub equity reserve) in
      snapshot_post_init H
        \<lparr>sn_t_ms = t, sn_equity = equity, sn_reserve_nominal = reserve,
         sn_allocatable = allocatable, sn_sleeve_capacity = sleeves,
         sn_deployed_notional = deployed,
         sn_unallocated = dsub allocatable (dsum_list (map snd sleeves)),
         sn_item_ids = [], sn_identity = []\<rparr>)"

definition remaining_sleeve_capacity :: "portfolio_snapshot \<Rightarrow> item_id \<Rightarrow> rat res" where
  "remaining_sleeve_capacity s i =
     (case dget (sn_sleeve_capacity s) i of
        None \<Rightarrow> raise UnknownItemError
      | Some c \<Rightarrow> (case dget (sn_deployed_notional s) i of
            None \<Rightarrow> raise KeyError
          | Some d \<Rightarrow> ok (max 0 (dsub c d))))"

lemma build_snapshot_fields:
  assumes "build_snapshot H t e r sl dp = Inr s"
  shows "sn_t_ms s = t" "sn_equity s = e" "sn_reserve_nominal s = r"
    "sn_sleeve_capacity s = sl" "sn_deployed_notional s = dp"
    "sn_allocatable s = max 0 (dsub e r)"
    "sn_unallocated s = dsub (max 0 (dsub e r)) (dsum_list (map snd sl))"
    "sn_identity s = H (snapshot_identity_parts s)"
    "sn_item_ids s = sort (map fst sl)"
    "fst ` set sl = fst ` set dp"
  using assms
  by (auto simp: build_snapshot_def snapshot_post_init_def Let_def snapshot_identity_parts_def
      split: if_splits)

lemma build_snapshot_ok:
  "fst ` set sl = fst ` set dp \<Longrightarrow> \<exists>s. build_snapshot H t e r sl dp = Inr s"
  by (simp add: build_snapshot_def snapshot_post_init_def Let_def)

lemma remaining_sleeve_capacity_nonneg:
  "remaining_sleeve_capacity s i = Inr c \<Longrightarrow> 0 \<le> c"
  by (auto simp: remaining_sleeve_capacity_def split: option.splits)

lemma remaining_sleeve_capacity_ok:
  assumes "build_snapshot H t e r sl dp = Inr s" "i \<in> fst ` set sl"
  shows "is_ok (remaining_sleeve_capacity s i)"
proof -
  obtain c where "dget sl i = Some c" using assms(2) by (auto simp: dget_key)
  moreover have "i \<in> fst ` set dp" using build_snapshot_fields(10) [OF assms(1)] assms(2) by simp
  then obtain d where "dget dp i = Some d" by (auto simp: dget_key)
  ultimately show ?thesis
    using build_snapshot_fields(4,5) [OF assms(1)] by (simp add: remaining_sleeve_capacity_def)
qed

end
