(* ===== verification/Portfolio_Ledger.thy ===== *)
theory Portfolio_Ledger
  imports Py_Decimal Machine Snapshot
begin

text \<open>
  The shared capital pool (\<^verbatim>\<open>domain/backtest/execution/portfolio_ledger.py\<close>): the sleeve plan,
  the held positions, and \<open>PortfolioLedger\<close>, the one object every participating item books
  against. A method is a state-passing call on the record \<open>ledger\<close>; a raise leaves the record
  as the Python object would be left. Dictionaries keep insertion order, because the order of a
  rounded sum is the order of \<open>dict.values()\<close>.
\<close>

section \<open>The sleeve plan\<close>

record sleeve_plan =
  sp_pool_initial :: rat
  sp_reserve_nominal :: rat
  sp_shares :: "(item_id, rat) dict"
  sp_compound :: bool
  sp_allocatable_initial :: rat
  sp_initial_sleeves :: "(item_id, rat) dict"
  sp_unallocated_initial :: rat

definition money :: "rat \<Rightarrow> rat res" where
  "money x = quantize 2 x"

definition sleeve_amounts :: "rat \<Rightarrow> (item_id, rat) dict \<Rightarrow> (item_id, rat) dict" where
  "sleeve_amounts allocatable shares = map (\<lambda>(i, s). (i, dquo (dmul allocatable s) 100)) shares"

definition sleeve_plan_post_init ::
  "rat \<Rightarrow> rat \<Rightarrow> (item_id, rat) dict \<Rightarrow> bool \<Rightarrow> sleeve_plan res" where
  "sleeve_plan_post_init pool reserve shares compound =
     (if pool \<le> 0 then raise InvalidCapitalPlanError
      else if reserve < 0 then raise InvalidCapitalPlanError
      else if (\<exists>p \<in> set shares. snd p < 0) then raise InvalidCapitalPlanError
      else if dsum_list (map snd shares) > 100 then raise InvalidCapitalPlanError
      else let allocatable = max 0 (dsub pool reserve);
               sleeves = sleeve_amounts allocatable shares in
        ok \<lparr>sp_pool_initial = pool, sp_reserve_nominal = reserve, sp_shares = shares,
            sp_compound = compound, sp_allocatable_initial = allocatable,
            sp_initial_sleeves = sleeves,
            sp_unallocated_initial = dsub allocatable (dsum_list (map snd sleeves))\<rparr>)"

definition plan_allocatable :: "sleeve_plan \<Rightarrow> rat \<Rightarrow> rat" where
  "plan_allocatable p equity = max 0 (dsub equity (sp_reserve_nominal p))"

definition plan_sleeve_capacity :: "sleeve_plan \<Rightarrow> rat \<Rightarrow> (item_id, rat) dict" where
  "plan_sleeve_capacity p equity =
     (if \<not> sp_compound p then sp_initial_sleeves p
      else sleeve_amounts (plan_allocatable p equity) (sp_shares p))"

definition build_sleeve_plan ::
  "rat \<Rightarrow> rat \<Rightarrow> (item_id, rat) dict \<Rightarrow> bool \<Rightarrow> sleeve_plan res" where
  "build_sleeve_plan pool_initial reserve_percent shares compound =
     rbind (money pool_initial) (\<lambda>p0.
       sleeve_plan_post_init p0 (dquo (dmul p0 (max reserve_percent 0)) 100) shares compound)"

section \<open>Positions, marks, decisions\<close>

record open_position =
  op_item_id :: item_id
  op_direction :: string
  op_size :: rat
  op_entry_price :: rat
  op_notional :: rat

definition open_position_post_init :: "item_id \<Rightarrow> string \<Rightarrow> rat \<Rightarrow> rat \<Rightarrow> open_position res" where
  "open_position_post_init i direction sz price =
     (if direction \<noteq> ''long'' \<and> direction \<noteq> ''short'' then raise PositionStateError
      else if sz \<le> 0 then raise PositionStateError
      else rbind (money (dmul price sz)) (\<lambda>n.
        ok \<lparr>op_item_id = i, op_direction = direction, op_size = sz, op_entry_price = price,
            op_notional = n\<rparr>))"

definition position_sign :: "open_position \<Rightarrow> rat" where
  "position_sign p = (if op_direction p = ''long'' then 1 else - 1)"

definition signed_notional :: "open_position \<Rightarrow> rat" where
  "signed_notional p = dmul (op_notional p) (position_sign p)"

definition unrealized :: "open_position \<Rightarrow> rat \<Rightarrow> rat res" where
  "unrealized p mark =
     money (dmul (dmul (dsub mark (op_entry_price p)) (op_size p)) (position_sign p))"

datatype price_authority = FreshBarClose | StaleLastClose | Unavailable

record mark_price =
  mk_price :: rat
  mk_authority :: price_authority
  mk_staleness_ms :: "int option"

definition is_stale_refused :: "mark_price \<Rightarrow> bool" where
  "is_stale_refused m =
     (if mk_authority m = Unavailable \<or> mk_price m \<le> 0 then False
      else case mk_staleness_ms m of None \<Rightarrow> False | Some s \<Rightarrow> s > 900000)"

definition is_usable :: "mark_price \<Rightarrow> bool" where
  "is_usable m =
     (if mk_authority m = Unavailable \<or> mk_price m \<le> 0 then False else \<not> is_stale_refused m)"

record equity_point =
  ep_seq :: nat
  ep_t_ms :: "int option"
  ep_equity :: rat
  ep_drawdown :: rat
  ep_gross_exposure_percent :: rat

record valuation_point =
  vp_t_ms :: int
  vp_equity :: rat
  vp_gross_exposure :: rat
  vp_net_exposure :: rat
  vp_gross_exposure_percent :: rat
  vp_unrealized_pnl :: "rat option"
  vp_marked_gross_exposure :: "rat option"
  vp_marked_net_exposure :: "rat option"
  vp_unmarked_items :: "item_id list"
  vp_stale_refused_items :: "item_id list"

datatype capacity_outcome = Admitted | Capped | Rejected

record capacity_decision =
  cd_item_id :: item_id
  cd_outcome :: capacity_outcome
  cd_requested_units :: rat
  cd_granted_units :: rat
  cd_requested_notional :: rat
  cd_granted_notional :: rat
  cd_binding_constraint :: "string option"
  cd_reason :: "string option"
  cd_limits :: "(string, rat) dict"

definition cd_is_admitted :: "capacity_decision \<Rightarrow> bool" where
  "cd_is_admitted d = (cd_outcome d \<noteq> Rejected)"

record item_attribution =
  at_realized_pnl :: rat
  at_fees :: rat
  at_funding :: rat
  at_other_costs :: rat

definition empty_attribution :: item_attribution where
  "empty_attribution = \<lparr>at_realized_pnl = 0, at_fees = 0, at_funding = 0, at_other_costs = 0\<rparr>"

definition net_contribution :: "item_attribution \<Rightarrow> rat" where
  "net_contribution a =
     dsub (dsub (dsub (at_realized_pnl a) (at_fees a)) (at_funding a)) (at_other_costs a)"

section \<open>The ledger\<close>

record ledger =
  lg_plan :: sleeve_plan
  lg_equity :: rat
  lg_peak :: rat
  lg_realized_pnl :: rat
  lg_fees :: rat
  lg_funding :: rat
  lg_other_costs :: rat
  lg_positions :: "(item_id, open_position) dict"
  lg_attribution :: "(item_id, item_attribution) dict"
  lg_equity_points :: "equity_point list"
  lg_last_point_equity :: rat
  lg_frozen_at :: "int option"

definition ledger_init :: "sleeve_plan \<Rightarrow> ledger" where
  "ledger_init p =
     \<lparr>lg_plan = p, lg_equity = sp_pool_initial p, lg_peak = sp_pool_initial p,
      lg_realized_pnl = 0, lg_fees = 0, lg_funding = 0, lg_other_costs = 0,
      lg_positions = [], lg_attribution = map (\<lambda>(i, s). (i, empty_attribution)) (sp_shares p),
      lg_equity_points = [\<lparr>ep_seq = 0, ep_t_ms = None, ep_equity = sp_pool_initial p,
                           ep_drawdown = 0, ep_gross_exposure_percent = 0\<rparr>],
      lg_last_point_equity = sp_pool_initial p, lg_frozen_at = None\<rparr>"

definition is_frozen :: "ledger \<Rightarrow> bool" where
  "is_frozen l = (lg_frozen_at l \<noteq> None)"

definition assert_writable :: "(ledger, unit) st" where
  "assert_writable = sbind sget (\<lambda>l. sguard (\<not> is_frozen l) LedgerFrozenError)"

definition attribution_item :: "item_id \<Rightarrow> (ledger, item_attribution) st" where
  "attribution_item i = sbind sget (\<lambda>l.
     case dget (lg_attribution l) i of None \<Rightarrow> sthrow UnknownLedgerItemError | Some a \<Rightarrow> sret a)"

definition set_attribution :: "item_id \<Rightarrow> (item_attribution \<Rightarrow> item_attribution) \<Rightarrow> ledger \<Rightarrow> ledger" where
  "set_attribution i f l =
     (case dget (lg_attribution l) i of None \<Rightarrow> l
      | Some a \<Rightarrow> l\<lparr>lg_attribution := dset i (f a) (lg_attribution l)\<rparr>)"

text \<open>\<open>_apply\<close>: the quantized sum becomes the equity; the delta actually applied is returned.\<close>

definition apply_delta :: "rat \<Rightarrow> (ledger, rat) st" where
  "apply_delta raw_delta = sbind sget (\<lambda>l.
     sbind (slift (money (dadd (lg_equity l) raw_delta))) (\<lambda>e.
     sbind (smod (\<lambda>m. m\<lparr>lg_equity := e, lg_peak := max (lg_peak m) e\<rparr>)) (\<lambda>_.
     sret (dsub e (lg_equity l)))))"

text \<open>
  \<open>book_trade\<close> applies the net figure before it looks the item up, so an unknown item raises
  after the equity has moved; the other bookings look the item up first.
\<close>

definition book_trade :: "item_id \<Rightarrow> rat \<Rightarrow> rat \<Rightarrow> (ledger, rat) st" where
  "book_trade i gross_pnl commission =
     sbind assert_writable (\<lambda>_.
     sbind (slift (money (dsub gross_pnl commission))) (\<lambda>net.
     sbind (apply_delta net) (\<lambda>applied.
     sbind (slift (money commission)) (\<lambda>fee_part.
     sbind (attribution_item i) (\<lambda>_.
     sbind (smod (set_attribution i (\<lambda>a. a\<lparr>at_realized_pnl := dadd (at_realized_pnl a) (dadd applied fee_part),
                                         at_fees := dadd (at_fees a) fee_part\<rparr>))) (\<lambda>_.
     sbind (smod (\<lambda>l. l\<lparr>lg_realized_pnl := dadd (lg_realized_pnl l) (dadd applied fee_part),
                        lg_fees := dadd (lg_fees l) fee_part\<rparr>)) (\<lambda>_.
     sret applied)))))))"

definition book_fee :: "item_id \<Rightarrow> rat \<Rightarrow> (ledger, rat) st" where
  "book_fee i amount =
     sbind assert_writable (\<lambda>_.
     sbind (attribution_item i) (\<lambda>_.
     sbind (apply_delta (dneg amount)) (\<lambda>applied.
     sbind (smod (set_attribution i (\<lambda>a. a\<lparr>at_fees := dadd (at_fees a) (dneg applied)\<rparr>))) (\<lambda>_.
     sbind (smod (\<lambda>l. l\<lparr>lg_fees := dadd (lg_fees l) (dneg applied)\<rparr>)) (\<lambda>_.
     sret applied)))))"

definition book_funding :: "item_id \<Rightarrow> rat \<Rightarrow> (ledger, rat) st" where
  "book_funding i amount =
     sbind assert_writable (\<lambda>_.
     sbind (attribution_item i) (\<lambda>_.
     sbind (apply_delta (dneg amount)) (\<lambda>applied.
     sbind (smod (set_attribution i (\<lambda>a. a\<lparr>at_funding := dadd (at_funding a) (dneg applied)\<rparr>))) (\<lambda>_.
     sbind (smod (\<lambda>l. l\<lparr>lg_funding := dadd (lg_funding l) (dneg applied)\<rparr>)) (\<lambda>_.
     sret applied)))))"

definition book_other_cost :: "item_id \<Rightarrow> rat \<Rightarrow> (ledger, rat) st" where
  "book_other_cost i amount =
     sbind assert_writable (\<lambda>_.
     sbind (attribution_item i) (\<lambda>_.
     sbind (apply_delta (dneg amount)) (\<lambda>applied.
     sbind (smod (set_attribution i (\<lambda>a. a\<lparr>at_other_costs := dadd (at_other_costs a) (dneg applied)\<rparr>))) (\<lambda>_.
     sbind (smod (\<lambda>l. l\<lparr>lg_other_costs := dadd (lg_other_costs l) (dneg applied)\<rparr>)) (\<lambda>_.
     sret applied)))))"

definition accounting_identity :: "ledger \<Rightarrow> rat" where
  "accounting_identity l =
     dsub (dsub (dsub (dadd (sp_pool_initial (lg_plan l)) (lg_realized_pnl l)) (lg_fees l))
       (lg_funding l)) (lg_other_costs l)"

definition gross_exposure :: "ledger \<Rightarrow> rat" where
  "gross_exposure l = dsum_list (map (op_notional \<circ> snd) (lg_positions l))"

definition net_exposure :: "ledger \<Rightarrow> rat" where
  "net_exposure l = dsum_list (map (signed_notional \<circ> snd) (lg_positions l))"

definition deployed_notional :: "ledger \<Rightarrow> (item_id, rat) dict" where
  "deployed_notional l = map (\<lambda>(i, s).
     (i, case dget (lg_positions l) i of None \<Rightarrow> 0 | Some p \<Rightarrow> op_notional p)) (sp_shares (lg_plan l))"

definition available_capital :: "ledger \<Rightarrow> rat" where
  "available_capital l = max 0 (dsub (plan_allocatable (lg_plan l) (lg_equity l)) (gross_exposure l))"

definition assert_no_borrow :: "rat \<Rightarrow> (ledger, unit) st" where
  "assert_no_borrow increase = sbind sget (\<lambda>l.
     sguard (\<not> increase > available_capital l) LedgerSolvencyViolation)"

definition set_position :: "item_id \<Rightarrow> string \<Rightarrow> rat \<Rightarrow> rat \<Rightarrow> (ledger, open_position) st" where
  "set_position i direction sz entry_price =
     sbind assert_writable (\<lambda>_.
     sbind (attribution_item i) (\<lambda>_.
     sbind (slift (open_position_post_init i direction sz entry_price)) (\<lambda>candidate.
     sbind sget (\<lambda>l.
       let held = dget (lg_positions l) i;
           increase = dsub (op_notional candidate)
             (case held of None \<Rightarrow> 0 | Some h \<Rightarrow> op_notional h) in
     sbind (sguard (case held of None \<Rightarrow> True | Some h \<Rightarrow> op_direction h = direction)
              PositionStateError) (\<lambda>_.
     sbind (if increase > 0 then assert_no_borrow increase else sret ()) (\<lambda>_.
     sbind (smod (\<lambda>m. m\<lparr>lg_positions := dset i candidate (lg_positions m)\<rparr>)) (\<lambda>_.
     sret candidate)))))))"

definition close_position :: "item_id \<Rightarrow> (ledger, open_position) st" where
  "close_position i =
     sbind assert_writable (\<lambda>_.
     sbind (attribution_item i) (\<lambda>_.
     sbind sget (\<lambda>l.
     sbind (smod (\<lambda>m. m\<lparr>lg_positions := dpop i (lg_positions m)\<rparr>)) (\<lambda>_.
       case dget (lg_positions l) i of None \<Rightarrow> sthrow PositionStateError | Some h \<Rightarrow> sret h))))"

section \<open>The valuation point\<close>

definition sleeve_capacity :: "ledger \<Rightarrow> (item_id, rat) dict" where
  "sleeve_capacity l = plan_sleeve_capacity (lg_plan l) (lg_equity l)"

definition publish_snapshot :: "digest \<Rightarrow> int \<Rightarrow> (ledger, portfolio_snapshot) st" where
  "publish_snapshot H t = sbind sget (\<lambda>l.
     sbind (slift (build_snapshot H t (lg_equity l) (sp_reserve_nominal (lg_plan l))
                     (sleeve_capacity l) (deployed_notional l))) (\<lambda>s.
     sbind (smod (\<lambda>m. m\<lparr>lg_frozen_at := Some t\<rparr>)) (\<lambda>_. sret s)))"

definition begin_apply :: "int \<Rightarrow> (ledger, unit) st" where
  "begin_apply t = sbind sget (\<lambda>l.
     sbind (sguard (\<not> (lg_frozen_at l \<noteq> None \<and> lg_frozen_at l \<noteq> Some t)) LedgerFrozenError) (\<lambda>_.
     smod (\<lambda>m. m\<lparr>lg_frozen_at := None\<rparr>)))"

definition exposure_percent :: "ledger \<Rightarrow> rat \<Rightarrow> rat res" where
  "exposure_percent l gross =
     (if lg_equity l \<le> 0 then money 0
      else rbind (ddiv gross (lg_equity l)) (\<lambda>x. money (dmul x 100)))"

text \<open>
  The loop of \<open>valuation\<close> over the sorted item ids, with its accumulators: unrealized PnL,
  marked gross, marked net, unmarked items, stale items.
\<close>

type_synonym valuation_acc = "rat \<times> rat \<times> rat \<times> item_id list \<times> item_id list"

fun valuation_loop ::
  "(item_id, open_position) dict \<Rightarrow> (item_id, mark_price) dict \<Rightarrow> item_id list \<Rightarrow> valuation_acc
     \<Rightarrow> valuation_acc res" where
  "valuation_loop positions offered [] acc = ok acc"
| "valuation_loop positions offered (i # is) (u, g, n, um, sr) =
     (case dget positions i of None \<Rightarrow> raise KeyError
      | Some p \<Rightarrow>
        (let mark = dget offered i;
             stale = (case mark of None \<Rightarrow> False | Some m \<Rightarrow> is_stale_refused m) in
         case mark of
           Some m \<Rightarrow>
             (if \<not> is_usable m
              then valuation_loop positions offered is
                     (u, g, n, um @ [i], if stale then sr @ [i] else sr)
              else rbind (unrealized p (mk_price m)) (\<lambda>du.
                   rbind (money (dmul (mk_price m) (op_size p))) (\<lambda>v.
                     valuation_loop positions offered is
                       (dadd u du, dadd g v, dadd n (dmul v (position_sign p)), um, sr))))
         | None \<Rightarrow> valuation_loop positions offered is (u, g, n, um @ [i], sr)))"

definition valuation :: "ledger \<Rightarrow> int \<Rightarrow> (item_id, mark_price) dict \<Rightarrow> valuation_point res" where
  "valuation l t offered =
     rbind (valuation_loop (lg_positions l) offered (sort (map fst (lg_positions l))) (0, 0, 0, [], []))
       (\<lambda>(u, g, n, um, sr).
        let complete = (um = []); gross = gross_exposure l in
        rbind (exposure_percent l gross) (\<lambda>pct.
        ok \<lparr>vp_t_ms = t, vp_equity = lg_equity l, vp_gross_exposure = gross,
            vp_net_exposure = net_exposure l, vp_gross_exposure_percent = pct,
            vp_unrealized_pnl = (if complete then Some u else None),
            vp_marked_gross_exposure = (if complete then Some g else None),
            vp_marked_net_exposure = (if complete then Some n else None),
            vp_unmarked_items = um, vp_stale_refused_items = sr\<rparr>))"

definition commit_tick :: "int \<Rightarrow> (ledger, equity_point option) st" where
  "commit_tick t =
     sbind assert_writable (\<lambda>_. sbind sget (\<lambda>l.
       if lg_equity l = lg_last_point_equity l then sret None
       else
         sbind (slift (money (dsub (lg_peak l) (lg_equity l)))) (\<lambda>dd.
         sbind (slift (exposure_percent l (gross_exposure l))) (\<lambda>pct.
           let point = \<lparr>ep_seq = length (lg_equity_points l), ep_t_ms = Some t,
                        ep_equity = lg_equity l, ep_drawdown = dd, ep_gross_exposure_percent = pct\<rparr> in
         sbind (smod (\<lambda>m. m\<lparr>lg_equity_points := lg_equity_points m @ [point],
                            lg_last_point_equity := lg_equity m\<rparr>)) (\<lambda>_.
         sret (Some point))))))"

definition fold_tick :: "int \<Rightarrow> (ledger, equity_point option) st" where
  "fold_tick t =
     sbind assert_writable (\<lambda>_. sbind sget (\<lambda>l.
       if lg_equity l = lg_last_point_equity l then sret None
       else if lg_equity_points l \<noteq> [] \<and> ep_t_ms (last (lg_equity_points l)) = Some t then
         (let previous = last (lg_equity_points l) in
         sbind (slift (money (dsub (lg_peak l) (lg_equity l)))) (\<lambda>dd.
         sbind (slift (exposure_percent l (gross_exposure l))) (\<lambda>pct.
           let folded = \<lparr>ep_seq = ep_seq previous, ep_t_ms = ep_t_ms previous,
                         ep_equity = lg_equity l, ep_drawdown = dd, ep_gross_exposure_percent = pct\<rparr> in
         sbind (smod (\<lambda>m. m\<lparr>lg_equity_points := butlast (lg_equity_points m) @ [folded],
                            lg_last_point_equity := lg_equity m\<rparr>)) (\<lambda>_.
         sret (Some folded)))))
       else commit_tick t))"

section \<open>Capacity\<close>

definition capacity_decision_of ::
  "item_id \<Rightarrow> rat \<Rightarrow> rat \<Rightarrow> (string, rat) dict \<Rightarrow> capacity_outcome \<Rightarrow> rat
     \<Rightarrow> string option \<Rightarrow> string option \<Rightarrow> capacity_decision res" where
  "capacity_decision_of i requested price limits outcome granted binding reason =
     rbind (if price > 0 then money (dmul requested price) else money 0) (\<lambda>rn.
     rbind (if price > 0 then money (dmul granted price) else money 0) (\<lambda>gn.
     ok \<lparr>cd_item_id = i, cd_outcome = outcome, cd_requested_units = requested,
         cd_granted_units = granted, cd_requested_notional = rn, cd_granted_notional = gn,
         cd_binding_constraint = binding, cd_reason = reason, cd_limits = limits\<rparr>))"

definition cap_units :: "rat \<Rightarrow> rat \<Rightarrow> rat res" where
  "cap_units headroom price =
     (if headroom > 0 then rbind (ddiv headroom price) (quantize 8) else ok 0)"

text \<open>
  The loop over the cap layers: \<open>Inl (constraint, reason)\<close> when a layer allows nothing,
  otherwise the units that survive every layer and the last layer that bound them.
\<close>

fun cap_loop ::
  "rat \<Rightarrow> (string \<times> rat option \<times> string) list \<Rightarrow> rat \<Rightarrow> string option
     \<Rightarrow> ((string \<times> string) + (rat \<times> string option)) res" where
  "cap_loop price [] granted binding = ok (Inr (granted, binding))"
| "cap_loop price ((c, None, reason) # ls) granted binding = cap_loop price ls granted binding"
| "cap_loop price ((c, Some headroom, reason) # ls) granted binding =
     rbind (cap_units headroom price) (\<lambda>allowed.
       if allowed \<le> 0 then ok (Inl (c, reason))
       else if allowed < granted then cap_loop price ls allowed (Some c)
       else cap_loop price ls granted binding)"

definition capacity_limits ::
  "rat \<Rightarrow> rat \<Rightarrow> rat option \<Rightarrow> rat option \<Rightarrow> (string, rat) dict" where
  "capacity_limits sleeve solvency position exposure =
     [(''remaining_sleeve'', sleeve), (''ledger_solvency'', solvency)]
       @ (case position of None \<Rightarrow> [] | Some m \<Rightarrow> [(''max_position_notional'', m)])
       @ (case exposure of None \<Rightarrow> [] | Some m \<Rightarrow> [(''max_total_exposure'', m)])"

definition cap_layers ::
  "rat \<Rightarrow> rat option \<Rightarrow> rat option \<Rightarrow> (string \<times> rat option \<times> string) list" where
  "cap_layers sleeve position exposure =
     [(''remaining_sleeve'', Some sleeve, ''sleeve_zero_capacity''),
      (''max_position_notional'', position, ''max_position_notional_exceeded''),
      (''max_total_exposure'', exposure, ''portfolio_max_total_exposure'')]"

definition resolve_capacity ::
  "ledger \<Rightarrow> item_id \<Rightarrow> portfolio_snapshot \<Rightarrow> rat \<Rightarrow> rat \<Rightarrow> rat option \<Rightarrow> rat option
     \<Rightarrow> capacity_decision res" where
  "resolve_capacity l i snapshot requested price max_position max_exposure =
     (if dget (lg_attribution l) i = None then raise UnknownLedgerItemError
      else if lg_frozen_at l \<noteq> None \<and> lg_frozen_at l \<noteq> Some (sn_t_ms snapshot)
      then raise MismatchedSnapshotError
      else rbind (remaining_sleeve_capacity snapshot i) (\<lambda>sleeve_headroom.
        let exposure_headroom = map_option (\<lambda>m. max 0 (dsub m (gross_exposure l))) max_exposure;
            solvency_headroom = available_capital l;
            position_limit = map_option (max 0) max_position;
            limits = capacity_limits sleeve_headroom solvency_headroom position_limit exposure_headroom;
            decision = capacity_decision_of i requested price limits in
        if requested \<le> 0 then decision Rejected 0 None (Some ''no_requested_size'')
        else if price \<le> 0 then decision Rejected 0 None (Some ''unpriceable_capacity'')
        else
          rbind (cap_loop price (cap_layers sleeve_headroom position_limit exposure_headroom)
              requested None) (\<lambda>r.
            case r of
              Inl (c, reason) \<Rightarrow> decision Rejected 0 (Some c) (Some reason)
            | Inr (granted, binding) \<Rightarrow>
                rbind (money (dmul granted price)) (\<lambda>granted_notional.
                  if granted_notional > solvency_headroom
                  then decision Rejected 0 (Some ''ledger_solvency'') (Some ''ledger_insolvent'')
                  else if binding = None then decision Admitted granted None None
                  else decision Capped granted binding None))))"

definition ledger_for_items ::
  "rat \<Rightarrow> rat \<Rightarrow> (item_id, rat) dict \<Rightarrow> bool \<Rightarrow> ledger res" where
  "ledger_for_items pool_initial reserve_percent shares compound =
     rbind (build_sleeve_plan pool_initial reserve_percent shares compound) (\<lambda>p. ok (ledger_init p))"

end
