(* ===== verification/Ledger_Books.thy ===== *)
theory Ledger_Books
  imports Portfolio_Ledger
begin

text \<open>
  The books of the shared ledger balance. Every booking is a posting on one or two of four
  lines (realized PnL, fees, funding, other costs), once in the item's attribution and once in
  the portfolio total. While every figure stays below ten to the 25, 28-digit arithmetic on
  multiples of a cent is exact, so \<open>accounting_identity\<close> equals the equity to the cent and the
  items' contributions add up to what the pool gained.
\<close>

section \<open>The four lines\<close>

datatype book_line = Realized | Fees | Funding | OtherCosts

primrec attr_line :: "book_line \<Rightarrow> item_attribution \<Rightarrow> rat" where
  "attr_line Realized = at_realized_pnl"
| "attr_line Fees = at_fees"
| "attr_line Funding = at_funding"
| "attr_line OtherCosts = at_other_costs"

primrec led_line :: "book_line \<Rightarrow> ledger \<Rightarrow> rat" where
  "led_line Realized = lg_realized_pnl"
| "led_line Fees = lg_fees"
| "led_line Funding = lg_funding"
| "led_line OtherCosts = lg_other_costs"

primrec attr_post :: "book_line \<Rightarrow> rat \<Rightarrow> item_attribution \<Rightarrow> item_attribution" where
  "attr_post Realized d a = a\<lparr>at_realized_pnl := dadd (at_realized_pnl a) d\<rparr>"
| "attr_post Fees d a = a\<lparr>at_fees := dadd (at_fees a) d\<rparr>"
| "attr_post Funding d a = a\<lparr>at_funding := dadd (at_funding a) d\<rparr>"
| "attr_post OtherCosts d a = a\<lparr>at_other_costs := dadd (at_other_costs a) d\<rparr>"

primrec led_post :: "book_line \<Rightarrow> rat \<Rightarrow> ledger \<Rightarrow> ledger" where
  "led_post Realized d l = l\<lparr>lg_realized_pnl := dadd (lg_realized_pnl l) d\<rparr>"
| "led_post Fees d l = l\<lparr>lg_fees := dadd (lg_fees l) d\<rparr>"
| "led_post Funding d l = l\<lparr>lg_funding := dadd (lg_funding l) d\<rparr>"
| "led_post OtherCosts d l = l\<lparr>lg_other_costs := dadd (lg_other_costs l) d\<rparr>"

definition post_line :: "book_line \<Rightarrow> item_id \<Rightarrow> rat \<Rightarrow> ledger \<Rightarrow> ledger" where
  "post_line bl i d l = led_post bl d (set_attribution i (attr_post bl d) l)"

lemma attr_line_post:
  "attr_line bl (attr_post bl' d a) = (if bl = bl' then dadd (attr_line bl a) d else attr_line bl a)"
  by (cases bl; cases bl') auto

lemma led_line_post:
  "led_line bl (led_post bl' d l) = (if bl = bl' then dadd (led_line bl l) d else led_line bl l)"
  by (cases bl; cases bl') auto

lemma led_post_frame [simp]:
  "lg_plan (led_post bl d l) = lg_plan l" "lg_equity (led_post bl d l) = lg_equity l"
  "lg_attribution (led_post bl d l) = lg_attribution l" "lg_peak (led_post bl d l) = lg_peak l"
  "lg_positions (led_post bl d l) = lg_positions l"
  "lg_equity_points (led_post bl d l) = lg_equity_points l"
  "lg_last_point_equity (led_post bl d l) = lg_last_point_equity l"
  "lg_frozen_at (led_post bl d l) = lg_frozen_at l"
  by (cases bl; simp)+

lemma set_attribution_frame [simp]:
  "lg_plan (set_attribution i f l) = lg_plan l" "lg_equity (set_attribution i f l) = lg_equity l"
  "lg_peak (set_attribution i f l) = lg_peak l"
  "lg_positions (set_attribution i f l) = lg_positions l"
  "lg_equity_points (set_attribution i f l) = lg_equity_points l"
  "lg_last_point_equity (set_attribution i f l) = lg_last_point_equity l"
  "lg_frozen_at (set_attribution i f l) = lg_frozen_at l"
  "led_line bl (set_attribution i f l) = led_line bl l"
  by (cases bl; simp add: set_attribution_def split: option.splits)+

lemma post_line_frame [simp]:
  "lg_plan (post_line bl i d l) = lg_plan l" "lg_equity (post_line bl i d l) = lg_equity l"
  "lg_peak (post_line bl i d l) = lg_peak l"
  "lg_positions (post_line bl i d l) = lg_positions l"
  "lg_equity_points (post_line bl i d l) = lg_equity_points l"
  "lg_last_point_equity (post_line bl i d l) = lg_last_point_equity l"
  "lg_frozen_at (post_line bl i d l) = lg_frozen_at l"
  by (simp_all add: post_line_def)

lemma post_line_lines:
  "led_line bl (post_line bl' i d l) = (if bl = bl' then dadd (led_line bl l) d else led_line bl l)"
  by (simp add: post_line_def led_line_post)

lemma post_line_attribution:
  "dget (lg_attribution l) i = Some a \<Longrightarrow>
     lg_attribution (post_line bl i d l) = dset i (attr_post bl d a) (lg_attribution l)"
  by (simp add: post_line_def set_attribution_def)

declare led_line.simps [simp del] attr_line.simps [simp del]

section \<open>The invariant\<close>

definition line_fits :: "book_line \<Rightarrow> ledger \<Rightarrow> bool" where
  "line_fits bl l \<longleftrightarrow> \<bar>led_line bl l\<bar> < 10 ^ 25 \<and>
     (\<forall>p \<in> set (lg_attribution l). \<bar>attr_line bl (snd p)\<bar> < 10 ^ 25)"

definition ledger_fits :: "ledger \<Rightarrow> bool" where
  "ledger_fits l \<longleftrightarrow> \<bar>sp_pool_initial (lg_plan l)\<bar> < 10 ^ 25 \<and> \<bar>lg_equity l\<bar> < 10 ^ 25 \<and>
     line_fits Realized l \<and> line_fits Fees l \<and> line_fits Funding l \<and> line_fits OtherCosts l"

lemma ledger_fitsD: "ledger_fits l \<Longrightarrow> line_fits bl l"
  by (cases bl) (simp_all add: ledger_fits_def)

definition line_ok :: "book_line \<Rightarrow> ledger \<Rightarrow> bool" where
  "line_ok bl l \<longleftrightarrow> cents (led_line bl l) \<and>
     dsum (attr_line bl) (lg_attribution l) = led_line bl l \<and>
     (\<forall>p \<in> set (lg_attribution l). cents (attr_line bl (snd p)))"

definition lines_ok :: "ledger \<Rightarrow> bool" where
  "lines_ok l \<longleftrightarrow> wf_dict (lg_attribution l) \<and> (\<forall>bl. line_ok bl l)"

definition net_result :: "ledger \<Rightarrow> rat" where
  "net_result l = led_line Realized l - led_line Fees l - led_line Funding l - led_line OtherCosts l"

definition books_ok :: "ledger \<Rightarrow> bool" where
  "books_ok l \<longleftrightarrow> lines_ok l \<and> cents (sp_pool_initial (lg_plan l)) \<and> cents (lg_equity l) \<and>
     lg_equity l = sp_pool_initial (lg_plan l) + net_result l"

lemma dset_set: "p \<in> set (dset k v d) \<Longrightarrow> p = (k, v) \<or> p \<in> set d"
  by (induction d) (auto split: if_splits)

lemma line_fits_attr:
  assumes "line_fits bl l" "dget (lg_attribution l) i = Some a"
  shows "\<bar>attr_line bl a\<bar> < 10 ^ 25"
proof -
  from assms(1) have "\<forall>p \<in> set (lg_attribution l). \<bar>attr_line bl (snd p)\<bar> < 10 ^ 25"
    by (simp add: line_fits_def)
  from bspec [OF this dget_in [OF assms(2)]] show ?thesis by simp
qed

lemma line_ok_attr: "line_ok bl l \<Longrightarrow> dget (lg_attribution l) i = Some a \<Longrightarrow> cents (attr_line bl a)"
proof -
  assume ok: "line_ok bl l" and i: "dget (lg_attribution l) i = Some a"
  from ok have "\<forall>p \<in> set (lg_attribution l). cents (attr_line bl (snd p))"
    by (simp add: line_ok_def)
  from bspec [OF this dget_in [OF i]] show "cents (attr_line bl a)" by simp
qed

lemma post_line_exact:
  assumes ok: "lines_ok l" and i: "dget (lg_attribution l) i = Some a" and d: "cents d"
    and fits: "line_fits bl (post_line bl i d l)"
  shows "led_line bl (post_line bl i d l) = led_line bl l + d"
    and "attr_line bl (attr_post bl d a) = attr_line bl a + d"
proof -
  have c: "cents (led_line bl l)" "cents (attr_line bl a)"
    using ok line_ok_attr [OF _ i] by (auto simp: lines_ok_def line_ok_def)
  have "\<bar>dadd (led_line bl l) d\<bar> < 10 ^ 25"
    using fits by (simp add: line_fits_def post_line_lines)
  then have "dadd (led_line bl l) d = led_line bl l + d"
    by (intro dadd_exact c d)
  then show "led_line bl (post_line bl i d l) = led_line bl l + d"
    by (simp add: post_line_lines)
  have "\<bar>attr_line bl (attr_post bl d a)\<bar> < 10 ^ 25"
    by (rule line_fits_attr [OF fits, of i]) (simp add: post_line_attribution [OF i])
  then have "\<bar>dadd (attr_line bl a) d\<bar> < 10 ^ 25" by (simp add: attr_line_post)
  then have "dadd (attr_line bl a) d = attr_line bl a + d"
    by (intro dadd_exact c d)
  then show "attr_line bl (attr_post bl d a) = attr_line bl a + d"
    by (simp add: attr_line_post)
qed

lemma post_line_ok:
  assumes ok: "lines_ok l" and i: "dget (lg_attribution l) i = Some a" and d: "cents d"
    and fits: "line_fits bl (post_line bl i d l)"
  shows "lines_ok (post_line bl i d l)"
proof -
  note exact = post_line_exact [OF assms]
  have wf: "wf_dict (lg_attribution l)" using ok by (simp add: lines_ok_def)
  have "line_ok m (post_line bl i d l)" for m
  proof -
    have m: "line_ok m l" using ok by (simp add: lines_ok_def)
    have ca: "cents (attr_line m a)" using m i by (rule line_ok_attr)
    define e where "e = (if m = bl then d else 0)"
    have ce: "cents e" using d by (simp add: e_def)
    have attr: "attr_line m (attr_post bl d a) = attr_line m a + e"
      using exact(2) by (auto simp: attr_line_post e_def)
    have led: "led_line m (post_line bl i d l) = led_line m l + e"
      using exact(1) by (auto simp: post_line_lines e_def)
    have "cents (attr_line m (attr_post bl d a))" unfolding attr using ca ce by auto
    then show ?thesis
      using m ca ce wf by (auto simp: line_ok_def led post_line_attribution [OF i] dsum_dset i attr
          dest!: dset_set)
  qed
  then show ?thesis using wf by (simp add: lines_ok_def post_line_attribution [OF i] wf_dict_dset)
qed

section \<open>The bookings as postings\<close>

definition set_equity :: "rat \<Rightarrow> ledger \<Rightarrow> ledger" where
  "set_equity e l = l\<lparr>lg_equity := e, lg_peak := max (lg_peak l) e\<rparr>"

lemma set_equity_frame [simp]:
  "lg_plan (set_equity e l) = lg_plan l" "lg_equity (set_equity e l) = e"
  "lg_attribution (set_equity e l) = lg_attribution l"
  "lg_peak (set_equity e l) = max (lg_peak l) e"
  "lg_positions (set_equity e l) = lg_positions l"
  "lg_equity_points (set_equity e l) = lg_equity_points l"
  "lg_last_point_equity (set_equity e l) = lg_last_point_equity l"
  "lg_frozen_at (set_equity e l) = lg_frozen_at l"
  "led_line bl (set_equity e l) = led_line bl l"
  by (cases bl; simp add: set_equity_def led_line.simps)+

lemma apply_delta_run:
  "apply_delta d l =
     (case money (dadd (lg_equity l) d) of Inl e \<Rightarrow> (Inl e, l)
      | Inr q \<Rightarrow> (Inr (dsub q (lg_equity l)), set_equity q l))"
  by (simp add: apply_delta_def st_simps set_equity_def split: sum.split)

lemma writable_run:
  "assert_writable l = (if is_frozen l then (Inl LedgerFrozenError, l) else (Inr (), l))"
  by (simp add: assert_writable_def st_simps)

lemma attribution_item_run:
  "attribution_item i l =
     (case dget (lg_attribution l) i of None \<Rightarrow> (Inl UnknownLedgerItemError, l) | Some a \<Rightarrow> (Inr a, l))"
  by (simp add: attribution_item_def st_simps split: option.split)

lemmas ledger_runs = st_simps apply_delta_run writable_run attribution_item_run

text \<open>The three standalone costs are one posting each.\<close>

definition book_cost :: "book_line \<Rightarrow> item_id \<Rightarrow> rat \<Rightarrow> (ledger, rat) st" where
  "book_cost bl i amount =
     sbind assert_writable (\<lambda>_.
     sbind (attribution_item i) (\<lambda>_.
     sbind (apply_delta (dneg amount)) (\<lambda>applied.
     sbind (smod (post_line bl i (dneg applied))) (\<lambda>_. sret applied))))"

lemma post_line_unfold:
  "post_line bl i d l = led_post bl d (set_attribution i (attr_post bl d) l)"
  by (rule post_line_def)

lemma attr_post_fun:
  "attr_post Realized d = (\<lambda>a. a\<lparr>at_realized_pnl := dadd (at_realized_pnl a) d\<rparr>)"
  "attr_post Fees d = (\<lambda>a. a\<lparr>at_fees := dadd (at_fees a) d\<rparr>)"
  "attr_post Funding d = (\<lambda>a. a\<lparr>at_funding := dadd (at_funding a) d\<rparr>)"
  "attr_post OtherCosts d = (\<lambda>a. a\<lparr>at_other_costs := dadd (at_other_costs a) d\<rparr>)"
  by (simp_all add: fun_eq_iff)

lemma book_cost_simps:
  "book_fee i amount = book_cost Fees i amount"
  "book_funding i amount = book_cost Funding i amount"
  "book_other_cost i amount = book_cost OtherCosts i amount"
  by (auto simp: book_fee_def book_funding_def book_other_cost_def book_cost_def sbind_def
      st_run post_line_unfold attr_post_fun fun_eq_iff split: prod.splits sum.splits)

lemma book_cost_run:
  "book_cost bl i amount l =
     (if is_frozen l then (Inl LedgerFrozenError, l)
      else if dget (lg_attribution l) i = None then (Inl UnknownLedgerItemError, l)
      else case money (dadd (lg_equity l) (dneg amount)) of
        Inl e \<Rightarrow> (Inl e, l)
      | Inr q \<Rightarrow>
        (let applied = dsub q (lg_equity l) in
         (Inr applied, post_line bl i (dneg applied) (set_equity q l))))"
  by (simp add: book_cost_def ledger_runs Let_def split: option.split sum.split)

lemma book_cost_booked:
  assumes "book_cost bl i amount l = (Inr x, l')"
  obtains q a where "x = dsub q (lg_equity l)" "\<not> is_frozen l"
    "dget (lg_attribution l) i = Some a" "money (dadd (lg_equity l) (dneg amount)) = Inr q"
    "l' = post_line bl i (dneg (dsub q (lg_equity l))) (set_equity q l)"
  using assms by (auto simp: book_cost_run Let_def split: if_splits sum.splits)

text \<open>
  A trade posts on two lines. An unknown item (or a commission that cannot be quantized) is
  noticed only after the equity has moved.
\<close>

lemma book_trade_run:
  "book_trade i gross commission l =
     (if is_frozen l then (Inl LedgerFrozenError, l)
      else case money (dsub gross commission) of Inl e \<Rightarrow> (Inl e, l) | Inr net \<Rightarrow>
      (case money (dadd (lg_equity l) net) of Inl e \<Rightarrow> (Inl e, l) | Inr q \<Rightarrow>
      (case money commission of Inl e \<Rightarrow> (Inl e, set_equity q l) | Inr fee \<Rightarrow>
        (if dget (lg_attribution l) i = None then (Inl UnknownLedgerItemError, set_equity q l)
         else let x = dsub q (lg_equity l) in
           (Inr x, post_line Fees i fee (post_line Realized i (dadd x fee) (set_equity q l)))))))"
  by (cases "dget (lg_attribution l) i")
    (simp_all add: book_trade_def ledger_runs Let_def post_line_def set_attribution_def
      set_equity_def attr_post_fun split: sum.split)

lemma book_trade_booked:
  assumes "book_trade i gross commission l = (Inr x, l')"
  obtains n q fee a where "\<not> is_frozen l" "money (dsub gross commission) = Inr n"
    "money (dadd (lg_equity l) n) = Inr q" "money commission = Inr fee"
    "dget (lg_attribution l) i = Some a" "x = dsub q (lg_equity l)"
    "l' = post_line Fees i fee (post_line Realized i (dadd x fee) (set_equity q l))"
  using assms by (auto simp: book_trade_run Let_def split: if_splits sum.splits)

section \<open>Every booking keeps the books\<close>

lemma lines_ok_set_equity [simp]: "lines_ok (set_equity e l) = lines_ok l"
  by (simp add: lines_ok_def line_ok_def)

lemma money_cents: "money x = Inr q \<Longrightarrow> cents q"
  by (auto simp: money_def dest: quantizeD)

text \<open>The applied delta is the exact difference of two cent amounts in range.\<close>

lemma applied_exact:
  assumes "books_ok l" "ledger_fits l" "money y = Inr q" "\<bar>q\<bar> < 10 ^ 25"
  shows "dsub q (lg_equity l) = q - lg_equity l" "cents (q - lg_equity l)"
    "\<bar>q - lg_equity l\<bar> < 2 * 10 ^ 25"
proof -
  have b: "cents q" "cents (lg_equity l)" "\<bar>lg_equity l\<bar> < 10 ^ 25"
    using assms by (auto simp: books_ok_def ledger_fits_def money_cents)
  then show "dsub q (lg_equity l) = q - lg_equity l"
    using assms(4) by (intro dsub_exact) simp_all
  show "cents (q - lg_equity l)" using b by auto
  show "\<bar>q - lg_equity l\<bar> < 2 * 10 ^ 25" using b assms(4) by simp
qed

lemma post_line_fits_other:
  "bl \<noteq> bl' \<Longrightarrow> dget (lg_attribution l) i = Some a \<Longrightarrow> line_fits bl (post_line bl' i d l) \<Longrightarrow>
     wf_dict (lg_attribution l) \<Longrightarrow> line_fits bl l"
proof -
  assume ne: "bl \<noteq> bl'" and i: "dget (lg_attribution l) i = Some a"
    and f: "line_fits bl (post_line bl' i d l)" and wf: "wf_dict (lg_attribution l)"
  have "\<bar>attr_line bl (snd p)\<bar> < 10 ^ 25" if p: "p \<in> set (lg_attribution l)" for p
  proof (cases "fst p = i")
    case True
    then have "snd p = a" using p i wf by (metis map_of_is_SomeI option.inject prod.collapse wf_dict_def)
    moreover have "\<bar>attr_line bl (attr_post bl' d a)\<bar> < 10 ^ 25"
      by (rule line_fits_attr [OF f, of i]) (simp add: post_line_attribution [OF i])
    ultimately show ?thesis using ne by (simp add: attr_line_post)
  next
    case False
    then have "dget (dset i (attr_post bl' d a) (lg_attribution l)) (fst p) = Some (snd p)"
      using p wf by (simp add: wf_dict_def)
    then have "(fst p, snd p) \<in> set (dset i (attr_post bl' d a) (lg_attribution l))" by (rule dget_in)
    then have "p \<in> set (dset i (attr_post bl' d a) (lg_attribution l))" by simp
    then show ?thesis using f unfolding line_fits_def post_line_attribution [OF i] by blast
  qed
  then show ?thesis using f ne by (simp add: line_fits_def post_line_lines)
qed

lemma book_cost_books:
  assumes "books_ok l" "ledger_fits l" "book_cost bl i amount l = (Inr x, l')" "ledger_fits l'"
    and bl: "bl \<noteq> Realized"
  shows "books_ok l'"
  using assms(3)
proof (cases rule: book_cost_booked)
  case (1 q a)
  let ?l = "set_equity q l"
  have q: "\<bar>q\<bar> < 10 ^ 25" using assms(4) 1 by (simp add: ledger_fits_def)
  note ap = applied_exact [OF assms(1,2) 1(4) q]
  have "dneg (q - lg_equity l) = - (q - lg_equity l)"
    using ap(3) by (intro dneg_cents ap(2)) simp
  then have l': "l' = post_line bl i (- (q - lg_equity l)) ?l" using 1(5) ap(1) by simp
  have "lines_ok ?l" using assms(1) by (simp add: books_ok_def)
  moreover have "dget (lg_attribution ?l) i = Some a" using 1(3) by simp
  moreover have "cents (- (q - lg_equity l))" using ap(2) by (simp only: on_grid_minus)
  moreover have "line_fits bl (post_line bl i (- (q - lg_equity l)) ?l)"
    using ledger_fitsD [OF assms(4)] unfolding l' .
  ultimately have pre: "lines_ok ?l" "dget (lg_attribution ?l) i = Some a"
    "cents (- (q - lg_equity l))" "line_fits bl (post_line bl i (- (q - lg_equity l)) ?l)" .
  have "net_result l' = net_result l + (q - lg_equity l)"
    using post_line_exact(1) [OF pre] bl unfolding l' net_result_def
    by (cases bl) (simp_all add: post_line_lines)
  moreover have "lines_ok l'" unfolding l' by (rule post_line_ok [OF pre])
  ultimately show ?thesis using assms(1) 1(4)
    by (simp add: books_ok_def l' money_cents)
qed

lemma book_trade_books:
  assumes "books_ok l" "ledger_fits l" "book_trade i gross commission l = (Inr x, l')" "ledger_fits l'"
  shows "books_ok l'"
  using assms(3)
proof (cases rule: book_trade_booked)
  case (1 n q fee a)
  let ?w = "dadd x fee"
  let ?l = "set_equity q l"
  let ?m = "post_line Realized i ?w ?l"
  have q: "\<bar>q\<bar> < 10 ^ 25" using assms(4) 1 by (simp add: ledger_fits_def)
  note ap = applied_exact [OF assms(1,2) 1(3) q]
  have fee: "cents fee" using 1(4) by (rule money_cents)
  have lo: "lines_ok ?l" using assms(1) by (simp add: books_ok_def)
  have wf: "wf_dict (lg_attribution l)" using assms(1) by (simp add: books_ok_def lines_ok_def)
  have x: "x = q - lg_equity l" using 1 ap(1) by simp
  have am: "dget (lg_attribution ?m) i = Some (attr_post Realized ?w a)"
    using 1(5) by (simp add: post_line_attribution)
  have wfm: "wf_dict (lg_attribution ?m)" using 1(5) wf by (simp add: post_line_attribution)
  have "line_fits Realized l'" using assms(4) by (rule ledger_fitsD)
  then have fm: "line_fits Realized ?m" unfolding 1(7)
    by (intro post_line_fits_other [OF _ am _ wfm]) auto
  have realized: "\<bar>dadd (led_line Realized l) ?w\<bar> < 10 ^ 25" "\<bar>led_line Realized l\<bar> < 10 ^ 25"
    using fm ledger_fitsD [OF assms(2), of Realized] by (simp_all add: line_fits_def post_line_lines)
  have "\<bar>led_line Realized l + ?w\<bar> < 10 ^ 25"
    using realized(1) unfolding dadd_def [of "led_line Realized l"] by (rule dfix_less_p10)
  then have "\<bar>?w\<bar> < 10 ^ 26" using realized(2) by simp
  then have w: "?w = x + fee" unfolding dadd_def
    by (intro cents_round_exact) (use x ap(2) fee in auto)
  have "cents (x + fee)" unfolding x using ap(2) fee by (rule on_grid_add)
  then have cw: "cents ?w" unfolding w .
  have mi: "dget (lg_attribution ?l) i = Some a" using 1(5) by simp
  note m_ok = post_line_ok [OF lo mi cw fm] and m_line = post_line_exact(1) [OF lo mi cw fm]
  have fF: "line_fits Fees (post_line Fees i fee ?m)"
    using ledger_fitsD [OF assms(4)] unfolding 1(7) .
  have l'_ok: "lines_ok l'" unfolding 1(7) by (rule post_line_ok [OF m_ok am fee fF])
  have "net_result l' = net_result l + (q - lg_equity l)"
    using post_line_exact(1) [OF m_ok am fee fF] m_line w x
    unfolding 1(7) net_result_def by (simp add: post_line_lines)
  then show ?thesis using assms(1) l'_ok 1(3) by (simp add: books_ok_def 1(7) money_cents)
qed

section \<open>The ledger as a machine\<close>

text \<open>Every public method that writes, as one command of a caller.\<close>

datatype ledger_op =
    BookTrade item_id rat rat
  | BookFee item_id rat
  | BookFunding item_id rat
  | BookOtherCost item_id rat
  | SetPosition item_id string rat rat
  | ClosePosition item_id
  | PublishSnapshot int
  | BeginApply int
  | CommitTick int
  | FoldTick int

definition void :: "('s, 'a) st \<Rightarrow> ('s, unit) st" where
  "void m = sbind m (\<lambda>_. sret ())"

primrec exec_ledger :: "digest \<Rightarrow> ledger_op \<Rightarrow> (ledger, unit) st" where
  "exec_ledger H (BookTrade i g c) = void (book_trade i g c)"
| "exec_ledger H (BookFee i a) = void (book_fee i a)"
| "exec_ledger H (BookFunding i a) = void (book_funding i a)"
| "exec_ledger H (BookOtherCost i a) = void (book_other_cost i a)"
| "exec_ledger H (SetPosition i d s p) = void (set_position i d s p)"
| "exec_ledger H (ClosePosition i) = void (close_position i)"
| "exec_ledger H (PublishSnapshot t) = void (publish_snapshot H t)"
| "exec_ledger H (BeginApply t) = begin_apply t"
| "exec_ledger H (CommitTick t) = void (commit_tick t)"
| "exec_ledger H (FoldTick t) = void (fold_tick t)"

lemma void_run: "void m s = (case m s of (Inl e, s') \<Rightarrow> (Inl e, s') | (Inr x, s') \<Rightarrow> (Inr (), s'))"
  by (simp add: void_def sbind_def sret_def)

lemma void_ok: "void m s = (Inr x, s') \<longleftrightarrow> (\<exists>y. m s = (Inr y, s'))"
  by (auto simp: void_run split: prod.splits sum.splits)

text \<open>The part of the state the books speak about, unchanged by everything but a booking.\<close>

definition same_books :: "ledger \<Rightarrow> ledger \<Rightarrow> bool" where
  "same_books l m \<longleftrightarrow> lg_plan m = lg_plan l \<and> lg_equity m = lg_equity l \<and> lg_peak m = lg_peak l \<and>
     lg_attribution m = lg_attribution l \<and> (\<forall>bl. led_line bl m = led_line bl l)"

lemma led_line_frame [simp]:
  "led_line bl (l\<lparr>lg_positions := p\<rparr>) = led_line bl l"
  "led_line bl (l\<lparr>lg_frozen_at := f\<rparr>) = led_line bl l"
  "led_line bl (l\<lparr>lg_equity_points := ps, lg_last_point_equity := e\<rparr>) = led_line bl l"
  by (cases bl; simp add: led_line.simps)+

lemma same_books_ok: "same_books l m \<Longrightarrow> books_ok l = books_ok m"
  by (auto simp: same_books_def books_ok_def lines_ok_def line_ok_def net_result_def)

lemma same_books_refl [simp]: "same_books l l"
  by (simp add: same_books_def)

lemma set_position_run:
  "set_position i d sz price l =
     (if is_frozen l then (Inl LedgerFrozenError, l)
      else if dget (lg_attribution l) i = None then (Inl UnknownLedgerItemError, l)
      else case open_position_post_init i d sz price of
        Inl e \<Rightarrow> (Inl e, l)
      | Inr c \<Rightarrow>
        (let held = dget (lg_positions l) i;
             increase = dsub (op_notional c) (case held of None \<Rightarrow> 0 | Some h \<Rightarrow> op_notional h) in
         if held \<noteq> None \<and> op_direction (the held) \<noteq> d then (Inl PositionStateError, l)
         else if increase > 0 \<and> increase > available_capital l then (Inl LedgerSolvencyViolation, l)
         else (Inr c, l\<lparr>lg_positions := dset i c (lg_positions l)\<rparr>)))"
  by (simp add: set_position_def ledger_runs assert_no_borrow_def Let_def
      split: option.split sum.split)

lemma close_position_run:
  "close_position i l =
     (if is_frozen l then (Inl LedgerFrozenError, l)
      else if dget (lg_attribution l) i = None then (Inl UnknownLedgerItemError, l)
      else case dget (lg_positions l) i of
        None \<Rightarrow> (Inl PositionStateError, l\<lparr>lg_positions := dpop i (lg_positions l)\<rparr>)
      | Some h \<Rightarrow> (Inr h, l\<lparr>lg_positions := dpop i (lg_positions l)\<rparr>))"
  by (simp add: close_position_def ledger_runs split: option.split)

lemma commit_tick_run:
  "commit_tick t l =
     (if is_frozen l then (Inl LedgerFrozenError, l)
      else if lg_equity l = lg_last_point_equity l then (Inr None, l)
      else case money (dsub (lg_peak l) (lg_equity l)) of
        Inl e \<Rightarrow> (Inl e, l)
      | Inr dd \<Rightarrow> (case exposure_percent l (gross_exposure l) of
          Inl e \<Rightarrow> (Inl e, l)
        | Inr pct \<Rightarrow>
          (let pt = \<lparr>ep_seq = length (lg_equity_points l), ep_t_ms = Some t, ep_equity = lg_equity l,
                     ep_drawdown = dd, ep_gross_exposure_percent = pct\<rparr> in
           (Inr (Some pt), l\<lparr>lg_equity_points := lg_equity_points l @ [pt],
                             lg_last_point_equity := lg_equity l\<rparr>))))"
  by (simp add: commit_tick_def ledger_runs Let_def split: sum.split)

lemma fold_tick_run:
  "fold_tick t l =
     (if is_frozen l then (Inl LedgerFrozenError, l)
      else if lg_equity l = lg_last_point_equity l then (Inr None, l)
      else if lg_equity_points l \<noteq> [] \<and> ep_t_ms (last (lg_equity_points l)) = Some t then
        (case money (dsub (lg_peak l) (lg_equity l)) of
          Inl e \<Rightarrow> (Inl e, l)
        | Inr dd \<Rightarrow> (case exposure_percent l (gross_exposure l) of
            Inl e \<Rightarrow> (Inl e, l)
          | Inr pct \<Rightarrow>
            (let prev = last (lg_equity_points l);
                 pt = \<lparr>ep_seq = ep_seq prev, ep_t_ms = ep_t_ms prev, ep_equity = lg_equity l,
                       ep_drawdown = dd, ep_gross_exposure_percent = pct\<rparr> in
             (Inr (Some pt), l\<lparr>lg_equity_points := butlast (lg_equity_points l) @ [pt],
                               lg_last_point_equity := lg_equity l\<rparr>))))
      else commit_tick t l)"
  by (simp add: fold_tick_def ledger_runs Let_def split: sum.split)

lemma publish_snapshot_run:
  "publish_snapshot H t l =
     (case build_snapshot H t (lg_equity l) (sp_reserve_nominal (lg_plan l)) (sleeve_capacity l)
             (deployed_notional l) of
        Inl e \<Rightarrow> (Inl e, l) | Inr s \<Rightarrow> (Inr s, l\<lparr>lg_frozen_at := Some t\<rparr>))"
  by (simp add: publish_snapshot_def ledger_runs split: sum.split)

lemma begin_apply_run:
  "begin_apply t l =
     (if lg_frozen_at l \<noteq> None \<and> lg_frozen_at l \<noteq> Some t then (Inl LedgerFrozenError, l)
      else (Inr (), l\<lparr>lg_frozen_at := None\<rparr>))"
  by (simp add: begin_apply_def ledger_runs)

lemmas writer_runs = set_position_run close_position_run commit_tick_run fold_tick_run
  publish_snapshot_run begin_apply_run

lemma writer_same_books:
  "same_books l (snd (set_position i d sz price l))" "same_books l (snd (close_position i l))"
  "same_books l (snd (commit_tick t l))" "same_books l (snd (fold_tick t l))"
  "same_books l (snd (publish_snapshot H t l))" "same_books l (snd (begin_apply t l))"
  by (auto simp: writer_runs Let_def same_books_def split: sum.splits option.splits)

lemmas writer_books = writer_same_books [THEN same_books_ok, THEN iffD1]

lemma exec_books:
  assumes "books_ok l" "ledger_fits l" "exec_ledger H p l = (Inr x, l')" "ledger_fits l'"
  shows "books_ok l'"
proof (cases p)
    case (BookTrade i g c)
    then show ?thesis using assms by (auto simp: void_ok intro: book_trade_books)
  next
    case (BookFee i a)
    then show ?thesis using assms by (auto simp: void_ok book_cost_simps intro: book_cost_books)
  next
    case (BookFunding i a)
    then show ?thesis using assms by (auto simp: void_ok book_cost_simps intro: book_cost_books)
  next
    case (BookOtherCost i a)
    then show ?thesis using assms by (auto simp: void_ok book_cost_simps intro: book_cost_books)
  qed (use assms(1,3) in \<open>auto simp: void_ok intro: writer_books dest!: arg_cong [of _ _ snd]\<close>)

interpretation books: machine "exec_ledger H" ledger_fits books_ok for H
  by unfold_locales (rule exec_books)

section \<open>Properties of the books\<close>

lemma ledger_init_books:
  assumes "build_sleeve_plan p0 r shares compound = Inr pl" "wf_dict shares"
  shows "books_ok (ledger_init pl)"
proof -
  have pl: "cents (sp_pool_initial pl)" "sp_shares pl = shares"
    using assms(1) money_cents
    by (auto simp: build_sleeve_plan_def rbind_Inr_iff sleeve_plan_post_init_def Let_def split: if_splits)
  have "attr_line bl empty_attribution = 0" for bl
    by (cases bl) (simp_all add: empty_attribution_def attr_line.simps)
  moreover have "led_line bl (ledger_init pl) = 0" for bl
    by (cases bl) (simp_all add: ledger_init_def led_line.simps)
  ultimately have "line_ok bl (ledger_init pl)" for bl
    using pl by (auto simp: line_ok_def ledger_init_def dsum_def comp_def case_prod_beta sum_list_0)
  moreover have "wf_dict (lg_attribution (ledger_init pl))"
    using assms(2) pl by (simp add: ledger_init_def wf_dict_def comp_def case_prod_beta)
  moreover have "net_result (ledger_init pl) = 0"
    using \<open>\<And>bl. led_line bl (ledger_init pl) = 0\<close> by (simp add: net_result_def)
  ultimately show ?thesis using pl
    by (simp add: books_ok_def lines_ok_def) (simp add: ledger_init_def)
qed

lemma books_run:
  assumes "build_sleeve_plan p0 r shares compound = Inr pl" "wf_dict shares"
    and "run_ops (exec_ledger H) ledger_fits ops (ledger_init pl) = Some l"
  shows "books_ok l" "ledger_fits l"
  using books.run_inv [OF ledger_init_books [OF assms(1,2)] assms(3)] books.run_fits [OF assms(3)]
  by simp_all

lemma sub4_exact:
  assumes "cents a" "cents b" "cents c" "cents d"
    "\<bar>a\<bar> \<le> 2 * 10 ^ 25" "\<bar>b\<bar> < 10 ^ 25" "\<bar>c\<bar> < 10 ^ 25" "\<bar>d\<bar> < 10 ^ 25"
  shows "dsub (dsub (dsub a b) c) d = a - b - c - d"
proof -
  have 1: "dsub a b = a - b" using assms by (intro dsub_exact) simp_all
  have 2: "dsub (a - b) c = a - b - c" using assms by (intro dsub_exact on_grid_diff) simp_all
  have 3: "dsub (a - b - c) d = a - b - c - d" using assms by (intro dsub_exact on_grid_diff) simp_all
  show ?thesis unfolding 1 2 3 ..
qed

lemma books_identity:
  assumes "books_ok l" "ledger_fits l"
  shows "accounting_identity l = lg_equity l"
proof -
  let ?p = "sp_pool_initial (lg_plan l)"
  have c: "cents ?p" "cents (led_line bl l)" "\<bar>led_line bl l\<bar> < 10 ^ 25" "\<bar>?p\<bar> < 10 ^ 25" for bl
    using assms ledger_fitsD [OF assms(2), of bl]
    by (auto simp: books_ok_def lines_ok_def line_ok_def line_fits_def ledger_fits_def)
  have "dadd ?p (led_line Realized l) = ?p + led_line Realized l"
    unfolding dadd_def using c(1,2) c(3) [of Realized] c(4) by (intro cents_exact on_grid_add) simp_all
  moreover have "dsub (dsub (dsub (?p + led_line Realized l) (led_line Fees l)) (led_line Funding l))
      (led_line OtherCosts l)
    = ?p + led_line Realized l - led_line Fees l - led_line Funding l - led_line OtherCosts l"
    using c(3) [of Realized] c(3) [of Fees] c(3) [of Funding] c(3) [of OtherCosts] c(4)
    by (intro sub4_exact on_grid_add c(1,2)) simp_all
  ultimately show ?thesis using assms(1)
    by (simp add: books_ok_def net_result_def accounting_identity_def led_line.simps)
qed

text \<open>C32. For any sequence of successful bookings, position changes, snapshots and equity
  points on a fresh ledger whose figures stay below ten to the 25, the published
  accounting identity \<open>P0 + realized - fees - funding - other\<close>, evaluated in 28-digit decimal
  arithmetic, equals the equity exactly.\<close>

theorem ledger_identity_exact:
  assumes "build_sleeve_plan p0 r shares compound = Inr pl" "wf_dict shares"
    and "run_ops (exec_ledger H) ledger_fits ops (ledger_init pl) = Some l"
  shows "accounting_identity l = lg_equity l"
  using books_run [OF assms] by (rule books_identity)

text \<open>C33. The per-item attribution reconciles with the pool: after any such run the items' net
  contributions add up to the pool's gain over its initial capital.\<close>

theorem ledger_attribution_reconciles:
  assumes "build_sleeve_plan p0 r shares compound = Inr pl" "wf_dict shares"
    and "run_ops (exec_ledger H) ledger_fits ops (ledger_init pl) = Some l"
  shows "dsum net_contribution (lg_attribution l) = lg_equity l - sp_pool_initial (lg_plan l)"
proof -
  note b = books_run [OF assms]
  have net: "net_contribution (snd p) = attr_line Realized (snd p) - attr_line Fees (snd p)
      - attr_line Funding (snd p) - attr_line OtherCosts (snd p)"
    if p: "p \<in> set (lg_attribution l)" for p
  proof -
    have a: "cents (attr_line bl (snd p))" "\<bar>attr_line bl (snd p)\<bar> < 10 ^ 25" for bl
      using p b(1) ledger_fitsD [OF b(2), of bl]
      by (auto simp: books_ok_def lines_ok_def line_ok_def line_fits_def)
    have "dsub (dsub (dsub (attr_line Realized (snd p)) (attr_line Fees (snd p)))
        (attr_line Funding (snd p))) (attr_line OtherCosts (snd p)) = attr_line Realized (snd p)
        - attr_line Fees (snd p) - attr_line Funding (snd p) - attr_line OtherCosts (snd p)"
      using a(2) [of Realized] by (intro sub4_exact a) simp
    then show ?thesis by (simp add: net_contribution_def attr_line.simps)
  qed
  have "dsum net_contribution (lg_attribution l) = dsum (attr_line Realized) (lg_attribution l)
      - dsum (attr_line Fees) (lg_attribution l) - dsum (attr_line Funding) (lg_attribution l)
      - dsum (attr_line OtherCosts) (lg_attribution l)"
    by (simp add: dsum_cong [of "lg_attribution l" net_contribution, OF net] dsum_diff)
  then show ?thesis using b(1) by (simp add: books_ok_def lines_ok_def line_ok_def net_result_def)
qed

definition sample_plan :: "sleeve_plan res" where
  "sample_plan = build_sleeve_plan 1000 10 [(''a'', 50), (''b'', 30)] True"

definition sample_ops :: "ledger_op list" where
  "sample_ops = [BookTrade ''a'' (125/2) (151/100), SetPosition ''b'' ''short'' 2 100,
     BookFee ''b'' (1/4), BookFunding ''a'' (-2)]"

definition sample_ledger :: "ledger option" where
  "sample_ledger = (case sample_plan of Inl _ \<Rightarrow> None
     | Inr pl \<Rightarrow> run_ops (exec_ledger (\<lambda>_. [])) ledger_fits sample_ops (ledger_init pl))"

lemmas plan_eval = build_sleeve_plan_def money_def sleeve_plan_post_init_def dsum_list_def
  sleeve_amounts_def

lemmas ledger_eval = run_ops.simps void_run ledger_init_def is_frozen_def
  writer_runs book_cost_simps book_cost_run book_trade_run
  post_line_def set_attribution_def set_equity_def ledger_fits_def line_fits_def led_line.simps
  attr_line.simps empty_attribution_def open_position_post_init_def available_capital_def
  plan_allocatable_def gross_exposure_def exposure_percent_def sleeve_capacity_def
  plan_sleeve_capacity_def deployed_notional_def build_snapshot_def snapshot_post_init_def

lemma sample_run: "map_option lg_equity sample_ledger = Some (53137/50)"
  by (simp add: sample_ledger_def sample_plan_def sample_ops_def plan_eval ledger_eval dec_eval
      cong: let_weak_cong)

lemma sample_ledgerE:
  obtains pl l where "build_sleeve_plan 1000 10 [(''a'', 50), (''b'', 30)] True = Inr pl"
    "wf_dict [(''a'', 50 :: rat), (''b'', 30)]"
    "run_ops (exec_ledger (\<lambda>_. [])) ledger_fits sample_ops (ledger_init pl) = Some l"
    "lg_equity l = 53137/50" "sample_ledger = Some l"
  using sample_run by (auto simp: sample_ledger_def sample_plan_def wf_dict_def split: sum.splits)

theorem ledger_identity_exact_witness:
  "map_option accounting_identity sample_ledger = Some (53137/50)"
proof (rule sample_ledgerE)
  fix pl l
  assume h: "build_sleeve_plan 1000 10 [(''a'', 50), (''b'', 30)] True = Inr pl"
    "wf_dict [(''a'', 50 :: rat), (''b'', 30)]"
    "run_ops (exec_ledger (\<lambda>_. [])) ledger_fits sample_ops (ledger_init pl) = Some l"
    and e: "lg_equity l = 53137/50" and s: "sample_ledger = Some l"
  from ledger_identity_exact [OF h] show ?thesis by (simp add: s e)
qed

theorem ledger_attribution_reconciles_witness:
  "map_option (\<lambda>l. dsum net_contribution (lg_attribution l) - lg_equity l
     + sp_pool_initial (lg_plan l)) sample_ledger = Some 0"
proof (rule sample_ledgerE)
  fix pl l
  assume h: "build_sleeve_plan 1000 10 [(''a'', 50), (''b'', 30)] True = Inr pl"
    "wf_dict [(''a'', 50 :: rat), (''b'', 30)]"
    "run_ops (exec_ledger (\<lambda>_. [])) ledger_fits sample_ops (ledger_init pl) = Some l"
    and e: "lg_equity l = 53137/50" and s: "sample_ledger = Some l"
  from ledger_attribution_reconciles [OF h] show ?thesis by (simp add: s e)
qed

end
