(* ===== verification/Ledger_Safety.thy ===== *)
theory Ledger_Safety
  imports Ledger_Books
begin

text \<open>
  What the ledger keeps when a call fails, while it is frozen, and along its equity curve; and
  what a valuation reports about positions it cannot mark.
\<close>

section \<open>The equity curve\<close>

definition curve_ok :: "ledger \<Rightarrow> bool" where
  "curve_ok l \<longleftrightarrow> lg_equity_points l \<noteq> [] \<and>
     (\<forall>k < length (lg_equity_points l). ep_seq (lg_equity_points l ! k) = k) \<and>
     lg_last_point_equity l = ep_equity (last (lg_equity_points l)) \<and>
     lg_equity l \<le> lg_peak l \<and>
     (\<forall>p \<in> set (lg_equity_points l). 0 \<le> ep_drawdown p \<and> ep_equity p \<le> lg_peak l)"

definition same_curve :: "ledger \<Rightarrow> ledger \<Rightarrow> bool" where
  "same_curve l m \<longleftrightarrow> lg_equity_points m = lg_equity_points l \<and>
     lg_last_point_equity m = lg_last_point_equity l \<and> lg_peak l \<le> lg_peak m \<and>
     lg_equity m \<le> max (lg_peak m) (lg_equity l)"

lemma same_curve_ok: "same_curve l m \<Longrightarrow> curve_ok l \<Longrightarrow> curve_ok m"
  unfolding same_curve_def curve_ok_def by fastforce

lemma same_curve_simps [simp]:
  "same_curve l l" "same_curve l (set_equity e l)"
  "same_curve l (post_line bl i d m) = same_curve l m"
  by (auto simp: same_curve_def)

lemma money_nonneg: "money x = Inr q \<Longrightarrow> 0 \<le> x \<Longrightarrow> 0 \<le> q"
  by (auto simp: money_def quantize_Inr_iff grid.nonneg)

lemma drawdown_nonneg: "money (dsub a b) = Inr d \<Longrightarrow> b \<le> a \<Longrightarrow> 0 \<le> d"
  by (erule money_nonneg) (simp add: dsub_def)

lemma curve_append:
  assumes "curve_ok l" "0 \<le> dd"
  shows "curve_ok (l\<lparr>lg_equity_points := lg_equity_points l @
      [\<lparr>ep_seq = length (lg_equity_points l), ep_t_ms = t, ep_equity = lg_equity l,
        ep_drawdown = dd, ep_gross_exposure_percent = pct\<rparr>],
    lg_last_point_equity := lg_equity l\<rparr>)"
  using assms by (auto simp: curve_ok_def nth_append less_Suc_eq)

lemma curve_fold:
  assumes "curve_ok l" "0 \<le> dd"
  shows "curve_ok (l\<lparr>lg_equity_points := butlast (lg_equity_points l) @
      [\<lparr>ep_seq = ep_seq (last (lg_equity_points l)), ep_t_ms = t, ep_equity = lg_equity l,
        ep_drawdown = dd, ep_gross_exposure_percent = pct\<rparr>],
    lg_last_point_equity := lg_equity l\<rparr>)"
  using assms
  by (auto simp: curve_ok_def nth_append last_conv_nth nth_butlast less_Suc_eq dest: in_set_butlastD)

lemma book_same_curve:
  "same_curve l (snd (book_trade i g c l))" "same_curve l (snd (book_cost bl i a l))"
  by (simp_all add: book_trade_run book_cost_run Let_def split: sum.split)

lemma writer_same_curve:
  "same_curve l (snd (set_position i d sz price l))" "same_curve l (snd (close_position i l))"
  "same_curve l (snd (publish_snapshot H t l))" "same_curve l (snd (begin_apply t l))"
  by (auto simp: writer_runs Let_def same_curve_def split: sum.splits option.splits)

lemma commit_curve: "curve_ok l \<Longrightarrow> curve_ok (snd (commit_tick t l))"
  by (auto simp: commit_tick_run Let_def split: sum.split intro!: curve_append elim: drawdown_nonneg)
    (auto simp: curve_ok_def elim: drawdown_nonneg)

lemma fold_curve: "curve_ok l \<Longrightarrow> curve_ok (snd (fold_tick t l))"
  by (auto simp: fold_tick_run Let_def commit_curve split: sum.split intro!: curve_fold)
    (auto simp: curve_ok_def elim: drawdown_nonneg)

lemma void_snd [simp]: "snd (void m s) = snd (m s)"
  by (simp add: void_run split: prod.split sum.split)

lemma exec_curve: "curve_ok l \<Longrightarrow> curve_ok (snd (exec_ledger H p l))"
  by (cases p) (auto simp: book_cost_simps commit_curve fold_curve
      intro: book_same_curve [THEN same_curve_ok] writer_same_curve [THEN same_curve_ok])

interpretation curve: resilient "exec_ledger H" curve_ok for H
  by unfold_locales (metis exec_curve snd_conv)+

lemma ledger_init_curve: "curve_ok (ledger_init pl)"
  by (simp add: curve_ok_def ledger_init_def)

text \<open>Whatever operations are tried on a new ledger, in whatever order and however many of
  them raise, the equity curve stays well formed: it is never empty, point k carries sequence
  number k, the dedupe marker is the last point's equity, no drawdown is negative and no point
  lies above the recorded peak.\<close>

theorem equity_curve_well_formed:
  fixes pl H ops
  defines "l \<equiv> drive (exec_ledger H) ops (ledger_init pl)"
  shows "lg_equity_points l \<noteq> [] \<and> map ep_seq (lg_equity_points l) = [0..<length (lg_equity_points l)] \<and>
    lg_last_point_equity l = ep_equity (last (lg_equity_points l)) \<and> lg_equity l \<le> lg_peak l \<and>
    list_all (\<lambda>p. 0 \<le> ep_drawdown p \<and> ep_equity p \<le> lg_peak l) (lg_equity_points l)"
  using curve.drive_inv [OF ledger_init_curve, of H ops pl] unfolding l_def
  by (auto simp: curve_ok_def list_all_iff intro: nth_equalityI)

section \<open>Failing calls\<close>

lemma dpop_missing: "dget d k = None \<Longrightarrow> dpop k d = d"
  by (induction d) (auto split: if_splits)

definition moves_before_lookup :: "ledger_op \<Rightarrow> bool" where
  "moves_before_lookup p = (case p of BookTrade _ _ _ \<Rightarrow> True | _ \<Rightarrow> False)"

text \<open>C36. A failing operation other than \<open>book_trade\<close> leaves the ledger exactly as it was.\<close>

theorem failed_operation_leaves_ledger:
  assumes "exec_ledger H p l = (Inl e, l')" "\<not> moves_before_lookup p"
  shows "l' = l"
  using assms
  by (cases p) (auto simp: moves_before_lookup_def book_cost_simps book_cost_run void_run writer_runs
      Let_def dpop_missing split: if_splits sum.splits option.splits)

text \<open>\<open>book_trade\<close> on an item the plan does not list raises \<open>UnknownLedgerItemError\<close> after the
  equity has already moved by the net result, while the totals behind the accounting identity
  have not: the published identity no longer equals the equity.\<close>

theorem book_trade_unknown_item_moves_equity:
  assumes "\<not> is_frozen l" "dget (lg_attribution l) i = None" "money (dsub g c) = Inr net"
    "money (dadd (lg_equity l) net) = Inr q" "money c = Inr fee"
  shows "fst (book_trade i g c l) = Inl UnknownLedgerItemError \<and>
    lg_equity (snd (book_trade i g c l)) = q \<and>
    accounting_identity (snd (book_trade i g c l)) = accounting_identity l"
  using assms by (simp_all add: book_trade_run accounting_identity_def set_equity_def)

section \<open>The freeze\<close>

definition crosses_freeze :: "ledger_op \<Rightarrow> bool" where
  "crosses_freeze p = (case p of PublishSnapshot _ \<Rightarrow> True | BeginApply _ \<Rightarrow> True | _ \<Rightarrow> False)"

text \<open>While a snapshot is published, every other writer raises \<open>LedgerFrozenError\<close> and changes
  nothing.\<close>

theorem frozen_ledger_refuses_writes:
  assumes "is_frozen l" "\<not> crosses_freeze p"
  shows "exec_ledger H p l = (Inl LedgerFrozenError, l)"
  using assms
  by (cases p) (simp_all add: crosses_freeze_def book_cost_simps book_cost_run void_run writer_runs
      book_trade_run)

lemma publish_then_apply:
  assumes "publish_snapshot H t l = (Inr s, l')"
  shows "l' = l\<lparr>lg_frozen_at := Some t\<rparr>" "begin_apply t l' = (Inr (), l\<lparr>lg_frozen_at := None\<rparr>)"
  using assms by (auto simp: publish_snapshot_run begin_apply_run split: sum.splits)

text \<open>Publishing the snapshot of tick t copies the ledger's equity and reserve into it,
  freezes the ledger at t without touching anything else, and only \<open>begin_apply\<close> of the same
  tick opens it again.\<close>

theorem snapshot_freezes_until_its_tick:
  assumes "publish_snapshot H t l = (Inr s, l')"
  shows "sn_t_ms s = t \<and> sn_equity s = lg_equity l \<and> sn_deployed_notional s = deployed_notional l \<and>
    sn_sleeve_capacity s = sleeve_capacity l \<and> l' = l\<lparr>lg_frozen_at := Some t\<rparr> \<and>
    (is_ok (fst (begin_apply t' l')) = (t' = t)) \<and>
    begin_apply t l' = (Inr (), l\<lparr>lg_frozen_at := None\<rparr>)"
  using assms
  by (auto simp: publish_snapshot_run begin_apply_run build_snapshot_fields split: sum.splits)

section \<open>Valuation fails closed\<close>

definition usable_at :: "(item_id, mark_price) dict \<Rightarrow> item_id \<Rightarrow> bool" where
  "usable_at M i = (case dget M i of None \<Rightarrow> False | Some m \<Rightarrow> is_usable m)"

definition stale_at :: "(item_id, mark_price) dict \<Rightarrow> item_id \<Rightarrow> bool" where
  "stale_at M i = (case dget M i of None \<Rightarrow> False | Some m \<Rightarrow> is_stale_refused m)"

lemma stale_unusable: "stale_at M i \<Longrightarrow> \<not> usable_at M i"
  by (auto simp: stale_at_def usable_at_def is_usable_def is_stale_refused_def split: option.splits)

lemma valuation_loop_items:
  "valuation_loop P M is acc = Inr (u', g', n', um', sr') \<Longrightarrow>
   acc = (u, g, n, um, sr) \<Longrightarrow>
     um' = um @ filter (\<lambda>i. \<not> usable_at M i) is \<and> sr' = sr @ filter (stale_at M) is"
proof (induction P M "is" acc arbitrary: u g n um sr rule: valuation_loop.induct)
  case (1 P M acc)
  then show ?case by simp
next
  case (2 P M i "is" u0 g0 n0 um0 sr0)
  from "2.prems"(1) obtain p where p: "dget P i = Some p"
    by (auto split: option.splits)
  show ?case
  proof (cases "dget M i")
    case None
    then show ?thesis using "2.prems" "2.IH"(1) [OF p refl refl None] p
      by (simp add: usable_at_def stale_at_def)
  next
    case (Some m)
    show ?thesis
    proof (cases "is_usable m")
      case True
      then have "\<not> is_stale_refused m" by (auto simp: is_usable_def split: if_splits)
      then show ?thesis using "2.prems" "2.IH"(3) [OF p refl refl Some] True p Some
        by (auto simp: rbind_Inr_iff usable_at_def stale_at_def)
    next
      case False
      then show ?thesis using "2.prems" "2.IH"(2) [OF p refl refl Some] False p Some
        by (simp add: usable_at_def stale_at_def split: if_splits)
    qed
  qed
qed

text \<open>A valuation reports exactly the held items without a usable mark, in order; the
  unrealized PnL and the marked exposures are published precisely when there is no such item,
  and every stale mark counts as missing.\<close>

theorem valuation_fails_closed:
  assumes "valuation l t M = Inr v"
  shows "vp_unmarked_items v = filter (\<lambda>i. \<not> usable_at M i) (sort (map fst (lg_positions l))) \<and>
    (vp_unrealized_pnl v \<noteq> None) = (vp_unmarked_items v = []) \<and>
    (vp_marked_gross_exposure v \<noteq> None) = (vp_unmarked_items v = []) \<and>
    (vp_marked_net_exposure v \<noteq> None) = (vp_unmarked_items v = []) \<and>
    set (vp_stale_refused_items v) \<subseteq> set (vp_unmarked_items v)"
proof -
  obtain u g n um sr where loop: "valuation_loop (lg_positions l) M
      (sort (map fst (lg_positions l))) (0, 0, 0, [], []) = Inr (u, g, n, um, sr)"
    and v: "vp_unmarked_items v = um" "vp_stale_refused_items v = sr"
      "vp_unrealized_pnl v = (if um = [] then Some u else None)"
      "vp_marked_gross_exposure v = (if um = [] then Some g else None)"
      "vp_marked_net_exposure v = (if um = [] then Some n else None)"
    using assms by (auto simp: valuation_def rbind_Inr_iff Let_def)
  from valuation_loop_items [OF loop refl] show ?thesis unfolding v
    by (auto dest: stale_unusable)
qed

section \<open>Concrete runs\<close>

definition demo_plan :: sleeve_plan where
  "demo_plan = \<lparr>sp_pool_initial = 1000, sp_reserve_nominal = 100, sp_shares = [(''a'', 50), (''b'', 30)],
     sp_compound = True, sp_allocatable_initial = 900, sp_initial_sleeves = [(''a'', 450), (''b'', 270)],
     sp_unallocated_initial = 180\<rparr>"

lemma demo_plan_built: "build_sleeve_plan 1000 10 [(''a'', 50), (''b'', 30)] True = Inr demo_plan"
  by (simp add: demo_plan_def plan_eval dec_eval cong: let_weak_cong)

definition demo_ledger :: ledger where
  "demo_ledger = (ledger_init demo_plan)\<lparr>lg_positions := [(''a'', \<lparr>op_item_id = ''a'',
     op_direction = ''long'', op_size = 2, op_entry_price = 100, op_notional = 200\<rparr>)]\<rparr>"

lemmas demo_eval = demo_ledger_def demo_plan_def ledger_eval plan_eval dec_eval

theorem failed_operation_leaves_ledger_witness:
  "snd (exec_ledger (\<lambda>_. []) (SetPosition ''b'' ''long'' 8 100) demo_ledger) = demo_ledger"
proof -
  have "exec_ledger (\<lambda>_. []) (SetPosition ''b'' ''long'' 8 100) demo_ledger
      = (Inl LedgerSolvencyViolation,
         snd (exec_ledger (\<lambda>_. []) (SetPosition ''b'' ''long'' 8 100) demo_ledger))"
    by (simp add: demo_eval cong: let_weak_cong)
  from failed_operation_leaves_ledger [OF this] show ?thesis by (simp add: moves_before_lookup_def)
qed

theorem book_trade_unknown_item_moves_equity_witness:
  "fst (book_trade ''z'' 50 (1/2) demo_ledger) = Inl UnknownLedgerItemError \<and>
   lg_equity (snd (book_trade ''z'' 50 (1/2) demo_ledger)) = 2099/2 \<and>
   accounting_identity (snd (book_trade ''z'' 50 (1/2) demo_ledger)) = 1000"
proof -
  have h: "\<not> is_frozen demo_ledger" "dget (lg_attribution demo_ledger) ''z'' = None"
    "money (dsub 50 (1/2)) = Inr (99/2)" "money (dadd (lg_equity demo_ledger) (99/2)) = Inr (2099/2)"
    "money (1/2) = Inr (1/2)"
    by (simp_all add: demo_eval cong: let_weak_cong)
  have "accounting_identity demo_ledger = 1000"
    by (simp add: demo_eval accounting_identity_def)
  then show ?thesis using book_trade_unknown_item_moves_equity [OF h] by simp
qed

theorem frozen_ledger_refuses_writes_witness:
  "exec_ledger (\<lambda>_. []) (BookFee ''a'' 1) (demo_ledger\<lparr>lg_frozen_at := Some 7\<rparr>)
     = (Inl LedgerFrozenError, demo_ledger\<lparr>lg_frozen_at := Some 7\<rparr>)"
  by (rule frozen_ledger_refuses_writes) (simp_all add: is_frozen_def crosses_freeze_def)

theorem snapshot_freezes_until_its_tick_witness:
  "\<exists>s. publish_snapshot (\<lambda>_. []) 7 demo_ledger = (Inr s, demo_ledger\<lparr>lg_frozen_at := Some 7\<rparr>) \<and>
     sn_equity s = 1000 \<and> \<not> is_ok (fst (begin_apply 8 (demo_ledger\<lparr>lg_frozen_at := Some 7\<rparr>)))"
proof -
  have "is_ok (fst (publish_snapshot (\<lambda>_. []) 7 demo_ledger))"
    by (simp add: demo_eval cong: let_weak_cong)
  then obtain s l' where "publish_snapshot (\<lambda>_. []) 7 demo_ledger = (Inr s, l')"
    by (cases "publish_snapshot (\<lambda>_. []) 7 demo_ledger") (auto simp: is_ok_iff)
  from this snapshot_freezes_until_its_tick [OF this, of 8] show ?thesis
    by (auto simp: demo_ledger_def demo_plan_def ledger_init_def)
qed

theorem valuation_fails_closed_witness:
  "\<exists>v. valuation demo_ledger 7 [(''b'', \<lparr>mk_price = 5, mk_authority = FreshBarClose,
      mk_staleness_ms = None\<rparr>)] = Inr v \<and> vp_unmarked_items v = [''a''] \<and> vp_unrealized_pnl v = None"
proof -
  let ?M = "[(''b'', \<lparr>mk_price = 5 :: rat, mk_authority = FreshBarClose, mk_staleness_ms = None\<rparr>)]"
  have "is_ok (valuation demo_ledger 7 ?M)"
    by (simp add: valuation_def demo_eval cong: let_weak_cong)
  then obtain v where v: "valuation demo_ledger 7 ?M = Inr v" by (auto simp: is_ok_iff)
  have "filter (\<lambda>i. \<not> usable_at ?M i) (sort (map fst (lg_positions demo_ledger))) = [''a'']"
    by (simp add: demo_ledger_def usable_at_def)
  with v valuation_fails_closed [OF v] show ?thesis by auto
qed

end
