(* ===== verification/Ledger_Capacity.thy ===== *)
theory Ledger_Capacity
  imports Ledger_Safety
begin

text \<open>
  Solvency of the shared ledger: what a position change can do to the gross exposure, what
  \<open>resolve_capacity\<close> grants, and that a grant can be opened.
\<close>

section \<open>The gross exposure is an exact sum\<close>

lemma dpop_subset: "p \<in> set (dpop k d) \<Longrightarrow> p \<in> set d"
  by (induction d) (auto split: if_splits)

lemma foldl_dadd_exact:
  assumes "cents a" "0 \<le> a" "\<forall>x \<in> set xs. cents x \<and> 0 \<le> x" "a + sum_list xs < 10 ^ 25"
  shows "foldl dadd a xs = a + sum_list xs"
  using assms
proof (induction xs arbitrary: a)
  case Nil
  then show ?case by simp
next
  case (Cons x xs)
  have nn: "0 \<le> sum_list xs" using Cons.prems(3) by (intro sum_list_nonneg) auto
  have c: "cents (a + x)" "0 \<le> a + x" using Cons.prems by auto
  have "\<bar>a + x\<bar> \<le> 10 ^ 26" using Cons.prems nn by auto
  then have "dadd a x = a + x" unfolding dadd_def using c by (intro cents_exact)
  then show ?case using Cons.IH [OF c] Cons.prems by (simp add: add.assoc)
qed

definition pos_ok :: "ledger \<Rightarrow> bool" where
  "pos_ok l \<longleftrightarrow> wf_dict (lg_positions l) \<and> (\<forall>p \<in> set (lg_positions l). cents (op_notional (snd p)))"

definition pos_fits :: "ledger \<Rightarrow> bool" where
  "pos_fits l \<longleftrightarrow> (\<forall>p \<in> set (lg_positions l). 0 \<le> op_notional (snd p)) \<and>
     dsum op_notional (lg_positions l) < 10 ^ 25"

lemma gross_exact:
  assumes "pos_ok l" "pos_fits l"
  shows "gross_exposure l = dsum op_notional (lg_positions l)"
  using foldl_dadd_exact [of 0 "map (op_notional \<circ> snd) (lg_positions l)"] assms
  by (simp add: gross_exposure_def dsum_list_def dsum_def pos_ok_def pos_fits_def)

lemma pos_ok_dset: "pos_ok l \<Longrightarrow> cents (op_notional c) \<Longrightarrow>
    pos_ok (l\<lparr>lg_positions := dset i c (lg_positions l)\<rparr>)"
  by (auto simp: pos_ok_def dest!: dset_set)

lemma pos_ok_dpop: "pos_ok l \<Longrightarrow> pos_ok (l\<lparr>lg_positions := dpop i (lg_positions l)\<rparr>)"
  by (auto simp: pos_ok_def dest!: dpop_subset)

lemma pos_ok_cong: "lg_positions m = lg_positions l \<Longrightarrow> pos_ok l \<Longrightarrow> pos_ok m"
  by (simp add: pos_ok_def)

lemma post_init_cents: "open_position_post_init i d sz price = Inr c \<Longrightarrow> cents (op_notional c)"
  by (auto simp: open_position_post_init_def rbind_Inr_iff money_cents split: if_splits)

lemma other_positions:
  "lg_positions (snd (book_trade i g c l)) = lg_positions l"
  "lg_positions (snd (book_cost bl i a l)) = lg_positions l"
  "lg_positions (snd (commit_tick t l)) = lg_positions l"
  "lg_positions (snd (fold_tick t l)) = lg_positions l"
  "lg_positions (snd (publish_snapshot H t l)) = lg_positions l"
  "lg_positions (snd (begin_apply t l)) = lg_positions l"
  by (auto simp: book_trade_run book_cost_run writer_runs Let_def split: sum.split)

lemma set_position_positions: "pos_ok l \<Longrightarrow> pos_ok (snd (set_position i d sz price l))"
  by (auto simp: set_position_run Let_def post_init_cents intro: pos_ok_dset split: sum.split)

lemma close_position_positions: "pos_ok l \<Longrightarrow> pos_ok (snd (close_position i l))"
  by (auto simp: close_position_run intro: pos_ok_dpop split: option.split)

lemma exec_positions: "pos_ok l \<Longrightarrow> pos_ok (snd (exec_ledger H p l))"
  by (cases p) (auto simp: book_cost_simps set_position_positions close_position_positions
      intro: other_positions [THEN pos_ok_cong])

interpretation positions: machine "exec_ledger H" pos_fits pos_ok for H
  by unfold_locales (metis exec_positions snd_conv)

lemma init_positions: "pos_ok (ledger_init pl)"
  by (simp add: pos_ok_def ledger_init_def wf_dict_def)

section \<open>No borrowing\<close>

text \<open>A cent amount below a representable one can be subtracted from it exactly.\<close>

lemma headroom_exact:
  assumes a: "representable a" "a \<le> 10 ^ 26" and g: "cents g" "0 \<le> g" "g \<le> a"
  shows "dsub a g = a - g"
proof -
  obtain c k where c: "a = of_int c * 10 powi k" "\<bar>c\<bar> \<le> 10 ^ 28"
    using a(1) unfolding representable_def by blast
  have "representable (a - g)"
  proof (cases "-2 \<le> k")
    case True
    have "a * 10 ^ 2 = of_int c * 10 powi (k + 2)" unfolding c(1) p10_add by simp
    also have "\<dots> = of_int (c * 10 ^ nat (k + 2))" using True by (simp add: power_int_def)
    finally have "cents a" by (rule on_gridI)
    then show ?thesis using g a by (intro grid_representable [of 2] on_grid_diff) auto
  next
    case False
    obtain m where m: "g = of_int m / 10 ^ 2" using g(1) by (rule on_gridE)
    define m' where "m' = m * 10 ^ nat (- 2 - k)"
    have "(10::rat) powi (-2) = 10 powi (- 2 - k) * 10 powi k" by (simp flip: p10_add)
    also have "(10::rat) powi (- 2 - k) = 10 ^ nat (- 2 - k)"
      using False by (simp add: power_int_def)
    finally have "(10::rat) powi (-2) = 10 ^ nat (- 2 - k) * 10 powi k" .
    moreover have "(10::rat) powi (-2) = 1 / 10 ^ 2" by (simp add: power_int_def power2_eq_square)
    ultimately have "g = of_int m * (10 ^ nat (- 2 - k) * 10 powi k)" unfolding m by (metis times_divide_eq_right mult.right_neutral)
    then have d: "a - g = of_int (c - m') * 10 powi k"
      unfolding c(1) m'_def by (simp add: left_diff_distrib)
    have "0 \<le> of_int (c - m') * (10::rat) powi k" unfolding d [symmetric] using g(3) by simp
    then have "0 \<le> (of_int (c - m') :: rat)" using p10_pos [of k] by (simp add: zero_le_mult_iff)
    moreover have "of_int (c - m') * (10::rat) powi k \<le> of_int c * 10 powi k"
      unfolding d [symmetric] c(1) [symmetric] using g(2) by simp
    then have "(of_int (c - m') :: rat) \<le> of_int c" by simp
    ultimately have "\<bar>c - m'\<bar> \<le> 10 ^ 28" using c(2) by (simp only: of_int_le_iff of_int_0_le_iff)
    then show ?thesis by (rule representableI [OF d])
  qed
  then show ?thesis by (simp add: dsub_def)
qed

lemma available_exact:
  assumes "pos_ok l" "pos_fits l" "0 < x" "x \<le> available_capital l" "x < 10 ^ 25"
  shows "gross_exposure l + x \<le> plan_allocatable (lg_plan l) (lg_equity l)"
proof -
  let ?A = "plan_allocatable (lg_plan l) (lg_equity l)" and ?g = "gross_exposure l"
  have g: "cents ?g" "0 \<le> ?g" "?g < 10 ^ 25"
  proof -
    have "cents (dsum op_notional d)" if "\<forall>p \<in> set d. cents (op_notional (snd p))"
      for d :: "(item_id, open_position) dict"
      using that by (induction d) auto
    then show "cents ?g" using assms(1) by (simp add: gross_exact [OF assms(1,2)] pos_ok_def)
    show "0 \<le> ?g" "?g < 10 ^ 25" using assms(2)
      by (auto simp: gross_exact [OF assms(1,2)] pos_fits_def intro: dsum_nonneg)
  qed
  have pos: "0 < dsub ?A ?g" "x \<le> dsub ?A ?g" using assms(3,4)
    by (auto simp: available_capital_def max_def split: if_splits)
  then have le: "?g \<le> ?A" unfolding dsub_def using ctx.pos_of_pos [of "?A - ?g"] by simp
  show ?thesis
  proof (cases "?A \<le> 10 ^ 26")
    case True
    have "representable 0" by (rule representableI [of _ 0 0]) simp_all
    then have "representable ?A" by (auto simp: plan_allocatable_def max_def dsub_def)
    then have "dsub ?A ?g = ?A - ?g" using True g le by (intro headroom_exact)
    then show ?thesis using pos(2) by simp
  next
    case False
    then show ?thesis using g(3) assms(5) by simp
  qed
qed

lemma op_notional_post_init:
  "open_position_post_init i d sz price = Inr c \<Longrightarrow>
     money (dmul price sz) = Inr (op_notional c) \<and> op_direction c = d \<and> op_size c = sz \<and>
     op_item_id c = i \<and> op_entry_price c = price"
  by (auto simp: open_position_post_init_def rbind_Inr_iff split: if_splits)

text \<open>C34. No borrowing: in any state reached by successful operations (with non-negative
  notionals whose sum is below ten to the 25), a successful \<open>set_position\<close> that raises the gross
  exposure leaves it within the capital that is allocatable at that moment.\<close>

theorem set_position_never_borrows:
  assumes run: "run_ops (exec_ledger H) pos_fits ops (ledger_init pl) = Some l"
    and call: "set_position i d sz price l = (Inr c, l')" and fits: "pos_fits l'"
    and grows: "gross_exposure l < gross_exposure l'"
  shows "gross_exposure l' \<le> plan_allocatable (lg_plan l') (lg_equity l')"
proof -
  have ok: "pos_ok l" "pos_fits l"
    using positions.run_inv [OF init_positions run] positions.run_fits [OF run] by simp_all
  have ok': "pos_ok l'" using set_position_positions [OF ok(1)] call by (metis snd_conv)
  let ?old = "case dget (lg_positions l) i of None \<Rightarrow> 0 | Some h \<Rightarrow> op_notional h"
  from call have l': "l' = l\<lparr>lg_positions := dset i c (lg_positions l)\<rparr>"
    and c: "open_position_post_init i d sz price = Inr c"
    and solvent: "dsub (op_notional c) ?old > 0 \<longrightarrow> dsub (op_notional c) ?old \<le> available_capital l"
    by (auto simp: set_position_run Let_def split: if_splits sum.splits)
  have sums: "gross_exposure l' = gross_exposure l + (op_notional c - ?old)"
    using ok(1) unfolding gross_exact [OF ok] gross_exact [OF ok' fits] unfolding l'
    by (simp add: dsum_dset pos_ok_def split: option.split)
  have old: "cents ?old" "0 \<le> ?old" using ok
    by (auto simp: pos_ok_def pos_fits_def split: option.split dest!: map_of_SomeD)
  have new: "cents (op_notional c)" using op_notional_post_init [OF c] money_cents by blast
  have "gross_exposure l' < 10 ^ 25" using fits by (simp add: gross_exact [OF ok' fits] pos_fits_def)
  moreover have "0 \<le> gross_exposure l - ?old"
  proof -
    have "dsum op_notional (dpop i (lg_positions l)) = gross_exposure l - ?old"
      using ok(1) by (simp add: gross_exact [OF ok] dsum_dpop pos_ok_def split: option.split)
    moreover have "0 \<le> dsum op_notional (dpop i (lg_positions l))" using ok(2)
      by (intro dsum_nonneg) (auto simp: pos_fits_def dest: dpop_subset)
    ultimately show ?thesis by simp
  qed
  ultimately have b: "op_notional c < 10 ^ 25" using sums by simp
  have inc: "0 < op_notional c - ?old" using grows sums by simp
  have "dsub (op_notional c) ?old = op_notional c - ?old"
    using b old new inc by (intro dsub_exact) auto
  then have "op_notional c - ?old \<le> available_capital l" using solvent inc by simp
  then have "gross_exposure l + (op_notional c - ?old) \<le> plan_allocatable (lg_plan l) (lg_equity l)"
    using inc b old by (intro available_exact ok) auto
  then show ?thesis unfolding sums by (simp add: l')
qed

section \<open>What a capacity decision grants\<close>

definition allows :: "rat \<Rightarrow> rat \<Rightarrow> rat \<Rightarrow> bool" where
  "allows price headroom units \<longleftrightarrow> (\<exists>u. cap_units headroom price = Inr u \<and> 0 < u \<and> units \<le> u)"

lemma allows_mono: "allows price h u \<Longrightarrow> v \<le> u \<Longrightarrow> allows price h v"
  by (meson allows_def order_trans)

lemma cap_loop_binding:
  "cap_loop price ls granted binding = Inr (Inr (units, b)) \<Longrightarrow>
     (units = granted \<and> b = binding) \<or> (units < granted \<and> b \<noteq> None)"
  by (induction price ls granted binding rule: cap_loop.induct)
    (fastforce simp: rbind_Inr_iff split: if_splits)+

lemma cap_loop_grant:
  "cap_loop price ls granted binding = Inr (Inr (units, b)) \<Longrightarrow> 0 < granted \<Longrightarrow>
     0 < units \<and> units \<le> granted \<and> (\<forall>c x r. (c, Some x, r) \<in> set ls \<longrightarrow> allows price x units)"
proof (induction price ls granted binding rule: cap_loop.induct)
  case (3 price c headroom reason ls granted binding)
  from "3.prems"(1) obtain a where a: "cap_units headroom price = Inr a" "\<not> a \<le> 0"
    and r: "(if a < granted then cap_loop price ls a (Some c) else cap_loop price ls granted binding)
      = Inr (Inr (units, b))"
    by (auto simp: rbind_Inr_iff split: if_splits)
  have al: "allows price headroom a" using a by (auto simp: allows_def)
  show ?case
  proof (cases "a < granted")
    case True
    with "3.IH"(1) [OF a(2) True] r a(2)
    have "0 < units \<and> units \<le> a \<and> (\<forall>c x r. (c, Some x, r) \<in> set ls \<longrightarrow> allows price x units)"
      by simp
    then show ?thesis using True allows_mono [OF al, of units] by auto
  next
    case False
    with "3.IH"(2) [OF a(2) False] r "3.prems"(2)
    have "0 < units \<and> units \<le> granted \<and> (\<forall>c x r. (c, Some x, r) \<in> set ls \<longrightarrow> allows price x units)"
      by simp
    then show ?thesis using False allows_mono [OF al, of units] by auto
  qed
qed auto

lemma capacity_decision_ofD:
  "capacity_decision_of i req price lims out g bnd rsn = Inr d \<Longrightarrow>
     cd_item_id d = i \<and> cd_outcome d = out \<and> cd_requested_units d = req \<and> cd_granted_units d = g \<and>
     cd_binding_constraint d = bnd \<and> cd_reason d = rsn \<and> cd_limits d = lims \<and>
     (0 < price \<longrightarrow> money (dmul g price) = Inr (cd_granted_notional d))"
  by (auto simp: capacity_decision_of_def rbind_Inr_iff)

text \<open>The admitted branch of \<open>resolve_capacity\<close>: the facts the caller may rely on.\<close>

lemma resolve_capacity_admitted:
  assumes "resolve_capacity l i s req price mp me = Inr d" "cd_is_admitted d"
  obtains sleeve where "dget (lg_attribution l) i \<noteq> None" "remaining_sleeve_capacity s i = Inr sleeve"
    "0 < req" "0 < price" "cd_requested_units d = req"
    "0 < cd_granted_units d" "cd_granted_units d \<le> req"
    "(cd_outcome d = Admitted) = (cd_granted_units d = req)"
    "allows price sleeve (cd_granted_units d)"
    "\<And>m. mp = Some m \<Longrightarrow> allows price (max 0 m) (cd_granted_units d)"
    "\<And>m. me = Some m \<Longrightarrow> allows price (max 0 (dsub m (gross_exposure l))) (cd_granted_units d)"
    "money (dmul (cd_granted_units d) price) = Inr (cd_granted_notional d)"
    "cd_granted_notional d \<le> available_capital l"
proof -
  from assms(1) obtain sleeve where s: "remaining_sleeve_capacity s i = Inr sleeve"
    and known: "dget (lg_attribution l) i \<noteq> None"
    by (auto simp: resolve_capacity_def rbind_Inr_iff Let_def split: if_splits)
  let ?ls = "cap_layers sleeve (map_option (max 0) mp)
    (map_option (\<lambda>m. max 0 (dsub m (gross_exposure l))) me)"
  let ?lims = "capacity_limits sleeve (available_capital l) (map_option (max 0) mp)
    (map_option (\<lambda>m. max 0 (dsub m (gross_exposure l))) me)"
  have dec: "capacity_decision_of i req price ?lims Rejected x y z \<noteq> Inr d" for x y z
    using assms(2) by (auto simp: cd_is_admitted_def dest!: capacity_decision_ofD)
  have pos: "0 < req" "0 < price"
    using assms(1) s known dec by (auto simp: resolve_capacity_def Let_def split: if_splits)
  then obtain r where r: "cap_loop price ?ls req None = Inr r"
    and rest: "(case r of Inl (c, reason) \<Rightarrow> capacity_decision_of i req price ?lims Rejected 0 (Some c) (Some reason)
      | Inr (granted, binding) \<Rightarrow> rbind (money (dmul granted price)) (\<lambda>n.
          if n > available_capital l
          then capacity_decision_of i req price ?lims Rejected 0 (Some ''ledger_solvency'') (Some ''ledger_insolvent'')
          else if binding = None then capacity_decision_of i req price ?lims Admitted granted None None
          else capacity_decision_of i req price ?lims Capped granted binding None)) = Inr d"
    using assms(1) s known by (auto simp: resolve_capacity_def Let_def rbind_Inr_iff [of "cap_loop _ _ _ _"] split: if_splits)
  obtain units b where ub: "r = Inr (units, b)" using rest dec by (cases r) auto
  note loop = r [unfolded ub]
  from rest ub dec obtain n where n: "money (dmul units price) = Inr n" "n \<le> available_capital l"
    and d: "(if b = None then capacity_decision_of i req price ?lims Admitted units None None
             else capacity_decision_of i req price ?lims Capped units b None) = Inr d"
    by (auto simp: rbind_Inr_iff [of "money _"] split: if_splits)
  note g = cap_loop_grant [OF loop pos(1)] and bind = cap_loop_binding [OF loop]
  have f: "cd_granted_units d = units" "cd_requested_units d = req"
    "(cd_outcome d = Admitted) = (b = None)"
    "money (dmul units price) = Inr (cd_granted_notional d)"
    using d pos(2) by (auto split: if_splits dest!: capacity_decision_ofD)
  show ?thesis
  proof (rule that [of sleeve])
    show "allows price (max 0 m) (cd_granted_units d)" if "mp = Some m" for m
      using g that unfolding f(1) by (auto simp: cap_layers_def)
    show "allows price (max 0 (dsub m (gross_exposure l))) (cd_granted_units d)" if "me = Some m" for m
      using g that unfolding f(1) by (auto simp: cap_layers_def)
    show "allows price sleeve (cd_granted_units d)"
      using g unfolding f(1) by (auto simp: cap_layers_def)
    show "(cd_outcome d = Admitted) = (cd_granted_units d = req)"
      using bind unfolding f by auto
  qed (use g n f pos s known in simp_all)
qed

lemma allows_slack:
  assumes "allows price h units" "0 < price"
  shows "units * price \<le> with_slack price h" "0 < h"
proof -
  from assms show h: "0 < h" by (auto simp: allows_def cap_units_def split: if_splits)
  from assms h have u: "units \<le> qround 8 (dfix (h / price))"
    by (auto simp: allows_def cap_units_def dest: quantizeD)
  show "units * price \<le> with_slack price h" using u h assms(2) by (rule quotient_slack)
qed

text \<open>C35. What \<open>resolve_capacity\<close> grants is positive and never more than was asked for, is
  reported as admitted exactly when it is all of it, its notional fits the capital available
  without borrowing, and against the remaining sleeve, the position limit and the exposure
  limit it exceeds the cap at most by the rounding slack.\<close>

theorem capacity_grant_bounds:
  assumes "resolve_capacity l i s req price mp me = Inr d" "cd_is_admitted d"
  shows "0 < cd_granted_units d \<and> cd_granted_units d \<le> req \<and>
    (cd_outcome d = Admitted) = (cd_granted_units d = req) \<and>
    cd_granted_notional d \<le> available_capital l \<and>
    (\<exists>sleeve. remaining_sleeve_capacity s i = Inr sleeve \<and>
       cd_granted_units d * price \<le> with_slack price sleeve) \<and>
    (case mp of None \<Rightarrow> True | Some m \<Rightarrow> cd_granted_units d * price \<le> with_slack price m) \<and>
    (case me of None \<Rightarrow> True
     | Some m \<Rightarrow> cd_granted_units d * price \<le> with_slack price (dsub m (gross_exposure l)))"
  using assms
proof (cases rule: resolve_capacity_admitted)
  case (1 sleeve)
  have m: "cd_granted_units d * price \<le> with_slack price m" if "mp = Some m" for m
    using allows_slack [OF 1(10) [OF that] 1(4)] by (simp add: max_def split: if_splits)
  have e: "cd_granted_units d * price \<le> with_slack price (dsub m (gross_exposure l))"
    if "me = Some m" for m
    using allows_slack [OF 1(11) [OF that] 1(4)] by (simp add: max_def split: if_splits)
  show ?thesis using 1 m e allows_slack(1) [OF 1(9,4)] by (auto split: option.split)
qed

text \<open>A grant can be opened: if the capacity was resolved against the published snapshot and
  no position is held, then after \<open>begin_apply\<close> of the same tick \<open>set_position\<close> with the granted
  units succeeds, in either direction, and the position carries the granted notional.\<close>

theorem granted_capacity_can_be_opened:
  assumes snap: "publish_snapshot H t l = (Inr s, l1)"
    and cap: "resolve_capacity l1 i s req price mp me = Inr d" "cd_is_admitted d"
    and reopen: "begin_apply t l1 = (Inr (), l2)"
    and fresh: "dget (lg_positions l) i = None" and dir: "dir \<in> {''long'', ''short''}"
  shows "\<exists>pos. set_position i dir (cd_granted_units d) price l2
      = (Inr pos, l2\<lparr>lg_positions := dset i pos (lg_positions l2)\<rparr>) \<and>
    op_notional pos = cd_granted_notional d \<and> op_size pos = cd_granted_units d"
proof -
  have l2: "l2 = l\<lparr>lg_frozen_at := None\<rparr>" and l1: "l1 = l\<lparr>lg_frozen_at := Some t\<rparr>"
    using publish_then_apply [OF snap] reopen by simp_all
  from cap show ?thesis
  proof (cases rule: resolve_capacity_admitted)
    case (1 sleeve)
    let ?n = "cd_granted_notional d"
    have "money (dmul price (cd_granted_units d)) = Inr ?n"
      using 1(12) by (simp add: dmul_def mult.commute)
    then obtain pos where pos: "open_position_post_init i dir (cd_granted_units d) price = Inr pos"
      "op_notional pos = ?n" "op_size pos = cd_granted_units d"
      using dir 1(6) by (auto simp: open_position_post_init_def)
    have "representable ?n" using 1(12) by (simp add: money_def quantizeD)
    moreover have "available_capital l1 = available_capital l2"
      by (simp add: l1 l2 available_capital_def gross_exposure_def)
    ultimately show ?thesis
      using 1(1,13) fresh pos by (auto simp: set_position_run l1 l2 Let_def is_frozen_def dsub_def)
  qed
qed

section \<open>Concrete runs\<close>

definition demo_frozen :: ledger where
  "demo_frozen = demo_ledger\<lparr>lg_frozen_at := Some 7\<rparr>"

definition demo_snapshot :: portfolio_snapshot where
  "demo_snapshot = \<lparr>sn_t_ms = 7, sn_equity = 1000, sn_reserve_nominal = 100, sn_allocatable = 900,
     sn_sleeve_capacity = [(''a'', 450), (''b'', 270)], sn_deployed_notional = [(''a'', 200), (''b'', 0)],
     sn_unallocated = 180, sn_item_ids = [''a'', ''b''], sn_identity = []\<rparr>"

lemma demo_publish: "publish_snapshot (\<lambda>_. []) 7 demo_ledger = (Inr demo_snapshot, demo_frozen)"
  by (simp add: demo_frozen_def demo_snapshot_def demo_eval insert_commute cong: let_weak_cong)

lemmas capacity_eval = demo_frozen_def demo_snapshot_def demo_eval resolve_capacity_def
  remaining_sleeve_capacity_def cap_layers_def cap_units_def capacity_decision_of_def
  capacity_limits_def cd_is_admitted_def

definition demo_decision :: "capacity_decision res" where
  "demo_decision = resolve_capacity demo_frozen ''b'' demo_snapshot 5 64 (Some 300) (Some 400)"

lemma demo_decision_run:
  "\<exists>d. demo_decision = Inr d \<and> cd_is_admitted d \<and> cd_granted_units d = 25/8"
  by (simp add: demo_decision_def capacity_eval cong: let_weak_cong)

theorem set_position_never_borrows_witness:
  "\<exists>c l'. set_position ''b'' ''long'' 5 100 demo_ledger = (Inr c, l') \<and>
     gross_exposure l' \<le> plan_allocatable (lg_plan l') (lg_equity l')"
proof -
  have run: "run_ops (exec_ledger (\<lambda>_. [])) pos_fits [SetPosition ''a'' ''long'' 2 100]
      (ledger_init demo_plan) = Some demo_ledger"
    by (simp add: demo_eval pos_fits_def cong: let_weak_cong)
  let ?c = "\<lparr>op_item_id = ''b'', op_direction = ''long'', op_size = 5, op_entry_price = 100,
    op_notional = 500\<rparr>"
  let ?l = "demo_ledger\<lparr>lg_positions := dset ''b'' ?c (lg_positions demo_ledger)\<rparr>"
  have call: "set_position ''b'' ''long'' 5 100 demo_ledger = (Inr ?c, ?l)"
    by (simp add: demo_eval cong: let_weak_cong)
  have "pos_fits ?l" "gross_exposure demo_ledger < gross_exposure ?l"
    by (simp_all add: demo_eval pos_fits_def)
  from set_position_never_borrows [OF run call this] call show ?thesis by blast
qed

theorem capacity_grant_bounds_witness:
  "\<exists>d. demo_decision = Inr d \<and> cd_granted_units d = 25/8 \<and> cd_outcome d \<noteq> Admitted"
proof -
  obtain d where d: "demo_decision = Inr d" "cd_is_admitted d" "cd_granted_units d = 25/8"
    using demo_decision_run by blast
  from capacity_grant_bounds [OF d(1) [unfolded demo_decision_def] d(2)] d show ?thesis by auto
qed

theorem granted_capacity_can_be_opened_witness:
  "\<exists>d pos l2. demo_decision = Inr d \<and> begin_apply 7 demo_frozen = (Inr (), l2) \<and>
     fst (set_position ''b'' ''short'' (cd_granted_units d) 64 l2) = Inr pos \<and>
     op_notional pos = cd_granted_notional d"
proof -
  obtain d where d: "demo_decision = Inr d" "cd_is_admitted d" "cd_granted_units d = 25/8"
    using demo_decision_run by blast
  have a: "begin_apply 7 demo_frozen = (Inr (), demo_frozen\<lparr>lg_frozen_at := None\<rparr>)"
    by (simp add: begin_apply_run demo_frozen_def)
  have "dget (lg_positions demo_ledger) ''b'' = None" by (simp add: demo_eval)
  from granted_capacity_can_be_opened [OF demo_publish d(1) [unfolded demo_decision_def] d(2) a this,
      of "''short''"] d(1) a
  show ?thesis by auto
qed

text \<open>The half-even rounding of \<open>resolve_capacity\<close> can grant more than the remaining sleeve:
  with 270.00 left in the sleeve at a price of 28,800,000 it grants 0.00000938 units, a notional
  of 270.14.\<close>

theorem capacity_can_exceed_sleeve:
  "remaining_sleeve_capacity demo_snapshot ''b'' = Inr 270 \<and>
   rmap_result (\<lambda>d. (cd_outcome d, cd_binding_constraint d, cd_granted_units d, cd_granted_notional d))
     (resolve_capacity demo_frozen ''b'' demo_snapshot 1 28800000 None None)
   = Inr (Capped, Some ''remaining_sleeve'', 938 / 10 ^ 8, 27014 / 100)"
  by (simp add: capacity_eval rmap_result_def cong: let_weak_cong)

end
