(* ===== verification/Run_State.thy ===== *)
theory Run_State
  imports Py_Decimal
begin

text \<open>
  The state of one strategy run (\<^verbatim>\<open>domain/backtest/execution/state.py\<close>): normalised bars, the
  open position, the journals and counters of the run's own books, the portfolio rules and the
  run configuration, restricted to the fields the modelled sub-systems read or write. Raw bars
  come from a data provider: a field is missing, \<open>None\<close>, a \<open>Decimal\<close> or text; text becomes a
  number through \<open>Decimal(str)\<close>, the parameter \<open>parse\<close> of the model, \<open>None\<close> where that raises.
\<close>

section \<open>Bars\<close>

record bar =
  br_timestamp :: string
  br_open :: rat
  br_high :: rat
  br_low :: rat
  br_close :: rat
  br_volume :: rat

datatype pyval = PyNone | PyDec rat | PyText string

record raw_bar =
  rb_timestamp :: "string option"
  rb_open :: "pyval option"
  rb_high :: "pyval option"
  rb_low :: "pyval option"
  rb_close :: "pyval option"
  rb_volume :: "pyval option"

type_synonym parser = "string \<Rightarrow> rat option"

definition dec_value :: "parser \<Rightarrow> pyval \<Rightarrow> rat option" where
  "dec_value parse v = (case v of PyNone \<Rightarrow> parse ''None'' | PyDec d \<Rightarrow> Some d | PyText s \<Rightarrow> parse s)"

definition volume_value :: "parser \<Rightarrow> pyval option \<Rightarrow> rat" where
  "volume_value parse v =
     (case v of None \<Rightarrow> 0 | Some PyNone \<Rightarrow> 0
      | Some w \<Rightarrow> (case dec_value parse w of None \<Rightarrow> 0 | Some d \<Rightarrow> max d 0))"

definition dec_field :: "parser \<Rightarrow> pyval option \<Rightarrow> rat option" where
  "dec_field parse v = Option.bind v (dec_value parse)"

text \<open>A row with a missing or unparseable price becomes \<open>None\<close>; a bad volume becomes zero.\<close>

definition normalize_bar :: "parser \<Rightarrow> raw_bar \<Rightarrow> bar option" where
  "normalize_bar parse raw =
     Option.bind (rb_timestamp raw) (\<lambda>t.
     Option.bind (dec_field parse (rb_open raw)) (\<lambda>op.
     Option.bind (dec_field parse (rb_high raw)) (\<lambda>hi.
     Option.bind (dec_field parse (rb_low raw)) (\<lambda>lo.
     Option.bind (dec_field parse (rb_close raw)) (\<lambda>cl.
       Some \<lparr>br_timestamp = t, br_open = op, br_high = hi, br_low = lo, br_close = cl,
             br_volume = volume_value parse (rb_volume raw)\<rparr>)))))"

lemma volume_nonneg: "0 \<le> volume_value parse v"
  by (auto simp: volume_value_def split: option.splits pyval.splits)

lemma normalize_bar_volume: "normalize_bar parse raw = Some b \<Longrightarrow> 0 \<le> br_volume b"
  by (auto simp: normalize_bar_def volume_nonneg split: Option.bind_splits)

section \<open>Positions and journals\<close>

record position =
  ps_position_seq :: nat
  ps_entry_bar_seq :: int
  ps_direction :: string
  ps_entry_time :: string
  ps_entry_price :: rat
  ps_size :: rat
  ps_pct_stop :: "rat option"
  ps_abs_stop :: "rat option"
  ps_trail_pct :: "rat option"
  ps_trail_anchor :: rat
  ps_entry_notional :: rat
  ps_trail_lock_in_pct :: "rat option"
  ps_initial_size :: rat
  ps_layers_filled :: nat
  ps_scale_reference :: rat
  ps_scale_layer_bucket :: "int option"
  ps_peak_notional :: rat

definition is_long :: "position \<Rightarrow> bool" where
  "is_long p = (ps_direction p = ''long'')"

datatype detail =
    DInt int | DDec rat | DText string | DBool bool | DNone
  | DList "detail list" | DDict "(string \<times> detail) list"

record trade_row =
  tr_seq :: nat
  tr_entry_time :: string
  tr_exit_time :: string
  tr_direction :: string
  tr_entry_price :: rat
  tr_exit_price :: rat
  tr_pnl :: rat
  tr_exit_reason :: string

record run_equity_point =
  re_seq :: nat
  re_timestamp :: string
  re_equity :: rat
  re_drawdown :: rat
  re_exposure :: rat

record signal_event =
  ev_seq :: nat
  ev_event_time :: string
  ev_event_type :: string
  ev_direction :: "string option"
  ev_detail :: "(string, detail) dict"

record position_interval =
  pi_entry_time :: string
  pi_exit_time :: string
  pi_direction :: string
  pi_peak_notional :: rat

record run_ledger =
  rl_signal_events :: "signal_event list"
  rl_filtered_events :: "signal_event list"
  rl_trades :: "trade_row list"
  rl_equity_points :: "run_equity_point list"
  rl_position_intervals :: "position_interval list"
  rl_equity :: rat
  rl_peak :: rat
  rl_winners :: nat
  rl_stops_hit :: nat
  rl_stop_streak :: nat
  rl_max_stop_streak :: nat
  rl_gross_profit :: rat
  rl_gross_loss :: rat
  rl_partial_closes :: nat
  rl_day_realized :: rat
  rl_loss_streak :: nat
  rl_partial_fills :: nat
  rl_portfolio_symbol_unknown_gate :: bool
  rl_portfolio_time_unparseable_gate :: bool
  rl_portfolio_block_reason :: "string option"

definition filtered_event_types :: "string list" where
  "filtered_event_types = [''filtered_no_entry'']"

text \<open>A ledger as \<open>_RunLedger()\<close> starts, with the given equity; a position for the examples.\<close>

definition fresh_run_ledger :: "rat \<Rightarrow> run_ledger" where
  "fresh_run_ledger e = \<lparr>rl_signal_events = [], rl_filtered_events = [], rl_trades = [],
     rl_equity_points = [], rl_position_intervals = [], rl_equity = e, rl_peak = e, rl_winners = 0,
     rl_stops_hit = 0, rl_stop_streak = 0, rl_max_stop_streak = 0, rl_gross_profit = 0,
     rl_gross_loss = 0, rl_partial_closes = 0, rl_day_realized = 0, rl_loss_streak = 0,
     rl_partial_fills = 0, rl_portfolio_symbol_unknown_gate = False,
     rl_portfolio_time_unparseable_gate = False, rl_portfolio_block_reason = None\<rparr>"

definition demo_position :: position where
  "demo_position = \<lparr>ps_position_seq = 1, ps_entry_bar_seq = 3, ps_direction = ''long'',
     ps_entry_time = ''t0'', ps_entry_price = 100, ps_size = 2, ps_pct_stop = Some 95, ps_abs_stop = Some 90,
     ps_trail_pct = None, ps_trail_anchor = 100, ps_entry_notional = 200, ps_trail_lock_in_pct = None,
     ps_initial_size = 2, ps_layers_filled = 0, ps_scale_reference = 100, ps_scale_layer_bucket = None,
     ps_peak_notional = 200\<rparr>"

section \<open>Portfolio rules and run configuration\<close>

record prior_item_interval =
  iv_item_id :: string
  iv_symbol :: "string option"
  iv_direction :: string
  iv_start_ms :: "int option"
  iv_end_ms :: "int option"
  iv_notional :: rat

record portfolio_rules =
  pr_max_total_exposure_percent :: "rat option"
  pr_conflict_policy :: "string option"
  pr_own_symbol :: "string option"
  pr_prior_intervals :: "prior_item_interval list"
  pr_exposure_percent_invalid :: bool

text \<open>\<open>str.strip()\<close> on the whitespace of ASCII text, and \<open>(x or "").strip()\<close>.\<close>

definition is_space :: "char \<Rightarrow> bool" where
  "is_space c = (c \<in> set [CHR '' '', CHR 0x09, CHR 0x0A, CHR 0x0B, CHR 0x0C, CHR 0x0D,
     CHR 0x1C, CHR 0x1D, CHR 0x1E, CHR 0x1F])"

definition strip :: "string \<Rightarrow> string" where
  "strip s = rev (dropWhile is_space (rev (dropWhile is_space s)))"

definition strip_opt :: "string option \<Rightarrow> string" where
  "strip_opt s = (case s of None \<Rightarrow> [] | Some t \<Rightarrow> strip t)"

text \<open>\<open>str.lower()\<close> and \<open>str.upper()\<close> on ASCII text.\<close>

definition lower_char :: "char \<Rightarrow> char" where
  "lower_char c = (if 65 \<le> (of_char c :: nat) \<and> (of_char c :: nat) \<le> 90
     then char_of ((of_char c :: nat) + 32) else c)"

definition upper_char :: "char \<Rightarrow> char" where
  "upper_char c = (if 97 \<le> (of_char c :: nat) \<and> (of_char c :: nat) \<le> 122
     then char_of ((of_char c :: nat) - 32) else c)"

definition lower :: "string \<Rightarrow> string" where
  "lower s = map lower_char s"

definition upper :: "string \<Rightarrow> string" where
  "upper s = map upper_char s"

end
