(* ===== verification/Costs.thy ===== *)
theory Costs
  imports Run_State
begin

text \<open>
  What one fill costs and what a held position pays in funding
  (\<^verbatim>\<open>domain/backtest/execution/costs.py\<close>, \<^verbatim>\<open>domain/backtest/funding.py\<close> and the time policy of
  \<^verbatim>\<open>domain/research_data/time_policy.py\<close>). A moment of UTC time is an integer number of
  microseconds. Timestamps in text are resolved by \<open>datetime.fromisoformat\<close> and the IANA zone
  tables: the parameter \<open>clock\<close> of the definitions that need them.
\<close>

section \<open>Fees and effective fills\<close>

record fill_costs =
  fc_half_spread :: rat
  fc_slippage :: rat
  fc_commission :: rat
  fc_commission_basis :: string

definition fee :: "fill_costs \<Rightarrow> rat \<Rightarrow> rat res" where
  "fee c notional =
     (if fc_commission c \<le> 0 then ok 0
      else if fc_commission_basis c = ''bps''
      then quantize 2 (dmul (dquo (fc_commission c) 10000) (dabs notional))
      else ok (fc_commission c))"

record costs_model =
  cm_commission :: "rat option"
  cm_commission_basis :: string
  cm_spread :: "rat option"
  cm_slippage_value :: "rat option"

definition or_zero :: "rat option \<Rightarrow> rat" where
  "or_zero v = (case v of None \<Rightarrow> 0 | Some x \<Rightarrow> x)"

definition cost_params :: "costs_model \<Rightarrow> rat \<times> rat \<times> rat \<times> string" where
  "cost_params c =
     (dquo (or_zero (cm_spread c)) 2, dquo (or_zero (cm_slippage_value c)) 100,
      or_zero (cm_commission c), cm_commission_basis c)"

definition effective_fill :: "rat \<Rightarrow> bool \<Rightarrow> rat \<Rightarrow> rat \<Rightarrow> rat res" where
  "effective_fill price is_buy half_spread slip =
     (let adjusted = (if is_buy then dadd price half_spread else dsub price half_spread);
          factor = (if is_buy then dadd 1 slip else dsub 1 slip) in
      quantize 2 (dmul adjusted factor))"

lemma fee_nonneg: "fee c n = Inr f \<Longrightarrow> 0 \<le> f"
  by (auto simp: fee_def quantize_Inr_iff dmul_def dquo_def dabs_def split: if_splits
      intro!: grid.nonneg ctx.nonneg)

text \<open>Spread and slippage always move the fill against the trader.\<close>

lemma effective_buy_ge:
  assumes "effective_fill p True h s = Inr e" "0 \<le> p" "0 \<le> h" "0 \<le> s"
  shows "qround 2 (dfix p) \<le> e"
proof -
  have e: "e = qround 2 (dfix (dfix (p + h) * dfix (1 + s)))"
    using assms(1) by (simp add: effective_fill_def quantize_Inr_iff dmul_def dadd_def)
  have "dfix p \<le> dfix (p + h)" using assms(3) by (intro dfix_mono) simp
  moreover have "(1::rat) \<le> dfix (1 + s)"
    by (rule ctx.lower) (use assms(4) in \<open>auto intro!: representableI [of _ 1 0]\<close>)
  ultimately have "dfix p * 1 \<le> dfix (p + h) * dfix (1 + s)"
    using assms(2,3) by (intro mult_mono) (auto intro: ctx.nonneg)
  then have "dfix (dfix p) \<le> dfix (dfix (p + h) * dfix (1 + s))" by (intro dfix_mono) simp
  then show ?thesis unfolding e by (intro qround_mono) simp
qed

lemma effective_sell_le:
  assumes "effective_fill p False h s = Inr e" "0 \<le> p" "0 \<le> h" "0 \<le> s" "s \<le> 1" "h \<le> p"
  shows "e \<le> qround 2 (dfix p)"
proof -
  have e: "e = qround 2 (dfix (dfix (p - h) * dfix (1 - s)))"
    using assms(1) by (simp add: effective_fill_def quantize_Inr_iff dmul_def dsub_def)
  have "dfix (p - h) \<le> dfix p" using assms(3) by (intro dfix_mono) simp
  moreover have "dfix (1 - s) \<le> 1"
    by (rule ctx.upper) (use assms(4) in \<open>auto intro!: representableI [of _ 1 0]\<close>)
  ultimately have "dfix (p - h) * dfix (1 - s) \<le> dfix p * 1"
    using assms(2,5) by (intro mult_mono) (auto intro: ctx.nonneg)
  then have "dfix (dfix (p - h) * dfix (1 - s)) \<le> dfix (dfix p)" by (intro dfix_mono) simp
  then show ?thesis unfolding e by (intro qround_mono) simp
qed

text \<open>The effective fill is never better than the quoted price: with a price in cents, a
  non-negative half spread not above the price and a slippage fraction between 0 and 1, a buy
  fills at or above it and a sell at or below it.\<close>

theorem effective_fill_is_adverse:
  assumes "effective_fill p is_buy h s = Inr e" "cents p" "0 \<le> p" "p < 10 ^ 26"
    "0 \<le> h" "h \<le> p" "0 \<le> s" "s \<le> 1"
  shows "if is_buy then p \<le> e else e \<le> p"
proof -
  have "dfix p = p" using assms(2-4) by (intro cents_exact) auto
  then have "qround 2 (dfix p) = p" using assms(2) by simp
  then show ?thesis using assms effective_buy_ge [of p h s e] effective_sell_le [of p h s e]
    by (cases is_buy) simp_all
qed

section \<open>Available time\<close>

datatype available_time_policy =
  SameAsEventTime | FixedDelay | ProviderPublishTimestamp | CustomDocumentedRule

definition max_available_delay :: int where
  "max_available_delay = 31 * 86400 * 1000000"

definition delay_is_valid :: "int option \<Rightarrow> bool" where
  "delay_is_valid d = (case d of None \<Rightarrow> False | Some x \<Rightarrow> 0 < x \<and> x \<le> max_available_delay)"

definition available_time_is_consistent :: "int \<Rightarrow> int \<Rightarrow> bool" where
  "available_time_is_consistent event_at available_at = (event_at \<le> available_at)"

definition resolve_available_at ::
  "int \<Rightarrow> available_time_policy \<Rightarrow> int option \<Rightarrow> int option \<Rightarrow> int option \<Rightarrow> int res" where
  "resolve_available_at event_at policy delay provider_publish_at custom_available_at =
     rbind (case policy of
        SameAsEventTime \<Rightarrow> ok event_at
      | FixedDelay \<Rightarrow> (if \<not> delay_is_valid delay then raise TimePolicyInvalid
                       else case delay of None \<Rightarrow> raise AssertionError | Some d \<Rightarrow> ok (event_at + d))
      | ProviderPublishTimestamp \<Rightarrow>
          (case provider_publish_at of None \<Rightarrow> raise TimePolicyInvalid | Some t \<Rightarrow> ok t)
      | CustomDocumentedRule \<Rightarrow>
          (case custom_available_at of None \<Rightarrow> raise TimePolicyInvalid | Some t \<Rightarrow> ok t))
     (\<lambda>r. if \<not> available_time_is_consistent event_at r then raise TimePolicyInvalid else ok r)"

definition time_policy_is_valid :: "available_time_policy \<Rightarrow> int option \<Rightarrow> bool" where
  "time_policy_is_valid policy delay =
     (if policy = FixedDelay then delay_is_valid delay else delay = None)"

definition instrument_mapping_is_valid :: "string option \<Rightarrow> string option \<Rightarrow> bool" where
  "instrument_mapping_is_valid linked ref =
     ((strip_opt linked \<noteq> []) = (strip_opt ref \<noteq> []))"

definition is_eligible_for_decision :: "int \<Rightarrow> int \<Rightarrow> bool \<Rightarrow> bool" where
  "is_eligible_for_decision available_at decision_time has_instrument_mapping =
     (has_instrument_mapping \<and> available_at \<le> decision_time)"

lemma resolve_available_at_after_event:
  "resolve_available_at e p d pp c = Inr a \<Longrightarrow> e \<le> a"
  by (auto simp: resolve_available_at_def available_time_is_consistent_def rbind_Inr_iff
      split: if_splits)

section \<open>Funding charges\<close>

record funding_record =
  fr_available_at :: int
  fr_event_at :: int
  fr_rate :: rat

record funding_charge =
  fg_record :: funding_record
  fg_amount :: rat

definition resolve_funding_decision_time :: "(string \<Rightarrow> int option) \<Rightarrow> string \<Rightarrow> int res" where
  "resolve_funding_decision_time clock ts =
     (case clock ts of None \<Rightarrow> raise FundingSourceInvalid | Some t \<Rightarrow> ok t)"

definition funding_amount :: "rat \<Rightarrow> rat \<Rightarrow> string \<Rightarrow> rat res" where
  "funding_amount notional rate direction =
     quantize 2 (dmul (dmul notional rate) (if direction = ''long'' then 1 else - 1))"

text \<open>The loop of \<open>due_funding_charges\<close> on the records from the cursor on.\<close>

fun due_loop ::
  "int \<Rightarrow> bool \<Rightarrow> string option \<Rightarrow> rat \<Rightarrow> funding_record list \<Rightarrow> nat \<Rightarrow> funding_charge list
     \<Rightarrow> (nat \<times> funding_charge list) res" where
  "due_loop t mapped dir notional [] idx charges = ok (idx, charges)"
| "due_loop t mapped dir notional (r # rs) idx charges =
     (if \<not> is_eligible_for_decision (fr_available_at r) t mapped then ok (idx, charges)
      else case dir of
        None \<Rightarrow> due_loop t mapped dir notional rs (idx + 1) charges
      | Some d \<Rightarrow> rbind (funding_amount notional (fr_rate r) d) (\<lambda>a.
          due_loop t mapped dir notional rs (idx + 1) (charges @ [\<lparr>fg_record = r, fg_amount = a\<rparr>])))"

definition due_funding_charges ::
  "funding_record list \<Rightarrow> nat \<Rightarrow> int \<Rightarrow> bool \<Rightarrow> string option \<Rightarrow> rat
     \<Rightarrow> (nat \<times> funding_charge list) res" where
  "due_funding_charges records start_index t mapped dir notional =
     due_loop t mapped dir notional (drop start_index records) start_index []"

lemma due_loop_acc:
  "due_loop t m dir n rs i (a @ c) = rbind (due_loop t m dir n rs i c) (\<lambda>(j, d). ok (j, a @ d))"
proof (induction rs arbitrary: i c)
  case Nil
  then show ?case by simp
next
  case (Cons r rs)
  show ?case
  proof (cases dir)
    case None
    then show ?thesis using Cons.IH by simp
  next
    case (Some d)
    then show ?thesis using Cons.IH [of "i + 1" "c @ _"]
      by (cases "funding_amount n (fr_rate r) d") (simp_all add: append_assoc)
  qed
qed

lemma due_loop_shift:
  "due_loop t m dir n rs i c = rbind (due_loop t m dir n rs 0 c) (\<lambda>(j, d). ok (i + j, d))"
proof (induction rs arbitrary: i c)
  case Nil
  then show ?case by simp
next
  case (Cons r rs)
  have shift: "due_loop t m dir n rs (Suc i) c'
      = rbind (due_loop t m dir n rs (Suc 0) c') (\<lambda>(j, d). ok (i + j, d))" for c'
    using Cons.IH [of "Suc i" c'] Cons.IH [of "Suc 0" c']
    by (cases "due_loop t m dir n rs 0 c'") (auto split: prod.splits)
  show ?case
  proof (cases dir)
    case None
    then show ?thesis using shift by simp
  next
    case (Some d)
    then show ?thesis using shift by (cases "funding_amount n (fr_rate r) d") simp_all
  qed
qed

lemma due_loop_shift_iff:
  "due_loop t m dir n rs i [] = Inr (j, cs) \<longleftrightarrow>
     (\<exists>k. due_loop t m dir n rs 0 [] = Inr (k, cs) \<and> j = i + k)"
  by (subst due_loop_shift) (auto simp: rbind_Inr_iff)

lemma due_loop_charge_iff:
  "due_loop t m dir n rs i [c] = Inr (j, cs) \<longleftrightarrow>
     (\<exists>d. due_loop t m dir n rs i [] = Inr (j, d) \<and> cs = c # d)"
  using due_loop_acc [of t m dir n rs i "[c]" "[]"] by (auto simp: rbind_Inr_iff)

text \<open>One step of the loop, from cursor zero.\<close>

lemma due_loop_step:
  "due_loop t m dir n (r # rs) 0 [] = Inr (j, cs) \<longleftrightarrow>
     (if \<not> is_eligible_for_decision (fr_available_at r) t m then j = 0 \<and> cs = []
      else case dir of
        None \<Rightarrow> \<exists>k. due_loop t m dir n rs 0 [] = Inr (k, cs) \<and> j = Suc k
      | Some d \<Rightarrow> \<exists>a k c. funding_amount n (fr_rate r) d = Inr a \<and> j = Suc k \<and>
          due_loop t m dir n rs 0 [] = Inr (k, c) \<and> cs = \<lparr>fg_record = r, fg_amount = a\<rparr> # c)"
  by (auto simp: rbind_Inr_iff due_loop_charge_iff due_loop_shift_iff [of _ _ _ _ _ "Suc 0"]
      split: option.split)

declare due_loop.simps(2) [simp del]

lemma due_loop_result:
  "due_loop t m dir n rs 0 [] = Inr (k, cs) \<Longrightarrow>
     k \<le> length rs \<and>
     (\<forall>r \<in> set (take k rs). is_eligible_for_decision (fr_available_at r) t m) \<and>
     (k < length rs \<longrightarrow> \<not> is_eligible_for_decision (fr_available_at (rs ! k)) t m) \<and>
     map fg_record cs = (if dir = None then [] else take k rs) \<and>
     (\<forall>c \<in> set cs. dir \<noteq> None \<and> funding_amount n (fr_rate (fg_record c)) (the dir) = Inr (fg_amount c))"
proof (induction rs arbitrary: k cs)
  case Nil
  then show ?case by auto
next
  case (Cons r rs)
  from Cons.prems Cons.IH show ?case unfolding due_loop_step
    by (auto split: if_splits option.splits)
qed

lemma due_loop_compose:
  "due_loop t1 m dir n rs 0 [] = Inr (k, c1) \<Longrightarrow> due_loop t2 m dir n (drop k rs) 0 [] = Inr (l, c2) \<Longrightarrow>
     t1 \<le> t2 \<Longrightarrow> due_loop t2 m dir n rs 0 [] = Inr (k + l, c1 @ c2)"
proof (induction rs arbitrary: k c1)
  case Nil
  then show ?case by simp
next
  case (Cons r rs)
  show ?case
  proof (cases "is_eligible_for_decision (fr_available_at r) t1 m")
    case False
    then show ?thesis using Cons.prems by (simp add: due_loop_step)
  next
    case True
    then have "is_eligible_for_decision (fr_available_at r) t2 m"
      using Cons.prems(3) by (auto simp: is_eligible_for_decision_def)
    with True Cons.prems Cons.IH show ?thesis
      by (cases dir) (auto simp: due_loop_step)
  qed
qed

text \<open>The as-of join: the records consumed at a bar are exactly those from the cursor on that
  are available at its decision time, up to the first that is not; while a position is held
  each of them is charged once, in order, with its own amount, and while flat none is charged.\<close>

theorem funding_charges_as_of:
  assumes "due_funding_charges records start t mapped dir notional = Inr (j, cs)"
  shows "start \<le> j \<and>
    list_all (\<lambda>r. is_eligible_for_decision (fr_available_at r) t mapped) (drop start (take j records)) \<and>
    (j < length records \<longrightarrow> \<not> is_eligible_for_decision (fr_available_at (records ! j)) t mapped) \<and>
    map fg_record cs = (if dir = None then [] else drop start (take j records)) \<and>
    list_all (\<lambda>c. funding_amount notional (fr_rate (fg_record c)) (the dir) = Inr (fg_amount c)) cs"
proof -
  from assms obtain k where k: "due_loop t mapped dir notional (drop start records) 0 [] = Inr (k, cs)"
    and j: "j = start + k"
    by (auto simp: due_funding_charges_def due_loop_shift_iff [of _ _ _ _ _ start])
  from due_loop_result [OF k] show ?thesis unfolding j
    by (auto simp: list_all_iff drop_take add.commute)
qed

text \<open>Charging bar by bar is charging in one go: when the position does not change, the
  cursor and the charges of two consecutive bars together are those of the later bar alone.\<close>

theorem funding_charges_compose:
  assumes "due_funding_charges records start t1 mapped dir notional = Inr (i, c1)"
    and "due_funding_charges records i t2 mapped dir notional = Inr (j, c2)"
    and "t1 \<le> t2"
  shows "due_funding_charges records start t2 mapped dir notional = Inr (j, c1 @ c2)"
proof -
  obtain k where k: "due_loop t1 mapped dir notional (drop start records) 0 [] = Inr (k, c1)"
    "i = start + k"
    using assms(1) by (auto simp: due_funding_charges_def due_loop_shift_iff [of _ _ _ _ _ start])
  obtain l where l: "due_loop t2 mapped dir notional (drop i records) 0 [] = Inr (l, c2)" "j = i + l"
    using assms(2) by (auto simp: due_funding_charges_def due_loop_shift_iff [of _ _ _ _ _ i])
  have "due_loop t2 mapped dir notional (drop k (drop start records)) 0 [] = Inr (l, c2)"
    using l(1) k(2) by (simp add: add.commute)
  from due_loop_compose [OF k(1) this assms(3)] k(2) l(2) show ?thesis
    by (auto simp: due_funding_charges_def due_loop_shift_iff [of _ _ _ _ _ start])
qed

section \<open>Building a funding schedule\<close>

record funding_schedule =
  fs_source_revision_id :: string
  fs_records :: "funding_record list"
  fs_has_instrument_mapping :: bool

definition time_column_candidates :: "string list" where
  "time_column_candidates =
     [''event_time'', ''event_at'', ''funding_time'', ''timestamp'', ''time'', ''ts'']"

definition rate_column_candidates :: "string list" where
  "rate_column_candidates = [''funding_rate'', ''rate'', ''funding'', ''value'']"

text \<open>The first candidate that some column matches, with the column as the source spells it;
  the last column wins when two differ only in case.\<close>

definition column_lookup :: "string list \<Rightarrow> (string, string) dict" where
  "column_lookup columns = foldl (\<lambda>d c. dset (lower c) c d) [] columns"

definition first_column :: "string list \<Rightarrow> string list \<Rightarrow> string option" where
  "first_column candidates columns =
     (case filter (\<lambda>c. dget (column_lookup columns) c \<noteq> None) candidates of
        [] \<Rightarrow> None | c # _ \<Rightarrow> dget (column_lookup columns) c)"

definition resolve_funding_columns :: "string list \<Rightarrow> (string \<times> string) res" where
  "resolve_funding_columns columns =
     (case (first_column time_column_candidates columns, first_column rate_column_candidates columns) of
        (Some t, Some r) \<Rightarrow> ok (t, r)
      | _ \<Rightarrow> raise FundingSourceInvalid)"

definition to_rate :: "parser \<Rightarrow> pyval option \<Rightarrow> rat option" where
  "to_rate parse v = (case v of None \<Rightarrow> None | Some PyNone \<Rightarrow> None | Some w \<Rightarrow> dec_value parse w)"

type_synonym source_row = "(string, pyval) dict"

fun funding_rows ::
  "(pyval option \<Rightarrow> int option) \<Rightarrow> parser \<Rightarrow> string \<Rightarrow> string \<Rightarrow> available_time_policy
     \<Rightarrow> int option \<Rightarrow> source_row list \<Rightarrow> funding_record list res" where
  "funding_rows clock parse tc rc policy delay [] = ok []"
| "funding_rows clock parse tc rc policy delay (row # rows) =
     (case (clock (dget row tc), to_rate parse (dget row rc)) of
        (Some e, Some rate) \<Rightarrow>
          rbind (resolve_available_at e policy delay None None) (\<lambda>a.
          rbind (funding_rows clock parse tc rc policy delay rows) (\<lambda>rest.
            ok (\<lparr>fr_available_at = a, fr_event_at = e, fr_rate = rate\<rparr> # rest)))
      | _ \<Rightarrow> funding_rows clock parse tc rc policy delay rows)"

definition build_funding_schedule ::
  "(pyval option \<Rightarrow> int option) \<Rightarrow> parser \<Rightarrow> source_row list \<Rightarrow> string \<Rightarrow> string list
     \<Rightarrow> available_time_policy \<Rightarrow> int option \<Rightarrow> bool \<Rightarrow> funding_schedule res" where
  "build_funding_schedule clock parse rows source_revision_id columns policy delay_seconds mapped =
     (let delay = map_option (\<lambda>s. s * 1000000) delay_seconds in
      if policy \<noteq> SameAsEventTime \<and> policy \<noteq> FixedDelay then raise FundingSourceInvalid
      else if \<not> time_policy_is_valid policy delay then raise FundingSourceInvalid
      else if \<not> mapped then raise FundingSourceInvalid
      else rbind (resolve_funding_columns columns) (\<lambda>(tc, rc).
        rbind (funding_rows clock parse tc rc policy delay rows) (\<lambda>records.
          if rows \<noteq> [] \<and> records = [] then raise FundingSourceInvalid
          else ok \<lparr>fs_source_revision_id = source_revision_id,
                   fs_records = sort_key (\<lambda>r. (fr_available_at r, fr_event_at r)) records,
                   fs_has_instrument_mapping = mapped\<rparr>)))"

lemma funding_rows_causal:
  "funding_rows clock parse tc rc policy delay rows = Inr rs \<Longrightarrow>
     \<forall>r \<in> set rs. fr_event_at r \<le> fr_available_at r \<and>
       (policy = FixedDelay \<longrightarrow> (\<exists>d. delay = Some d \<and> 0 < d \<and> fr_available_at r = fr_event_at r + d))"
  by (induction rows arbitrary: rs)
    (auto simp: rbind_Inr_iff resolve_available_at_def available_time_is_consistent_def
      delay_is_valid_def split: option.splits if_splits)

lemma funding_rows_total:
  "policy = SameAsEventTime \<or> policy = FixedDelay \<Longrightarrow> time_policy_is_valid policy delay \<Longrightarrow>
     is_ok (funding_rows clock parse tc rc policy delay rows)"
  by (induction rows)
    (auto simp: is_ok_iff resolve_available_at_def time_policy_is_valid_def delay_is_valid_def
      available_time_is_consistent_def split: option.splits)

lemma sorted_fst: "sorted (map (\<lambda>r. (f r :: int, g r :: int)) xs) \<Longrightarrow> sorted (map f xs)"
  by (induction xs) (auto simp: less_eq_prod_def)

text \<open>A funding schedule that is built is causal: its records are in the order of their
  available times, none is available before its event, and under a fixed delay each becomes
  available exactly that positive delay after it.\<close>

theorem funding_schedule_is_causal:
  assumes "build_funding_schedule clock parse rows src columns policy delay mapped = Inr s"
  shows "mapped \<and> fs_has_instrument_mapping s \<and> sorted (map fr_available_at (fs_records s)) \<and>
    list_all (\<lambda>r. fr_event_at r \<le> fr_available_at r) (fs_records s) \<and>
    (case policy of
       FixedDelay \<Rightarrow> list_all (\<lambda>r. fr_available_at r = fr_event_at r + the delay * 1000000) (fs_records s)
     | SameAsEventTime \<Rightarrow> delay = None
     | _ \<Rightarrow> False)"
proof -
  let ?d = "map_option (\<lambda>s. s * 1000000) delay"
  from assms obtain tc rc rs where r: "funding_rows clock parse tc rc policy ?d rows = Inr rs"
    and s: "fs_records s = sort_key (\<lambda>r. (fr_available_at r, fr_event_at r)) rs"
      "fs_has_instrument_mapping s" "mapped"
    and p: "policy = SameAsEventTime \<or> policy = FixedDelay" "time_policy_is_valid policy ?d"
    by (auto simp: build_funding_schedule_def rbind_Inr_iff Let_def split: if_splits prod.splits)
  have "sorted (map fr_available_at (fs_records s))"
    unfolding s(1) by (rule sorted_fst) (rule sorted_sort_key)
  then show ?thesis using funding_rows_causal [OF r] p s
    by (fastforce simp: list_all_iff time_policy_is_valid_def)
qed

section \<open>Concrete runs\<close>

theorem effective_fill_is_adverse_witness:
  "effective_fill 100 True (1/4) (1/1000) = Inr (10035/100) \<and>
   effective_fill 100 False (1/4) (1/1000) = Inr (9965/100)"
proof -
  have b: "effective_fill 100 True (1/4) (1/1000) = Inr (10035/100)"
    by (simp add: effective_fill_def dec_eval)
  from effective_fill_is_adverse [OF b] have "(100::rat) \<le> 10035/100" by (simp add: on_grid_def)
  then show ?thesis using b by (simp add: effective_fill_def dec_eval)
qed

definition demo_records :: "funding_record list" where
  "demo_records = [\<lparr>fr_available_at = 10, fr_event_at = 5, fr_rate = 1/1000\<rparr>,
     \<lparr>fr_available_at = 20, fr_event_at = 20, fr_rate = -1/1000\<rparr>,
     \<lparr>fr_available_at = 30, fr_event_at = 30, fr_rate = 1/100\<rparr>]"

lemmas funding_eval = demo_records_def due_funding_charges_def due_loop.simps funding_amount_def
  is_eligible_for_decision_def

lemma demo_due:
  "due_funding_charges demo_records 0 10 True (Some ''short'') 1000
     = Inr (1, [\<lparr>fg_record = demo_records ! 0, fg_amount = -1\<rparr>])"
  "due_funding_charges demo_records 1 25 True (Some ''short'') 1000
     = Inr (2, [\<lparr>fg_record = demo_records ! 1, fg_amount = 1\<rparr>])"
  by (simp_all add: funding_eval dec_eval)

theorem funding_charges_as_of_witness:
  "\<exists>cs. due_funding_charges demo_records 1 25 True (Some ''short'') 1000 = Inr (2, cs) \<and>
     map fg_record cs = [demo_records ! 1]"
  using funding_charges_as_of [OF demo_due(2)] demo_due(2) by simp

theorem funding_charges_compose_witness:
  "due_funding_charges demo_records 0 25 True (Some ''short'') 1000
     = Inr (2, [\<lparr>fg_record = demo_records ! 0, fg_amount = -1\<rparr>, \<lparr>fg_record = demo_records ! 1, fg_amount = 1\<rparr>])"
  using funding_charges_compose [OF demo_due(1) demo_due(2)] by simp

definition demo_clock :: "pyval option \<Rightarrow> int option" where
  "demo_clock v = (case v of Some (PyText s) \<Rightarrow> Some (int (length s)) | _ \<Rightarrow> None)"

definition demo_parse :: parser where
  "demo_parse s = (if s = ''0.01'' then Some (1/100) else None)"

lemma demo_lower: "lower ''Time'' = ''time''" "lower ''rate'' = ''rate''"
  by code_simp+

theorem funding_schedule_is_causal_witness:
  "\<exists>s. build_funding_schedule demo_clock demo_parse
      [[(''Time'', PyText ''xx''), (''rate'', PyText ''0.01'')], [(''Time'', PyText ''x''), (''rate'', PyDec 2)]]
      ''src'' [''Time'', ''rate''] FixedDelay (Some 60) True = Inr s \<and>
    map fr_available_at (fs_records s) = [60000001, 60000002] \<and>
    list_all (\<lambda>r. fr_event_at r \<le> fr_available_at r) (fs_records s)"
proof -
  let ?b = "build_funding_schedule demo_clock demo_parse
      [[(''Time'', PyText ''xx''), (''rate'', PyText ''0.01'')], [(''Time'', PyText ''x''), (''rate'', PyDec 2)]]
      ''src'' [''Time'', ''rate''] FixedDelay (Some 60) True"
  have b: "?b = Inr \<lparr>fs_source_revision_id = ''src'', fs_records =
      [\<lparr>fr_available_at = 60000001, fr_event_at = 1, fr_rate = 2\<rparr>,
       \<lparr>fr_available_at = 60000002, fr_event_at = 2, fr_rate = 1/100\<rparr>],
      fs_has_instrument_mapping = True\<rparr>"
    by (simp add: build_funding_schedule_def time_policy_is_valid_def delay_is_valid_def
        max_available_delay_def resolve_funding_columns_def first_column_def column_lookup_def
        time_column_candidates_def rate_column_candidates_def
        resolve_available_at_def available_time_is_consistent_def demo_clock_def demo_parse_def
        to_rate_def dec_value_def demo_lower)
  from funding_schedule_is_causal [OF b] b show ?thesis by simp
qed

end
