(* ===== verification/Strategy_Config.thy ===== *)
theory Strategy_Config
  imports Costs
begin

text \<open>
  The part of a strategy's saved configuration (\<^verbatim>\<open>domain/strategy/config.py\<close>) the execution
  sub-systems branch on, one record per model class and one datatype per \<open>Literal\<close>, and the run
  configuration of \<^verbatim>\<open>state.py\<close> built from it. Field constraints such as \<open>gt=0\<close> are enforced by
  the validation library when a configuration is loaded; a property that needs one states it.
\<close>

datatype sizing_method = BasePositionSize | RiskBasedSizing | FormulaBasedSizing

datatype formula_type = KellyCriterion | CustomFormula

datatype leverage_mode = NoLeverage | Isolated | Cross

record risk_based_sizing =
  rs_risk_percentage_per_trade :: rat
  rs_stop_loss_point :: rat

record formula_based_sizing =
  ff_formula_type :: formula_type
  ff_formula_params :: "(string, pyval) dict"

record position_size_limits =
  li_min_position_size :: "rat option"
  li_max_position_size :: "rat option"

record position_sizing =
  sz_method :: sizing_method
  sz_base_position_size :: "rat option"
  sz_risk_based :: "risk_based_sizing option"
  sz_formula_based :: "formula_based_sizing option"
  sz_leverage_mode :: leverage_mode
  sz_leverage :: rat
  sz_position_size_limits :: "position_size_limits option"

datatype stop_trigger_requirement = AnyActive | AllActive

datatype stop_conflict_resolution =
  FirstTriggerWins | MostConservative | PriorityOrder | RecordAllExecuteHighest

record percentage_stop =
  pst_enabled :: bool
  pst_loss_percentage :: rat

record trailing_stop =
  tst_enabled :: bool
  tst_trail_percentage :: rat
  tst_lock_in_percentage :: rat

record absolute_stop =
  ast_enabled :: bool
  ast_absolute_price :: "rat option"

record protection_stop_logic =
  pl_percentage_stop :: "percentage_stop option"
  pl_trailing_stop :: "trailing_stop option"
  pl_absolute_stop :: "absolute_stop option"
  pl_stop_trigger_requirement :: stop_trigger_requirement
  pl_stop_conflict_resolution :: stop_conflict_resolution
  pl_stop_priority_order :: "string list option"

datatype price_rule =
  EntrySignalPrice | BestBidAsk | SignalPriceMinusOffset | SignalPricePlusOffset

datatype partial_fill_policy =
  PartialNotAllowed | PartialAllowed | Minimum50Percent | FillRemainingAsMarket | CancelRemaining

datatype order_type = MarketOrder | LimitOrder | StopOrder | StopLimitOrder | SimulationOnly

record limit_order_details =
  lo_price_rule :: price_rule
  lo_price_offset :: "rat option"
  lo_partial_fill_policy :: partial_fill_policy

record stop_order_details =
  so_activation_rule :: price_rule
  so_trigger_offset :: "rat option"

record order_config =
  oc_type :: order_type
  oc_limit :: "limit_order_details option"
  oc_stop :: "stop_order_details option"

datatype fill_timing =
    NextCandleOpen | CurrentCandleClose | NextCandleClose | IntrabarTouch
  | LimitFillSimulation | StopLimitPrioritySimulation | MarketFillSimulation

record execution_model =
  em_entry_timing :: fill_timing
  em_exit_timing :: fill_timing

datatype tick_policy = TickInherit | TickRequire | TickDisable

datatype partial_aftermath = MoveStopToEntry | TrailingStopAftermath | LockInProfit | CloseAll

record position_exit_logic =
  pe_close_percentage :: rat
  pe_partial_aftermath :: partial_aftermath

datatype timeframe_mode = SameStrategy | IncreasingByLayer | CustomSequence

datatype scaling_method = PriceDistanceScaling | LogicBasedScaling

datatype add_size_basis = PercentOfInitial | PercentOfCurrent | FixedAmount

record scaling_limits =
  sl_max_scaling_layers :: "int option"
  sl_max_total_position_size :: "rat option"

text \<open>
  \<open>has_price\<close> and \<open>logic_blocks\<close> stand for \<open>price_scaling is not None\<close> and the number of
  indicator blocks of \<open>logic_scaling\<close>, if any: the scaling gates look at nothing else.
\<close>

record scaling_logic =
  sg_enabled :: bool
  sg_timeframe_mode :: timeframe_mode
  sg_custom_timeframe_sequence :: "string list option"
  sg_timeframe :: string
  sg_method :: "scaling_method option"
  sg_has_price :: bool
  sg_logic_blocks :: "nat option"
  sg_add_size_value :: "rat option"
  sg_scaling_limits :: "scaling_limits option"

record strategy_config =
  cf_position_sizing :: position_sizing
  cf_protection :: "protection_stop_logic option"
  cf_execution :: execution_model
  cf_order_config :: order_config
  cf_costs :: costs_model
  cf_tick_policy :: tick_policy
  cf_position_exit_logic :: position_exit_logic
  cf_scaling_logic :: "scaling_logic option"

record run_config =
  rc_config :: strategy_config
  rc_fill_costs :: fill_costs
  rc_alloc_on :: bool
  rc_alloc_compound :: bool
  rc_allocatable_initial :: rat
  rc_item_share :: rat
  rc_reserve_nominal :: rat
  rc_sizing_ok :: bool
  rc_leverage_ok :: bool
  rc_strength_ok :: bool
  rc_capability_ok :: bool

section \<open>Canonical timeframes\<close>

definition canonical_timeframes :: "string list" where
  "canonical_timeframes =
     [''1m'', ''3m'', ''5m'', ''15m'', ''30m'', ''1h'', ''2h'', ''4h'', ''1D'']"

fun index_of :: "'a \<Rightarrow> 'a list \<Rightarrow> nat option" where
  "index_of x [] = None"
| "index_of x (y # ys) = (if x = y then Some 0 else map_option Suc (index_of x ys))"

lemma index_of_Some: "index_of x xs = Some i \<Longrightarrow> i < length xs \<and> xs ! i = x"
  by (induction xs arbitrary: i) (auto split: if_splits)

lemma index_of_None: "index_of x xs = None \<longleftrightarrow> x \<notin> set xs"
  by (induction xs) auto

text \<open>
  The validator of a custom scaling sequence: it keeps a list only in custom mode, where the
  list is required and must climb the canonical ladder strictly.
\<close>

definition timeframe_ranks :: "string list \<Rightarrow> nat list" where
  "timeframe_ranks tfs = List.map_filter (\<lambda>tf. index_of tf canonical_timeframes) tfs"

definition custom_sequence_validated ::
  "timeframe_mode \<Rightarrow> string list option \<Rightarrow> string list option res" where
  "custom_sequence_validated mode v =
     (if mode \<noteq> CustomSequence then ok None
      else case v of None \<Rightarrow> raise ValueError
      | Some [] \<Rightarrow> raise ValueError
      | Some tfs \<Rightarrow>
          (let ranks = timeframe_ranks tfs in
           if length ranks = length tfs \<and> (\<exists>(a, b) \<in> set (zip ranks (tl ranks)). a \<ge> b)
           then raise ValueError else ok (Some tfs)))"

section \<open>A concrete configuration\<close>

definition demo_sizing :: position_sizing where
  "demo_sizing = \<lparr>sz_method = FormulaBasedSizing, sz_base_position_size = None, sz_risk_based = None,
     sz_formula_based = Some \<lparr>ff_formula_type = KellyCriterion, ff_formula_params =
       [(''win_probability'', PyDec (6/10)), (''payoff_ratio'', PyDec 2), (''kelly_fraction'', PyDec (1/2))]\<rparr>,
     sz_leverage_mode = Isolated, sz_leverage = 3, sz_position_size_limits =
       Some \<lparr>li_min_position_size = Some 5, li_max_position_size = Some 50\<rparr>\<rparr>"

definition demo_costs_model :: costs_model where
  "demo_costs_model = \<lparr>cm_commission = None, cm_commission_basis = ''flat'', cm_spread = None,
     cm_slippage_value = Some (1/2)\<rparr>"

definition demo_config :: strategy_config where
  "demo_config = \<lparr>cf_position_sizing = demo_sizing, cf_protection = None,
     cf_execution = \<lparr>em_entry_timing = NextCandleOpen, em_exit_timing = NextCandleOpen\<rparr>,
     cf_order_config = \<lparr>oc_type = MarketOrder, oc_limit = None, oc_stop = None\<rparr>,
     cf_costs = demo_costs_model, cf_tick_policy = TickInherit,
     cf_position_exit_logic = \<lparr>pe_close_percentage = 100, pe_partial_aftermath = CloseAll\<rparr>,
     cf_scaling_logic = None\<rparr>"

end
