(* ===== verification/Sizing.thy ===== *)
theory Sizing
  imports Strategy_Config
begin

text \<open>
  Position sizing (\<^verbatim>\<open>domain/backtest/execution/sizing.py\<close>): the Kelly fraction, the size each
  method resolves to, leverage and signal strength, the clamp to the configured limits, and the
  cap to the item's allocation sleeve.
\<close>

section \<open>Definitions\<close>

definition decimal_param :: "parser \<Rightarrow> (string, pyval) dict \<Rightarrow> string \<Rightarrow> rat option" where
  "decimal_param parse params key = dec_field parse (dget params key)"

definition kelly_capital_fraction :: "parser \<Rightarrow> position_sizing \<Rightarrow> rat option" where
  "kelly_capital_fraction parse sz =
     (case sz_formula_based sz of None \<Rightarrow> None | Some f \<Rightarrow>
      if sz_method sz \<noteq> FormulaBasedSizing then None
      else if ff_formula_type f \<noteq> KellyCriterion then None
      else case (decimal_param parse (ff_formula_params f) ''win_probability'',
                 decimal_param parse (ff_formula_params f) ''payoff_ratio'') of
        (Some win, Some payoff) \<Rightarrow>
          (if \<not> (0 < win \<and> win < 1) \<or> payoff \<le> 0 then None
           else case (if dget (ff_formula_params f) ''kelly_fraction'' = None then Some 1
                      else case decimal_param parse (ff_formula_params f) ''kelly_fraction'' of
                        None \<Rightarrow> None
                      | Some x \<Rightarrow> if 0 < x \<and> x \<le> 1 then Some x else None) of
             None \<Rightarrow> None
           | Some fraction \<Rightarrow>
               (let edge = dsub win (dquo (dsub 1 win) payoff) in
                Some (max (dmul fraction edge) 0)))
      | _ \<Rightarrow> None)"

definition sizing_is_honored :: "parser \<Rightarrow> strategy_config \<Rightarrow> bool" where
  "sizing_is_honored parse cfg =
     (let sz = cf_position_sizing cfg in
      if sz_method sz = BasePositionSize \<and> sz_base_position_size sz \<noteq> None then True
      else if sz_method sz = RiskBasedSizing \<and> sz_risk_based sz \<noteq> None then True
      else kelly_capital_fraction parse sz \<noteq> None)"

definition sizing_is_modelled :: "parser \<Rightarrow> strategy_config \<Rightarrow> bool" where
  "sizing_is_modelled parse cfg = sizing_is_honored parse cfg"

definition leverage_is_modelled :: "strategy_config \<Rightarrow> bool" where
  "leverage_is_modelled cfg =
     (case sz_leverage_mode (cf_position_sizing cfg) of
        NoLeverage \<Rightarrow> True | Cross \<Rightarrow> False | Isolated \<Rightarrow> sz_leverage (cf_position_sizing cfg) > 0)"

definition leverage_multiplier :: "strategy_config \<Rightarrow> rat" where
  "leverage_multiplier cfg =
     (if sz_leverage_mode (cf_position_sizing cfg) = NoLeverage then 1
      else sz_leverage (cf_position_sizing cfg))"

definition percent_of_capital :: "rat \<Rightarrow> rat \<Rightarrow> rat \<Rightarrow> rat option res" where
  "percent_of_capital percent equity entry_price =
     (if entry_price \<le> 0 then ok None
      else rmap_result Some
        (quantize 8 (dquo (dquo (dmul (max equity 0) percent) 100) entry_price)))"

definition clamp_to_limits ::
  "rat \<Rightarrow> position_size_limits option \<Rightarrow> rat \<Rightarrow> rat \<Rightarrow> rat res" where
  "clamp_to_limits sz limits equity entry_price =
     (case limits of None \<Rightarrow> ok sz | Some lm \<Rightarrow>
      if sz \<le> 0 then ok sz
      else
       (let minimum = li_min_position_size lm; maximum = li_max_position_size lm in
        if minimum \<noteq> None \<and> maximum \<noteq> None \<and> the minimum > the maximum then ok 0
        else
          rbind (case maximum of None \<Rightarrow> ok sz | Some m \<Rightarrow>
            rbind (percent_of_capital m equity entry_price) (\<lambda>cap. ok (case cap of
              None \<Rightarrow> sz | Some c \<Rightarrow> if sz > c then c else sz))) (\<lambda>s1.
          rbind (case minimum of None \<Rightarrow> ok s1 | Some m \<Rightarrow>
            rbind (percent_of_capital m equity entry_price) (\<lambda>flr. ok (case flr of
              None \<Rightarrow> s1 | Some f \<Rightarrow> if s1 < f then f else s1))) (\<lambda>s2.
          ok (max s2 0)))))"

definition max_position_size_cap :: "strategy_config \<Rightarrow> rat \<Rightarrow> rat \<Rightarrow> rat option res" where
  "max_position_size_cap cfg entry_price equity =
     (case sz_position_size_limits (cf_position_sizing cfg) of None \<Rightarrow> ok None
      | Some lm \<Rightarrow> (case li_max_position_size lm of None \<Rightarrow> ok None
          | Some m \<Rightarrow> percent_of_capital m equity entry_price))"

definition raw_position_size :: "parser \<Rightarrow> strategy_config \<Rightarrow> rat \<Rightarrow> rat \<Rightarrow> rat res" where
  "raw_position_size parse cfg entry_price equity =
     (let sz = cf_position_sizing cfg; usable = max equity 0 in
      if sz_method sz = BasePositionSize \<and> sz_base_position_size sz \<noteq> None then
        rbind (percent_of_capital (the (sz_base_position_size sz)) equity entry_price) (\<lambda>b.
          case b of None \<Rightarrow> ok 0 | Some x \<Rightarrow> quantize 8 x)
      else if sz_method sz = RiskBasedSizing \<and> sz_risk_based sz \<noteq> None then
        (let risk = the (sz_risk_based sz) in
         if rs_stop_loss_point risk > 0 then
           quantize 8 (dquo (dquo (dmul usable (rs_risk_percentage_per_trade risk)) 100)
             (rs_stop_loss_point risk))
         else ok 0)
      else case kelly_capital_fraction parse sz of
        None \<Rightarrow> ok 0
      | Some kelly \<Rightarrow>
          (if entry_price > 0 then quantize 8 (dquo (dmul usable kelly) entry_price) else ok 0))"

definition position_size :: "parser \<Rightarrow> strategy_config \<Rightarrow> rat \<Rightarrow> rat \<Rightarrow> rat \<Rightarrow> rat res" where
  "position_size parse cfg entry_price equity strength =
     rbind (raw_position_size parse cfg entry_price equity) (\<lambda>raw.
       clamp_to_limits (if raw > 0 then dmul (dmul raw (leverage_multiplier cfg)) strength else raw)
         (sz_position_size_limits (cf_position_sizing cfg)) equity entry_price)"

definition cap_to_sleeve :: "rat \<Rightarrow> rat \<Rightarrow> rat \<Rightarrow> rat res" where
  "cap_to_sleeve desired sleeve_capital entry_price =
     (if sleeve_capital \<le> 0 \<or> entry_price \<le> 0 then ok 0
      else rbind (quantize 8 (dquo sleeve_capital entry_price)) (\<lambda>cap. ok (min desired cap)))"

definition sleeve_capital :: "run_config \<Rightarrow> rat \<Rightarrow> rat" where
  "sleeve_capital ctx current_equity =
     (let allocatable = (if rc_alloc_compound ctx then max 0 (dsub current_equity (rc_reserve_nominal ctx))
                         else rc_allocatable_initial ctx) in
      dquo (dmul allocatable (rc_item_share ctx)) 100)"

definition planned_size ::
  "parser \<Rightarrow> run_config \<Rightarrow> run_ledger \<Rightarrow> string \<Rightarrow> rat \<Rightarrow> rat \<Rightarrow> rat option \<Rightarrow> rat res" where
  "planned_size parse ctx led direction fill_raw strength equity =
     (let sizing_equity = (case equity of None \<Rightarrow> rl_equity led | Some e \<Rightarrow> e) in
      rbind (effective_fill fill_raw (direction = ''long'')
               (fc_half_spread (rc_fill_costs ctx)) (fc_slippage (rc_fill_costs ctx))) (\<lambda>entry_eff.
        if rc_alloc_on ctx then
          (let sleeve = sleeve_capital ctx sizing_equity in
           rbind (position_size parse (rc_config ctx) entry_eff sleeve strength) (\<lambda>s.
             cap_to_sleeve s sleeve entry_eff))
        else position_size parse (rc_config ctx) entry_eff sizing_equity strength))"

text \<open>The reason an entry was not opened; a pending portfolio reason is reported once and cleared.\<close>

definition blocked_reason :: "run_config \<Rightarrow> (run_ledger, string) st" where
  "blocked_reason ctx = sbind sget (\<lambda>led.
     case rl_portfolio_block_reason led of
       Some reason \<Rightarrow> sbind (smod (\<lambda>l. l\<lparr>rl_portfolio_block_reason := None\<rparr>)) (\<lambda>_. sret reason)
     | None \<Rightarrow>
         sret (if \<not> rc_sizing_ok ctx then ''sizing_unsupported''
               else if \<not> rc_leverage_ok ctx then ''leverage_unsupported''
               else if \<not> rc_strength_ok ctx then ''signal_strength_unsupported''
               else if \<not> rc_capability_ok ctx then ''capability_not_in_build''
               else if rc_alloc_on ctx then ''sleeve_zero_capacity''
               else ''no_fill''))"

section \<open>The Kelly fraction\<close>

lemma kelly_nonneg: "kelly_capital_fraction parse sz = Some k \<Longrightarrow> 0 \<le> k"
  by (auto simp: kelly_capital_fraction_def Let_def split: option.splits if_splits)

lemma dmul_le_one: "0 \<le> x \<Longrightarrow> x \<le> 1 \<Longrightarrow> y \<le> 1 \<Longrightarrow> dmul x y \<le> 1"
proof -
  assume x: "0 \<le> x" "x \<le> 1" and y: "y \<le> 1"
  have "x * y \<le> x * 1" using x y by (intro mult_left_mono)
  then have "x * y \<le> 1" using x by simp
  then show ?thesis unfolding dmul_def
    by (intro ctx.upper) (auto intro: representableI [of _ 1 0])
qed

lemma kelly_le_one: "kelly_capital_fraction parse sz = Some k \<Longrightarrow> k \<le> 1"
proof -
  have edge: "dsub win (dquo (dsub 1 win) payoff) \<le> 1" if "win < 1" "0 < payoff" for win payoff
  proof -
    have "0 \<le> dquo (dsub 1 win) payoff" using that by (simp add: dquo_def dsub_def ctx.nonneg)
    then show ?thesis unfolding dsub_def [of win] using that
      by (intro ctx.upper) (auto intro: representableI [of _ 1 0])
  qed
  assume "kelly_capital_fraction parse sz = Some k"
  then show ?thesis
    by (auto simp: kelly_capital_fraction_def Let_def max_def intro!: dmul_le_one edge
        split: option.splits if_splits)
qed

section \<open>Limits\<close>

lemma percent_of_capital_mono:
  assumes "percent_of_capital p e x = Inr (Some a)" "percent_of_capital q e x = Inr (Some b)" "p \<le> q"
  shows "a \<le> b"
proof -
  have x: "0 < x" using assms(1) by (simp add: percent_of_capital_def split: if_splits)
  have "dmul (max e 0) p \<le> dmul (max e 0) q" unfolding dmul_def
    using assms(3) by (intro dfix_mono mult_left_mono) auto
  then have "dquo (dquo (dmul (max e 0) p) 100) x \<le> dquo (dquo (dmul (max e 0) q) 100) x"
    using x unfolding dquo_def by (intro dfix_mono divide_right_mono) auto
  then show ?thesis using assms(1,2) x
    by (auto simp: percent_of_capital_def rmap_result_def rbind_Inr_iff quantize_Inr_iff
        intro: qround_mono)
qed

lemma percent_of_capital_Some:
  "0 < x \<Longrightarrow> percent_of_capital p e x = Inr r \<Longrightarrow> \<exists>a. r = Some a"
  by (auto simp: percent_of_capital_def rmap_result_def rbind_Inr_iff)

definition respects_limits :: "position_size_limits \<Rightarrow> rat \<Rightarrow> rat \<Rightarrow> rat \<Rightarrow> bool" where
  "respects_limits lm equity entry_price r \<longleftrightarrow>
     (case li_max_position_size lm of None \<Rightarrow> True
      | Some m \<Rightarrow> (\<exists>c. percent_of_capital m equity entry_price = Inr (Some c) \<and> r \<le> c)) \<and>
     (case li_min_position_size lm of None \<Rightarrow> True
      | Some m \<Rightarrow> (\<exists>f. percent_of_capital m equity entry_price = Inr (Some f) \<and> f \<le> r))"

lemma clamp_respects:
  assumes "clamp_to_limits sz (Some lm) e p = Inr r" "0 < r" "0 < p"
  shows "respects_limits lm e p r"
proof (cases "0 < sz")
  case False
  then show ?thesis using assms(1,2) by (simp add: clamp_to_limits_def)
next
  case True
  let ?mn = "li_min_position_size lm" and ?mx = "li_max_position_size lm"
  from assms(1,2) True obtain s1 where
    ord: "\<not> (?mn \<noteq> None \<and> ?mx \<noteq> None \<and> the ?mn > the ?mx)" and
    mx: "(case ?mx of None \<Rightarrow> ok sz | Some m \<Rightarrow>
            rbind (percent_of_capital m e p) (\<lambda>cap. ok (case cap of
              None \<Rightarrow> sz | Some c \<Rightarrow> if sz > c then c else sz))) = Inr s1" and
    mn: "(case ?mn of None \<Rightarrow> ok s1 | Some m \<Rightarrow>
            rbind (percent_of_capital m e p) (\<lambda>flr. ok (case flr of
              None \<Rightarrow> s1 | Some f \<Rightarrow> if s1 < f then f else s1))) = Inr r"
    by (auto simp: clamp_to_limits_def Let_def rbind_Inr_iff max_def split: if_splits)
  have cap: "\<exists>c. percent_of_capital m e p = Inr (Some c) \<and> s1 \<le> c" if "?mx = Some m" for m
    using mx that percent_of_capital_Some [OF assms(3), of m e] by (auto simp: rbind_Inr_iff)
  have flr: "\<exists>f. percent_of_capital m e p = Inr (Some f) \<and> f \<le> r \<and> (r = s1 \<or> r = f)" if "?mn = Some m" for m
    using mn that percent_of_capital_Some [OF assms(3), of m e] by (auto simp: rbind_Inr_iff)
  have eq: "r = s1" if "?mn = None" using mn that by simp
  show ?thesis
  proof (cases ?mn)
    case None
    then show ?thesis using eq cap by (auto simp: respects_limits_def split: option.split)
  next
    case (Some m)
    then obtain f where f: "percent_of_capital m e p = Inr (Some f)" "f \<le> r" "r = s1 \<or> r = f"
      using flr by blast
    show ?thesis
    proof (cases ?mx)
      case None
      then show ?thesis using Some f by (auto simp: respects_limits_def)
    next
      case mx': (Some n)
      then obtain c where c: "percent_of_capital n e p = Inr (Some c)" "s1 \<le> c" using cap by blast
      have "m \<le> n" using ord Some mx' by auto
      then have "f \<le> c" by (rule percent_of_capital_mono [OF f(1) c(1)])
      then show ?thesis using Some mx' f c by (auto simp: respects_limits_def)
    qed
  qed
qed

section \<open>Properties\<close>

text \<open>A Kelly sizing always commits between nothing and all of the capital, and it is resolved
  only for the Kelly formula under formula-based sizing.\<close>

theorem kelly_fraction_bounds:
  assumes "kelly_capital_fraction parse sz = Some k"
  shows "0 \<le> k \<and> k \<le> 1 \<and> sz_method sz = FormulaBasedSizing \<and>
    map_option ff_formula_type (sz_formula_based sz) = Some KellyCriterion"
  using assms kelly_nonneg [OF assms] kelly_le_one [OF assms]
  by (auto simp: kelly_capital_fraction_def split: option.splits if_splits)

text \<open>C40. A positive position size respects the configured limits: whatever the method, leverage
  and strength make of it, it is at most the maximum and at least the minimum percentage of the
  capital at the entry price; and a sizing the engine does not model resolves to zero.\<close>

theorem position_size_respects_limits:
  assumes "position_size parse cfg p equity strength = Inr r" "0 < p"
  shows "(\<forall>lm. sz_position_size_limits (cf_position_sizing cfg) = Some lm \<and> 0 < r \<longrightarrow>
      respects_limits lm equity p r) \<and>
    (\<not> sizing_is_modelled parse cfg \<longrightarrow> r = 0)"
proof -
  from assms(1) obtain raw where raw: "raw_position_size parse cfg p equity = Inr raw"
    and c: "clamp_to_limits (if raw > 0 then dmul (dmul raw (leverage_multiplier cfg)) strength else raw)
       (sz_position_size_limits (cf_position_sizing cfg)) equity p = Inr r"
    by (auto simp: position_size_def rbind_Inr_iff)
  have "r = 0" if "\<not> sizing_is_modelled parse cfg"
  proof -
    have "raw = 0" using raw that
      by (auto simp: raw_position_size_def sizing_is_modelled_def sizing_is_honored_def Let_def
          split: if_splits option.splits)
    then show ?thesis using c by (simp add: clamp_to_limits_def split: option.splits)
  qed
  moreover have "respects_limits lm equity p r"
    if "sz_position_size_limits (cf_position_sizing cfg) = Some lm" "0 < r" for lm
    using c that assms(2) by (auto intro: clamp_respects)
  ultimately show ?thesis by blast
qed

lemma cap_to_sleeve_fits:
  assumes "cap_to_sleeve d sleeve e = Inr r" "0 < r"
  shows "0 < sleeve \<and> 0 < e \<and> r \<le> d \<and> r * e \<le> with_slack e sleeve"
proof -
  from assms have p: "0 < sleeve" "0 < e" by (auto simp: cap_to_sleeve_def split: if_splits)
  with assms(1) obtain cap where cap: "quantize 8 (dquo sleeve e) = Inr cap" "r = min d cap"
    by (auto simp: cap_to_sleeve_def rbind_Inr_iff)
  then have "r \<le> qround 8 (dfix (sleeve / e))" by (auto simp: dquo_def dest: quantizeD)
  then show ?thesis using p cap(2) quotient_slack [of r sleeve e] by simp
qed

text \<open>Under allocation a planned entry fits its sleeve: a positive planned size implies a
  positive sleeve and fill price, and its notional at the effective fill exceeds the sleeve's
  capital at most by the rounding slack.\<close>

theorem planned_size_fits_sleeve:
  assumes "planned_size parse ctx led dir fill_raw strength equity = Inr r" "rc_alloc_on ctx" "0 < r"
  shows "\<exists>e. effective_fill fill_raw (dir = ''long'') (fc_half_spread (rc_fill_costs ctx))
        (fc_slippage (rc_fill_costs ctx)) = Inr e \<and>
    (let sleeve = sleeve_capital ctx (case equity of None \<Rightarrow> rl_equity led | Some x \<Rightarrow> x) in
     0 < e \<and> 0 < sleeve \<and> r * e \<le> with_slack e sleeve)"
  using assms by (auto simp: planned_size_def Let_def rbind_Inr_iff dest!: cap_to_sleeve_fits)

section \<open>Concrete runs\<close>

definition demo_run_config :: run_config where
  "demo_run_config = \<lparr>rc_config = demo_config,
     rc_fill_costs = \<lparr>fc_half_spread = 0, fc_slippage = 0, fc_commission = 0, fc_commission_basis = ''flat''\<rparr>,
     rc_alloc_on = True, rc_alloc_compound = True, rc_allocatable_initial = 1000, rc_item_share = 40,
     rc_reserve_nominal = 100, rc_sizing_ok = True, rc_leverage_ok = True, rc_strength_ok = True,
     rc_capability_ok = True\<rparr>"

lemmas sizing_eval = demo_sizing_def demo_config_def demo_run_config_def fresh_run_ledger_def
  position_size_def raw_position_size_def kelly_capital_fraction_def decimal_param_def dec_field_def
  dec_value_def clamp_to_limits_def percent_of_capital_def leverage_multiplier_def rmap_result_def
  planned_size_def sleeve_capital_def cap_to_sleeve_def effective_fill_def dec_eval

theorem kelly_fraction_bounds_witness:
  "kelly_capital_fraction (\<lambda>_. None) demo_sizing = Some (1/5) \<and> (1/5 :: rat) \<le> 1"
proof -
  have k: "kelly_capital_fraction (\<lambda>_. None) demo_sizing = Some (1/5)"
    by (simp add: sizing_eval cong: let_weak_cong)
  from kelly_fraction_bounds [OF k] k show ?thesis by simp
qed

theorem position_size_respects_limits_witness:
  "position_size (\<lambda>_. None) demo_config 100 1000 1 = Inr 5 \<and>
   respects_limits \<lparr>li_min_position_size = Some 5, li_max_position_size = Some 50\<rparr> 1000 100 5"
proof -
  have p: "position_size (\<lambda>_. None) demo_config 100 1000 1 = Inr 5"
    by (simp add: sizing_eval cong: let_weak_cong)
  from position_size_respects_limits [OF p] p show ?thesis
    by (simp add: demo_config_def demo_sizing_def)
qed

theorem planned_size_fits_sleeve_witness:
  "planned_size (\<lambda>_. None) demo_run_config (fresh_run_ledger 1100) ''long'' 100 1 None = Inr 2 \<and>
   (2 :: rat) * 100 \<le> with_slack 100 400"
proof -
  have p: "planned_size (\<lambda>_. None) demo_run_config (fresh_run_ledger 1100) ''long'' 100 1 None = Inr 2"
    by (simp add: sizing_eval cong: let_weak_cong)
  have e: "effective_fill 100 True 0 0 = Inr 100" "sleeve_capital demo_run_config 1100 = 400"
    by (simp_all add: sizing_eval cong: let_weak_cong)
  from planned_size_fits_sleeve [OF p] p e show ?thesis
    by (simp add: demo_run_config_def fresh_run_ledger_def)
qed

end
