(* ===== verification/Fills.thy ===== *)
theory Fills
  imports Strategy_Config
begin

text \<open>
  How orders and stops fill (\<^verbatim>\<open>domain/backtest/execution/fills.py\<close>): which timings and order
  types are modelled at all, the stop levels of a position, the cursor that hands each bar its
  own ticks, the resolution of several stops in one bar, and partial limit fills. The text of a
  tick's timestamp is either all digits or resolved by the parameter \<open>clock\<close> (the program's
  \<open>parse_utc\<close> rounded to milliseconds).
\<close>

section \<open>What is modelled\<close>

definition tick_data_required :: "strategy_config \<Rightarrow> bool" where
  "tick_data_required cfg = (cf_tick_policy cfg = TickRequire)"

definition entry_timing_modelled :: "fill_timing list" where
  "entry_timing_modelled =
     [CurrentCandleClose, MarketFillSimulation, NextCandleOpen, NextCandleClose]"

definition exit_timing_modelled :: "fill_timing list" where
  "exit_timing_modelled =
     [CurrentCandleClose, MarketFillSimulation, NextCandleOpen, NextCandleClose]"

definition tick_entry_timings :: "fill_timing list" where
  "tick_entry_timings = [IntrabarTouch, LimitFillSimulation]"

definition tick_exit_timings :: "fill_timing list" where
  "tick_exit_timings = [IntrabarTouch, StopLimitPrioritySimulation]"

definition limit_backed_order_types :: "order_type list" where
  "limit_backed_order_types = [LimitOrder, StopLimitOrder]"

definition execution_timing_is_modelled :: "strategy_config \<Rightarrow> bool" where
  "execution_timing_is_modelled cfg =
     (let e = em_entry_timing (cf_execution cfg); x = em_exit_timing (cf_execution cfg);
          tick_backed = tick_data_required cfg;
          entry_ok = e \<in> set entry_timing_modelled \<or>
            (e \<in> set tick_entry_timings \<and> tick_backed \<and>
             (e \<noteq> LimitFillSimulation \<or> oc_type (cf_order_config cfg) \<in> set limit_backed_order_types));
          exit_ok = x \<in> set exit_timing_modelled \<or> (x \<in> set tick_exit_timings \<and> tick_backed)
      in entry_ok \<and> exit_ok)"

datatype fill_schedule = Immediate | NextOpen | NextClose | Touch

definition fill_schedule_of :: "fill_timing \<Rightarrow> fill_schedule" where
  "fill_schedule_of t = (case t of NextCandleOpen \<Rightarrow> NextOpen | NextCandleClose \<Rightarrow> NextClose
     | IntrabarTouch \<Rightarrow> Touch | _ \<Rightarrow> Immediate)"

definition modelled_price_rules :: "price_rule list" where
  "modelled_price_rules = [EntrySignalPrice, SignalPriceMinusOffset, SignalPricePlusOffset]"

definition offset_activation_rules :: "price_rule list" where
  "offset_activation_rules = [SignalPriceMinusOffset, SignalPricePlusOffset]"

definition stop_trigger_is_modelled :: "stop_order_details option \<Rightarrow> bool" where
  "stop_trigger_is_modelled stop =
     (case stop of None \<Rightarrow> False | Some s \<Rightarrow>
        if so_activation_rule s \<notin> set modelled_price_rules then False
        else \<not> (so_activation_rule s \<in> set offset_activation_rules \<and> so_trigger_offset s = None))"

definition limit_is_modelled :: "bool \<Rightarrow> limit_order_details option \<Rightarrow> bool" where
  "limit_is_modelled tick_backed limit =
     (case limit of None \<Rightarrow> False | Some l \<Rightarrow>
        lo_price_rule l \<in> set modelled_price_rules \<and>
        (lo_partial_fill_policy l = PartialNotAllowed \<or> tick_backed))"

definition order_execution_is_modelled :: "strategy_config \<Rightarrow> bool" where
  "order_execution_is_modelled cfg =
     (let order = cf_order_config cfg; tick_backed = tick_data_required cfg in
      case oc_type order of
        MarketOrder \<Rightarrow> True
      | SimulationOnly \<Rightarrow> True
      | LimitOrder \<Rightarrow> limit_is_modelled tick_backed (oc_limit order)
      | StopOrder \<Rightarrow> stop_trigger_is_modelled (oc_stop order)
      | StopLimitOrder \<Rightarrow> stop_trigger_is_modelled (oc_stop order) \<and>
          limit_is_modelled tick_backed (oc_limit order))"

definition limit_price :: "price_rule \<Rightarrow> rat \<Rightarrow> rat \<Rightarrow> rat" where
  "limit_price rule reference offset =
     (if rule = SignalPriceMinusOffset then dsub reference offset
      else if rule = SignalPricePlusOffset then dadd reference offset else reference)"

section \<open>Stop levels\<close>

definition pct_stop_level :: "strategy_config \<Rightarrow> bool \<Rightarrow> rat \<Rightarrow> rat option" where
  "pct_stop_level cfg long entry_price =
     (case Option.bind (cf_protection cfg) pl_percentage_stop of None \<Rightarrow> None
      | Some p \<Rightarrow>
         if \<not> pst_enabled p then None
         else let distance = dmul entry_price (dquo (pst_loss_percentage p) 100) in
           Some (if long then dsub entry_price distance else dadd entry_price distance))"

definition abs_stop_level :: "strategy_config \<Rightarrow> rat option" where
  "abs_stop_level cfg =
     (case Option.bind (cf_protection cfg) pl_absolute_stop of None \<Rightarrow> None
      | Some a \<Rightarrow> if \<not> ast_enabled a then None else ast_absolute_price a)"

definition trail_pct :: "strategy_config \<Rightarrow> rat option" where
  "trail_pct cfg =
     (case Option.bind (cf_protection cfg) pl_trailing_stop of None \<Rightarrow> None
      | Some t \<Rightarrow> if tst_enabled t then Some (dquo (tst_trail_percentage t) 100) else None)"

definition trail_lock_in_pct :: "strategy_config \<Rightarrow> rat option" where
  "trail_lock_in_pct cfg =
     (case Option.bind (cf_protection cfg) pl_trailing_stop of None \<Rightarrow> None
      | Some t \<Rightarrow> if tst_enabled t then Some (dquo (tst_lock_in_percentage t) 100) else None)"

definition trailing_activated :: "position \<Rightarrow> bool" where
  "trailing_activated p =
     (case (ps_trail_pct p, ps_trail_lock_in_pct p) of
        (Some _, Some lock) \<Rightarrow>
          (if is_long p then ps_trail_anchor p \<ge> dmul (ps_entry_price p) (dadd 1 lock)
           else ps_trail_anchor p \<le> dmul (ps_entry_price p) (dsub 1 lock))
      | _ \<Rightarrow> False)"

definition trailing_level :: "position \<Rightarrow> rat option" where
  "trailing_level p =
     (case ps_trail_pct p of None \<Rightarrow> None
      | Some t \<Rightarrow> if \<not> trailing_activated p then None
          else Some (if is_long p then dmul (ps_trail_anchor p) (dsub 1 t)
                     else dmul (ps_trail_anchor p) (dadd 1 t)))"

section \<open>Ticks\<close>

record tick =
  tk_epoch_ms :: int
  tk_price :: rat
  tk_size :: "rat option"

record raw_tick =
  rt_timestamp :: "string option"
  rt_price :: "pyval option"
  rt_size :: "pyval option"

definition is_digit :: "char \<Rightarrow> bool" where
  "is_digit c = (48 \<le> (of_char c :: nat) \<and> (of_char c :: nat) \<le> 57)"

definition digits_value :: "string \<Rightarrow> int" where
  "digits_value s = foldl (\<lambda>n c. 10 * n + (of_char c - 48)) 0 s"

definition tick_epoch_ms :: "(string \<Rightarrow> int option) \<Rightarrow> string \<Rightarrow> int option" where
  "tick_epoch_ms clock timestamp =
     (let text = strip timestamp in
      if text = [] then None
      else if list_all is_digit text then
        (let v = digits_value text in Some (if length text \<ge> 13 then v else v * 1000))
      else clock text)"

definition normalize_tick :: "(string \<Rightarrow> int option) \<Rightarrow> parser \<Rightarrow> raw_tick \<Rightarrow> tick option" where
  "normalize_tick clock parse raw =
     (case tick_epoch_ms clock (case rt_timestamp raw of None \<Rightarrow> [] | Some t \<Rightarrow> t) of None \<Rightarrow> None
      | Some epoch \<Rightarrow>
        (case dec_field parse (rt_price raw) of None \<Rightarrow> None
         | Some price \<Rightarrow>
            if price \<le> 0 then None
            else Some \<lparr>tk_epoch_ms = epoch, tk_price = price, tk_size =
              (case rt_size raw of None \<Rightarrow> None | Some PyNone \<Rightarrow> None
               | Some v \<Rightarrow> (case dec_value parse v of None \<Rightarrow> None
                   | Some z \<Rightarrow> if z > 0 then Some z else None))\<rparr>))"

record tick_cursor =
  tc_rows :: "raw_tick list"
  tc_span_ms :: int
  tc_pending :: "tick option"
  tc_exhausted :: bool

definition tick_cursor_init :: "raw_tick list list \<Rightarrow> int \<Rightarrow> tick_cursor" where
  "tick_cursor_init batches span_seconds =
     \<lparr>tc_rows = concat batches, tc_span_ms = span_seconds * 1000, tc_pending = None,
      tc_exhausted = False\<rparr>"

text \<open>The reading loop: what was collected, the rows left, the tick held back, and exhaustion.\<close>

fun collect_ticks ::
  "(raw_tick \<Rightarrow> tick option) \<Rightarrow> int \<Rightarrow> int \<Rightarrow> raw_tick list \<Rightarrow> tick list
     \<Rightarrow> tick list \<times> raw_tick list \<times> tick option \<times> bool" where
  "collect_ticks nm start stop [] acc = (acc, [], None, True)"
| "collect_ticks nm start stop (row # rows) acc =
     (case nm row of None \<Rightarrow> collect_ticks nm start stop rows acc
      | Some t \<Rightarrow>
          if tk_epoch_ms t \<ge> stop then (acc, rows, Some t, False)
          else collect_ticks nm start stop rows (if tk_epoch_ms t \<ge> start then acc @ [t] else acc))"

definition for_bar ::
  "(string \<Rightarrow> int option) \<Rightarrow> parser \<Rightarrow> string \<Rightarrow> tick_cursor \<Rightarrow> tick list \<times> tick_cursor" where
  "for_bar clock parse bar_timestamp c =
     (case tick_epoch_ms clock bar_timestamp of None \<Rightarrow> ([], c)
      | Some start \<Rightarrow>
        (let stop = start + tc_span_ms c in
         if tc_pending c \<noteq> None \<and> tk_epoch_ms (the (tc_pending c)) \<ge> stop then ([], c)
         else
          (let kept = (case tc_pending c of None \<Rightarrow> []
                       | Some p \<Rightarrow> if tk_epoch_ms p \<ge> start then [p] else []);
               (ticks, rows, pending, exhausted) =
                 (if tc_exhausted c then (kept, tc_rows c, None, True)
                  else collect_ticks (normalize_tick clock parse) start stop (tc_rows c) kept) in
           (sort_key tk_epoch_ms ticks,
            c\<lparr>tc_rows := rows, tc_pending := pending, tc_exhausted := exhausted\<rparr>))))"

text \<open>The ticks a cursor still has to deliver.\<close>

definition cursor_stream :: "(string \<Rightarrow> int option) \<Rightarrow> parser \<Rightarrow> tick_cursor \<Rightarrow> tick list" where
  "cursor_stream clock parse c =
     (case tc_pending c of None \<Rightarrow> [] | Some p \<Rightarrow> [p]) @
     (if tc_exhausted c then [] else List.map_filter (normalize_tick clock parse) (tc_rows c))"

lemma collect_ticks_window:
  assumes "sorted (map tk_epoch_ms (List.map_filter nm rows))"
    and "collect_ticks nm start stop rows acc = (ticks, rest, pending, exhausted)"
  shows "ticks = acc @ filter (\<lambda>t. start \<le> tk_epoch_ms t \<and> tk_epoch_ms t < stop) (List.map_filter nm rows)"
    and "(case pending of None \<Rightarrow> [] | Some p \<Rightarrow> [p]) @ (if exhausted then [] else List.map_filter nm rest)
      = dropWhile (\<lambda>t. tk_epoch_ms t < stop) (List.map_filter nm rows)"
  using assms
proof (induction nm start stop rows acc rule: collect_ticks.induct)
  case (1 nm start stop acc)
  { case 1 then show ?case by (simp add: map_filter_simps) }
  { case 2 then show ?case by (simp add: map_filter_simps) }
next
  case (2 nm start stop row rows acc)
  have late: "filter (\<lambda>t. start \<le> tk_epoch_ms t \<and> tk_epoch_ms t < stop) ts = []"
    if "sorted (map tk_epoch_ms (t # ts))" "tk_epoch_ms t \<ge> stop" for t ts
    using that by (auto simp: filter_empty_conv)
  show "ticks = acc @ filter (\<lambda>t. start \<le> tk_epoch_ms t \<and> tk_epoch_ms t < stop)
      (List.map_filter nm (row # rows))"
    if "sorted (map tk_epoch_ms (List.map_filter nm (row # rows)))"
      "collect_ticks nm start stop (row # rows) acc = (ticks, rest, pending, exhausted)"
  proof (cases "nm row")
    case None
    then show ?thesis using that "2.IH"(1) by (simp add: map_filter_simps)
  next
    case (Some t)
    show ?thesis
    proof (cases "tk_epoch_ms t \<ge> stop")
      case True
      then have "ticks = acc" using that Some by simp
      then show ?thesis using that(1) True Some late [of t "List.map_filter nm rows"]
        by (simp add: map_filter_simps)
    next
      case False
      then show ?thesis using that Some "2.IH"(3) [OF Some False]
        by (simp add: map_filter_simps split: if_splits)
    qed
  qed
  show "(case pending of None \<Rightarrow> [] | Some p \<Rightarrow> [p]) @ (if exhausted then [] else List.map_filter nm rest)
      = dropWhile (\<lambda>t. tk_epoch_ms t < stop) (List.map_filter nm (row # rows))"
    if "sorted (map tk_epoch_ms (List.map_filter nm (row # rows)))"
      "collect_ticks nm start stop (row # rows) acc = (ticks, rest, pending, exhausted)"
  proof (cases "nm row")
    case None
    then show ?thesis using that "2.IH"(2) by (simp add: map_filter_simps)
  next
    case (Some t)
    show ?thesis
    proof (cases "tk_epoch_ms t \<ge> stop")
      case True
      then have "pending = Some t" "rest = rows" "\<not> exhausted" using that Some by simp_all
      then show ?thesis using True Some by (simp add: map_filter_simps)
    next
      case False
      then show ?thesis using that Some "2.IH"(4) [OF Some False]
        by (simp add: map_filter_simps)
    qed
  qed
qed

lemma dropWhile_window:
  "sorted (map tk_epoch_ms (t # ts)) \<Longrightarrow> stop \<le> tk_epoch_ms t \<Longrightarrow>
     filter (\<lambda>t. start \<le> tk_epoch_ms t \<and> tk_epoch_ms t < stop) (t # ts) = [] \<and>
     dropWhile (\<lambda>t. tk_epoch_ms t < stop) (t # ts) = t # ts"
  by (auto simp: filter_empty_conv)

text \<open>C38. On a feed in time order the cursor hands a bar exactly the ticks of its own window and
  keeps exactly the later ones: nothing is lost, delivered twice or seen early.\<close>

theorem tick_cursor_windows:
  assumes ord: "sorted (map tk_epoch_ms (cursor_stream clock parse c))"
    and bar: "tick_epoch_ms clock ts = Some start"
    and call: "for_bar clock parse ts c = (ticks, c')"
  shows "ticks = filter (\<lambda>t. start \<le> tk_epoch_ms t \<and> tk_epoch_ms t < start + tc_span_ms c)
      (cursor_stream clock parse c) \<and>
    cursor_stream clock parse c'
      = dropWhile (\<lambda>t. tk_epoch_ms t < start + tc_span_ms c) (cursor_stream clock parse c)"
proof (cases "tc_pending c \<noteq> None \<and> tk_epoch_ms (the (tc_pending c)) \<ge> start + tc_span_ms c")
  case True
  then obtain p rest where "cursor_stream clock parse c = p # rest" "start + tc_span_ms c \<le> tk_epoch_ms p"
    by (auto simp: cursor_stream_def)
  with True show ?thesis using call bar ord dropWhile_window [of p rest "start + tc_span_ms c" start]
    by (auto simp: for_bar_def)
next
  case False
  let ?stop = "start + tc_span_ms c"
  let ?nm = "normalize_tick clock parse"
  let ?in = "\<lambda>t. start \<le> tk_epoch_ms t \<and> tk_epoch_ms t < ?stop"
  let ?pend = "case tc_pending c of None \<Rightarrow> [] | Some p \<Rightarrow> [p]"
  let ?kept = "case tc_pending c of None \<Rightarrow> []
                       | Some p \<Rightarrow> if tk_epoch_ms p \<ge> start then [p] else []"
  have kept: "?kept = filter ?in ?pend" "dropWhile (\<lambda>t. tk_epoch_ms t < ?stop) (?pend @ xs)
      = dropWhile (\<lambda>t. tk_epoch_ms t < ?stop) xs" for xs
    using False by (auto split: option.split)
  have ord_rest: "sorted (map tk_epoch_ms (List.map_filter ?nm (tc_rows c)))" if "\<not> tc_exhausted c"
    using ord that by (simp add: cursor_stream_def sorted_append)
  obtain ts' rows pending exhausted where
    loop: "(if tc_exhausted c then (?kept, tc_rows c, None, True)
            else collect_ticks ?nm start ?stop (tc_rows c) ?kept) = (ts', rows, pending, exhausted)"
    by (rule prod_cases4)
  have run: "for_bar clock parse ts c = (sort_key tk_epoch_ms ts',
      c\<lparr>tc_rows := rows, tc_pending := pending, tc_exhausted := exhausted\<rparr>)"
    unfolding for_bar_def bar option.case Let_def if_not_P [OF False] loop prod.case ..
  note c' = trans [OF call [symmetric] run, THEN Pair_inject]
  have c': "ticks = sort_key tk_epoch_ms ts'"
    "c' = c\<lparr>tc_rows := rows, tc_pending := pending, tc_exhausted := exhausted\<rparr>"
    by (rule c', assumption)+
  have "ts' = filter ?in (cursor_stream clock parse c) \<and>
    cursor_stream clock parse c' = dropWhile (\<lambda>t. tk_epoch_ms t < ?stop) (cursor_stream clock parse c)"
  proof (cases "tc_exhausted c")
    case True
    then show ?thesis using loop False by (auto simp: cursor_stream_def c'(2) split: option.splits)
  next
    case f: False
    with loop have l: "collect_ticks ?nm start ?stop (tc_rows c) ?kept = (ts', rows, pending, exhausted)"
      by simp
    from collect_ticks_window [OF ord_rest [OF f] l] show ?thesis
      using f kept by (auto simp: cursor_stream_def c'(2))
  qed
  moreover have "sorted (map tk_epoch_ms (filter ?in (cursor_stream clock parse c)))"
    using ord by (rule sorted_filter)
  then have "sort_key tk_epoch_ms (filter ?in (cursor_stream clock parse c))
      = filter ?in (cursor_stream clock parse c)" by (rule sort_key_id_if_sorted)
  ultimately show ?thesis unfolding c'(1) by blast
qed

section \<open>First of the smallest, first of the largest\<close>

text \<open>\<open>min(xs, key=f)\<close> and \<open>max(xs, key=f)\<close> on a non-empty iterable: the first element in
  iteration order among those with the extreme key.\<close>

fun first_min :: "('a \<Rightarrow> 'b::linorder) \<Rightarrow> 'a \<Rightarrow> 'a list \<Rightarrow> 'a" where
  "first_min f m [] = m"
| "first_min f m (x # xs) = first_min f (if f x < f m then x else m) xs"

fun first_max :: "('a \<Rightarrow> 'b::linorder) \<Rightarrow> 'a \<Rightarrow> 'a list \<Rightarrow> 'a" where
  "first_max f m [] = m"
| "first_max f m (x # xs) = first_max f (if f m < f x then x else m) xs"

lemma first_min_least: "first_min f m xs \<in> insert m (set xs) \<and> (\<forall>y \<in> insert m (set xs). f (first_min f m xs) \<le> f y)"
proof (induction xs arbitrary: m)
  case Nil
  then show ?case by simp
next
  case (Cons x xs)
  from Cons.IH [of "if f x < f m then x else m"] show ?case
    by (auto split: if_splits intro: order_trans less_imp_le)
qed

lemma first_max_greatest: "first_max f m xs \<in> insert m (set xs) \<and> (\<forall>y \<in> insert m (set xs). f y \<le> f (first_max f m xs))"
proof (induction xs arbitrary: m)
  case Nil
  then show ?case by simp
next
  case (Cons x xs)
  from Cons.IH [of "if f m < f x then x else m"] show ?case
    by (auto split: if_splits intro: order_trans less_imp_le)
qed

lemma first_extreme_in:
  "insert m (set xs) \<subseteq> S \<Longrightarrow> first_min f m xs \<in> S" "insert m (set xs) \<subseteq> S \<Longrightarrow> first_max f m xs \<in> S"
  using first_min_least [of f m xs] first_max_greatest [of f m xs] by blast+

section \<open>Tick order\<close>

definition touches :: "bool \<Rightarrow> rat \<Rightarrow> rat \<Rightarrow> bool" where
  "touches long price level = (if long then price \<le> level else price \<ge> level)"

definition priority_rank :: "(string, nat) dict \<Rightarrow> string \<Rightarrow> nat" where
  "priority_rank priority k = (case dget priority k of None \<Rightarrow> length priority | Some i \<Rightarrow> i)"

definition level_of :: "(string, rat) dict \<Rightarrow> string \<Rightarrow> rat" where
  "level_of levels k = the (dget levels k)"

fun first_tick_touch ::
  "(string, rat) dict \<Rightarrow> tick list \<Rightarrow> bool \<Rightarrow> (string, nat) dict \<Rightarrow> string option" where
  "first_tick_touch levels [] long priority = None"
| "first_tick_touch levels (t # ts) long priority =
     (case filter (\<lambda>k. touches long (tk_price t) (level_of levels k)) (map fst levels) of
        [] \<Rightarrow> first_tick_touch levels ts long priority
      | k # ks \<Rightarrow> Some
          (if long then first_max (\<lambda>k. (level_of levels k, - int (priority_rank priority k))) k ks
           else first_min (\<lambda>k. (level_of levels k, int (priority_rank priority k))) k ks))"

definition touching_ticks :: "tick list \<Rightarrow> rat \<Rightarrow> bool \<Rightarrow> tick list" where
  "touching_ticks ticks level is_buy =
     (if is_buy then filter (\<lambda>t. tk_price t \<le> level) ticks else filter (\<lambda>t. tk_price t \<ge> level) ticks)"

fun first_trigger_index :: "tick list \<Rightarrow> rat \<Rightarrow> bool \<Rightarrow> nat option" where
  "first_trigger_index [] trigger long = None"
| "first_trigger_index (t # ts) trigger long =
     (if (if long then tk_price t \<ge> trigger else tk_price t \<le> trigger) then Some 0
      else map_option Suc (first_trigger_index ts trigger long))"

section \<open>Stop resolution\<close>

definition canonical_price_stop_order :: "string list" where
  "canonical_price_stop_order = [''percentage'', ''trailing'', ''absolute'']"

definition append_missing :: "string list \<Rightarrow> string list \<Rightarrow> string list" where
  "append_missing ordered keys = foldl (\<lambda>ks k. if k \<in> set ks then ks else ks @ [k]) ordered keys"

definition stop_priority_sequence :: "string list option \<Rightarrow> string list \<Rightarrow> string list" where
  "stop_priority_sequence custom logic_keys =
     append_missing (case custom of None \<Rightarrow> [] | Some ks \<Rightarrow> ks) (logic_keys @ canonical_price_stop_order)"

definition stop_priority_index :: "string list option \<Rightarrow> string list \<Rightarrow> (string, nat) dict" where
  "stop_priority_index custom logic_keys =
     (let ks = stop_priority_sequence custom logic_keys in
      foldl (\<lambda>d (i, k). dset k i d) [] (zip [0..<length ks] ks))"

record stop_outcome =
  sto_price :: rat
  sto_trigger_price :: rat
  sto_executed_key :: string
  sto_triggered :: "string list"
  sto_approximated_first :: bool
  sto_tick_resolved :: bool

definition gap_adjusted :: "stop_outcome \<Rightarrow> bool" where
  "gap_adjusted o1 = (sto_price o1 \<noteq> sto_trigger_price o1)"

definition attainable_stop_fill :: "rat \<Rightarrow> bar \<Rightarrow> bool \<Rightarrow> rat" where
  "attainable_stop_fill level b long = (if long then min level (br_open b) else max level (br_open b))"

definition opt_entry :: "string \<Rightarrow> rat option \<Rightarrow> (string, rat) dict" where
  "opt_entry k v = (case v of None \<Rightarrow> [] | Some x \<Rightarrow> [(k, x)])"

definition price_levels :: "position \<Rightarrow> (string, rat) dict" where
  "price_levels p = opt_entry ''percentage'' (ps_pct_stop p) @ opt_entry ''absolute'' (ps_abs_stop p)
     @ opt_entry ''trailing'' (trailing_level p)"

definition triggered_stops :: "position \<Rightarrow> bar \<Rightarrow> string list \<Rightarrow> (string, rat) dict" where
  "triggered_stops p b logic_triggered =
     foldl (\<lambda>d k. dset k (br_close b) d)
       (filter (\<lambda>(k, level). if is_long p then br_low b \<le> level else br_high b \<ge> level) (price_levels p))
       logic_triggered"

definition stop_winner ::
  "bool \<Rightarrow> rat \<Rightarrow> (string, rat) dict \<Rightarrow> (string, nat) dict \<Rightarrow> string" where
  "stop_winner ranked entry triggered priority =
     (let ks = map fst triggered in
      if ranked then first_min (priority_rank priority) (hd ks) (tl ks)
      else first_min (\<lambda>k. (dabs (dsub entry (level_of triggered k)), priority_rank priority k)) (hd ks) (tl ks))"

definition stop_requirement :: "strategy_config \<Rightarrow> stop_trigger_requirement" where
  "stop_requirement cfg =
     (case cf_protection cfg of None \<Rightarrow> AnyActive | Some l \<Rightarrow> pl_stop_trigger_requirement l)"

definition stop_resolution :: "strategy_config \<Rightarrow> stop_conflict_resolution" where
  "stop_resolution cfg =
     (case cf_protection cfg of None \<Rightarrow> MostConservative | Some l \<Rightarrow> pl_stop_conflict_resolution l)"

definition stop_priority :: "strategy_config \<Rightarrow> string list \<Rightarrow> (string, nat) dict" where
  "stop_priority cfg logic_enabled =
     stop_priority_index (Option.bind (cf_protection cfg) pl_stop_priority_order) logic_enabled"

definition by_priority :: "stop_conflict_resolution \<Rightarrow> bool" where
  "by_priority r = (r \<in> {PriorityOrder, RecordAllExecuteHighest})"

definition resolve_stop ::
  "strategy_config \<Rightarrow> position \<Rightarrow> bar \<Rightarrow> string list \<Rightarrow> string list \<Rightarrow> tick list \<Rightarrow> stop_outcome option"
where
  "resolve_stop cfg p b logic_enabled logic_triggered ticks =
     (let levels = price_levels p;
          enabled = map fst levels @ logic_enabled;
          triggered = triggered_stops p b logic_triggered;
          requirement = stop_requirement cfg;
          resolution = stop_resolution cfg;
          priority = stop_priority cfg logic_enabled
      in
      if enabled = [] then None
      else if triggered = [] then None
      else if requirement = AllActive \<and> set (map fst triggered) \<noteq> set enabled then None
      else
       (let price_triggered = filter (\<lambda>(k, v). k \<in> set (map fst levels)) triggered;
            tick_winner = (if resolution = FirstTriggerWins \<and> ticks \<noteq> [] \<and> price_triggered \<noteq> []
              then first_tick_touch price_triggered ticks (is_long p) priority else None)
        in case tick_winner of
          Some w \<Rightarrow> Some \<lparr>sto_price = attainable_stop_fill (level_of triggered w) b (is_long p),
             sto_trigger_price = level_of triggered w, sto_executed_key = w,
             sto_triggered = sort (map fst triggered), sto_approximated_first = False,
             sto_tick_resolved = True\<rparr>
        | None \<Rightarrow>
           (let w = stop_winner (by_priority resolution) (ps_entry_price p) triggered priority;
                level = level_of triggered w in
            Some \<lparr>sto_price = (if w \<in> set (map fst levels)
                                 then attainable_stop_fill level b (is_long p) else level),
              sto_trigger_price = level, sto_executed_key = w, sto_triggered = sort (map fst triggered),
              sto_approximated_first = (resolution = FirstTriggerWins), sto_tick_resolved = False\<rparr>)))"

lemma triggered_keys:
  "fst ` set (triggered_stops p b lt) = fst ` set (filter (\<lambda>(k, level).
     if is_long p then br_low b \<le> level else br_high b \<ge> level) (price_levels p)) \<union> set lt"
proof -
  have "fst ` set (foldl (\<lambda>d k. dset k v d) d lt) = fst ` set d \<union> set lt" for d :: "(string, rat) dict" and v
    by (induction lt arbitrary: d) (auto simp: keys_dset)
  then show ?thesis by (simp add: triggered_stops_def)
qed

lemma triggered_level:
  "k \<in> set lt \<Longrightarrow> dget (triggered_stops p b lt) k = Some (br_close b)"
  "k \<notin> set lt \<Longrightarrow> dget (triggered_stops p b lt) k = dget (filter (\<lambda>(k, level).
     if is_long p then br_low b \<le> level else br_high b \<ge> level) (price_levels p)) k"
proof -
  have "dget (foldl (\<lambda>d k. dset k v d) d lt) k = (if k \<in> set lt then Some v else dget d k)"
    for d :: "(string, rat) dict" and v
    by (induction lt arbitrary: d) auto
  then show "k \<in> set lt \<Longrightarrow> dget (triggered_stops p b lt) k = Some (br_close b)"
    "k \<notin> set lt \<Longrightarrow> dget (triggered_stops p b lt) k = dget (filter (\<lambda>(k, level).
       if is_long p then br_low b \<le> level else br_high b \<ge> level) (price_levels p)) k"
    by (simp_all add: triggered_stops_def)
qed

lemma first_tick_touch_in: "first_tick_touch levels ts long pr = Some k \<Longrightarrow> k \<in> fst ` set levels"
proof (induction levels ts long pr rule: first_tick_touch.induct)
  case (1 levels long priority)
  then show ?case by simp
next
  case (2 levels t ts long priority)
  show ?case
  proof (cases "filter (\<lambda>k. touches long (tk_price t) (level_of levels k)) (map fst levels)")
    case Nil
    then show ?thesis using 2 by simp
  next
    case (Cons x xs)
    then have sub: "insert x (set xs) \<subseteq> fst ` set levels"
      by (metis filter_is_subset list.set_map list.simps(15))
    show ?thesis using 2(2) Cons first_extreme_in [OF sub] by (auto split: if_splits)
  qed
qed

lemma stop_winner_in: "tr \<noteq> [] \<Longrightarrow> stop_winner c e tr pr \<in> fst ` set tr"
proof -
  assume "tr \<noteq> []"
  then obtain x xs where tr: "map fst tr = x # xs" by (cases tr) auto
  then have sub: "insert x (set xs) \<subseteq> fst ` set tr" by (metis list.set_map list.simps(15) order_refl)
  show ?thesis by (simp add: stop_winner_def Let_def tr first_extreme_in(1) [OF sub])
qed

lemma stop_winner_tightest:
  assumes "k \<in> fst ` set tr"
  shows "dabs (dsub e (level_of tr (stop_winner False e tr pr))) \<le> dabs (dsub e (level_of tr k))"
proof -
  let ?f = "\<lambda>k. (dabs (dsub e (level_of tr k)), priority_rank pr k)"
  from assms obtain x xs where tr: "map fst tr = x # xs" by (cases tr) auto
  then have "k \<in> insert x (set xs)" using assms by (metis list.set_map list.simps(15))
  then have "?f (first_min ?f x xs) \<le> ?f k" using first_min_least [of ?f x xs] by blast
  then show ?thesis using tr by (auto simp: stop_winner_def Let_def less_eq_prod_def)
qed

lemma stop_winner_first:
  assumes "k \<in> fst ` set tr"
  shows "priority_rank pr (stop_winner True e tr pr) \<le> priority_rank pr k"
proof -
  from assms obtain x xs where tr: "map fst tr = x # xs" by (cases tr) auto
  then have "k \<in> insert x (set xs)" using assms by (metis list.set_map list.simps(15))
  then have "priority_rank pr (first_min (priority_rank pr) x xs) \<le> priority_rank pr k"
    using first_min_least [of "priority_rank pr" x xs] by blast
  then show ?thesis using tr by (simp add: stop_winner_def Let_def)
qed

lemma ifSomeE: "(if c then None else x) = Some y \<Longrightarrow> (\<not> c \<Longrightarrow> x = Some y \<Longrightarrow> P) \<Longrightarrow> P"
  by (auto split: if_splits)

lemma triggered_price_stop:
  assumes "k \<in> fst ` set (triggered_stops p b lt)" "k \<notin> set lt"
  shows "(k, level_of (triggered_stops p b lt) k) \<in> set (price_levels p) \<and>
    (if is_long p then br_low b \<le> level_of (triggered_stops p b lt) k
     else level_of (triggered_stops p b lt) k \<le> br_high b)"
proof -
  let ?F = "filter (\<lambda>(k, level). if is_long p then br_low b \<le> level else br_high b \<ge> level) (price_levels p)"
  have "k \<in> fst ` set ?F" using assms by (auto simp: triggered_keys)
  then obtain v where v: "dget ?F k = Some v" unfolding dget_key by (rule exE)
  then have "(k, v) \<in> set ?F" by (rule dget_in)
  moreover have "level_of (triggered_stops p b lt) k = v"
    by (simp add: level_of_def triggered_level(2) [OF assms(2)] v)
  ultimately show ?thesis by (auto split: if_splits)
qed

lemma attainable_bounds:
  "attainable_stop_fill level b long \<in> {level, br_open b} \<and>
   (if long then attainable_stop_fill level b long \<le> level \<and> attainable_stop_fill level b long \<le> br_open b
    else level \<le> attainable_stop_fill level b long \<and> br_open b \<le> attainable_stop_fill level b long)"
  by (auto simp: attainable_stop_fill_def min_def max_def)

text \<open>C37. A resolved stop is one that fired. Its key is among the triggered ones, its trigger
  price is that rule's own level, and the reported list is exactly the sorted triggered keys. A
  price stop that fired is a level of the position which the bar reached, and it fills at that
  level or, when the bar opened beyond it, at the open, always the worse of the two for the
  position: a long never fills above its level or above the open, a short never below them. A
  logic stop fills at the bar's close, which is its trigger price. A stop resolved by conservatism
  is the triggered one nearest to the entry price, one resolved by priority has the best rank.\<close>

theorem resolved_stop_is_sound:
  assumes "resolve_stop cfg p b logic_enabled logic_triggered ticks = Some s"
  defines "tr \<equiv> triggered_stops p b logic_triggered"
  shows "sto_executed_key s \<in> fst ` set tr \<and> sto_trigger_price s = level_of tr (sto_executed_key s) \<and>
    sto_triggered s = sort (map fst tr) \<and>
    (sto_executed_key s \<in> fst ` set (price_levels p) \<longrightarrow>
       sto_price s \<in> {sto_trigger_price s, br_open b} \<and>
       (if is_long p then sto_price s \<le> sto_trigger_price s \<and> sto_price s \<le> br_open b
        else sto_trigger_price s \<le> sto_price s \<and> br_open b \<le> sto_price s)) \<and>
    (sto_executed_key s \<notin> set logic_triggered \<longrightarrow>
       (sto_executed_key s, sto_trigger_price s) \<in> set (price_levels p) \<and>
       (if is_long p then br_low b \<le> sto_trigger_price s else sto_trigger_price s \<le> br_high b)) \<and>
    (sto_executed_key s \<notin> fst ` set (price_levels p) \<longrightarrow>
       sto_executed_key s \<in> set logic_triggered \<and> sto_price s = br_close b \<and>
       sto_trigger_price s = br_close b) \<and>
    (\<not> sto_tick_resolved s \<longrightarrow> (\<forall>k \<in> fst ` set tr.
       if by_priority (stop_resolution cfg)
       then priority_rank (stop_priority cfg logic_enabled) (sto_executed_key s)
         \<le> priority_rank (stop_priority cfg logic_enabled) k
       else dabs (dsub (ps_entry_price p) (sto_trigger_price s))
         \<le> dabs (dsub (ps_entry_price p) (level_of tr k))))"
proof -
  let ?P = "fst ` set (price_levels p)"
  let ?pr = "stop_priority cfg logic_enabled" and ?res = "stop_resolution cfg"
  have ne: "tr \<noteq> []" using assms(1) by (auto simp: resolve_stop_def Let_def tr_def split: if_splits)
  have logic: "k \<in> set logic_triggered \<and> level_of tr k = br_close b" if "k \<in> fst ` set tr" "k \<notin> ?P" for k
  proof -
    have "k \<in> set logic_triggered" using that by (auto simp: tr_def triggered_keys)
    then show ?thesis by (simp add: level_of_def tr_def triggered_level)
  qed
  note price = triggered_price_stop [where b = b and p = p and lt = logic_triggered, folded tr_def]
  let ?pt = "filter (\<lambda>(k, v). k \<in> set (map fst (price_levels p))) tr"
  let ?tw = "if ?res = FirstTriggerWins \<and> ticks \<noteq> [] \<and> ?pt \<noteq> []
    then first_tick_touch ?pt ticks (is_long p) ?pr else None"
  let ?w = "stop_winner (by_priority ?res) (ps_entry_price p) tr ?pr"
  have out: "(case ?tw of
      Some w \<Rightarrow> Some \<lparr>sto_price = attainable_stop_fill (level_of tr w) b (is_long p),
             sto_trigger_price = level_of tr w, sto_executed_key = w,
             sto_triggered = sort (map fst tr), sto_approximated_first = False,
             sto_tick_resolved = True\<rparr>
    | None \<Rightarrow> Some \<lparr>sto_price = (if ?w \<in> set (map fst (price_levels p))
                then attainable_stop_fill (level_of tr ?w) b (is_long p) else level_of tr ?w),
              sto_trigger_price = level_of tr ?w, sto_executed_key = ?w, sto_triggered = sort (map fst tr),
              sto_approximated_first = (?res = FirstTriggerWins), sto_tick_resolved = False\<rparr>) = Some s"
    using assms(1) unfolding resolve_stop_def Let_def tr_def [symmetric]
    by (elim ifSomeE) 
  have tick_in: "w \<in> fst ` set tr \<and> w \<in> ?P" if "?tw = Some w" for w
  proof -
    have "first_tick_touch ?pt ticks (is_long p) ?pr = Some w" using that by (simp split: if_splits)
    from first_tick_touch_in [OF this] show ?thesis by (auto intro: rev_image_eqI)
  qed
  consider (tick) w where "w \<in> fst ` set tr" "w \<in> ?P" "s = \<lparr>sto_price = attainable_stop_fill (level_of tr w) b (is_long p),
             sto_trigger_price = level_of tr w, sto_executed_key = w,
             sto_triggered = sort (map fst tr), sto_approximated_first = False,
             sto_tick_resolved = True\<rparr>"
    | (bar) w where "w = ?w"
      "s = \<lparr>sto_price = (if w \<in> ?P then attainable_stop_fill (level_of tr w) b (is_long p) else level_of tr w),
              sto_trigger_price = level_of tr w, sto_executed_key = w, sto_triggered = sort (map fst tr),
              sto_approximated_first = (?res = FirstTriggerWins), sto_tick_resolved = False\<rparr>"
  proof (cases ?tw)
    case None
    show ?thesis using out unfolding None by (intro bar [of ?w]) simp_all
  next
    case (Some w)
    show ?thesis using out tick_in [OF Some] unfolding Some by (intro tick [of w]) simp_all
  qed
  then show ?thesis
  proof cases
    case tick
    have fill: "sto_price s = attainable_stop_fill (level_of tr w) b (is_long p)" "sto_trigger_price s = level_of tr w"
      "sto_executed_key s = w" "sto_triggered s = sort (map fst tr)" "sto_tick_resolved s" using tick(3) by simp_all
    note bounds = attainable_bounds [of "level_of tr w" b "is_long p"]
      attainable_bounds [of "level_of tr w" b True] attainable_bounds [of "level_of tr w" b False]
    show ?thesis unfolding fill(1-4)
      by (intro conjI impI ballI) (use tick(1,2) fill(5) price [of w] bounds in simp_all)
  next
    case bar
    have w: "w \<in> fst ` set tr" unfolding bar(1) by (rule stop_winner_in [OF ne])
    have fill: "sto_price s = (if w \<in> ?P then attainable_stop_fill (level_of tr w) b (is_long p) else level_of tr w)"
      "sto_trigger_price s = level_of tr w" "sto_executed_key s = w" "sto_triggered s = sort (map fst tr)"
      using bar(2) by simp_all
    have best: "if by_priority ?res then priority_rank ?pr w \<le> priority_rank ?pr k
      else dabs (dsub (ps_entry_price p) (level_of tr w)) \<le> dabs (dsub (ps_entry_price p) (level_of tr k))"
      if "k \<in> fst ` set tr" for k
      using stop_winner_tightest [OF that] stop_winner_first [OF that] unfolding bar(1) by simp
    note bounds = attainable_bounds [of "level_of tr w" b "is_long p"]
      attainable_bounds [of "level_of tr w" b True] attainable_bounds [of "level_of tr w" b False]
    show ?thesis unfolding fill
      by (intro conjI impI ballI) (use w best logic [OF w] price [OF w] bounds in simp_all)
  qed
qed

section \<open>Limit orders and partial fills\<close>

record partial_fill_decision =
  pf_outcome :: string
  pf_filled_size :: rat
  pf_remainder :: rat
  pf_evidence_missing :: bool

definition limit_touch_evidence ::
  "rat \<Rightarrow> string \<Rightarrow> bar \<Rightarrow> tick list \<Rightarrow> bool \<Rightarrow> bool \<times> tick list" where
  "limit_touch_evidence price direction b ticks tick_entry_authority =
     (let is_buy = (direction = ''long'');
          bar_touched = (if is_buy then br_low b \<le> price else br_high b \<ge> price) in
      if ticks = [] then (bar_touched, [])
      else let prints = touching_ticks ticks price is_buy in
        if tick_entry_authority then (prints \<noteq> [], prints) else (bar_touched, prints))"

definition decide_partial_fill ::
  "rat \<Rightarrow> tick list \<Rightarrow> bool \<Rightarrow> partial_fill_policy \<Rightarrow> partial_fill_decision" where
  "decide_partial_fill planned prints partial_active policy =
     (let sized = filter (\<lambda>t. tk_size t \<noteq> None) prints;
          available = dsum_list (List.map_filter tk_size sized);
          missing = (partial_active \<and> planned > 0 \<and> prints \<noteq> [] \<and> sized = []) in
      if \<not> partial_active \<or> planned \<le> 0 \<or> sized = [] \<or> available \<ge> planned then
        \<lparr>pf_outcome = ''full'', pf_filled_size = planned, pf_remainder = 0, pf_evidence_missing = missing\<rparr>
      else if policy = Minimum50Percent \<and> dmul available 2 < planned then
        \<lparr>pf_outcome = ''rejected_below_minimum'', pf_filled_size = available,
         pf_remainder = dsub planned available, pf_evidence_missing = missing\<rparr>
      else
        \<lparr>pf_outcome = ''partial'', pf_filled_size = available,
         pf_remainder = dsub planned available, pf_evidence_missing = missing\<rparr>)"

text \<open>A partial fill never trades more than was planned and never loses the rest: a full fill
  leaves nothing, and otherwise less than the plan is filled and a positive remainder is left;
  the 50 percent policy accepts a partial fill only when twice the filled size reaches the plan.\<close>

theorem partial_fill_conserves:
  fixes planned prints active policy
  defines "d \<equiv> decide_partial_fill planned prints active policy"
  shows "(pf_outcome d = ''full'' \<and> pf_filled_size d = planned \<and> pf_remainder d = 0) \<or>
    (pf_outcome d \<in> {''partial'', ''rejected_below_minimum''} \<and> pf_filled_size d < planned \<and>
     0 < pf_remainder d \<and> pf_remainder d = dsub planned (pf_filled_size d) \<and> active \<and>
     (if policy = Minimum50Percent then (pf_outcome d = ''partial'') = (planned \<le> dmul (pf_filled_size d) 2)
      else pf_outcome d = ''partial''))"
proof -
  have "0 < dsub planned x" if "x < planned" for x
    using dfix_pos [of "planned - x"] that by (simp add: dsub_def)
  then show ?thesis unfolding d_def decide_partial_fill_def Let_def by auto
qed

section \<open>Concrete runs\<close>

definition demo_tick_clock :: "string \<Rightarrow> int option" where
  "demo_tick_clock s = (if s = ''a'' then Some 1000 else if s = ''b'' then Some 1500
     else if s = ''c'' then Some 2000 else None)"

definition demo_raw_tick :: "string \<Rightarrow> raw_tick" where
  "demo_raw_tick t = \<lparr>rt_timestamp = Some t, rt_price = Some (PyDec 10), rt_size = None\<rparr>"

definition demo_cursor :: tick_cursor where
  "demo_cursor = \<lparr>tc_rows = [demo_raw_tick ''a'', demo_raw_tick ''?'', demo_raw_tick ''b'', demo_raw_tick ''c''],
     tc_span_ms = 1000, tc_pending = None, tc_exhausted = False\<rparr>"

definition demo_tick :: "int \<Rightarrow> tick" where
  "demo_tick ms = \<lparr>tk_epoch_ms = ms, tk_price = 10, tk_size = None\<rparr>"

lemma demo_epochs:
  "tick_epoch_ms demo_tick_clock ''a'' = Some 1000" "tick_epoch_ms demo_tick_clock ''b'' = Some 1500"
  "tick_epoch_ms demo_tick_clock ''c'' = Some 2000" "tick_epoch_ms demo_tick_clock ''?'' = None"
  by code_simp+

lemmas tick_eval = demo_cursor_def demo_raw_tick_def demo_tick_def normalize_tick_def dec_field_def
  dec_value_def demo_epochs

theorem tick_cursor_windows_witness:
  "\<exists>c. for_bar demo_tick_clock (\<lambda>_. None) ''a'' demo_cursor = ([demo_tick 1000, demo_tick 1500], c) \<and>
     cursor_stream demo_tick_clock (\<lambda>_. None) c = [demo_tick 2000]"
proof -
  have st: "cursor_stream demo_tick_clock (\<lambda>_. None) demo_cursor
      = [demo_tick 1000, demo_tick 1500, demo_tick 2000]"
    by (simp add: tick_eval cursor_stream_def map_filter_simps)
  obtain ts c where run: "for_bar demo_tick_clock (\<lambda>_. None) ''a'' demo_cursor = (ts, c)"
    by (cases "for_bar demo_tick_clock (\<lambda>_. None) ''a'' demo_cursor")
  have "sorted (map tk_epoch_ms (cursor_stream demo_tick_clock (\<lambda>_. None) demo_cursor))"
    by (simp add: st demo_tick_def)
  from tick_cursor_windows [OF this demo_epochs(1) run] run show ?thesis
    by (simp add: st) (simp add: demo_tick_def demo_cursor_def)
qed

definition demo_bar :: bar where
  "demo_bar = \<lparr>br_timestamp = ''t'', br_open = 92, br_high = 96, br_low = 88, br_close = 94, br_volume = 0\<rparr>"

lemma stop_priority_default:
  "cf_protection cfg = None \<Longrightarrow>
     stop_priority cfg [] = [(''percentage'', 0), (''trailing'', 1), (''absolute'', 2)]"
  by (simp add: stop_priority_def stop_priority_index_def stop_priority_sequence_def append_missing_def
      canonical_price_stop_order_def Let_def upt_rec)

theorem resolved_stop_is_sound_witness:
  "\<exists>s. resolve_stop demo_config demo_position demo_bar [] [] [] = Some s \<and>
     sto_executed_key s = ''percentage'' \<and> sto_price s = 92 \<and>
     sto_executed_key s \<in> fst ` set (triggered_stops demo_position demo_bar [])"
proof -
  have p: "cf_protection demo_config = None" by (simp add: demo_config_def)
  have r: "resolve_stop demo_config demo_position demo_bar [] [] []
    = Some \<lparr>sto_price = 92, sto_trigger_price = 95, sto_executed_key = ''percentage'',
        sto_triggered = [''absolute'', ''percentage''], sto_approximated_first = False,
        sto_tick_resolved = False\<rparr>"
    using p by (simp add: resolve_stop_def stop_requirement_def stop_resolution_def stop_priority_default
      price_levels_def opt_entry_def triggered_stops_def demo_position_def demo_bar_def
      trailing_level_def is_long_def stop_winner_def level_of_def by_priority_def priority_rank_def
      attainable_stop_fill_def dec_eval less_prod_def)
  from resolved_stop_is_sound [OF r] r show ?thesis by simp
qed

end
