(* ===== verification/Scaling.thy ===== *)
theory Scaling
  imports Fills
begin

text \<open>
  Adding to a position in layers and what happens to a position after a partial close
  (\<^verbatim>\<open>domain/backtest/execution/scaling.py\<close>): the gates that say what is modelled, the timeframe
  each layer is decided on, the layer's size, and its refusals. The state a partial close
  changes is the position; the call that can raise is the effective fill.
\<close>

section \<open>Gates\<close>

definition partial_close_is_modelled :: "strategy_config \<Rightarrow> bool" where
  "partial_close_is_modelled cfg =
     (let e = cf_position_exit_logic cfg in
      if pe_close_percentage e \<ge> 100 then True
      else if pe_partial_aftermath e \<in> {MoveStopToEntry, CloseAll, LockInProfit} then True
      else if pe_partial_aftermath e = TrailingStopAftermath then trail_pct cfg \<noteq> None
      else False)"

definition limits_ok :: "scaling_limits option \<Rightarrow> bool" where
  "limits_ok limits =
     (case limits of None \<Rightarrow> True | Some l \<Rightarrow>
        \<not> (case sl_max_scaling_layers l of None \<Rightarrow> False | Some n \<Rightarrow> n < 0) \<and>
        \<not> (case sl_max_total_position_size l of None \<Rightarrow> False | Some x \<Rightarrow> x \<le> 0))"

definition add_size_ok :: "scaling_logic \<Rightarrow> bool" where
  "add_size_ok s = (case sg_add_size_value s of None \<Rightarrow> False | Some v \<Rightarrow> \<not> v \<le> 0)"

definition has_custom_sequence :: "scaling_logic \<Rightarrow> bool" where
  "has_custom_sequence s =
     (case sg_custom_timeframe_sequence s of None \<Rightarrow> False | Some tfs \<Rightarrow> tfs \<noteq> [])"

definition logic_scaling_is_modelled :: "scaling_logic \<Rightarrow> bool" where
  "logic_scaling_is_modelled s =
     (if sg_logic_blocks s = None \<or> sg_logic_blocks s = Some 0 then False
      else if \<not> ((case sg_scaling_limits s of None \<Rightarrow> False | Some l \<Rightarrow> sl_max_scaling_layers l \<noteq> None) \<or>
          (sg_timeframe_mode s = CustomSequence \<and> has_custom_sequence s) \<or>
          sg_timeframe_mode s = IncreasingByLayer) then False
      else if \<not> add_size_ok s then False
      else limits_ok (sg_scaling_limits s))"

definition scaling_is_modelled :: "strategy_config \<Rightarrow> bool" where
  "scaling_is_modelled cfg =
     (case cf_scaling_logic cfg of None \<Rightarrow> True | Some s \<Rightarrow>
        if \<not> sg_enabled s then True
        else if sg_timeframe s \<noteq> ''same_as_base_tf'' then False
        else if sg_timeframe_mode s = CustomSequence \<and> \<not> has_custom_sequence s then False
        else if sg_method s = Some LogicBasedScaling then logic_scaling_is_modelled s
        else if sg_method s \<noteq> Some PriceDistanceScaling \<or> \<not> sg_has_price s then False
        else if \<not> add_size_ok s then False
        else limits_ok (sg_scaling_limits s))"

section \<open>The timeframe of a layer\<close>

definition timeframe_seconds :: "string \<Rightarrow> int option" where
  "timeframe_seconds tf = map_of
     [(''1m'', 60), (''3m'', 180), (''5m'', 300), (''15m'', 900), (''30m'', 1800), (''1h'', 3600),
      (''2h'', 7200), (''4h'', 14400), (''1D'', 86400)] tf"

definition layer_timeframe :: "strategy_config \<Rightarrow> nat \<Rightarrow> string option \<Rightarrow> string option" where
  "layer_timeframe cfg layers_filled base =
     (case cf_scaling_logic cfg of None \<Rightarrow> None | Some s \<Rightarrow>
        if sg_timeframe_mode s = IncreasingByLayer then
          (case base of None \<Rightarrow> None | Some b \<Rightarrow>
            (case index_of b canonical_timeframes of None \<Rightarrow> None | Some i \<Rightarrow>
               let rung = i + layers_filled + 1 in
               if rung \<ge> length canonical_timeframes then None else Some (canonical_timeframes ! rung)))
        else if sg_timeframe_mode s \<noteq> CustomSequence then None
        else (case sg_custom_timeframe_sequence s of None \<Rightarrow> None | Some tfs \<Rightarrow>
            if tfs = [] \<or> layers_filled \<ge> length tfs then None else Some (tfs ! layers_filled)))"

definition increasing_ladder_depth :: "string option \<Rightarrow> nat" where
  "increasing_ladder_depth base =
     (case base of None \<Rightarrow> 0 | Some b \<Rightarrow>
       (case index_of b canonical_timeframes of None \<Rightarrow> 0
        | Some i \<Rightarrow> length canonical_timeframes - 1 - i))"

definition layer_bucket :: "int option \<Rightarrow> string option \<Rightarrow> int option" where
  "layer_bucket epoch_ms tf =
     (case (tf, epoch_ms) of
        (Some t, Some e) \<Rightarrow> map_option (\<lambda>span. e div (span * 1000)) (timeframe_seconds t)
      | _ \<Rightarrow> None)"

lemma ladder_seconds:
  "map timeframe_seconds canonical_timeframes
     = map Some [60, 180, 300, 900, 1800, 3600, 7200, 14400, 86400]"
  by code_simp

lemma ladder_length [simp]: "length canonical_timeframes = 9"
  by (simp add: canonical_timeframes_def)

lemma ladder_strict:
  assumes "i < j" "j < 9"
  shows "\<exists>a b. timeframe_seconds (canonical_timeframes ! i) = Some a \<and>
    timeframe_seconds (canonical_timeframes ! j) = Some b \<and> a < b"
proof -
  let ?s = "[60, 180, 300, 900, 1800, 3600, 7200, 14400, 86400] :: int list"
  have n: "timeframe_seconds (canonical_timeframes ! k) = Some (?s ! k)" if "k < 9" for k
  proof -
    have "timeframe_seconds (canonical_timeframes ! k) = map timeframe_seconds canonical_timeframes ! k"
      using that by simp
    also have "\<dots> = Some (?s ! k)" unfolding ladder_seconds using that by (intro nth_map) simp
    finally show ?thesis .
  qed
  have "sorted_wrt (<) ?s" by simp
  then have "?s ! i < ?s ! j" using assms by (auto simp: sorted_wrt_iff_nth_less)
  then show ?thesis using n [of i] n [of j] assms by simp
qed

text \<open>Under \<open>increasing_by_layer\<close> there is a timeframe for exactly as many layers as rungs
  remain above the base, and each layer is decided on a strictly longer candle than the one
  before it.\<close>

theorem increasing_ladder_climbs:
  assumes "cf_scaling_logic cfg = Some s" "sg_timeframe_mode s = IncreasingByLayer"
  shows "(layer_timeframe cfg n base \<noteq> None) = (n < increasing_ladder_depth base) \<and>
    (m < n \<and> layer_timeframe cfg n base = Some t' \<longrightarrow>
      (\<exists>t a b. layer_timeframe cfg m base = Some t \<and> timeframe_seconds t = Some a \<and>
         timeframe_seconds t' = Some b \<and> a < b))"
proof -
  have at: "layer_timeframe cfg k base = (case base of None \<Rightarrow> None | Some b \<Rightarrow>
      (case index_of b canonical_timeframes of None \<Rightarrow> None | Some i \<Rightarrow>
         if i + k + 1 \<ge> 9 then None else Some (canonical_timeframes ! (i + k + 1))))" for k
    using assms by (simp add: layer_timeframe_def Let_def split: option.split)
  show ?thesis
  proof (cases "Option.bind base (\<lambda>b. index_of b canonical_timeframes)")
    case None
    then show ?thesis using at by (auto simp: increasing_ladder_depth_def split: option.splits)
  next
    case (Some i)
    then obtain b where b: "base = Some b" "index_of b canonical_timeframes = Some i"
      by (cases base) auto
    have "i < 9" using index_of_Some [OF b(2)] by simp
    then show ?thesis using at b ladder_strict [of "i + m + 1" "i + n + 1"]
      by (auto simp: increasing_ladder_depth_def split: if_splits)
  qed
qed

section \<open>After a partial close\<close>

definition apply_partial_aftermath ::
  "rat \<Rightarrow> partial_aftermath \<Rightarrow> rat \<Rightarrow> rat \<Rightarrow> (position, bool) st" where
  "apply_partial_aftermath exit_price_raw aftermath half_spread slippage = sbind sget (\<lambda>p.
     if aftermath = MoveStopToEntry then
       sbind (smod (\<lambda>q. q\<lparr>ps_pct_stop := Some (ps_entry_price q)\<rparr>)) (\<lambda>_. sret False)
     else if aftermath = LockInProfit then
       sbind (slift (effective_fill exit_price_raw (\<not> is_long p) half_spread slippage)) (\<lambda>exit_eff.
       sbind (smod (\<lambda>q. q\<lparr>ps_pct_stop := Some (case ps_pct_stop q of None \<Rightarrow> exit_eff
           | Some s \<Rightarrow> if is_long q then max s exit_eff else min s exit_eff)\<rparr>)) (\<lambda>_. sret True))
     else (case (aftermath, ps_trail_pct p, ps_trail_lock_in_pct p) of
         (TrailingStopAftermath, Some _, Some lock) \<Rightarrow>
           (let threshold = (if is_long p then dmul (ps_entry_price p) (dadd 1 lock)
                             else dmul (ps_entry_price p) (dsub 1 lock)) in
            sbind (smod (\<lambda>q. q\<lparr>ps_trail_anchor := (if is_long q then max (ps_trail_anchor q) threshold
                                                else min (ps_trail_anchor q) threshold)\<rparr>)) (\<lambda>_. sret True))
       | _ \<Rightarrow> sret False))"

text \<open>At least as protective: higher for a long, lower for a short, and any stop beats none.\<close>

definition stop_tightened :: "bool \<Rightarrow> rat option \<Rightarrow> rat option \<Rightarrow> bool" where
  "stop_tightened long old new =
     (case (old, new) of (None, _) \<Rightarrow> True | (Some _, None) \<Rightarrow> False
      | (Some a, Some b) \<Rightarrow> if long then a \<le> b else b \<le> a)"

text \<open>Locking in profit only ever tightens the percentage stop, and the trailing aftermath
  leaves the stop alone, moves the anchor only in the position's favour and activates the trail;
  nothing else of the position changes, and a call that raises changes nothing.\<close>

theorem partial_aftermath_tightens:
  assumes "apply_partial_aftermath x a h s p = (r, p')" "a \<noteq> MoveStopToEntry"
  shows "stop_tightened (is_long p) (ps_pct_stop p) (ps_pct_stop p') \<and>
    (if is_long p then ps_trail_anchor p \<le> ps_trail_anchor p' else ps_trail_anchor p' \<le> ps_trail_anchor p) \<and>
    p' = p\<lparr>ps_pct_stop := ps_pct_stop p', ps_trail_anchor := ps_trail_anchor p'\<rparr> \<and>
    (a = TrailingStopAftermath \<and> r = Inr True \<longrightarrow> trailing_activated p') \<and>
    (\<not> is_ok r \<longrightarrow> p' = p)"
  using assms
  by (auto simp: apply_partial_aftermath_def st_simps stop_tightened_def trailing_activated_def is_long_def
      Let_def split: sum.splits option.splits if_splits partial_aftermath.splits)

section \<open>The size of a layer and its refusals\<close>

definition scale_threshold_crossed :: "rat \<Rightarrow> rat \<Rightarrow> rat \<Rightarrow> bool \<Rightarrow> bool" where
  "scale_threshold_crossed reference distance_pct close long =
     (let step = dquo (dmul reference distance_pct) 100 in
      if long then close \<le> dsub reference step else close \<ge> dadd reference step)"

definition resolve_scale_layer_size :: "add_size_basis \<Rightarrow> rat \<Rightarrow> rat \<Rightarrow> rat \<Rightarrow> rat res" where
  "resolve_scale_layer_size basis v initial_size current_size =
     (if basis = FixedAmount then quantize 8 v
      else quantize 8 (dquo (dmul (if basis = PercentOfInitial then initial_size else current_size) v) 100))"

text \<open>The refusal's token and the limit it reports (the code reports its text).\<close>

definition resolve_scale_rejection ::
  "rat \<Rightarrow> rat \<Rightarrow> rat \<Rightarrow> rat option \<Rightarrow> rat option \<Rightarrow> rat option \<Rightarrow> rat option
     \<Rightarrow> (string option \<times> rat option) res" where
  "resolve_scale_rejection layer_size layer_notional scaled_size max_total max_position sleeve headroom =
     (let exceeds = (\<lambda>limit x. case limit of None \<Rightarrow> False | Some m \<Rightarrow> x > (m :: rat)) in
      if layer_size \<le> 0 then ok (Some ''layer_size_not_positive'', None)
      else if exceeds max_total scaled_size then ok (Some ''max_total_exposure'', max_total)
      else if exceeds max_position scaled_size then ok (Some ''position_size_limit'', max_position)
      else if exceeds sleeve layer_notional then
        rbind (quantize 2 (max (the sleeve) 0)) (\<lambda>q. ok (Some ''sleeve_capacity'', Some q))
      else if exceeds headroom layer_notional then
        rbind (quantize 2 (max (the headroom) 0)) (\<lambda>q. ok (Some ''portfolio_max_total_exposure'', Some q))
      else ok (None, None))"

definition within_limit :: "rat option \<Rightarrow> rat \<Rightarrow> bool" where
  "within_limit limit x = (case limit of None \<Rightarrow> True | Some m \<Rightarrow> x \<le> m)"

text \<open>A layer is accepted exactly when it is positive and fits every limit that is set.\<close>

theorem scale_layer_accepted_iff:
  fixes sz notional scaled mt mp sl hr
  defines "r \<equiv> resolve_scale_rejection sz notional scaled mt mp sl hr"
  shows "(r = Inr (None, None)) = (0 < sz \<and> within_limit mt scaled \<and> within_limit mp scaled \<and>
      within_limit sl notional \<and> within_limit hr notional)"
  by (auto simp: r_def resolve_scale_rejection_def within_limit_def Let_def rbind_Inr_iff split: option.splits)

section \<open>Concrete runs\<close>

definition demo_scaling :: scaling_logic where
  "demo_scaling = \<lparr>sg_enabled = True, sg_timeframe_mode = IncreasingByLayer,
     sg_custom_timeframe_sequence = None, sg_timeframe = ''same_as_base_tf'',
     sg_method = Some PriceDistanceScaling, sg_has_price = True, sg_logic_blocks = None,
     sg_add_size_value = Some 50, sg_scaling_limits = None\<rparr>"

definition demo_scaling_config :: strategy_config where
  "demo_scaling_config = demo_config\<lparr>cf_scaling_logic := Some demo_scaling\<rparr>"

lemma demo_layer: "layer_timeframe demo_scaling_config 1 (Some ''15m'') = Some ''1h''"
  by (simp add: layer_timeframe_def demo_scaling_config_def demo_scaling_def canonical_timeframes_def)

theorem increasing_ladder_climbs_witness:
  "layer_timeframe demo_scaling_config 1 (Some ''15m'') = Some ''1h'' \<and>
   (\<exists>t a b. layer_timeframe demo_scaling_config 0 (Some ''15m'') = Some t \<and>
      timeframe_seconds t = Some a \<and> timeframe_seconds ''1h'' = Some b \<and> a < b)"
proof -
  have "cf_scaling_logic demo_scaling_config = Some demo_scaling"
    "sg_timeframe_mode demo_scaling = IncreasingByLayer"
    by (simp_all add: demo_scaling_config_def demo_scaling_def)
  from increasing_ladder_climbs [OF this, of 1 "Some ''15m''" 0 "''1h''"] demo_layer show ?thesis by simp
qed

theorem partial_aftermath_tightens_witness:
  "apply_partial_aftermath 98 LockInProfit 0 0 demo_position
     = (Inr True, demo_position\<lparr>ps_pct_stop := Some 98\<rparr>) \<and>
   stop_tightened True (Some 95) (Some 98)"
proof -
  have r: "apply_partial_aftermath 98 LockInProfit 0 0 demo_position
     = (Inr True, demo_position\<lparr>ps_pct_stop := Some 98\<rparr>)"
    by (simp add: apply_partial_aftermath_def st_simps demo_position_def is_long_def effective_fill_def dec_eval)
  from partial_aftermath_tightens [OF r] have
    "stop_tightened (is_long demo_position) (ps_pct_stop demo_position)
      (ps_pct_stop (demo_position\<lparr>ps_pct_stop := Some 98\<rparr>))" by simp
  then show ?thesis using r by (simp add: demo_position_def is_long_def)
qed

end
