(* ===== verification/Booking.thy ===== *)
theory Booking
  imports Strategy_Config Machine
begin

text \<open>
  The books of a single run (\<^verbatim>\<open>domain/backtest/execution/booking.py\<close>): \<open>emit_event\<close>,
  \<open>close_run_position\<close> and \<open>absorb_remainder\<close>. The calls mutate two objects, the run's ledger and
  the open position: the state is their pair, and the assignments are made one by one in the
  code's order, so that a \<open>quantize\<close> that raises leaves the objects as Python would. A decimal
  in an event's detail stands for its text.
\<close>

type_synonym run_books = "run_ledger \<times> position"

definition mod_led :: "(run_ledger \<Rightarrow> run_ledger) \<Rightarrow> (run_books, unit) st" where
  "mod_led f = smod (\<lambda>(l, p). (f l, p))"

definition mod_pos :: "(position \<Rightarrow> position) \<Rightarrow> (run_books, unit) st" where
  "mod_pos f = smod (\<lambda>(l, p). (l, f p))"

lemma run_books_mod [st_simps]:
  "mod_led f b = (Inr (), (f (fst b), snd b))" "mod_pos g b = (Inr (), (fst b, g (snd b)))"
  by (simp_all add: mod_led_def mod_pos_def smod_def case_prod_beta)

section \<open>Events\<close>

definition event_row ::
  "nat \<Rightarrow> string \<Rightarrow> string \<Rightarrow> string option \<Rightarrow> int \<Rightarrow> (string, detail) dict \<Rightarrow> signal_event" where
  "event_row n event_type event_time direction bar_seq det =
     \<lparr>ev_seq = n, ev_event_time = event_time, ev_event_type = event_type, ev_direction = direction,
      ev_detail = foldl (\<lambda>d (k, v). dset k v d) [(''bar_seq'', DInt bar_seq)] det\<rparr>"

definition emit_event ::
  "string \<Rightarrow> string \<Rightarrow> string option \<Rightarrow> int \<Rightarrow> (string, detail) dict \<Rightarrow> run_ledger \<Rightarrow> run_ledger" where
  "emit_event event_type event_time direction bar_seq det led =
     (if event_type \<in> set filtered_event_types
      then led\<lparr>rl_filtered_events := rl_filtered_events led @
             [event_row (length (rl_filtered_events led)) event_type event_time direction bar_seq det]\<rparr>
      else led\<lparr>rl_signal_events := rl_signal_events led @
             [event_row (length (rl_signal_events led)) event_type event_time direction bar_seq det]\<rparr>)"

section \<open>Closing a position\<close>

definition record_result :: "rat \<Rightarrow> string \<Rightarrow> run_ledger \<Rightarrow> run_ledger" where
  "record_result pnl reason led =
     (let led1 = (if pnl > 0
            then led\<lparr>rl_winners := rl_winners led + 1, rl_gross_profit := dadd (rl_gross_profit led) pnl\<rparr>
            else led\<lparr>rl_gross_loss := dadd (rl_gross_loss led) (dneg pnl)\<rparr>);
          led2 = led1\<lparr>rl_day_realized := dadd (rl_day_realized led1) pnl,
                     rl_loss_streak := (if pnl < 0 then rl_loss_streak led1 + 1 else 0)\<rparr> in
      if reason = ''stop_loss''
      then led2\<lparr>rl_stops_hit := rl_stops_hit led2 + 1, rl_stop_streak := rl_stop_streak led2 + 1,
                rl_max_stop_streak := max (rl_max_stop_streak led2) (rl_stop_streak led2 + 1)\<rparr>
      else led2\<lparr>rl_stop_streak := 0\<rparr>)"

definition record_trade ::
  "position \<Rightarrow> string \<Rightarrow> rat \<Rightarrow> rat \<Rightarrow> string \<Rightarrow> bool \<Rightarrow> rat \<Rightarrow> rat \<Rightarrow> run_ledger \<Rightarrow> run_ledger" where
  "record_trade pos exit_time exit_eff pnl reason is_full drawdown exposure led =
     (let n = length (rl_trades led) + 1;
          led1 = led\<lparr>rl_trades := rl_trades led @
              [\<lparr>tr_seq = n, tr_entry_time = ps_entry_time pos, tr_exit_time = exit_time,
                tr_direction = ps_direction pos, tr_entry_price = ps_entry_price pos,
                tr_exit_price = exit_eff, tr_pnl = pnl,
                tr_exit_reason = (if is_full then reason else ''partial_exit'')\<rparr>],
            rl_equity_points := rl_equity_points led @
              [\<lparr>re_seq = n, re_timestamp = exit_time, re_equity = rl_equity led,
                re_drawdown = drawdown, re_exposure = exposure\<rparr>]\<rparr> in
      if is_full
      then led1\<lparr>rl_position_intervals := rl_position_intervals led1 @
             [\<lparr>pi_entry_time = ps_entry_time pos, pi_exit_time = exit_time,
               pi_direction = ps_direction pos,
               pi_peak_notional = max (ps_peak_notional pos) (ps_entry_notional pos)\<rparr>]\<rparr>
      else led1\<lparr>rl_partial_closes := rl_partial_closes led1 + 1\<rparr>)"

definition close_detail ::
  "position \<Rightarrow> nat \<Rightarrow> string \<Rightarrow> rat \<Rightarrow> rat \<Rightarrow> int \<Rightarrow> bool \<Rightarrow> rat \<Rightarrow> (string, detail) dict" where
  "close_detail pos n reason exit_eff pnl bar_seq is_full fraction =
     [(''position_seq'', DInt (int (ps_position_seq pos))), (''trade_seq'', DInt (int n)),
      (''exit_reason'', DText reason), (''exit_price'', DDec exit_eff), (''pnl'', DDec pnl),
      (''entry_bar_seq'', DInt (ps_entry_bar_seq pos)),
      (''holding_bars'', DInt (bar_seq - ps_entry_bar_seq pos))]
     @ (if is_full then [] else [(''closed_fraction'', DDec fraction), (''remaining_size'', DDec (ps_size pos))])"

definition exposure_of :: "rat \<Rightarrow> rat \<Rightarrow> rat res" where
  "exposure_of closed_notional equity_before =
     (if equity_before > 0 then quantize 4 (dmul (dquo closed_notional equity_before) 100) else ok 0)"

definition close_run_position ::
  "fill_costs \<Rightarrow> string \<Rightarrow> rat \<Rightarrow> string \<Rightarrow> int \<Rightarrow> rat \<Rightarrow> (run_books, bool) st" where
  "close_run_position costs exit_time exit_price_raw reason bar_seq fraction = sbind sget (\<lambda>(led, pos).
     let is_full = (fraction \<ge> 1);
         close_size = (if is_full then ps_size pos else dmul (ps_size pos) fraction);
         sign = (if is_long pos then 1 else - 1) in
     sbind (slift (effective_fill exit_price_raw (\<not> is_long pos) (fc_half_spread costs) (fc_slippage costs))) (\<lambda>exit_eff.
     let gross = dmul (dmul (dsub exit_eff (ps_entry_price pos)) close_size) sign in
     sbind (slift (fee costs (dmul exit_eff close_size))) (\<lambda>commission.
     sbind (slift (quantize 2 (dsub gross commission))) (\<lambda>pnl.
     sbind (slift (quantize 2 (dadd (rl_equity led) pnl))) (\<lambda>equity.
     sbind (mod_led (\<lambda>l. l\<lparr>rl_equity := equity, rl_peak := max (rl_peak l) equity\<rparr>)) (\<lambda>_.
     sbind (slift (quantize 2 (dsub (max (rl_peak led) equity) equity))) (\<lambda>drawdown.
     sbind (slift (quantize 2 (dmul (ps_entry_price pos) close_size))) (\<lambda>closed_notional.
     sbind (slift (exposure_of closed_notional (rl_equity led))) (\<lambda>exposure.
     sbind (mod_led (\<lambda>l. record_trade pos exit_time exit_eff pnl reason is_full drawdown exposure
                         (record_result pnl reason l))) (\<lambda>_.
     sbind (if is_full then sret () else
       sbind (mod_pos (\<lambda>p. p\<lparr>ps_size := dsub (ps_size p) close_size\<rparr>)) (\<lambda>_.
       sbind (slift (quantize 2 (dmul (ps_entry_price pos) (dsub (ps_size pos) close_size)))) (\<lambda>n.
       mod_pos (\<lambda>p. p\<lparr>ps_entry_notional := n\<rparr>)))) (\<lambda>_.
     sbind sget (\<lambda>(led', pos').
     sbind (mod_led (emit_event (if is_full then ''position_close'' else ''position_partial_close'')
              exit_time (Some (ps_direction pos)) bar_seq
              (close_detail pos' (length (rl_trades led')) reason exit_eff pnl bar_seq is_full fraction))) (\<lambda>_.
     sret is_full)))))))))))))"

definition partial_fill_detail ::
  "position \<Rightarrow> string \<Rightarrow> string \<Rightarrow> rat \<Rightarrow> rat \<Rightarrow> rat \<Rightarrow> rat \<Rightarrow> (string, detail) dict" where
  "partial_fill_detail pos policy action fill_eff add_size new_size new_basis =
     [(''position_seq'', DInt (int (ps_position_seq pos))), (''policy'', DText policy),
      (''action'', DText action), (''fill_price'', DDec fill_eff), (''fill_size'', DDec add_size),
      (''new_size'', DDec new_size), (''entry_basis'', DDec new_basis)]"

definition absorb_remainder ::
  "fill_costs \<Rightarrow> bar \<Rightarrow> rat \<Rightarrow> rat \<Rightarrow> string \<Rightarrow> int \<Rightarrow> string \<Rightarrow> (run_books, unit) st" where
  "absorb_remainder costs b price_raw add_size action bar_seq policy = sbind sget (\<lambda>(led, pos).
     sbind (slift (effective_fill price_raw (is_long pos) (fc_half_spread costs) (fc_slippage costs))) (\<lambda>fill_eff.
     let new_size = dadd (ps_size pos) add_size in
     sbind (slift (rbind (ddiv (dadd (dmul (ps_entry_price pos) (ps_size pos)) (dmul fill_eff add_size)) new_size)
              (quantize 2))) (\<lambda>new_basis.
     sbind (mod_pos (\<lambda>p. p\<lparr>ps_entry_price := new_basis, ps_size := new_size\<rparr>)) (\<lambda>_.
     sbind (slift (quantize 2 (dmul new_basis new_size))) (\<lambda>notional.
     sbind (mod_pos (\<lambda>p. p\<lparr>ps_entry_notional := notional, ps_peak_notional := max (ps_peak_notional p) notional\<rparr>)) (\<lambda>_.
     sbind (slift (fee costs (dmul fill_eff add_size))) (\<lambda>fill_fee.
     sbind (if fill_fee > 0 then
         sbind (slift (quantize 2 (dsub (rl_equity led) fill_fee))) (\<lambda>e. mod_led (\<lambda>l. l\<lparr>rl_equity := e\<rparr>))
       else sret ()) (\<lambda>_.
     sbind (mod_led (\<lambda>l. l\<lparr>rl_partial_fills := rl_partial_fills l + 1\<rparr>)) (\<lambda>_.
     mod_led (emit_event ''partial_fill'' (br_timestamp b) (Some (ps_direction pos)) bar_seq
       (partial_fill_detail pos policy action fill_eff add_size new_size new_basis)))))))))))"

section \<open>The invariant of the books\<close>

definition numbered :: "nat \<Rightarrow> ('a \<Rightarrow> nat) \<Rightarrow> 'a list \<Rightarrow> bool" where
  "numbered start f xs = (map f xs = [start..<start + length xs])"

lemma numbered_snoc [simp]:
  "numbered start f (xs @ [x]) = (numbered start f xs \<and> f x = start + length xs)"
  by (auto simp: numbered_def)

lemma numbered_Nil [simp]: "numbered start f []"
  by (simp add: numbered_def)

text \<open>The replay starts with an equity point of its own, numbered 0: \<open>z\<close> are the numbers of the points
  that precede the trades'.\<close>

definition run_ok :: "nat list \<Rightarrow> run_ledger \<Rightarrow> bool" where
  "run_ok z l \<longleftrightarrow> numbered 1 tr_seq (rl_trades l) \<and>
     map re_seq (rl_equity_points l) = z @ map tr_seq (rl_trades l) \<and>
     rl_winners l = length (filter (\<lambda>t. tr_pnl t > 0) (rl_trades l)) \<and>
     rl_stop_streak l \<le> rl_max_stop_streak l \<and> rl_max_stop_streak l \<le> rl_stops_hit l \<and>
     rl_stops_hit l \<le> length (rl_trades l) \<and>
     length (rl_position_intervals l) + rl_partial_closes l = length (rl_trades l) \<and>
     (\<forall>p \<in> set (rl_equity_points l). 0 \<le> re_drawdown p) \<and>
     numbered 0 ev_seq (rl_signal_events l) \<and> numbered 0 ev_seq (rl_filtered_events l) \<and>
     rl_equity l \<le> rl_peak l \<and> cents (rl_equity l) \<and> \<bar>rl_equity l\<bar> < 10 ^ 26"

definition books_run_ok :: "nat list \<Rightarrow> run_books \<Rightarrow> bool" where
  "books_run_ok z b = run_ok z (fst b)"

lemma emit_event_ok: "run_ok z l \<Longrightarrow> run_ok z (emit_event ty tm d b det l)"
  by (simp add: run_ok_def emit_event_def event_row_def)

lemma run_ok_equity:
  "run_ok z l \<Longrightarrow> quantize 2 x = Inr e \<Longrightarrow> run_ok z (l\<lparr>rl_equity := e, rl_peak := max (rl_peak l) e\<rparr>)"
  using quantize_cents_bound [of x e] by (simp add: run_ok_def quantizeD)

lemma record_ok:
  "run_ok z l \<Longrightarrow> 0 \<le> dd \<Longrightarrow> run_ok z (record_trade pos t x pnl r full dd ex (record_result pnl r l))"
  by (simp add: run_ok_def record_trade_def record_result_def Let_def)

lemma keeps_mod:
  "(\<And>l. run_ok z l \<Longrightarrow> run_ok z (f l)) \<Longrightarrow> keeps (books_run_ok z) (mod_led f)" "keeps (books_run_ok z) (mod_pos g)"
  by (auto simp: keeps_def books_run_ok_def st_simps)

lemma keeps_pair: "(\<And>l p. keeps I (f l p)) \<Longrightarrow> keeps I (case b of (l, p) \<Rightarrow> f l p)"
  by (cases b) simp

lemmas keeps_rules = keeps_bind_lift keeps_bind keeps_if keeps_mod emit_event_ok record_ok run_ok_equity

lemma close_keeps: "keeps (books_run_ok z) (close_run_position costs t x r b f)"
proof -
  have dd: "quantize 2 (dsub (max pk e) e) = Inr d \<Longrightarrow> 0 \<le> d" for pk e d
    by (erule quantize_nonneg) (simp add: dsub_def)
  show ?thesis unfolding close_run_position_def Let_def
    by (intro keeps_rules keeps_base keeps_pair) (assumption | erule dd)+
qed

text \<open>
  A remainder's fee is charged on the equity at the start of the call, which nothing in between
  has changed: the equity never rises above the peak.
\<close>

lemma fee_deduction:
  assumes "run_ok z l" "quantize 2 (dsub (rl_equity l) f) = Inr e" "0 \<le> f"
  shows "run_ok z (l\<lparr>rl_equity := e\<rparr>)"
proof -
  have q: "cents (rl_equity l)" "\<bar>rl_equity l\<bar> < 10 ^ 26" "rl_equity l \<le> rl_peak l"
    using assms(1) by (simp_all add: run_ok_def)
  have "dsub (rl_equity l) f \<le> dfix (rl_equity l)" unfolding dsub_def using assms(3) by (intro dfix_mono) simp
  also have "\<dots> = rl_equity l" using q by (intro cents_exact) simp_all
  finally have "e \<le> rl_equity l" using assms(2) q(1) by (auto simp: quantize_Inr_iff intro: grid.upper)
  then show ?thesis using assms q(3) quantize_cents_bound [OF assms(2)] by (simp add: run_ok_def quantizeD)
qed

lemma absorb_keeps: "keeps (books_run_ok z) (absorb_remainder costs b x n act seq pol)"
  unfolding keeps_def
proof (intro allI impI)
  fix s
  assume "books_run_ok z s"
  then obtain l p where s: "s = (l, p)" and ok: "run_ok z l" by (cases s) (simp add: books_run_ok_def)
  show "books_run_ok z (snd (absorb_remainder costs b x n act seq pol s))"
    using ok fee_deduction [OF ok]
    by (auto simp: s absorb_remainder_def st_simps Let_def books_run_ok_def
        intro!: emit_event_ok split: sum.split) (auto simp: run_ok_def)
qed

section \<open>The books as a machine\<close>

datatype booking_op =
    CloseRun fill_costs string rat string int rat
  | AbsorbRun fill_costs bar rat rat string int string
  | EmitRun string string "string option" int "(string, detail) dict"
  | OpenRun position

text \<open>\<open>OpenRun\<close> stands for the caller putting another position in place of the closed one.\<close>

primrec exec_booking :: "booking_op \<Rightarrow> (run_books, unit) st" where
  "exec_booking (CloseRun c t x r b f) = sbind (close_run_position c t x r b f) (\<lambda>_. sret ())"
| "exec_booking (AbsorbRun c b x n act seq pol) = absorb_remainder c b x n act seq pol"
| "exec_booking (EmitRun ty tm d b det) = mod_led (emit_event ty tm d b det)"
| "exec_booking (OpenRun p) = mod_pos (\<lambda>_. p)"

lemma exec_booking_keeps: "keeps (books_run_ok z) (exec_booking p)"
  by (cases p) (auto intro!: close_keeps absorb_keeps keeps_bind keeps_mod emit_event_ok)

interpretation run_machine: resilient exec_booking "books_run_ok []"
  by unfold_locales (metis exec_booking_keeps keeps_run snd_conv)+

lemma fresh_run_ok: "cents e \<Longrightarrow> \<bar>e\<bar> < 10 ^ 26 \<Longrightarrow> run_ok [] (fresh_run_ledger e)"
  by (simp add: run_ok_def fresh_run_ledger_def)

text \<open>Whatever bookings are tried on a new run's ledger, and however many of them raise: the
  trades are numbered from 1, each with its equity point, the winners are the trades with a
  positive result, the stop streak is at most its maximum and that at most the stops hit, every
  full close left one interval and every other trade is a partial close, no drawdown is
  negative, both journals are numbered from 0 and the equity never exceeds the peak.\<close>

theorem run_books_well_formed:
  assumes "cents e" "\<bar>e\<bar> < 10 ^ 26"
  shows "let l = fst (drive exec_booking ops (fresh_run_ledger e, p)) in
    map tr_seq (rl_trades l) = [1..<1 + length (rl_trades l)] \<and>
    map re_seq (rl_equity_points l) = map tr_seq (rl_trades l) \<and>
    rl_winners l = length (filter (\<lambda>t. tr_pnl t > 0) (rl_trades l)) \<and>
    rl_stop_streak l \<le> rl_max_stop_streak l \<and> rl_max_stop_streak l \<le> rl_stops_hit l \<and>
    rl_stops_hit l \<le> length (rl_trades l) \<and>
    length (rl_position_intervals l) + rl_partial_closes l = length (rl_trades l) \<and>
    list_all (\<lambda>q. 0 \<le> re_drawdown q) (rl_equity_points l) \<and>
    map ev_seq (rl_signal_events l) = [0..<length (rl_signal_events l)] \<and>
    map ev_seq (rl_filtered_events l) = [0..<length (rl_filtered_events l)] \<and>
    rl_equity l \<le> rl_peak l"
proof -
  have "books_run_ok [] (fresh_run_ledger e, p)" using fresh_run_ok [OF assms] by (simp add: books_run_ok_def)
  from run_machine.drive_inv [OF this, of ops] show ?thesis
    by (simp add: books_run_ok_def run_ok_def numbered_def Let_def list_all_iff)
qed

section \<open>What one close books\<close>

lemma booking_reads:
  "rl_equity (emit_event a b c d e k) = rl_equity k" "rl_peak (emit_event a b c d e k) = rl_peak k"
  "rl_trades (emit_event a b c d e k) = rl_trades k"
  "rl_gross_profit (emit_event a b c d e k) = rl_gross_profit k"
  "rl_gross_loss (emit_event a b c d e k) = rl_gross_loss k"
  "rl_day_realized (emit_event a b c d e k) = rl_day_realized k"
  "rl_equity (record_trade p t y x s f g h k) = rl_equity k"
  "rl_peak (record_trade p t y x s f g h k) = rl_peak k"
  "map tr_pnl (rl_trades (record_trade p t y x s f g h k)) = map tr_pnl (rl_trades k) @ [x]"
  "rl_gross_profit (record_trade p t y x s f g h k) = rl_gross_profit k"
  "rl_gross_loss (record_trade p t y x s f g h k) = rl_gross_loss k"
  "rl_day_realized (record_trade p t y x s f g h k) = rl_day_realized k"
  "rl_equity (record_result x s k) = rl_equity k" "rl_peak (record_result x s k) = rl_peak k"
  "rl_trades (record_result x s k) = rl_trades k"
  "rl_gross_profit (record_result x s k) = (if 0 < x then dadd (rl_gross_profit k) x else rl_gross_profit k)"
  "rl_gross_loss (record_result x s k) = (if 0 < x then rl_gross_loss k else dadd (rl_gross_loss k) (dneg x))"
  "rl_day_realized (record_result x s k) = dadd (rl_day_realized k) x"
  by (simp_all add: emit_event_def record_trade_def record_result_def Let_def)

lemma close_run_ok:
  assumes "close_run_position costs t x r b f (l, p) = (Inr full, (l', p'))"
  obtains exit_eff pnl e where
    "effective_fill x (\<not> is_long p) (fc_half_spread costs) (fc_slippage costs) = Inr exit_eff"
    "quantize 2 (dadd (rl_equity l) pnl) = Inr e" "cents pnl" "\<bar>pnl\<bar> < 10 ^ 26"
    "rl_equity l' = e" "rl_peak l' = max (rl_peak l) e" "full = (1 \<le> f)"
    "map tr_pnl (rl_trades l') = map tr_pnl (rl_trades l) @ [pnl]"
    "rl_gross_profit l' = (if 0 < pnl then dadd (rl_gross_profit l) pnl else rl_gross_profit l)"
    "rl_gross_loss l' = (if 0 < pnl then rl_gross_loss l else dadd (rl_gross_loss l) (dneg pnl))"
    "rl_day_realized l' = dadd (rl_day_realized l) pnl"
    "ps_size p' = (if 1 \<le> f then ps_size p else dsub (ps_size p) (dmul (ps_size p) f))"
proof (cases "1 \<le> f")
  case True
  show ?thesis using assms True
    by (auto simp: close_run_position_def st_simps Let_def booking_reads split: sum.splits
        intro!: that dest: quantizeD(2) quantize_cents_bound)
next
  case False
  show ?thesis using assms False
    by (auto simp: close_run_position_def st_simps Let_def booking_reads split: sum.splits
        intro!: that dest: quantizeD(2) quantize_cents_bound)
qed
text \<open>C39. A successful close appends one trade and moves the equity by exactly that trade's
  result, which lands whole in the gross profit when it is positive and in the gross loss
  otherwise; a partial close leaves the rest of the position.\<close>

theorem close_books_its_result:
  assumes "close_run_position costs t x r b f (l, p) = (Inr full, (l', p'))"
    and "cents (rl_equity l)" "\<bar>rl_equity l\<bar> < 10 ^ 25" "\<bar>rl_equity l'\<bar> < 10 ^ 25"
  shows "\<exists>pnl. map tr_pnl (rl_trades l') = map tr_pnl (rl_trades l) @ [pnl] \<and>
    rl_equity l' = rl_equity l + pnl \<and> rl_peak l' = max (rl_peak l) (rl_equity l') \<and>
    (if 0 < pnl then rl_gross_profit l' = dadd (rl_gross_profit l) pnl \<and> rl_gross_loss l' = rl_gross_loss l
     else rl_gross_profit l' = rl_gross_profit l \<and> rl_gross_loss l' = dadd (rl_gross_loss l) (- pnl)) \<and>
    full = (1 \<le> f) \<and>
    ps_size p' = (if full then ps_size p else dsub (ps_size p) (dmul (ps_size p) f))"
  using assms(1)
proof (cases rule: close_run_ok)
  case (1 exit_eff pnl e)
  have q: "e = qround 2 (dadd (rl_equity l) pnl)" using 1(2) by (simp add: quantizeD)
  have e: "cents e" "\<bar>e\<bar> < 10 ^ 25" using 1 assms(4) by (auto dest: quantizeD)
  have sum: "cents (rl_equity l + pnl)" using assms(2) 1(3) by (rule on_grid_add)
  have "\<bar>rl_equity l + pnl\<bar> \<le> 2 * 10 ^ 26" using assms(3) 1(4) by simp
  moreover have "dfix (rl_equity l + pnl) = rl_equity l + pnl" if "\<bar>rl_equity l + pnl\<bar> \<le> 10 ^ 26"
    using sum that by (rule cents_exact)
  moreover have "\<bar>rl_equity l + pnl\<bar> \<le> 10 ^ 26"
  proof (rule ccontr)
    assume big: "\<not> \<bar>rl_equity l + pnl\<bar> \<le> 10 ^ 26"
    have "representable (10 ^ 26)" by (rule representableI [of _ 1 26]) simp_all
    then have "10 ^ 26 \<le> dfix \<bar>rl_equity l + pnl\<bar>" using big by (intro ctx.lower) auto
    then have "10 ^ 26 \<le> \<bar>dadd (rl_equity l) pnl\<bar>" by (simp add: dadd_def ctx.rnd_abs)
    moreover have "cents (10 ^ 26)" by (rule on_gridI [of _ _ "10 ^ 28"]) simp
    ultimately have "10 ^ 26 \<le> \<bar>e\<bar>" unfolding q by (simp add: grid.rnd_abs [symmetric] grid.lower)
    then show False using e(2) by simp
  qed
  ultimately have "e = rl_equity l + pnl" using q sum by (simp add: dadd_def)
  moreover have "dneg pnl = - pnl" using 1(3,4) by (intro dneg_cents) simp_all
  ultimately show ?thesis using 1 by auto
qed

text \<open>
  A close at 110 of a long position of 2 entered at 100, without costs, on a fresh ledger.
\<close>

definition demo_fill_costs :: fill_costs where
  "demo_fill_costs = \<lparr>fc_half_spread = 0, fc_slippage = 0, fc_commission = 0, fc_commission_basis = ''flat''\<rparr>"

definition demo_close :: "run_books \<Rightarrow> bool res \<times> run_books" where
  "demo_close = close_run_position demo_fill_costs ''t1'' 110 ''exit_signal'' 7 1"

lemma demo_fills:
  "effective_fill 110 False 0 0 = Inr 110" "fee demo_fill_costs (dmul 110 2) = Inr 0"
  "quantize 2 (dsub (dmul (dmul (dsub 110 100) 2) 1) 0) = Inr 20"
  "quantize 2 (dadd 1000 20) = Inr 1020" "quantize 2 (dsub 1020 1020) = Inr 0"
  "quantize 2 (dmul 100 2) = Inr 200" "exposure_of 200 1000 = Inr 20"
  by (simp_all add: demo_fill_costs_def effective_fill_def fee_def exposure_of_def dec_eval)

lemma demo_costs_reads: "fc_half_spread demo_fill_costs = 0" "fc_slippage demo_fill_costs = 0"
  by (simp_all add: demo_fill_costs_def)

lemma demo_position_reads: "ps_entry_price demo_position = 100" "ps_size demo_position = 2"
  "is_long demo_position"
  by (simp_all add: demo_position_def is_long_def)

lemma fresh_reads: "rl_equity (fresh_run_ledger e) = e" "rl_peak (fresh_run_ledger e) = e"
  "rl_trades (fresh_run_ledger e) = []"
  by (simp_all add: fresh_run_ledger_def)

lemma demo_close_run:
  "fst (demo_close (fresh_run_ledger 1000, demo_position)) = Inr True \<and>
   rl_equity (fst (snd (demo_close (fresh_run_ledger 1000, demo_position)))) = 1020"
  by (simp add: demo_close_def close_run_position_def st_simps Let_def demo_fills demo_costs_reads
      demo_position_reads fresh_reads booking_reads)

theorem run_books_well_formed_witness:
  "let l = fst (drive exec_booking [CloseRun demo_fill_costs ''t1'' 110 ''exit_signal'' 7 1]
      (fresh_run_ledger 1000, demo_position)) in
    rl_equity l = 1020 \<and> rl_equity l \<le> rl_peak l"
proof -
  have "cents 1000" by (rule on_gridI [of _ _ 100000]) simp
  from run_books_well_formed [OF this, of "[CloseRun demo_fill_costs ''t1'' 110 ''exit_signal'' 7 1]" demo_position]
  show ?thesis using demo_close_run
    by (cases "demo_close (fresh_run_ledger 1000, demo_position)")
      (auto simp: Let_def demo_close_def st_simps)
qed

theorem close_books_its_result_witness:
  "\<exists>pnl l' p'. demo_close (fresh_run_ledger 1000, demo_position) = (Inr True, (l', p')) \<and>
     map tr_pnl (rl_trades l') = [pnl] \<and> 1020 = 1000 + pnl"
proof -
  obtain l' p' where r: "demo_close (fresh_run_ledger 1000, demo_position) = (Inr True, (l', p'))"
    and e: "rl_equity l' = 1020"
    using demo_close_run by (cases "demo_close (fresh_run_ledger 1000, demo_position)") auto
  have "cents 1000" by (rule on_gridI [of _ _ 100000]) simp
  from close_books_its_result [OF r [unfolded demo_close_def]] this e r fresh_reads [of 1000] show ?thesis by auto
qed

end
