(* ===== verification/Rules.thy ===== *)
theory Rules
  imports Run_State
begin

text \<open>
  The portfolio rules a sequential run applies against the items that ran before it
  (\<^verbatim>\<open>domain/backtest/execution/rules.py\<close>). The two queries also raise diagnostic gates on the run's
  ledger, so they are state-passing. They take the bar's epoch in milliseconds, \<open>None\<close> where
  \<open>bar_epoch_ms\<close> could not place its timestamp.
\<close>

definition interval_covers :: "prior_item_interval \<Rightarrow> int option \<Rightarrow> bool" where
  "interval_covers iv t_ms =
     (case t_ms of None \<Rightarrow> True | Some t \<Rightarrow>
        if (case iv_start_ms iv of None \<Rightarrow> False | Some s \<Rightarrow> t < s) then False
        else \<not> (case iv_end_ms iv of None \<Rightarrow> False | Some e \<Rightarrow> t > e))"

definition prior_exposure_at :: "portfolio_rules \<Rightarrow> int option \<Rightarrow> (run_ledger, rat) st" where
  "prior_exposure_at rules t_ms =
     sbind (smod (\<lambda>led. if t_ms = None \<and> pr_prior_intervals rules \<noteq> []
         then led\<lparr>rl_portfolio_time_unparseable_gate := True\<rparr> else led)) (\<lambda>_.
     sret (foldl (\<lambda>total iv. if interval_covers iv t_ms then dadd total (iv_notional iv) else total) 0
       (pr_prior_intervals rules)))"

fun conflict_loop ::
  "string \<Rightarrow> string \<Rightarrow> int option \<Rightarrow> prior_item_interval list \<Rightarrow> (run_ledger, bool) st" where
  "conflict_loop own direction t_ms [] = sret False"
| "conflict_loop own direction t_ms (iv # ivs) =
     (let other = strip_opt (iv_symbol iv) in
      if iv_direction iv = direction then conflict_loop own direction t_ms ivs
      else if own \<noteq> [] \<and> other \<noteq> [] \<and> own \<noteq> other then conflict_loop own direction t_ms ivs
      else if \<not> interval_covers iv t_ms then conflict_loop own direction t_ms ivs
      else sbind (smod (\<lambda>led. if \<not> (own \<noteq> [] \<and> other \<noteq> [])
               then led\<lparr>rl_portfolio_symbol_unknown_gate := True\<rparr> else led)) (\<lambda>_.
           sbind (smod (\<lambda>led. if t_ms = None
               then led\<lparr>rl_portfolio_time_unparseable_gate := True\<rparr> else led)) (\<lambda>_.
           sret True)))"

definition conflicts_with_prior ::
  "portfolio_rules \<Rightarrow> string \<Rightarrow> int option \<Rightarrow> (run_ledger, bool) st" where
  "conflicts_with_prior rules direction t_ms =
     conflict_loop (strip_opt (pr_own_symbol rules)) direction t_ms (pr_prior_intervals rules)"

section \<open>What the queries answer\<close>

definition may_conflict :: "string \<Rightarrow> string \<Rightarrow> int option \<Rightarrow> prior_item_interval \<Rightarrow> bool" where
  "may_conflict own direction t_ms iv =
     (iv_direction iv \<noteq> direction \<and> interval_covers iv t_ms \<and>
      (own = [] \<or> strip_opt (iv_symbol iv) = [] \<or> own = strip_opt (iv_symbol iv)))"

lemma covers_unknown [simp]: "interval_covers iv None"
  by (simp add: interval_covers_def)

lemma conflict_loop_answer:
  "fst (conflict_loop own d t ivs led) = Inr (\<exists>iv \<in> set ivs. may_conflict own d t iv)"
  by (induction own d t ivs arbitrary: led rule: conflict_loop.induct)
    (auto simp: st_simps may_conflict_def Let_def)

lemma exposure_fold_mono:
  assumes "\<forall>iv \<in> set ivs. 0 \<le> iv_notional iv" "representable a" "a \<le> b" "representable b"
    and "\<And>iv. iv \<in> set ivs \<Longrightarrow> P iv \<Longrightarrow> Q iv"
  shows "foldl (\<lambda>x iv. if P iv then dadd x (iv_notional iv) else x) a ivs
     \<le> foldl (\<lambda>x iv. if Q iv then dadd x (iv_notional iv) else x) b ivs"
  using assms
proof (induction ivs arbitrary: a b)
  case Nil
  then show ?case by simp
next
  case (Cons iv ivs)
  have n: "0 \<le> iv_notional iv" using Cons.prems(1) by simp
  have grow: "b \<le> dadd b (iv_notional iv)"
    using dfix_mono [of b "b + iv_notional iv"] n Cons.prems(4) by (simp add: dadd_def)
  have mono: "dadd a (iv_notional iv) \<le> dadd b (iv_notional iv)"
    unfolding dadd_def using Cons.prems(3) by (intro dfix_mono) simp
  have rep: "representable (dadd x y)" for x y by (simp add: dadd_def)
  show ?case using Cons.prems grow mono rep
    by (auto intro!: Cons.IH)
qed

text \<open>C31. An instant that cannot be parsed never relaxes a portfolio rule: the prior exposure counted
  at an unknown time is at least that at any known time, and a direction that conflicts with the
  earlier items at some known time conflicts at the unknown one, with the gate raised. A query
  at a known time answers exactly whether some earlier interval of the other direction covers
  it on an instrument that may be the same.\<close>

theorem unknown_time_fails_closed:
  assumes "\<forall>iv \<in> set (pr_prior_intervals rules). 0 \<le> iv_notional iv"
  shows "(\<exists>x y. fst (prior_exposure_at rules (Some t) led) = Inr x \<and>
      fst (prior_exposure_at rules None led) = Inr y \<and> x \<le> y) \<and>
    fst (conflicts_with_prior rules d (Some t) led) = Inr (\<exists>iv \<in> set (pr_prior_intervals rules).
      may_conflict (strip_opt (pr_own_symbol rules)) d (Some t) iv) \<and>
    (fst (conflicts_with_prior rules d (Some t) led) = Inr True \<longrightarrow>
      fst (conflicts_with_prior rules d None led) = Inr True \<and>
      rl_portfolio_time_unparseable_gate (snd (conflicts_with_prior rules d None led)))"
proof -
  have gate: "rl_portfolio_time_unparseable_gate (snd (conflict_loop own d None ivs l))"
    if "fst (conflict_loop own d None ivs l) = Inr True" for own ivs l
    using that by (induction own d "None :: int option" ivs arbitrary: l rule: conflict_loop.induct)
      (auto simp: st_simps Let_def split: if_splits)
  have "may_conflict own d (Some t) iv \<Longrightarrow> may_conflict own d None iv" for own iv
    by (simp add: may_conflict_def)
  then have "fst (conflicts_with_prior rules d (Some t) led) = Inr True \<Longrightarrow>
      fst (conflicts_with_prior rules d None led) = Inr True"
    by (auto simp: conflicts_with_prior_def conflict_loop_answer)
  moreover have "representable 0" using representable_dfix [of 0] by simp
  then have "foldl (\<lambda>x iv. if interval_covers iv (Some t) then dadd x (iv_notional iv) else x) 0
        (pr_prior_intervals rules)
     \<le> foldl (\<lambda>x iv. if interval_covers iv None then dadd x (iv_notional iv) else x) 0
        (pr_prior_intervals rules)"
    using assms by (intro exposure_fold_mono) simp_all
  ultimately show ?thesis using gate
    by (simp add: prior_exposure_at_def st_simps conflicts_with_prior_def conflict_loop_answer)
qed

definition demo_interval :: prior_item_interval where
  "demo_interval = \<lparr>iv_item_id = ''a'', iv_symbol = None, iv_direction = ''short'',
     iv_start_ms = Some 10, iv_end_ms = Some 20, iv_notional = 50\<rparr>"

definition demo_rules :: portfolio_rules where
  "demo_rules = \<lparr>pr_max_total_exposure_percent = None, pr_conflict_policy = None, pr_own_symbol = Some ''BTC'',
     pr_prior_intervals = [demo_interval], pr_exposure_percent_invalid = False\<rparr>"

theorem unknown_time_fails_closed_witness:
  "fst (conflicts_with_prior demo_rules ''long'' (Some 15) (fresh_run_ledger 0)) = Inr True \<and>
   fst (conflicts_with_prior demo_rules ''long'' None (fresh_run_ledger 0)) = Inr True"
proof -
  have "\<forall>iv \<in> set (pr_prior_intervals demo_rules). 0 \<le> iv_notional iv"
    by (simp add: demo_rules_def demo_interval_def)
  from unknown_time_fails_closed [OF this, of 15 "fresh_run_ledger 0" "''long''"]
  show ?thesis
    by (simp add: demo_rules_def demo_interval_def may_conflict_def interval_covers_def strip_opt_def)
qed

end
