(* ===== verification/Clock.thy ===== *)
theory Clock
  imports Run_State "HOL-Library.Multiset"
begin

text \<open>
  The unified valuation clock (\<^verbatim>\<open>domain/backtest/execution/clock.py\<close>): a k-way merge of the items'
  bar streams, grouped into ticks, one view per item at each tick.

  A generator is modelled by the values it yields and the exception that ends it, if any
  (\<open>'a gen\<close>): \<open>heapq.merge\<close> pulls the first value of every generator before it yields, and the
  next value of a generator right after yielding one of its values, so an exception inside a
  stream surfaces while the tick of its last good bar is being collected, and that tick is not
  yielded. \<open>tick_key\<close> (an ISO timestamp to epoch milliseconds) is the parameter \<open>key\<close>; number
  parsing is \<open>parse\<close>.
\<close>

type_synonym 'a gen = "'a list \<times> exc option"

record item_bar_stream =
  bs_item_id :: string
  bs_pin_ordinal :: int
  bs_batches :: "raw_bar list list"

record item_tick_view =
  tv_item_id :: string
  tv_pin_ordinal :: int
  tv_t_ms :: int
  tv_bars :: "bar list"
  tv_last_closed :: "bar option"
  tv_last_closed_t_ms :: "int option"

definition is_decision :: "item_tick_view \<Rightarrow> bool" where
  "is_decision v = (tv_bars v \<noteq> [])"

definition staleness_ms :: "item_tick_view \<Rightarrow> int option" where
  "staleness_ms v = map_option (\<lambda>t. tv_t_ms v - t) (tv_last_closed_t_ms v)"

record clock_tick =
  ct_t_ms :: int
  ct_views :: "item_tick_view list"

definition deciding :: "clock_tick \<Rightarrow> item_tick_view list" where
  "deciding k = filter is_decision (ct_views k)"

definition view_for :: "clock_tick \<Rightarrow> string \<Rightarrow> item_tick_view option" where
  "view_for k i = List.find (\<lambda>v. tv_item_id v = i) (ct_views k)"

section \<open>Streams\<close>

type_synonym entry = "int \<times> int \<times> string \<times> bar"

definition entry_time :: "entry \<Rightarrow> int" where
  "entry_time e = fst e"

definition entry_item :: "entry \<Rightarrow> string" where
  "entry_item e = fst (snd (snd e))"

definition entry_bar :: "entry \<Rightarrow> bar" where
  "entry_bar e = snd (snd (snd e))"

definition entry_key :: "entry \<Rightarrow> int \<times> int \<times> string" where
  "entry_key e = (fst e, fst (snd e), fst (snd (snd e)))"

definition ordered_streams :: "item_bar_stream list \<Rightarrow> item_bar_stream list res" where
  "ordered_streams streams =
     (if \<not> distinct (map bs_item_id streams) then raise DuplicateItemStreamError
      else ok (sort_key (\<lambda>s. (bs_pin_ordinal s, bs_item_id s)) streams))"

fun placed_loop ::
  "(string \<Rightarrow> int option) \<Rightarrow> parser \<Rightarrow> int \<Rightarrow> string \<Rightarrow> int option \<Rightarrow> raw_bar list \<Rightarrow> entry gen" where
  "placed_loop key parse ord item previous [] = ([], None)"
| "placed_loop key parse ord item previous (raw # rows) =
     (case normalize_bar parse raw of
        None \<Rightarrow> placed_loop key parse ord item previous rows
      | Some b \<Rightarrow>
          (case key (br_timestamp b) of
             None \<Rightarrow> ([], Some UnplaceableBarTimestampError)
           | Some placed \<Rightarrow>
               if (case previous of None \<Rightarrow> False | Some p \<Rightarrow> placed < p)
               then ([], Some NonMonotonicBarStreamError)
               else let (es, e) = placed_loop key parse ord item (Some placed) rows
                    in ((placed, ord, item, b) # es, e)))"

definition placed_bars ::
  "(string \<Rightarrow> int option) \<Rightarrow> parser \<Rightarrow> item_bar_stream \<Rightarrow> entry gen" where
  "placed_bars key parse s =
     placed_loop key parse (bs_pin_ordinal s) (bs_item_id s) None (concat (bs_batches s))"

section \<open>The k-way merge\<close>

text \<open>The generator whose next value has the smallest key, the earliest one among equals, with
  the generators before and after it.\<close>

fun split_min :: "('a \<Rightarrow> 'k::linorder) \<Rightarrow> 'a \<Rightarrow> 'a list \<Rightarrow> 'a list \<times> 'a \<times> 'a list" where
  "split_min f x [] = ([], x, [])"
| "split_min f x (y # ys) =
     (let (pre, m, post) = split_min f y ys in
      if f m < f x then (x # pre, m, post) else ([], x, y # ys))"

lemma split_min_split:
  "split_min f x xs = (pre, m, post) \<Longrightarrow> x # xs = pre @ m # post \<and> (\<forall>y \<in> set (x # xs). f m \<le> f y)"
proof (induction f x xs arbitrary: pre m post rule: split_min.induct)
  case (1 f x)
  then show ?case by simp
next
  case (2 f x y ys)
  obtain pre' m' post' where s: "split_min f y ys = (pre', m', post')" by (cases "split_min f y ys") auto
  show ?case
  proof (cases "f m' < f x")
    case True
    with "2.prems" s have r: "pre = x # pre'" "m = m'" "post = post'" by auto
    show ?thesis unfolding r
      by (intro conjI) (use "2.IH" [OF s] in simp, use conjunct2 [OF "2.IH" [OF s]] True in auto)
  next
    case False
    with "2.prems" s have r: "pre = []" "m = x" "post = y # ys" by (auto split: prod.splits if_splits)
    show ?thesis unfolding r using conjunct2 [OF "2.IH" [OF s]] False by (auto intro: order_trans)
  qed
qed

definition gen_load :: "'e gen list \<Rightarrow> nat" where
  "gen_load gs = (\<Sum>g\<leftarrow>gs. Suc (length (fst g)))"

lemma gen_load_simps [simp]:
  "gen_load [] = 0" "gen_load (g # gs) = Suc (length (fst g) + gen_load gs)"
  "gen_load (gs @ hs) = gen_load gs + gen_load hs"
  by (simp_all add: gen_load_def)

lemma split_min_load:
  "(pre, m, post) = split_min h g gs \<Longrightarrow> Suc (length (fst g) + gen_load gs) = gen_load (pre @ m # post)"
  using split_min_split [of h g gs pre m post] by (metis gen_load_simps(2))

function gmerge :: "('e \<Rightarrow> 'k::linorder) \<Rightarrow> 'e gen list \<Rightarrow> 'e gen" where
  "gmerge f [] = ([], None)"
| "gmerge f (g # gs) =
     (case split_min (\<lambda>h. f (hd (fst h))) g gs of (pre, m, post) \<Rightarrow>
        (case m of
           ([], e) \<Rightarrow> gmerge f (pre @ post)
         | ([x], Some e) \<Rightarrow> ([x], Some e)
         | ([x], None) \<Rightarrow> (let (es, e) = gmerge f (pre @ post) in (x # es, e))
         | (x # y # xs, e) \<Rightarrow> (let (es, e') = gmerge f (pre @ (y # xs, e) # post) in (x # es, e'))))"
  by pat_completeness auto
termination by (relation "measure (\<lambda>(f, gs). gen_load gs)") (auto dest!: split_min_load)

definition kmerge :: "('e \<Rightarrow> 'k::linorder) \<Rightarrow> 'e gen list \<Rightarrow> 'e gen" where
  "kmerge f gs =
     (case List.find (\<lambda>g. fst g = [] \<and> snd g \<noteq> None) gs of
        Some g \<Rightarrow> ([], snd g)
      | None \<Rightarrow> gmerge f (filter (\<lambda>g. fst g \<noteq> []) gs))"

text \<open>The merge: it fails exactly when some generator does, keeps the order of the keys, and keeps
  each generator's own values in their order.\<close>

lemma prepend_gen: "(let (es, e) = g in (x # es, e)) = (x # fst g, snd g)"
  by (simp add: case_prod_beta)

lemma gmerge_step:
  assumes "split_min (\<lambda>h. f (hd (fst h))) g gs = (pre, (x # xs, e), post)"
  shows "gmerge f (g # gs) =
     (if xs = [] then (case e of Some _ \<Rightarrow> ([x], e)
         | None \<Rightarrow> (x # fst (gmerge f (pre @ post)), snd (gmerge f (pre @ post))))
      else (x # fst (gmerge f (pre @ (xs, e) # post)), snd (gmerge f (pre @ (xs, e) # post))))"
  using assms by (cases xs; cases e) (simp_all add: case_prod_beta)

text \<open>An induction over the merge of non-empty generators: one value out at a time.\<close>

lemma gmerge_induct [consumes 1, case_names Nil Stop Drop Next]:
  assumes "\<forall>g \<in> set gs. fst g \<noteq> []"
    and "P [] ([], None)"
    and "\<And>pre x err post. \<forall>h \<in> set (pre @ ([x], Some err) # post). f x \<le> f (hd (fst h)) \<Longrightarrow>
        \<forall>h \<in> set (pre @ post). fst h \<noteq> [] \<Longrightarrow>
        P (pre @ ([x], Some err) # post) ([x], Some err)"
    and "\<And>pre x post. \<forall>h \<in> set (pre @ ([x], None) # post). f x \<le> f (hd (fst h)) \<Longrightarrow>
        \<forall>h \<in> set (pre @ post). fst h \<noteq> [] \<Longrightarrow> P (pre @ post) (gmerge f (pre @ post)) \<Longrightarrow>
        P (pre @ ([x], None) # post) (x # fst (gmerge f (pre @ post)), snd (gmerge f (pre @ post)))"
    and "\<And>pre x xs e post. \<forall>h \<in> set (pre @ (x # xs, e) # post). f x \<le> f (hd (fst h)) \<Longrightarrow>
        \<forall>h \<in> set (pre @ post). fst h \<noteq> [] \<Longrightarrow> xs \<noteq> [] \<Longrightarrow>
        P (pre @ (xs, e) # post) (gmerge f (pre @ (xs, e) # post)) \<Longrightarrow>
        P (pre @ (x # xs, e) # post)
          (x # fst (gmerge f (pre @ (xs, e) # post)), snd (gmerge f (pre @ (xs, e) # post)))"
  shows "P gs (gmerge f gs)"
  using assms(1)
proof (induction "gen_load gs" arbitrary: gs rule: less_induct)
  case less
  show ?case
  proof (cases gs)
    case Nil
    then show ?thesis using assms(2) by simp
  next
    case (Cons g gs')
    obtain pre m post where s: "split_min (\<lambda>h. f (hd (fst h))) g gs' = (pre, m, post)"
      by (cases "split_min (\<lambda>h. f (hd (fst h))) g gs'") auto
    note sp = split_min_split [OF s]
    have gs: "gs = pre @ m # post" using sp Cons by simp
    obtain x xs e where m: "m = (x # xs, e)" using less.prems gs by (cases m; cases "fst m") auto
    have low: "\<forall>h \<in> set (pre @ (x # xs, e) # post). f x \<le> f (hd (fst h))"
      using sp Cons gs m by (metis fst_conv list.sel(1))
    have ne: "\<forall>h \<in> set (pre @ post). fst h \<noteq> []" using less.prems gs by auto
    have load: "gen_load (pre @ post) < gen_load gs" "gen_load (pre @ (xs, e) # post) < gen_load gs"
      by (simp_all add: gs m)
    have step: "gmerge f gs =
     (if xs = [] then (case e of Some _ \<Rightarrow> ([x], e)
         | None \<Rightarrow> (x # fst (gmerge f (pre @ post)), snd (gmerge f (pre @ post))))
      else (x # fst (gmerge f (pre @ (xs, e) # post)), snd (gmerge f (pre @ (xs, e) # post))))"
      unfolding Cons by (rule gmerge_step) (use s m in simp)
    show ?thesis
    proof (cases "xs = []")
      case True
      show ?thesis
      proof (cases e)
        case None
        have "\<forall>h \<in> set (pre @ ([x], None) # post). f x \<le> f (hd (fst h))" using low True None by simp
        from assms(4) [OF this ne less.hyps [OF load(1) ne]]
        show ?thesis unfolding step using True None gs m by simp
      next
        case (Some err)
        have "\<forall>h \<in> set (pre @ ([x], Some err) # post). f x \<le> f (hd (fst h))" using low True Some by simp
        from assms(3) [OF this ne] show ?thesis unfolding step using True Some gs m by simp
      qed
    next
      case False
      then have "\<forall>h \<in> set (pre @ (xs, e) # post). fst h \<noteq> []" using ne by auto
      from assms(5) [OF low ne False less.hyps [OF load(2) this]]
      show ?thesis unfolding step using False gs m by simp
    qed
  qed
qed

lemma gmerge_error:
  "\<forall>g \<in> set gs. fst g \<noteq> [] \<Longrightarrow> (snd (gmerge f gs) = None) = (\<forall>g \<in> set gs. snd g = None)"
  by (induction gs rule: gmerge_induct [where f = f]) auto

lemma gmerge_subset:
  "\<forall>g \<in> set gs. fst g \<noteq> [] \<Longrightarrow> set (fst (gmerge f gs)) \<subseteq> (\<Union>g \<in> set gs. set (fst g))"
  by (induction gs rule: gmerge_induct [where f = f]) auto

lemma gmerge_sorted:
  assumes "\<forall>g \<in> set gs. fst g \<noteq> []" "\<forall>g \<in> set gs. sorted (map f (fst g))"
  shows "sorted (map f (fst (gmerge f gs)))"
  using assms
proof (induction gs rule: gmerge_induct [where f = f])
  case Nil
  then show ?case by simp
next
  case (Stop pre x err post)
  then show ?case by simp
next
  case (Drop pre x post)
  have "f x \<le> f y" if y: "y \<in> set (fst (gmerge f (pre @ post)))" for y
  proof -
    obtain g where g: "g \<in> set (pre @ post)" "y \<in> set (fst g)"
      using gmerge_subset [OF Drop.hyps(2), of f] y by blast
    with Drop have "f x \<le> f (hd (fst g))" "sorted (map f (fst g))" "fst g \<noteq> []" by auto
    with g(2) show ?thesis by (cases "fst g") auto
  qed
  with Drop show ?case by auto
next
  case (Next pre x xs e post)
  have "f x \<le> f y" if y: "y \<in> set (fst (gmerge f (pre @ (xs, e) # post)))" for y
  proof -
    have "\<forall>g \<in> set (pre @ (xs, e) # post). fst g \<noteq> []" using Next.hyps by auto
    from gmerge_subset [OF this, of f] y
    have "y \<in> (\<Union>g \<in> set (pre @ (x # xs, e) # post). set (fst g))" by auto
    then obtain g where g: "g \<in> set (pre @ (x # xs, e) # post)" "y \<in> set (fst g)" by blast
    with Next have "f x \<le> f (hd (fst g))" "sorted (map f (fst g))" "fst g \<noteq> []" by auto
    with g(2) show ?thesis by (cases "fst g") auto
  qed
  with Next show ?case by auto
qed

text \<open>Values of a kind that at most one generator yields come out of the merge in that generator's
  order.\<close>

definition exclusive :: "('e \<Rightarrow> bool) \<Rightarrow> 'e gen list \<Rightarrow> bool" where
  "exclusive P gs = (length (filter (\<lambda>g. \<exists>e \<in> set (fst g). P e) gs) \<le> 1)"

definition picks :: "('e \<Rightarrow> bool) \<Rightarrow> 'e gen list \<Rightarrow> 'e list" where
  "picks P gs = concat (map (\<lambda>g. filter P (fst g)) gs)"

lemma picks_simps [simp]:
  "picks P [] = []" "picks P (g # gs) = filter P (fst g) @ picks P gs"
  "picks P (gs @ hs) = picks P gs @ picks P hs"
  by (simp_all add: picks_def)

lemma picks_none: "filter (\<lambda>g. \<exists>e \<in> set (fst g). P e) gs = [] \<Longrightarrow> picks P gs = []"
  by (auto simp: picks_def filter_empty_conv)

lemma exclusive_head:
  "exclusive P (pre @ (x # xs, e) # post) \<Longrightarrow> P x \<Longrightarrow> picks P pre = []"
  by (rule picks_none) (simp add: exclusive_def)

lemma exclusive_rest:
  "exclusive P (pre @ (x # xs, e) # post) \<Longrightarrow> exclusive P (pre @ (xs, e) # post)"
  "exclusive P (pre @ (x # xs, e) # post) \<Longrightarrow> exclusive P (pre @ post)"
  by (auto simp: exclusive_def split: if_splits)

lemma gmerge_picks:
  assumes "\<forall>g \<in> set gs. fst g \<noteq> []" "exclusive P gs" "snd (gmerge f gs) = None"
  shows "filter P (fst (gmerge f gs)) = picks P gs"
  using assms
proof (induction gs rule: gmerge_induct [where f = f])
  case Nil
  then show ?case by simp
next
  case (Stop pre x err post)
  then show ?case by simp
next
  case (Drop pre x post)
  have "filter P (fst (gmerge f (pre @ post))) = picks P (pre @ post)"
    using Drop.IH [OF exclusive_rest(2) [OF Drop.prems(1)]] Drop.prems(2) by simp
  then show ?case using exclusive_head [OF Drop.prems(1)] by (cases "P x") simp_all
next
  case (Next pre x xs e post)
  have "filter P (fst (gmerge f (pre @ (xs, e) # post))) = picks P (pre @ (xs, e) # post)"
    using Next.IH [OF exclusive_rest(1) [OF Next.prems(1)]] Next.prems(2) by simp
  then show ?case using exclusive_head [OF Next.prems(1)] by (cases "P x") simp_all
qed

text \<open>The same facts for \<open>heapq.merge\<close>, which first pulls every generator once.\<close>

lemma find_none: "(List.find P xs = None) = (\<forall>x \<in> set xs. \<not> P x)"
  by (auto simp: find_None_iff)

lemma kmerge_error: "(snd (kmerge f gs) = None) = (\<forall>g \<in> set gs. snd g = None)"
proof (cases "List.find (\<lambda>g. fst g = [] \<and> snd g \<noteq> None) gs")
  case None
  then have no: "\<forall>g \<in> set gs. fst g = [] \<longrightarrow> snd g = None" by (auto simp: find_none)
  have "\<forall>g \<in> set (filter (\<lambda>g. fst g \<noteq> []) gs). fst g \<noteq> []" by simp
  from gmerge_error [OF this, of f] None no show ?thesis by (auto simp: kmerge_def)
next
  case (Some g)
  then have "g \<in> set gs" "snd g \<noteq> None" by (auto simp: find_Some_iff in_set_conv_nth)
  then show ?thesis using Some by (auto simp: kmerge_def)
qed

lemma kmerge_none: "snd (kmerge f gs) = None \<Longrightarrow> kmerge f gs = gmerge f (filter (\<lambda>g. fst g \<noteq> []) gs)"
  using kmerge_error [of f gs] find_none [of "\<lambda>g. fst g = [] \<and> snd g \<noteq> None" gs]
  by (simp add: kmerge_def)

lemma kmerge_sorted:
  assumes "\<forall>g \<in> set gs. sorted (map f (fst g))"
  shows "sorted (map f (fst (kmerge f gs)))"
proof -
  have "sorted (map f (fst (gmerge f (filter (\<lambda>g. fst g \<noteq> []) gs))))"
    using assms by (intro gmerge_sorted) auto
  then show ?thesis by (simp add: kmerge_def split: option.split)
qed

lemma picks_filter: "picks P (filter (\<lambda>g. fst g \<noteq> []) gs) = picks P gs"
  by (induction gs) auto

lemma kmerge_picks:
  assumes "snd (kmerge f gs) = None" "exclusive P gs"
  shows "filter P (fst (kmerge f gs)) = picks P gs"
proof -
  have eq: "filter (\<lambda>g. \<exists>e \<in> set (fst g). P e) (filter (\<lambda>g. fst g \<noteq> []) gs)
      = filter (\<lambda>g. \<exists>e \<in> set (fst g). P e) gs"
    unfolding filter_filter by (rule filter_cong) auto
  have ex: "exclusive P (filter (\<lambda>g. fst g \<noteq> []) gs)"
    unfolding exclusive_def eq by (rule assms(2) [unfolded exclusive_def])
  have ne: "\<forall>g \<in> set (filter (\<lambda>g. fst g \<noteq> []) gs). fst g \<noteq> []" by simp
  have "snd (gmerge f (filter (\<lambda>g. fst g \<noteq> []) gs)) = None"
    by (rule assms(1) [unfolded kmerge_none [OF assms(1)]])
  from gmerge_picks [OF ne ex this] show ?thesis
    unfolding picks_filter kmerge_none [OF assms(1)] .
qed

section \<open>Ticks\<close>

text \<open>\<open>itertools.groupby\<close>: maximal runs of equal keys.\<close>

function groups :: "('e \<Rightarrow> 'k) \<Rightarrow> 'e list \<Rightarrow> ('k \<times> 'e list) list" where
  "groups f [] = []"
| "groups f (x # xs) =
     (f x, x # takeWhile (\<lambda>y. f y = f x) xs) # groups f (dropWhile (\<lambda>y. f y = f x) xs)"
  by pat_completeness auto
termination by (relation "measure (\<lambda>(f, xs). length xs)") (auto simp: less_Suc_eq_le length_dropWhile_le)

text \<open>The cursors hold each item's last closed bar and its time; a tick's views are built in pin
  order from the bars the tick brings.\<close>

type_synonym cursors = "(string, bar option \<times> int option) dict"

definition fresh_bars :: "entry list \<Rightarrow> string \<Rightarrow> bar list" where
  "fresh_bars grp item = map entry_bar (filter (\<lambda>e. entry_item e = item) grp)"

fun tick_views ::
  "int \<Rightarrow> entry list \<Rightarrow> item_bar_stream list \<Rightarrow> cursors \<Rightarrow> item_tick_view list \<times> cursors" where
  "tick_views t grp [] cur = ([], cur)"
| "tick_views t grp (s # ss) cur =
     (let item = bs_item_id s; bars = fresh_bars grp item;
          c = (if bars \<noteq> [] then (Some (last bars), Some t) else the (dget cur item));
          (vs, cur') = tick_views t grp ss (dset item c cur)
      in (\<lparr>tv_item_id = item, tv_pin_ordinal = bs_pin_ordinal s, tv_t_ms = t, tv_bars = bars,
           tv_last_closed = fst c, tv_last_closed_t_ms = snd c\<rparr> # vs, cur'))"

fun build_ticks ::
  "item_bar_stream list \<Rightarrow> cursors \<Rightarrow> (int \<times> entry list) list \<Rightarrow> clock_tick list" where
  "build_ticks ordered cur [] = []"
| "build_ticks ordered cur ((t, grp) # gs) =
     (let (vs, cur') = tick_views t grp ordered cur
      in \<lparr>ct_t_ms = t, ct_views = vs\<rparr> # build_ticks ordered cur' gs)"

definition iter_ticks ::
  "(string \<Rightarrow> int option) \<Rightarrow> parser \<Rightarrow> item_bar_stream list \<Rightarrow> clock_tick gen" where
  "iter_ticks key parse streams =
     (case ordered_streams streams of
        Inl e \<Rightarrow> ([], Some e)
      | Inr ordered \<Rightarrow>
          (let cursors = map (\<lambda>s. (bs_item_id s, (None, None))) ordered;
               merged = kmerge entry_key (map (placed_bars key parse) ordered);
               ticks = build_ticks ordered cursors (groups entry_time (fst merged))
           in case snd merged of None \<Rightarrow> (ticks, None) | Some e \<Rightarrow> (butlast ticks, Some e)))"

section \<open>Grouping a sorted sequence\<close>

lemma groups_sorted:
  fixes f :: "'e \<Rightarrow> 'k::linorder"
  assumes "sorted (map f xs)"
  shows "groups f xs = map (\<lambda>k. (k, filter (\<lambda>x. f x = k) xs)) (remdups_adj (map f xs))"
  using assms
proof (induction f xs rule: groups.induct)
  case (1 f)
  then show ?case by simp
next
  case (2 f x xs)
  let ?rest = "dropWhile (\<lambda>y. f y = f x) xs"
  have le: "\<forall>y \<in> set xs. f x \<le> f y" and so: "sorted (map f xs)" using "2.prems" by auto
  have split: "takeWhile (\<lambda>y. f y = f x) xs = filter (\<lambda>y. f y = f x) xs \<and> (\<forall>y \<in> set ?rest. f x < f y)"
    using le so
  proof (induction xs)
    case (Cons y ys)
    show ?case
    proof (cases "f y = f x")
      case True
      then show ?thesis using Cons by simp
    next
      case False
      then have "f x < f y" "\<forall>z \<in> set ys. f y \<le> f z" using Cons.prems by auto
      then have gt: "\<forall>z \<in> set (y # ys). f x < f z" by (auto intro: order.strict_trans2)
      then have "filter (\<lambda>z. f z = f x) (y # ys) = []" by (auto simp: filter_empty_conv)
      then show ?thesis using False gt by simp
    qed
  qed simp
  have ks: "remdups_adj (map f (x # xs)) = f x # remdups_adj (map f ?rest)"
    by (simp add: remdups_adj_Cons' dropWhile_map comp_def)
  have "sorted (map f ?rest)" using so by (metis dropWhile_eq_drop drop_map sorted_wrt_drop)
  note IH = "2.IH" [OF this]
  have same: "filter (\<lambda>z. f z = k) ?rest = filter (\<lambda>z. f z = k) (x # xs)"
    if "k \<in> set (remdups_adj (map f ?rest))" for k
  proof -
    have lt: "f x < k" using that split by auto
    have "xs = takeWhile (\<lambda>y. f y = f x) xs @ ?rest" by simp
    then have cut: "filter (\<lambda>z. f z = k) xs
        = filter (\<lambda>z. f z = k) (takeWhile (\<lambda>y. f y = f x) xs) @ filter (\<lambda>z. f z = k) ?rest"
      by (metis filter_append)
    have "filter (\<lambda>z. f z = k) (takeWhile (\<lambda>y. f y = f x) xs) = []"
      using lt by (auto simp: filter_empty_conv dest!: set_takeWhileD)
    with cut have "filter (\<lambda>z. f z = k) xs = filter (\<lambda>z. f z = k) ?rest" by (simp only: append_Nil)
    moreover have "filter (\<lambda>z. f z = k) (x # xs) = filter (\<lambda>z. f z = k) xs" using lt by auto
    ultimately show ?thesis by (simp only:)
  qed
  have "groups f (x # xs) = (f x, filter (\<lambda>y. f y = f x) (x # xs)) # groups f ?rest"
    using split by (simp del: groups.simps add: groups.simps(2) [of f x xs])
  also have "groups f ?rest = map (\<lambda>k. (k, filter (\<lambda>z. f z = k) (x # xs))) (remdups_adj (map f ?rest))"
    unfolding IH using same by (intro map_cong) simp_all
  finally show ?case unfolding ks by simp
qed

lemma strict_remdups_adj: "sorted xs \<Longrightarrow> sorted_wrt (<) (remdups_adj (xs :: 'a::linorder list))"
  by (induction xs rule: remdups_adj.induct) (auto simp: less_le)

lemma remdups_adj_sorted_set: "sorted xs \<Longrightarrow> remdups_adj xs = sorted_list_of_set (set (xs :: 'a::linorder list))"
  using strict_remdups_adj [of xs]
  by (metis remdups_adj_set sorted_list_of_set.idem_if_sorted_distinct strict_sorted_iff)

lemma concat_groups: "concat (map snd (groups f xs)) = xs"
  by (induction f xs rule: groups.induct) simp_all

lemma groups_member: "(k, g) \<in> set (groups f xs) \<Longrightarrow> e \<in> set g \<Longrightarrow> f e = k"
proof (induction f xs rule: groups.induct)
  case (2 f x xs)
  then show ?case by (auto dest: set_takeWhileD)
qed simp

lemma groups_upto:
  fixes f :: "'e \<Rightarrow> 'k::linorder"
  assumes "sorted (map f xs)" "n < length (groups f xs)"
  shows "concat (map snd (take (Suc n) (groups f xs))) = filter (\<lambda>x. f x \<le> fst (groups f xs ! n)) xs"
proof -
  let ?gs = "groups f xs" and ?k = "fst (groups f xs ! n)"
  have keys: "sorted_wrt (<) (map fst ?gs)"
    using groups_sorted [OF assms(1)] strict_remdups_adj [OF assms(1)] by (simp add: comp_def)
  have le: "f e \<le> ?k" if "e \<in> set (concat (map snd (take (Suc n) ?gs)))" for e
  proof -
    from that obtain g where g: "g \<in> set (take (Suc n) ?gs)" "e \<in> set (snd g)" by auto
    from g(1) obtain j where "j < Suc n" "j < length ?gs" "g = ?gs ! j"
      by (auto simp: in_set_conv_nth)
    with g(2) have j: "j < Suc n" "j < length ?gs" "e \<in> set (snd (?gs ! j))" by simp_all
    have "f e = fst (?gs ! j)"
      using groups_member [of "fst (?gs ! j)" "snd (?gs ! j)" f xs e] j by simp
    moreover have "fst (?gs ! j) \<le> ?k"
      using keys j assms(2) by (cases "j = n") (auto simp: sorted_wrt_iff_nth_less less_imp_le)
    ultimately show ?thesis by simp
  qed
  have gt: "?k < f e" if "e \<in> set (concat (map snd (drop (Suc n) ?gs)))" for e
  proof -
    from that obtain g where g: "g \<in> set (drop (Suc n) ?gs)" "e \<in> set (snd g)" by auto
    then obtain i where "i < length ?gs - Suc n" "g = ?gs ! (Suc n + i)"
      by (auto simp: in_set_conv_nth)
    then obtain j where j: "n < j" "j < length ?gs" "e \<in> set (snd (?gs ! j))"
      using that g(2) by (metis add_Suc less_add_Suc1 less_diff_conv add.commute)
    have "f e = fst (?gs ! j)"
      using groups_member [of "fst (?gs ! j)" "snd (?gs ! j)" f xs e] j by simp
    then show ?thesis using keys j assms(2) by (auto simp: sorted_wrt_iff_nth_less)
  qed
  have "xs = concat (map snd (take (Suc n) ?gs)) @ concat (map snd (drop (Suc n) ?gs))"
    by (metis append_take_drop_id concat_append concat_groups map_append)
  then have "filter (\<lambda>x. f x \<le> ?k) xs = filter (\<lambda>x. f x \<le> ?k) (concat (map snd (take (Suc n) ?gs)))
      @ filter (\<lambda>x. f x \<le> ?k) (concat (map snd (drop (Suc n) ?gs)))"
    by (metis filter_append)
  moreover have "filter (\<lambda>x. f x \<le> ?k) (concat (map snd (take (Suc n) ?gs))) = concat (map snd (take (Suc n) ?gs))"
    using le by (intro filter_True) blast
  moreover have "filter (\<lambda>x. f x \<le> ?k) (concat (map snd (drop (Suc n) ?gs))) = []"
    using gt by (intro filter_False) (metis leD)
  ultimately show ?thesis by simp
qed

section \<open>What a stream places on the axis\<close>

definition stream_bars :: "parser \<Rightarrow> item_bar_stream \<Rightarrow> bar list" where
  "stream_bars parse s = List.map_filter (normalize_bar parse) (concat (bs_batches s))"

definition bar_time :: "(string \<Rightarrow> int option) \<Rightarrow> bar \<Rightarrow> int" where
  "bar_time key b = (case key (br_timestamp b) of None \<Rightarrow> 0 | Some t \<Rightarrow> t)"

definition stream_ok :: "(string \<Rightarrow> int option) \<Rightarrow> parser \<Rightarrow> item_bar_stream \<Rightarrow> bool" where
  "stream_ok key parse s \<longleftrightarrow> list_all (\<lambda>b. key (br_timestamp b) \<noteq> None) (stream_bars parse s) \<and>
     sorted (map (bar_time key) (stream_bars parse s))"

lemma placed_loop_ok:
  "(snd (placed_loop key parse ord item prev rows) = None) =
     (list_all (\<lambda>b. key (br_timestamp b) \<noteq> None) (List.map_filter (normalize_bar parse) rows) \<and>
      sorted ((case prev of None \<Rightarrow> [] | Some p \<Rightarrow> [p]) @
        map (bar_time key) (List.map_filter (normalize_bar parse) rows)))"
  by (induction key parse ord item prev rows rule: placed_loop.induct)
    (auto simp: map_filter_simps bar_time_def case_prod_beta split: option.splits intro: order_trans)

lemma placed_loop_entries:
  "snd (placed_loop key parse ord item prev rows) = None \<Longrightarrow>
   fst (placed_loop key parse ord item prev rows)
     = map (\<lambda>b. (bar_time key b, ord, item, b)) (List.map_filter (normalize_bar parse) rows)"
  by (induction key parse ord item prev rows rule: placed_loop.induct)
    (auto simp: map_filter_simps bar_time_def case_prod_beta split: option.splits if_splits)

lemma placed_bars_ok: "(snd (placed_bars key parse s) = None) = stream_ok key parse s"
  by (simp add: placed_bars_def placed_loop_ok stream_ok_def stream_bars_def)

definition entries_of :: "(string \<Rightarrow> int option) \<Rightarrow> parser \<Rightarrow> item_bar_stream \<Rightarrow> entry list" where
  "entries_of key parse s =
     map (\<lambda>b. (bar_time key b, bs_pin_ordinal s, bs_item_id s, b)) (stream_bars parse s)"

lemma placed_bars_entries:
  "stream_ok key parse s \<Longrightarrow> placed_bars key parse s = (entries_of key parse s, None)"
  using placed_bars_ok [of key parse s]
    placed_loop_entries [of key parse "bs_pin_ordinal s" "bs_item_id s" None "concat (bs_batches s)"]
  by (cases "placed_bars key parse s") (simp add: placed_bars_def entries_of_def stream_bars_def)

section \<open>Views and cursors\<close>

definition next_cursor ::
  "string \<Rightarrow> bar option \<times> int option \<Rightarrow> int \<times> entry list \<Rightarrow> bar option \<times> int option" where
  "next_cursor item c tg = (case tg of (t, grp) \<Rightarrow>
     if fresh_bars grp item \<noteq> [] then (Some (last (fresh_bars grp item)), Some t) else c)"

definition view_at :: "int \<Rightarrow> entry list \<Rightarrow> item_bar_stream \<Rightarrow> bar option \<times> int option \<Rightarrow> item_tick_view" where
  "view_at t grp s c =
     \<lparr>tv_item_id = bs_item_id s, tv_pin_ordinal = bs_pin_ordinal s, tv_t_ms = t,
      tv_bars = fresh_bars grp (bs_item_id s), tv_last_closed = fst c, tv_last_closed_t_ms = snd c\<rparr>"

lemma tick_views_closed:
  assumes "distinct (map bs_item_id ss)"
  shows "fst (tick_views t grp ss cur) = map (\<lambda>s. view_at t grp s
      (next_cursor (bs_item_id s) (the (dget cur (bs_item_id s))) (t, grp))) ss \<and>
    (\<forall>i. dget (snd (tick_views t grp ss cur)) i = (if i \<in> bs_item_id ` set ss
       then Some (next_cursor i (the (dget cur i)) (t, grp)) else dget cur i))"
  using assms
proof (induction ss arbitrary: cur)
  case Nil
  then show ?case by simp
next
  case (Cons s ss)
  then show ?case
    by (auto simp: Let_def case_prod_beta view_at_def next_cursor_def intro!: map_cong)
qed

lemma build_ticks_closed:
  assumes "distinct (map bs_item_id ss)" "\<forall>s \<in> set ss. dget cur (bs_item_id s) \<noteq> None" "n < length gs"
  shows "length (build_ticks ss cur gs) = length gs \<and>
    build_ticks ss cur gs ! n = \<lparr>ct_t_ms = fst (gs ! n), ct_views =
      map (\<lambda>s. view_at (fst (gs ! n)) (snd (gs ! n)) s
        (foldl (next_cursor (bs_item_id s)) (the (dget cur (bs_item_id s))) (take (Suc n) gs))) ss\<rparr>"
  using assms(2,3)
proof (induction gs arbitrary: cur n)
  case Nil
  then show ?case by simp
next
  case (Cons tg gs)
  obtain t grp where tg: "tg = (t, grp)" by (cases tg)
  obtain vs cur' where v: "tick_views t grp ss cur = (vs, cur')" by (cases "tick_views t grp ss cur")
  note tv = tick_views_closed [OF assms(1), of t grp cur, unfolded v fst_conv snd_conv]
  have cur': "\<forall>s \<in> set ss. dget cur' (bs_item_id s)
      = Some (next_cursor (bs_item_id s) (the (dget cur (bs_item_id s))) (t, grp))" using tv by simp
  then have some: "\<forall>s \<in> set ss. dget cur' (bs_item_id s) \<noteq> None" by simp
  have len: "length (build_ticks ss cur' gs) = length gs"
    using Cons.IH [OF some, of 0] by (cases gs) simp_all
  show ?case
  proof (cases n)
    case 0
    then show ?thesis using len tv by (simp add: tg v)
  next
    case (Suc m)
    then have "m < length gs" using Cons.prems(2) by simp
    note IH = conjunct2 [OF Cons.IH [OF some this]]
    show ?thesis using len IH cur' Suc by (auto simp: tg v intro!: map_cong)
  qed
qed

definition cursor_of :: "entry list \<Rightarrow> bar option \<times> int option" where
  "cursor_of es = (if es = [] then (None, None) else (Some (entry_bar (last es)), Some (entry_time (last es))))"

lemma cursor_fold:
  assumes "\<forall>(t, grp) \<in> set gs. \<forall>e \<in> set grp. entry_time e = t"
  shows "foldl (next_cursor i) (None, None) gs
    = cursor_of (filter (\<lambda>e. entry_item e = i) (concat (map snd gs)))"
  using assms
proof (induction gs rule: rev_induct)
  case Nil
  then show ?case by (simp add: cursor_of_def)
next
  case (snoc tg gs)
  obtain t grp where tg: "tg = (t, grp)" by (cases tg)
  let ?f = "filter (\<lambda>e. entry_item e = i) grp"
  show ?case
  proof (cases "?f = []")
    case True
    then show ?thesis using snoc by (simp add: tg next_cursor_def fresh_bars_def)
  next
    case False
    then have "last ?f \<in> set ?f" by (rule last_in_set)
    then have "entry_time (last ?f) = t" using snoc.prems by (simp add: tg)
    then show ?thesis using False
      by (simp add: tg next_cursor_def fresh_bars_def cursor_of_def last_map)
  qed
qed

section \<open>The clock is the axis of its streams\<close>

text \<open>What an item sees at an instant, read off its stream: the bars of that instant, and the last
  bar at or before it.\<close>

definition last_opt :: "'a list \<Rightarrow> 'a option" where
  "last_opt xs = (if xs = [] then None else Some (last xs))"

definition axis_view :: "(string \<Rightarrow> int option) \<Rightarrow> parser \<Rightarrow> int \<Rightarrow> item_bar_stream \<Rightarrow> item_tick_view" where
  "axis_view key parse t s =
     (let bars = stream_bars parse s; closed = last_opt (filter (\<lambda>b. bar_time key b \<le> t) bars) in
      \<lparr>tv_item_id = bs_item_id s, tv_pin_ordinal = bs_pin_ordinal s, tv_t_ms = t,
       tv_bars = filter (\<lambda>b. bar_time key b = t) bars, tv_last_closed = closed,
       tv_last_closed_t_ms = map_option (bar_time key) closed\<rparr>)"

definition axis :: "(string \<Rightarrow> int option) \<Rightarrow> parser \<Rightarrow> item_bar_stream list \<Rightarrow> int list" where
  "axis key parse streams =
     sorted_list_of_set (\<Union>s \<in> set streams. bar_time key ` set (stream_bars parse s))"

definition pin_key :: "item_bar_stream \<Rightarrow> int \<times> string" where
  "pin_key s = (bs_pin_ordinal s, bs_item_id s)"

lemma entry_of:
  "entry_time (t, ord, i, b) = t" "entry_item (t, ord, i, b) = i" "entry_bar (t, ord, i, b) = b"
  "entry_key (t, ord, i, b) = (t, ord, i)"
  by (simp_all add: entry_time_def entry_item_def entry_bar_def entry_key_def)

lemma entries_of_item: "e \<in> set (entries_of key parse s) \<Longrightarrow> entry_item e = bs_item_id s"
  by (auto simp: entries_of_def entry_of)

lemma entries_picks:
  assumes "distinct (map bs_item_id ss)"
  shows "exclusive (\<lambda>e. entry_item e = i) (map (\<lambda>s. (entries_of key parse s, None)) ss)"
    and "s \<in> set ss \<Longrightarrow> picks (\<lambda>e. entry_item e = bs_item_id s)
      (map (\<lambda>s. (entries_of key parse s, None)) ss) = entries_of key parse s"
proof -
  have no: "filter (\<lambda>e. entry_item e = i) (entries_of key parse s) = []" if "bs_item_id s \<noteq> i" for s i
    using that by (auto simp: filter_empty_conv dest: entries_of_item)
  have all: "filter (\<lambda>e. entry_item e = bs_item_id s) (entries_of key parse s) = entries_of key parse s" for s
    by (auto simp: filter_id_conv dest: entries_of_item)
  have none: "picks (\<lambda>e. entry_item e = i) (map (\<lambda>s. (entries_of key parse s, None)) ss) = []"
    if "i \<notin> bs_item_id ` set ss" for ss i
    using that no by (induction ss) auto
  show "picks (\<lambda>e. entry_item e = bs_item_id s) (map (\<lambda>s. (entries_of key parse s, None)) ss)
      = entries_of key parse s" if "s \<in> set ss"
    using assms that none all no by (induction ss) (auto simp: image_iff)
  have out: "filter (\<lambda>g. \<exists>e \<in> set (fst g). entry_item e = i) (map (\<lambda>s. (entries_of key parse s, None)) ss) = []"
    if "i \<notin> bs_item_id ` set ss" for ss
    using that by (auto simp: filter_empty_conv dest: entries_of_item)
  show "exclusive (\<lambda>e. entry_item e = i) (map (\<lambda>s. (entries_of key parse s, None)) ss)"
    using assms
  proof (induction ss)
    case (Cons s ss)
    show ?case
    proof (cases "bs_item_id s = i")
      case True
      then have "i \<notin> bs_item_id ` set ss" using Cons.prems by auto
      from out [OF this] show ?thesis unfolding exclusive_def list.map filter.simps
        by (auto simp: filter_empty_conv)
    next
      case False
      then have "\<not> (\<exists>e \<in> set (entries_of key parse s). entry_item e = i)" by (auto dest: entries_of_item)
      then show ?thesis using Cons by (simp add: exclusive_def)
    qed
  qed (simp add: exclusive_def)
qed

lemma entries_sorted: "stream_ok key parse s \<Longrightarrow> sorted (map entry_key (entries_of key parse s))"
  by (auto simp: stream_ok_def entries_of_def entry_of comp_def sorted_map less_eq_prod_def
      elim!: sorted_wrt_mono_rel [rotated])

lemma sorted_entry_time:
  assumes "sorted (map entry_key es)" shows "sorted (map entry_time es)"
proof -
  have "entry_key a \<le> entry_key b \<Longrightarrow> entry_time a \<le> entry_time b" for a b
    by (auto simp: entry_key_def entry_time_def less_eq_prod_def)
  then show ?thesis using assms unfolding sorted_map by (auto elim!: sorted_wrt_mono_rel [rotated])
qed

text \<open>The merged entries of well-formed streams.\<close>

lemma merged_entries:
  assumes "distinct (map bs_item_id ss)" "\<forall>s \<in> set ss. stream_ok key parse s"
  defines "es \<equiv> fst (kmerge entry_key (map (placed_bars key parse) ss))"
  shows "snd (kmerge entry_key (map (placed_bars key parse) ss)) = None"
    "sorted (map entry_time es)"
    "s \<in> set ss \<Longrightarrow> filter (\<lambda>e. entry_item e = bs_item_id s) es = entries_of key parse s"
    "entry_time ` set es = (\<Union>s \<in> set ss. bar_time key ` set (stream_bars parse s))"
proof -
  let ?gs = "map (\<lambda>s. (entries_of key parse s, None :: exc option)) ss"
  have gs: "map (placed_bars key parse) ss = ?gs"
    using assms(2) by (intro map_cong) (simp_all add: placed_bars_entries)
  have ok: "snd (kmerge entry_key ?gs) = None" by (subst kmerge_error) auto
  then show "snd (kmerge entry_key (map (placed_bars key parse) ss)) = None" by (simp only: gs)
  have "sorted (map entry_key (fst (kmerge entry_key ?gs)))"
    using assms(2) by (intro kmerge_sorted) (auto intro: entries_sorted)
  then show "sorted (map entry_time es)" unfolding es_def gs by (rule sorted_entry_time)
  show own: "filter (\<lambda>e. entry_item e = bs_item_id s) es = entries_of key parse s" if "s \<in> set ss" for s
    unfolding es_def gs kmerge_picks [OF ok entries_picks(1) [OF assms(1)]]
    by (rule entries_picks(2) [OF assms(1) that])
  have "\<forall>g \<in> set (filter (\<lambda>g. fst g \<noteq> []) ?gs). fst g \<noteq> []" by simp
  from gmerge_subset [OF this, of entry_key]
  have "set es \<subseteq> (\<Union>g \<in> set (filter (\<lambda>g. fst g \<noteq> []) ?gs). set (fst g))"
    unfolding es_def gs kmerge_none [OF ok] .
  also have "\<dots> \<subseteq> (\<Union>s \<in> set ss. set (entries_of key parse s))" by auto
  finally have sub: "set es \<subseteq> (\<Union>s \<in> set ss. set (entries_of key parse s))" .
  have "set (entries_of key parse s) \<subseteq> set es" if "s \<in> set ss" for s
    using own [OF that] by (metis filter_is_subset)
  with sub have "set es = (\<Union>s \<in> set ss. set (entries_of key parse s))" by blast
  then show "entry_time ` set es = (\<Union>s \<in> set ss. bar_time key ` set (stream_bars parse s))"
    by (simp add: entries_of_def entry_of image_UN image_image)
qed

text \<open>A view built from the merged entries of an instant is the stream's own view of it.\<close>

lemma filter_swap: "filter P (filter Q xs) = filter Q (filter P xs)"
  by (simp add: conj_commute)

lemma view_at_axis:
  assumes "filter (\<lambda>e. entry_item e = bs_item_id s) es = entries_of key parse s"
  shows "view_at t (filter (\<lambda>e. entry_time e = t) es) s
      (cursor_of (filter (\<lambda>e. entry_item e = bs_item_id s) (filter (\<lambda>e. entry_time e \<le> t) es)))
    = axis_view key parse t s"
proof -
  have bars: "fresh_bars (filter (\<lambda>e. entry_time e = t) es) (bs_item_id s)
      = filter (\<lambda>b. bar_time key b = t) (stream_bars parse s)"
    unfolding fresh_bars_def filter_swap [of _ "\<lambda>e. entry_time e = t"] assms
    by (simp add: entries_of_def filter_map comp_def entry_of)
  have "filter (\<lambda>e. entry_item e = bs_item_id s) (filter (\<lambda>e. entry_time e \<le> t) es)
      = map (\<lambda>b. (bar_time key b, bs_pin_ordinal s, bs_item_id s, b))
          (filter (\<lambda>b. bar_time key b \<le> t) (stream_bars parse s))"
    unfolding filter_swap [of _ "\<lambda>e. entry_time e \<le> t"] assms
    by (simp add: entries_of_def filter_map comp_def entry_of)
  then have "cursor_of (filter (\<lambda>e. entry_item e = bs_item_id s) (filter (\<lambda>e. entry_time e \<le> t) es))
      = (last_opt (filter (\<lambda>b. bar_time key b \<le> t) (stream_bars parse s)),
         map_option (bar_time key) (last_opt (filter (\<lambda>b. bar_time key b \<le> t) (stream_bars parse s))))"
    by (simp only: cursor_of_def last_opt_def) (simp add: last_map entry_of)
  with bars show ?thesis by (simp add: view_at_def axis_view_def Let_def)
qed

lemma build_ticks_axis:
  assumes "distinct (map bs_item_id ss)" "sorted (map entry_time es)"
    and "\<And>s. s \<in> set ss \<Longrightarrow> filter (\<lambda>e. entry_item e = bs_item_id s) es = entries_of key parse s"
  shows "build_ticks ss (map (\<lambda>s. (bs_item_id s, (None, None))) ss) (groups entry_time es)
    = map (\<lambda>t. \<lparr>ct_t_ms = t, ct_views = map (axis_view key parse t) ss\<rparr>)
        (sorted_list_of_set (entry_time ` set es))" (is "build_ticks ss ?cur ?gs = map ?tick ?ts")
proof (rule nth_equalityI)
  have ts: "map fst ?gs = ?ts"
    using groups_sorted [OF assms(2)] remdups_adj_sorted_set [OF assms(2)] by (simp add: comp_def)
  have cur: "dget ?cur (bs_item_id s) = Some (None, None)" if "s \<in> set ss" for s
    using that by (induction ss) auto
  then have some: "\<forall>s \<in> set ss. dget ?cur (bs_item_id s) \<noteq> None" by simp
  have len: "length (build_ticks ss ?cur ?gs) = length ?gs"
    using build_ticks_closed [OF assms(1) some, of 0 ?gs] by (cases ?gs) simp_all
  then show "length (build_ticks ss ?cur ?gs) = length (map ?tick ?ts)" unfolding ts [symmetric] by simp
  fix n
  assume "n < length (build_ticks ss ?cur ?gs)"
  then have n: "n < length ?gs" by (simp only: len)
  let ?t = "fst (?gs ! n)"
  have t: "?ts ! n = ?t" "n < length ?ts" unfolding ts [symmetric] using n by simp_all
  have grp: "snd (?gs ! n) = filter (\<lambda>e. entry_time e = ?t) es"
  proof -
    have "?gs ! n = (\<lambda>k. (k, filter (\<lambda>x. entry_time x = k) es)) (remdups_adj (map entry_time es) ! n)"
      using n unfolding groups_sorted [OF assms(2)] by simp
    then show ?thesis by simp
  qed
  have view: "view_at ?t (snd (?gs ! n)) s
      (foldl (next_cursor (bs_item_id s)) (the (dget ?cur (bs_item_id s))) (take (Suc n) ?gs))
    = axis_view key parse ?t s" if s: "s \<in> set ss" for s
  proof -
    have "\<forall>(t, g) \<in> set (take (Suc n) ?gs). \<forall>e \<in> set g. entry_time e = t"
      using groups_member [of _ _ entry_time es] set_take_subset [of "Suc n" ?gs] by blast
    from cursor_fold [OF this, of "bs_item_id s"] groups_upto [OF assms(2) n]
    have "foldl (next_cursor (bs_item_id s)) (None, None) (take (Suc n) ?gs)
      = cursor_of (filter (\<lambda>e. entry_item e = bs_item_id s) (filter (\<lambda>e. entry_time e \<le> ?t) es))" by simp
    then show ?thesis using view_at_axis [OF assms(3) [OF s], of ?t] cur [OF s] grp by simp
  qed
  have "build_ticks ss ?cur ?gs ! n = \<lparr>ct_t_ms = ?t, ct_views = map (\<lambda>s. view_at ?t (snd (?gs ! n)) s
      (foldl (next_cursor (bs_item_id s)) (the (dget ?cur (bs_item_id s))) (take (Suc n) ?gs))) ss\<rparr>"
    using build_ticks_closed [OF assms(1) some n] by simp
  also have "\<dots> = ?tick ?t" using view by simp
  finally show "build_ticks ss ?cur ?gs ! n = map ?tick ?ts ! n" using t by simp
qed

lemma iter_ticks_axis:
  assumes "distinct (map bs_item_id streams)" "\<forall>s \<in> set streams. stream_ok key parse s"
  shows "iter_ticks key parse streams
    = (map (\<lambda>t. \<lparr>ct_t_ms = t, ct_views = map (axis_view key parse t) (sort_key pin_key streams)\<rparr>)
        (axis key parse streams), None)"
proof -
  let ?ss = "sort_key pin_key streams"
  have ss: "ordered_streams streams = Inr ?ss"
    using assms(1) by (simp add: ordered_streams_def pin_key_def [abs_def])
  have "mset (map bs_item_id ?ss) = mset (map bs_item_id streams)" by simp
  then have d: "distinct (map bs_item_id ?ss)" using assms(1) mset_eq_imp_distinct_iff by blast
  have "\<forall>s \<in> set ?ss. stream_ok key parse s" using assms(2) by simp
  note m = merged_entries [OF d this]
  have ax: "sorted_list_of_set (entry_time ` set (fst (kmerge entry_key (map (placed_bars key parse) ?ss))))
      = axis key parse streams" unfolding m(4) axis_def by simp
  show ?thesis
    using build_ticks_axis [OF d m(2,3)] m(1) ax
    by (simp add: iter_ticks_def ss Let_def)
qed

text \<open>C29. The clock's ticks are the merged axis: over streams with distinct items whose bars are
  placeable and in time order, the ticks are exactly the instants at which some stream has a bar,
  ascending and each once, with one view per item in pin order; and an item's view holds exactly
  the item's own bars of that instant, with the last bar at or before it as its last close. So no
  bar is lost, none is repeated, and no view looks ahead.\<close>

theorem clock_refines_axis:
  assumes "distinct (map bs_item_id streams)" "\<forall>s \<in> set streams. stream_ok key parse s"
  shows "iter_ticks key parse streams
    = (map (\<lambda>t. \<lparr>ct_t_ms = t, ct_views = map (axis_view key parse t) (sort_key pin_key streams)\<rparr>)
        (axis key parse streams), None)"
  using assms by (rule iter_ticks_axis)

lemma snd_iter_ticks: "(snd (iter_ticks key parse streams) = None) =
    (distinct (map bs_item_id streams) \<and> (\<forall>s \<in> set streams. stream_ok key parse s))"
  using kmerge_error [of entry_key "map (placed_bars key parse) (sort_key pin_key streams)"]
  by (auto simp: iter_ticks_def ordered_streams_def Let_def placed_bars_ok pin_key_def [abs_def]
      split: option.splits)

section \<open>Failures and the order of the arguments\<close>

lemma placed_loop_error:
  "snd (placed_loop key parse ord item prev rows)
     \<in> {None, Some UnplaceableBarTimestampError, Some NonMonotonicBarStreamError}"
  by (induction key parse ord item prev rows rule: placed_loop.induct)
    (auto simp: case_prod_beta split: option.splits)

lemma gmerge_which_error:
  "\<forall>g \<in> set gs. fst g \<noteq> [] \<Longrightarrow> snd (gmerge f gs) \<in> insert None (snd ` set gs)"
  by (induction gs rule: gmerge_induct [where f = f]) auto

lemma kmerge_which_error: "snd (kmerge f gs) \<in> insert None (snd ` set gs)"
proof -
  have "\<forall>g \<in> set (filter (\<lambda>g. fst g \<noteq> []) gs). fst g \<noteq> []" by simp
  note g = gmerge_which_error [OF this, of f]
  show ?thesis
  proof (cases "List.find (\<lambda>g. fst g = [] \<and> snd g \<noteq> None) gs")
    case None
    then show ?thesis using g by (auto simp: kmerge_def)
  next
    case (Some h)
    then have "h \<in> set gs" by (auto simp: find_Some_iff)
    then show ?thesis using Some by (simp add: kmerge_def)
  qed
qed

text \<open>C30. The clock fails closed: it runs to its end without an exception exactly when no item has two
  streams, every bar can be placed in time and no stream goes backwards; a duplicate item is
  refused before the first tick, and any other failure is one of the two axis errors.\<close>

theorem clock_fails_closed:
  "(snd (iter_ticks key parse streams) = None) =
     (distinct (map bs_item_id streams) \<and> list_all (stream_ok key parse) streams) \<and>
   (iter_ticks key parse streams = ([], Some DuplicateItemStreamError)) =
     (\<not> distinct (map bs_item_id streams)) \<and>
   snd (iter_ticks key parse streams) \<in> {None, Some DuplicateItemStreamError,
     Some UnplaceableBarTimestampError, Some NonMonotonicBarStreamError}"
proof -
  let ?m = "kmerge entry_key (map (placed_bars key parse) (sort_key pin_key streams))"
  let ?E = "{None, Some UnplaceableBarTimestampError, Some NonMonotonicBarStreamError}"
  have "snd (placed_bars key parse s) \<in> ?E" for s
    unfolding placed_bars_def by (rule placed_loop_error)
  then have "snd ` set (map (placed_bars key parse) (sort_key pin_key streams)) \<subseteq> ?E"
    unfolding set_map image_image by (rule image_subsetI)
  then have e: "snd ?m \<in> ?E"
    using kmerge_which_error [of entry_key "map (placed_bars key parse) (sort_key pin_key streams)"] by blast
  have it: "snd (iter_ticks key parse streams)
      = (if distinct (map bs_item_id streams) then snd ?m else Some DuplicateItemStreamError)"
    by (simp add: iter_ticks_def ordered_streams_def Let_def pin_key_def [abs_def] split: option.split)
  have dup: "iter_ticks key parse streams = ([], Some DuplicateItemStreamError)"
    if "\<not> distinct (map bs_item_id streams)"
    using that by (simp add: iter_ticks_def ordered_streams_def)
  show ?thesis using e it dup snd_iter_ticks [of key parse streams]
    by (auto simp: list_all_iff split: if_splits)
qed

text \<open>The axis does not depend on the order in which the streams are handed over.\<close>

theorem clock_ignores_argument_order:
  assumes "mset streams = mset streams'"
  shows "iter_ticks key parse streams = iter_ticks key parse streams'"
proof (cases "distinct (map bs_item_id streams)")
  case False
  then have "\<not> distinct (map bs_item_id streams')"
    using assms by (metis mset_eq_imp_distinct_iff mset_map)
  with False show ?thesis by (simp add: iter_ticks_def ordered_streams_def)
next
  case True
  then have "inj_on bs_item_id (set streams)" by (simp add: distinct_map)
  then have "inj_on pin_key (set streams)" by (auto simp: inj_on_def pin_key_def)
  then have "sort_key pin_key streams = sort_key pin_key streams'"
    using assms by (intro sort_key_inj_key_eq) simp_all
  moreover have "distinct (map bs_item_id streams')"
    using True assms by (metis mset_eq_imp_distinct_iff mset_map)
  ultimately show ?thesis using True
    by (simp add: iter_ticks_def ordered_streams_def pin_key_def [abs_def])
qed

section \<open>Concrete streams\<close>

definition demo_row :: "string \<Rightarrow> rat \<Rightarrow> raw_bar" where
  "demo_row t c = \<lparr>rb_timestamp = Some t, rb_open = Some (PyDec c), rb_high = Some (PyDec c),
     rb_low = Some (PyDec c), rb_close = Some (PyDec c), rb_volume = None\<rparr>"

definition demo_axis_bar :: "string \<Rightarrow> rat \<Rightarrow> bar" where
  "demo_axis_bar t c = \<lparr>br_timestamp = t, br_open = c, br_high = c, br_low = c, br_close = c, br_volume = 0\<rparr>"

definition demo_stream :: "string \<Rightarrow> int \<Rightarrow> raw_bar list \<Rightarrow> item_bar_stream" where
  "demo_stream i n rows = \<lparr>bs_item_id = i, bs_pin_ordinal = n, bs_batches = [rows]\<rparr>"

definition demo_key :: "string \<Rightarrow> int option" where
  "demo_key s = (if s = [] then None else Some (int (length s)))"

definition demo_streams :: "item_bar_stream list" where
  "demo_streams = [demo_stream ''b'' 1 [demo_row ''xx'' 7], demo_stream ''a'' 0 [demo_row ''x'' 5, demo_row ''xxx'' 6]]"

lemma demo_bars:
  "normalize_bar (\<lambda>_. None) (demo_row t c) = Some (demo_axis_bar t c)"
  "stream_bars (\<lambda>_. None) (demo_stream i n rows) = List.map_filter (normalize_bar (\<lambda>_. None)) rows"
  "br_timestamp (demo_axis_bar t c) = t" "bs_item_id (demo_stream i n rows) = i"
  "bs_pin_ordinal (demo_stream i n rows) = n"
  by (simp_all add: normalize_bar_def demo_row_def demo_axis_bar_def dec_field_def dec_value_def
      volume_value_def stream_bars_def demo_stream_def)

lemma demo_streams_ok:
  "distinct (map bs_item_id demo_streams)" "\<forall>s \<in> set demo_streams. stream_ok demo_key (\<lambda>_. None) s"
  by (simp_all add: demo_streams_def stream_ok_def demo_bars map_filter_simps bar_time_def demo_key_def)

theorem clock_refines_axis_witness:
  "map (\<lambda>k. (ct_t_ms k, map (map_option br_close \<circ> tv_last_closed) (ct_views k)))
     (fst (iter_ticks demo_key (\<lambda>_. None) demo_streams))
   = [(1, [Some 5, None]), (2, [Some 5, Some 7]), (3, [Some 6, Some 7])]"
proof -
  have "axis demo_key (\<lambda>_. None) demo_streams = [1, 2, 3]"
    by (simp add: axis_def demo_streams_def demo_bars map_filter_simps bar_time_def demo_key_def)
  moreover have "sort_key pin_key demo_streams = rev demo_streams"
    by (simp add: demo_streams_def pin_key_def demo_bars less_eq_prod_def)
  ultimately show ?thesis
    using clock_refines_axis [OF demo_streams_ok]
    by (simp add: demo_streams_def axis_view_def Let_def last_opt_def demo_bars map_filter_simps
        bar_time_def demo_key_def) (simp add: demo_axis_bar_def)
qed

theorem clock_ignores_argument_order_witness:
  "iter_ticks demo_key (\<lambda>_. None) (rev demo_streams) = iter_ticks demo_key (\<lambda>_. None) demo_streams"
  by (rule clock_ignores_argument_order) simp

end
