(* ===== verification/Intents.thy ===== *)
theory Intents
  imports Clock Scaling Sizing Portfolio_Ledger
begin

text \<open>
  What each item wants at a tick (\<^verbatim>\<open>domain/backtest/execution/intents.py\<close>): decisions and sizing
  inputs become intents, formed from the item's own tick view and, for the discretionary ones,
  against the published snapshot. The type of a sizing argument is its constructor, so
  \<open>isinstance\<close> is a case analysis. The maps an intent carries are dictionaries of
  \<open>intent_value\<close>.
\<close>

datatype intent_kind = EntryIntent | ScaleIn | Exit | PartialExit | NoOp | BlockedIntent

datatype intent_phase = P3 | P4

datatype sizing_base_source = PortfolioEquity | AllocationSleeve

datatype intent_value =
  VNone | VText string | VInt int | VDec rat | VBool bool | VSource sizing_base_source

definition mandatory_kinds :: "intent_kind list" where
  "mandatory_kinds = [Exit, PartialExit]"

definition actionable_kinds :: "intent_kind list" where
  "actionable_kinds = [EntryIntent, ScaleIn, Exit, PartialExit]"

record item_identity =
  id_item_id :: string
  id_item_kind :: string
  id_pin_ordinal :: int
  id_root_id :: "string option"
  id_selected_revision_id :: "string option"
  id_item_label :: "string option"

definition executes :: "item_identity \<Rightarrow> bool" where
  "executes x = (id_item_kind x = ''strategy'')"

record entry_sizing =
  es_config :: strategy_config
  es_fill_costs :: fill_costs
  es_base :: rat
  es_base_source :: sizing_base_source
  es_strength :: rat

record scale_sizing =
  ss_basis :: add_size_basis
  ss_value :: rat
  ss_initial_size :: rat
  ss_current_size :: rat

datatype sizing_input = EntrySizing entry_sizing | ScaleSizing scale_sizing | ClosingSize rat

record item_decision =
  dn_kind :: intent_kind
  dn_reason :: string
  dn_direction :: "string option"
  dn_evidence :: "(string, intent_value) dict"

record item_intent =
  it_identity :: item_identity
  it_t_ms :: int
  it_phase :: intent_phase
  it_kind :: intent_kind
  it_direction :: "string option"
  it_desired_size :: rat
  it_reference_price :: "rat option"
  it_effective_price :: "rat option"
  it_price_authority :: price_authority
  it_reason :: string
  it_contract_version :: string
  it_evidence :: "(string, intent_value) dict"
  it_dependencies :: "(string, intent_value) dict"
  it_diagnostics :: "(string, intent_value) dict"

definition it_item_id :: "item_intent \<Rightarrow> string" where
  "it_item_id x = id_item_id (it_identity x)"

definition is_actionable :: "item_intent \<Rightarrow> bool" where
  "is_actionable x = (it_kind x \<in> set actionable_kinds)"

definition snapshot_identity :: "item_intent \<Rightarrow> string option" where
  "snapshot_identity x =
     (case dget (it_dependencies x) ''snapshot_identity'' of Some (VText s) \<Rightarrow> Some s | _ \<Rightarrow> None)"

definition price_for :: "item_tick_view \<Rightarrow> rat option \<times> price_authority" where
  "price_for v =
     (if tv_bars v \<noteq> [] then (Some (br_close (last (tv_bars v))), FreshBarClose)
      else case tv_last_closed v of
        Some b \<Rightarrow> (Some (br_close b), StaleLastClose) | None \<Rightarrow> (None, Unavailable))"

definition entry_size ::
  "parser \<Rightarrow> string option \<Rightarrow> rat option \<Rightarrow> entry_sizing \<Rightarrow> (rat \<times> rat option) res" where
  "entry_size parse direction reference_price z =
     (case reference_price of None \<Rightarrow> raise MissingSizingInputsError
      | Some p \<Rightarrow>
          if direction \<noteq> Some ''long'' \<and> direction \<noteq> Some ''short'' then raise UndirectedIntentError
          else rbind (effective_fill p (direction = Some ''long'') (fc_half_spread (es_fill_costs z))
                 (fc_slippage (es_fill_costs z))) (\<lambda>effective.
               rbind (position_size parse (es_config z) effective (es_base z) (es_strength z)) (\<lambda>units.
               ok (units, Some effective))))"

definition sized ::
  "parser \<Rightarrow> intent_kind \<Rightarrow> string option \<Rightarrow> rat option \<Rightarrow> sizing_input option
     \<Rightarrow> (rat \<times> rat option) res" where
  "sized parse kind direction reference_price sizing =
     (if kind = NoOp \<or> kind = BlockedIntent then ok (0, None)
      else if kind \<in> set mandatory_kinds then
        (case sizing of Some (ClosingSize units) \<Rightarrow> ok (units, reference_price)
         | _ \<Rightarrow> raise MissingSizingInputsError)
      else if kind = ScaleIn then
        (case sizing of
           Some (ScaleSizing z) \<Rightarrow>
             rbind (resolve_scale_layer_size (ss_basis z) (ss_value z) (ss_initial_size z) (ss_current_size z))
               (\<lambda>units. ok (units, reference_price))
         | _ \<Rightarrow> raise MissingSizingInputsError)
      else (case sizing of Some (EntrySizing z) \<Rightarrow> entry_size parse direction reference_price z
            | _ \<Rightarrow> raise MissingSizingInputsError))"

definition opt_text :: "string option \<Rightarrow> intent_value" where
  "opt_text v = (case v of None \<Rightarrow> VNone | Some s \<Rightarrow> VText s)"

definition view_diagnostics :: "item_tick_view \<Rightarrow> (string, intent_value) dict" where
  "view_diagnostics v =
     [(''pin_ordinal'', VInt (tv_pin_ordinal v)), (''bars_at_tick'', VInt (int (length (tv_bars v)))),
      (''is_decision'', VBool (is_decision v)),
      (''staleness_ms'', case staleness_ms v of None \<Rightarrow> VNone | Some s \<Rightarrow> VInt s),
      (''duplicate_instant'', VBool (length (tv_bars v) > 1))]"

definition snapshot_dependencies ::
  "portfolio_snapshot \<Rightarrow> string \<Rightarrow> (string, intent_value) dict res" where
  "snapshot_dependencies s item =
     (case dget (sn_sleeve_capacity s) item of None \<Rightarrow> raise KeyError
      | Some c \<Rightarrow> rbind (remaining_sleeve_capacity s item) (\<lambda>r.
          ok [(''snapshot_identity'', VText (sn_identity s)), (''snapshot_t_ms'', VInt (sn_t_ms s)),
              (''portfolio_equity'', VDec (sn_equity s)), (''reserve_nominal'', VDec (sn_reserve_nominal s)),
              (''sleeve_capacity'', VDec c), (''remaining_sleeve_capacity'', VDec r)]))"

definition build_intent ::
  "parser \<Rightarrow> item_identity \<Rightarrow> item_tick_view \<Rightarrow> intent_phase \<Rightarrow> item_decision \<Rightarrow> sizing_input option
     \<Rightarrow> portfolio_snapshot option \<Rightarrow> item_intent res" where
  "build_intent parse identity view phase decision sizing snapshot =
     (if id_item_id identity \<noteq> tv_item_id view then raise MismatchedItemViewError
      else let (reference_price, authority) = price_for view in
        rbind (sized parse (dn_kind decision) (dn_direction decision) reference_price sizing)
          (\<lambda>(desired_size, effective_price).
        rbind (case snapshot of None \<Rightarrow> ok [] | Some s \<Rightarrow> snapshot_dependencies s (id_item_id identity))
          (\<lambda>snapshot_deps.
        ok \<lparr>it_identity = identity, it_t_ms = tv_t_ms view, it_phase = phase, it_kind = dn_kind decision,
            it_direction = dn_direction decision, it_desired_size = desired_size,
            it_reference_price = reference_price, it_effective_price = effective_price,
            it_price_authority = authority, it_reason = dn_reason decision,
            it_contract_version = ''item-intent-v1'', it_evidence = dn_evidence decision,
            it_dependencies =
              [(''root_id'', opt_text (id_root_id identity)),
               (''selected_revision_id'', opt_text (id_selected_revision_id identity)),
               (''item_kind'', VText (id_item_kind identity)),
               (''contract_version'', VText ''item-intent-v1'')]
              @ (case sizing of Some (EntrySizing z) \<Rightarrow>
                   [(''sizing_base'', VDec (es_base z)), (''sizing_base_source'', VSource (es_base_source z))]
                 | _ \<Rightarrow> [])
              @ snapshot_deps,
            it_diagnostics = view_diagnostics view\<rparr>)))"

definition form_intent ::
  "parser \<Rightarrow> item_identity \<Rightarrow> item_tick_view \<Rightarrow> portfolio_snapshot \<Rightarrow> item_decision
     \<Rightarrow> sizing_input option \<Rightarrow> item_intent res" where
  "form_intent parse identity view snapshot decision sizing =
     (if sn_t_ms snapshot \<noteq> tv_t_ms view then raise SnapshotMismatchError
      else if dget (sn_sleeve_capacity snapshot) (id_item_id identity) = None then raise UnknownItemError
      else if dn_kind decision \<in> set mandatory_kinds then raise MandatoryEventNotAnIntentError
      else if dn_kind decision \<in> set actionable_kinds \<and> \<not> is_decision view then raise NoDecisionAtTickError
      else build_intent parse identity view P4 decision sizing (Some snapshot))"

definition form_mandatory_intent ::
  "parser \<Rightarrow> item_identity \<Rightarrow> item_tick_view \<Rightarrow> item_decision \<Rightarrow> sizing_input option \<Rightarrow> item_intent res"
where
  "form_mandatory_intent parse identity view decision sizing =
     (if dn_kind decision \<notin> set mandatory_kinds \<and> dn_kind decision \<in> set actionable_kinds
      then raise MandatoryEventNotAnIntentError
      else if dn_kind decision \<in> set mandatory_kinds \<and> \<not> is_decision view then raise NoDecisionAtTickError
      else build_intent parse identity view P3 decision sizing None)"

definition idle_decision :: "item_identity \<Rightarrow> item_tick_view \<Rightarrow> item_decision" where
  "idle_decision identity view =
     (let (kind, reason) =
        (if \<not> executes identity then (BlockedIntent, ''item_kind_does_not_execute'')
         else if \<not> is_decision view then (NoOp, ''no_bar_at_tick'')
         else (NoOp, ''no_signal_at_tick''))
      in \<lparr>dn_kind = kind, dn_reason = reason, dn_direction = None, dn_evidence = []\<rparr>)"

type_synonym decisions = "(string, item_decision \<times> sizing_input option) dict"

definition decision_at :: "decisions \<Rightarrow> item_identity \<Rightarrow> item_tick_view \<Rightarrow> item_decision \<times> sizing_input option"
where
  "decision_at decisions identity view =
     (case dget decisions (tv_item_id view) of
        Some d \<Rightarrow> d | None \<Rightarrow> (idle_decision identity view, None))"

definition intent_at ::
  "parser \<Rightarrow> portfolio_snapshot \<Rightarrow> (string, item_identity) dict \<Rightarrow> decisions \<Rightarrow> item_tick_view
     \<Rightarrow> item_intent res" where
  "intent_at parse snapshot identities decisions view =
     (case dget identities (tv_item_id view) of None \<Rightarrow> raise UnknownItemError
      | Some identity \<Rightarrow>
          form_intent parse identity view snapshot (fst (decision_at decisions identity view))
            (snd (decision_at decisions identity view)))"

definition form_intents ::
  "parser \<Rightarrow> clock_tick \<Rightarrow> portfolio_snapshot \<Rightarrow> (string, item_identity) dict \<Rightarrow> decisions
     \<Rightarrow> item_intent list res" where
  "form_intents parse tick snapshot identities decisions =
     (if \<not> fst ` set decisions \<subseteq> tv_item_id ` set (ct_views tick) then raise UnknownItemError
      else rmap (intent_at parse snapshot identities decisions) (ct_views tick))"

section \<open>What a formed intent says\<close>

lemma snapshot_dependencies_identity:
  "snapshot_dependencies s i = Inr d \<Longrightarrow> dget d ''snapshot_identity'' = Some (VText (sn_identity s))"
  by (auto simp: snapshot_dependencies_def rbind_Inr_iff split: option.splits)

lemma build_intent_fields:
  assumes "build_intent parse ident v ph d z snap = Inr x"
  shows "it_identity x = ident" "id_item_id ident = tv_item_id v" "it_t_ms x = tv_t_ms v" "it_phase x = ph"
    "it_kind x = dn_kind d" "it_direction x = dn_direction d" "it_reason x = dn_reason d"
    "(it_reference_price x, it_price_authority x) = price_for v"
    "sized parse (dn_kind d) (dn_direction d) (fst (price_for v)) z
       = Inr (it_desired_size x, it_effective_price x)"
    "snap = Some s \<Longrightarrow> snapshot_identity x = Some (sn_identity s)"
proof -
  show "snapshot_identity x = Some (sn_identity s)" if "snap = Some s"
    using assms that
    by (auto simp: build_intent_def rbind_Inr_iff Let_def case_prod_beta snapshot_identity_def map_add_def
        dest!: snapshot_dependencies_identity split: if_splits option.splits sizing_input.splits)
qed (use assms in \<open>auto simp: build_intent_def rbind_Inr_iff Let_def case_prod_beta split: if_splits\<close>)

lemma form_intent_fields:
  assumes "form_intent parse ident v s d z = Inr x"
  shows "build_intent parse ident v P4 d z (Some s) = Inr x" "sn_t_ms s = tv_t_ms v"
    "dn_kind d \<notin> set mandatory_kinds" "dn_kind d \<in> set actionable_kinds \<Longrightarrow> is_decision v"
  using assms by (auto simp: form_intent_def split: if_splits)

lemma intent_atD:
  assumes "intent_at parse s ids ds v = Inr x"
  shows "it_item_id x = tv_item_id v" "it_t_ms x = sn_t_ms s" "it_phase x = P4"
    "snapshot_identity x = Some (sn_identity s)" "it_kind x \<notin> set mandatory_kinds"
    "is_actionable x \<Longrightarrow> it_reference_price x = Some (br_close (last (tv_bars v))) \<and> tv_bars v \<noteq> [] \<and>
       it_price_authority x = FreshBarClose"
    "\<not> is_actionable x \<Longrightarrow> it_desired_size x = 0 \<and> it_effective_price x = None"
    "dget ids (tv_item_id v) = Some (it_identity x)"
    "(it_reference_price x, it_price_authority x) = price_for v"
proof -
  obtain ident where i: "dget ids (tv_item_id v) = Some ident"
    and f: "form_intent parse ident v s (fst (decision_at ds ident v)) (snd (decision_at ds ident v)) = Inr x"
    using assms by (auto simp: intent_at_def split: option.splits)
  note ff = form_intent_fields [OF f]
  note bf = build_intent_fields [OF ff(1)]
  show "it_item_id x = tv_item_id v" "it_t_ms x = sn_t_ms s" "it_phase x = P4"
    "snapshot_identity x = Some (sn_identity s)" "it_kind x \<notin> set mandatory_kinds"
    "dget ids (tv_item_id v) = Some (it_identity x)"
    "(it_reference_price x, it_price_authority x) = price_for v"
    using bf ff i by (simp_all add: it_item_id_def)
  show "it_reference_price x = Some (br_close (last (tv_bars v))) \<and> tv_bars v \<noteq> [] \<and>
       it_price_authority x = FreshBarClose" if "is_actionable x"
    using that ff(4) bf(5,8) by (simp add: is_actionable_def is_decision_def price_for_def)
  have "sized parse k dir p z = Inr (u, e) \<Longrightarrow> k \<notin> set actionable_kinds \<Longrightarrow> u = 0 \<and> e = None" for k dir p z u e
    by (cases k) (auto simp: sized_def actionable_kinds_def)
  then show "it_desired_size x = 0 \<and> it_effective_price x = None" if "\<not> is_actionable x"
    using that bf(5,9) by (simp add: is_actionable_def)
qed

lemma form_intentsD:
  assumes "form_intents parse tick s ids ds = Inr xs"
  shows "rmap (intent_at parse s ids ds) (ct_views tick) = Inr xs"
  using assms by (simp add: form_intents_def split: if_splits)

lemma rmap_map:
  "rmap f xs = Inr ys \<Longrightarrow> (\<And>x y. f x = Inr y \<Longrightarrow> g y = h x) \<Longrightarrow> map g ys = map h xs"
  by (induction xs arbitrary: ys) (auto simp: rbind_Inr_iff)

lemma rmap_member: "rmap f xs = Inr ys \<Longrightarrow> y \<in> set ys \<Longrightarrow> \<exists>x \<in> set xs. f x = Inr y"
  by (induction xs arbitrary: ys) (auto simp: rbind_Inr_iff)

lemma rmap_image: "rmap f xs = Inr ys \<Longrightarrow> x \<in> set xs \<Longrightarrow> \<exists>y \<in> set ys. f x = Inr y"
  by (induction xs arbitrary: ys) (auto simp: rbind_Inr_iff)

text \<open>A discretionary intent that acts is priced at the close of its own item's bar of this tick;
  one that does not act asks for nothing.\<close>

definition intent_of_tick :: "portfolio_snapshot \<Rightarrow> clock_tick \<Rightarrow> item_intent \<Rightarrow> bool" where
  "intent_of_tick s tick x \<longleftrightarrow>
     it_t_ms x = sn_t_ms s \<and> it_phase x = P4 \<and> snapshot_identity x = Some (sn_identity s) \<and>
     it_kind x \<notin> set mandatory_kinds \<and>
     (if is_actionable x
      then it_price_authority x = FreshBarClose \<and> (\<exists>v \<in> set (deciding tick). tv_item_id v = it_item_id x \<and>
             it_reference_price x = Some (br_close (last (tv_bars v))))
      else it_desired_size x = 0 \<and> it_effective_price x = None)"

text \<open>Forming a tick's intents gives exactly one intent per item, in the tick's order: each bound to
  the tick's one snapshot, none of a mandatory kind, priced from the item's own bar of this tick
  when it acts and asking for nothing when it does not. Every decision handed in is on the axis.\<close>

theorem intents_of_tick_complete:
  assumes "form_intents parse tick s ids ds = Inr xs"
  shows "map it_item_id xs = map tv_item_id (ct_views tick) \<and> list_all (intent_of_tick s tick) xs \<and>
    fst ` set ds \<subseteq> it_item_id ` set xs"
proof -
  note r = form_intentsD [OF assms]
  have ids: "map it_item_id xs = map tv_item_id (ct_views tick)"
    using r by (rule rmap_map) (rule intent_atD(1))
  have "intent_of_tick s tick x" if mem: "x \<in> set xs" for x
  proof -
    obtain v where v: "v \<in> set (ct_views tick)" "intent_at parse s ids ds v = Inr x"
      using rmap_member [OF r mem] by blast
    note d = intent_atD [OF v(2)]
    show ?thesis
      using d v(1) by (auto simp: intent_of_tick_def deciding_def is_decision_def)
  qed
  moreover have "fst ` set ds \<subseteq> it_item_id ` set xs"
    using assms arg_cong [OF ids, of set] by (auto simp: form_intents_def split: if_splits)
  ultimately show ?thesis using ids by (simp add: list_all_iff)
qed

text \<open>No item sees another: two ticks that show an item the same view, under one snapshot and with the
  same pinned identity and decision for it, form the same intent for it, whatever the other items
  show or decide.\<close>

theorem intents_do_not_interfere:
  assumes "form_intents parse tick s ids ds = Inr xs" "form_intents parse tick' s ids' ds' = Inr xs'"
    and "v \<in> set (ct_views tick)" "v \<in> set (ct_views tick')"
    and "dget ids (tv_item_id v) = dget ids' (tv_item_id v)" "dget ds (tv_item_id v) = dget ds' (tv_item_id v)"
  shows "\<exists>x. x \<in> set xs \<and> x \<in> set xs' \<and> it_item_id x = tv_item_id v"
proof -
  obtain x where x: "x \<in> set xs" "intent_at parse s ids ds v = Inr x"
    using rmap_image [OF form_intentsD [OF assms(1)] assms(3)] by blast
  obtain x' where x': "x' \<in> set xs'" "intent_at parse s ids' ds' v = Inr x'"
    using rmap_image [OF form_intentsD [OF assms(2)] assms(4)] by blast
  have "decision_at ds i v = decision_at ds' i v" for i by (simp add: decision_at_def assms(6))
  then have "intent_at parse s ids ds v = intent_at parse s ids' ds' v"
    by (simp add: intent_at_def assms(5) split: option.split)
  with x x' intent_atD(1) [OF x(2)] show ?thesis by auto
qed

section \<open>A concrete tick\<close>

definition demo_identity :: "string \<Rightarrow> item_identity" where
  "demo_identity i = \<lparr>id_item_id = i, id_item_kind = ''strategy'', id_pin_ordinal = 0, id_root_id = None,
     id_selected_revision_id = Some ''r1'', id_item_label = None\<rparr>"

definition demo_view :: "string \<Rightarrow> bar list \<Rightarrow> item_tick_view" where
  "demo_view i bars = \<lparr>tv_item_id = i, tv_pin_ordinal = 0, tv_t_ms = 7, tv_bars = bars,
     tv_last_closed = last_opt bars, tv_last_closed_t_ms = None\<rparr>"

definition demo_intent_tick :: clock_tick where
  "demo_intent_tick = \<lparr>ct_t_ms = 7, ct_views = [demo_view ''a'' [demo_axis_bar ''t'' 100], demo_view ''b'' []]\<rparr>"

definition demo_tick_snapshot :: portfolio_snapshot where
  "demo_tick_snapshot = \<lparr>sn_t_ms = 7, sn_equity = 1000, sn_reserve_nominal = 0, sn_allocatable = 1000,
     sn_sleeve_capacity = [(''a'', 500), (''b'', 500)], sn_deployed_notional = [(''a'', 0), (''b'', 0)],
     sn_unallocated = 0, sn_item_ids = [''a'', ''b''], sn_identity = ''id''\<rparr>"

definition demo_scale_decision :: item_decision where
  "demo_scale_decision = \<lparr>dn_kind = ScaleIn, dn_reason = ''layer'', dn_direction = Some ''long'', dn_evidence = []\<rparr>"

definition demo_decisions :: decisions where
  "demo_decisions = [(''a'', (demo_scale_decision, Some (ScaleSizing
     \<lparr>ss_basis = FixedAmount, ss_value = 2, ss_initial_size = 1, ss_current_size = 1\<rparr>)))]"

definition demo_identities :: "(string, item_identity) dict" where
  "demo_identities = [(''a'', demo_identity ''a''), (''b'', demo_identity ''b'')]"

lemmas intent_eval = form_intents_def demo_intent_tick_def demo_view_def intent_at_def decision_at_def
  demo_decisions_def demo_identities_def demo_identity_def demo_scale_decision_def demo_tick_snapshot_def
  form_intent_def build_intent_def price_for_def sized_def mandatory_kinds_def actionable_kinds_def
  idle_decision_def executes_def is_decision_def resolve_scale_layer_size_def snapshot_dependencies_def
  remaining_sleeve_capacity_def demo_axis_bar_def it_item_id_def last_opt_def Let_def dec_eval

lemma demo_intents:
  "\<exists>xs. form_intents (\<lambda>_. None) demo_intent_tick demo_tick_snapshot demo_identities demo_decisions = Inr xs \<and>
     map it_desired_size xs = [2, 0]"
  by (simp add: intent_eval)

theorem intents_of_tick_complete_witness:
  "\<exists>xs. form_intents (\<lambda>_. None) demo_intent_tick demo_tick_snapshot demo_identities demo_decisions = Inr xs \<and>
     map it_item_id xs = [''a'', ''b''] \<and> map it_desired_size xs = [2, 0]"
proof -
  obtain xs where xs: "form_intents (\<lambda>_. None) demo_intent_tick demo_tick_snapshot demo_identities demo_decisions
      = Inr xs" "map it_desired_size xs = [2, 0]" using demo_intents by auto
  have "map it_item_id xs = [''a'', ''b'']"
    using conjunct1 [OF intents_of_tick_complete [OF xs(1)]] by (simp add: demo_intent_tick_def demo_view_def)
  with xs show ?thesis by (intro exI [of _ xs]) simp
qed

theorem intents_do_not_interfere_witness:
  "\<exists>xs ys x. form_intents (\<lambda>_. None) demo_intent_tick demo_tick_snapshot demo_identities demo_decisions = Inr xs \<and>
     form_intents (\<lambda>_. None) (demo_intent_tick\<lparr>ct_views := [demo_view ''b'' []]\<rparr>) demo_tick_snapshot
       demo_identities [] = Inr ys \<and> x \<in> set xs \<and> x \<in> set ys \<and> it_item_id x = ''b''"
proof -
  obtain xs where xs: "form_intents (\<lambda>_. None) demo_intent_tick demo_tick_snapshot demo_identities demo_decisions
      = Inr xs" using demo_intents by auto
  obtain ys where ys: "form_intents (\<lambda>_. None) (demo_intent_tick\<lparr>ct_views := [demo_view ''b'' []]\<rparr>)
      demo_tick_snapshot demo_identities [] = Inr ys" by (simp add: intent_eval)
  from intents_do_not_interfere [OF xs ys, of "demo_view ''b'' []"]
  obtain x where "x \<in> set xs" "x \<in> set ys" "it_item_id x = ''b''"
    by (auto simp: demo_intent_tick_def demo_identities_def demo_decisions_def demo_view_def)
  with xs ys show ?thesis by (intro exI conjI)
qed

end
