(* ===== verification/Arbitration.thy ===== *)
theory Arbitration
  imports Intents Ledger_Capacity
begin

text \<open>
  Cross-item arbitration at a tick (\<^verbatim>\<open>domain/backtest/execution/arbitration.py\<close>): intents are
  validated and put in pinned order, conflicting ones are blocked, and the survivors draw on the
  frozen ledger's capital one after the other. Nothing here mutates the ledger, so \<open>arbitrate\<close>
  is a function of it. The report's identity is a digest of its parts, the parameter \<open>H\<close>.
\<close>

datatype conflict_outcome = OAdmitted | OCapped | OBlocked | ORejected | ONotActionable

datatype conflict_source = HeldPosition | SameTickIntent

datatype conflict_treatment = AllowedTogether | BlockedTogether | UndefinedTogether

record conflict_policy_rule =
  cr_policy :: string
  cr_supported :: bool
  cr_opposite_same_instrument :: conflict_treatment
  cr_same_direction_same_instrument :: conflict_treatment
  cr_separate_position_books :: bool
  cr_shares_capital :: bool

definition conflict_policy_table :: "(string, conflict_policy_rule) dict" where
  "conflict_policy_table =
     [(''KEEP_SEPARATE'', \<lparr>cr_policy = ''KEEP_SEPARATE'', cr_supported = True,
         cr_opposite_same_instrument = AllowedTogether,
         cr_same_direction_same_instrument = AllowedTogether,
         cr_separate_position_books = True, cr_shares_capital = True\<rparr>),
      (''BLOCK_OPPOSITE'', \<lparr>cr_policy = ''BLOCK_OPPOSITE'', cr_supported = True,
         cr_opposite_same_instrument = BlockedTogether,
         cr_same_direction_same_instrument = AllowedTogether,
         cr_separate_position_books = True, cr_shares_capital = True\<rparr>)]"

definition resolve_policy :: "string option \<Rightarrow> conflict_policy_rule res" where
  "resolve_policy token =
     (let t = upper (strip_opt token); normalized = (if t = [] then ''KEEP_SEPARATE'' else t) in
      case dget conflict_policy_table normalized of
        None \<Rightarrow> raise UnsupportedConflictPolicyError
      | Some rule \<Rightarrow> if \<not> cr_supported rule then raise UnsupportedConflictPolicyError else ok rule)"

record arbitration_profile =
  ap_item_id :: string
  ap_pin_ordinal :: int
  ap_instrument_id :: "string option"

definition priority :: "arbitration_profile \<Rightarrow> int \<times> string" where
  "priority p = (ap_pin_ordinal p, ap_item_id p)"

type_synonym profiles = "(string, arbitration_profile) dict"

type_synonym pairing = "arbitration_profile \<times> item_intent"

record arbitration_decision =
  ad_item_id :: string
  ad_pin_ordinal :: int
  ad_outcome :: conflict_outcome
  ad_kind :: intent_kind
  ad_direction :: "string option"
  ad_instrument_id :: "string option"
  ad_requested_units :: rat
  ad_granted_units :: rat
  ad_granted_notional :: rat
  ad_reason :: "string option"
  ad_binding_constraint :: "string option"
  ad_counterparty_item_id :: "string option"
  ad_conflict_source :: "conflict_source option"
  ad_limits :: "(string, rat) dict"
  ad_diagnostics :: "(string, intent_value) dict"

definition is_admitted :: "arbitration_decision \<Rightarrow> bool" where
  "is_admitted d = (ad_outcome d \<in> {OAdmitted, OCapped})"

record arbitration_report =
  rp_t_ms :: int
  rp_policy :: string
  rp_snapshot_identity :: string
  rp_decisions :: "arbitration_decision list"
  rp_committed_notional :: rat
  rp_identity :: string

definition by_item :: "arbitration_report \<Rightarrow> string \<Rightarrow> arbitration_decision res" where
  "by_item r i = (case List.find (\<lambda>d. ad_item_id d = i) (rp_decisions r) of
     None \<Rightarrow> raise UnknownArbitrationItemError | Some d \<Rightarrow> ok d)"

definition admitted :: "arbitration_report \<Rightarrow> arbitration_decision list" where
  "admitted r = filter is_admitted (rp_decisions r)"

definition refused :: "arbitration_report \<Rightarrow> arbitration_decision list" where
  "refused r = filter (\<lambda>d. ad_outcome d \<in> {OBlocked, ORejected}) (rp_decisions r)"

definition outcome_text :: "conflict_outcome \<Rightarrow> string" where
  "outcome_text c = (case c of OAdmitted \<Rightarrow> ''admitted'' | OCapped \<Rightarrow> ''capped'' | OBlocked \<Rightarrow> ''blocked''
     | ORejected \<Rightarrow> ''rejected'' | ONotActionable \<Rightarrow> ''not_actionable'')"

definition text_or_empty :: "string option \<Rightarrow> string" where
  "text_or_empty v = (case v of None \<Rightarrow> [] | Some s \<Rightarrow> s)"

definition report_identity_parts :: "arbitration_report \<Rightarrow> ident_part list" where
  "report_identity_parts r =
     [PText ''entropia.backtest.portfolio.arbitration'', PText ''arbitration-policy-v1'',
      PText ''pin_order_admission'', PText (rp_policy r), PInt (rp_t_ms r), PText (rp_snapshot_identity r)]
     @ concat (map (\<lambda>d. [PText (ad_item_id d), PInt (ad_pin_ordinal d), PText (outcome_text (ad_outcome d)),
          PText (text_or_empty (ad_reason d)), PText (text_or_empty (ad_binding_constraint d)),
          PText (text_or_empty (ad_counterparty_item_id d)), canonical_decimal (ad_granted_units d),
          canonical_decimal (ad_granted_notional d)]) (rp_decisions r))"

section \<open>Validation\<close>

definition may_be_same_instrument :: "string option \<Rightarrow> string option \<Rightarrow> bool \<times> bool" where
  "may_be_same_instrument l r =
     (let own = strip_opt l; other = strip_opt r in
      if own \<noteq> [] \<and> other \<noteq> [] then (own = other, False) else (True, True))"

definition opposes :: "string option \<Rightarrow> string option \<Rightarrow> bool" where
  "opposes l r =
     (l \<in> {Some ''long'', Some ''short''} \<and> r \<in> {Some ''long'', Some ''short''} \<and> l \<noteq> r)"

definition profile_for :: "item_intent \<Rightarrow> profiles \<Rightarrow> arbitration_profile res" where
  "profile_for x profiles =
     (case dget profiles (it_item_id x) of None \<Rightarrow> raise UnknownArbitrationItemError
      | Some p \<Rightarrow> if ap_pin_ordinal p \<noteq> id_pin_ordinal (it_identity x)
          then raise UnknownArbitrationItemError else ok p)"

fun validate_loop ::
  "portfolio_snapshot \<Rightarrow> profiles \<Rightarrow> string list \<Rightarrow> item_intent list \<Rightarrow> pairing list res" where
  "validate_loop s profiles seen [] = ok []"
| "validate_loop s profiles seen (x # xs) =
     (if it_phase x = P3 \<or> it_kind x \<in> set mandatory_kinds then raise MandatoryIntentNotArbitrableError
      else if it_t_ms x \<noteq> sn_t_ms s then raise MismatchedTickError
      else if snapshot_identity x \<noteq> Some (sn_identity s) then raise MismatchedTickError
      else if it_item_id x \<in> set seen then raise DuplicateIntentError
      else rbind (profile_for x profiles) (\<lambda>p.
           rbind (validate_loop s profiles (it_item_id x # seen) xs) (\<lambda>ps. ok ((p, x) # ps))))"

definition validate ::
  "ledger \<Rightarrow> portfolio_snapshot \<Rightarrow> item_intent list \<Rightarrow> profiles \<Rightarrow> pairing list res" where
  "validate l s intents profiles =
     (if lg_frozen_at l = None then raise LedgerNotFrozenError
      else rbind (validate_loop s profiles [] intents) (\<lambda>ps.
           ok (sort_key (\<lambda>p. priority (fst p)) ps)))"

section \<open>Conflicts\<close>

definition priority_of :: "string \<Rightarrow> profiles \<Rightarrow> int \<times> string" where
  "priority_of i profiles =
     (case dget profiles i of Some p \<Rightarrow> priority p | None \<Rightarrow> (int (length profiles) + 1, i))"

definition instrument_of :: "profiles \<Rightarrow> string \<Rightarrow> string option" where
  "instrument_of profiles i = Option.bind (dget profiles i) ap_instrument_id"

definition held_conflict :: "profiles \<Rightarrow> pairing \<Rightarrow> string \<times> open_position \<Rightarrow> bool" where
  "held_conflict profiles px h =
     (fst h \<noteq> it_item_id (snd px) \<and> opposes (it_direction (snd px)) (Some (op_direction (snd h))) \<and>
      fst (may_be_same_instrument (ap_instrument_id (fst px)) (instrument_of profiles (fst h))))"

definition intent_conflict :: "pairing \<Rightarrow> pairing \<Rightarrow> bool" where
  "intent_conflict px py =
     (is_actionable (snd py) \<and> opposes (it_direction (snd px)) (it_direction (snd py)) \<and>
      fst (may_be_same_instrument (ap_instrument_id (fst px)) (ap_instrument_id (fst py))))"

definition conflict_against ::
  "ledger \<Rightarrow> profiles \<Rightarrow> pairing list \<Rightarrow> pairing \<Rightarrow> (string \<times> conflict_source \<times> bool) option" where
  "conflict_against l profiles earlier px =
     (case List.find (held_conflict profiles px)
             (sort_key (\<lambda>h. priority_of (fst h) profiles) (lg_positions l)) of
        Some h \<Rightarrow> Some (fst h, HeldPosition,
          snd (may_be_same_instrument (ap_instrument_id (fst px)) (instrument_of profiles (fst h))))
      | None \<Rightarrow>
        (case List.find (intent_conflict px) earlier of
           Some py \<Rightarrow> Some (ap_item_id (fst py), SameTickIntent,
             snd (may_be_same_instrument (ap_instrument_id (fst px)) (ap_instrument_id (fst py))))
         | None \<Rightarrow> None))"

definition decision_base :: "pairing \<Rightarrow> conflict_outcome \<Rightarrow> arbitration_decision" where
  "decision_base px c =
     \<lparr>ad_item_id = it_item_id (snd px), ad_pin_ordinal = ap_pin_ordinal (fst px), ad_outcome = c,
      ad_kind = it_kind (snd px), ad_direction = it_direction (snd px),
      ad_instrument_id = ap_instrument_id (fst px), ad_requested_units = it_desired_size (snd px),
      ad_granted_units = 0, ad_granted_notional = 0, ad_reason = None, ad_binding_constraint = None,
      ad_counterparty_item_id = None, ad_conflict_source = None, ad_limits = [], ad_diagnostics = []\<rparr>"

definition idle_outcome :: "conflict_policy_rule \<Rightarrow> pairing \<Rightarrow> arbitration_decision" where
  "idle_outcome rule px = (decision_base px ONotActionable)
     \<lparr>ad_reason := Some (it_reason (snd px)),
      ad_diagnostics := [(''policy'', VText (cr_policy rule)),
        (''phase'', VText (if it_phase (snd px) = P3 then ''P3'' else ''P4''))]\<rparr>"

definition blocked_outcome ::
  "conflict_policy_rule \<Rightarrow> pairing \<Rightarrow> string \<times> conflict_source \<times> bool \<Rightarrow> arbitration_decision" where
  "blocked_outcome rule px c = (case c of (counterparty, source, unknown_identity) \<Rightarrow>
     (decision_base px OBlocked)
     \<lparr>ad_reason := Some ''portfolio_conflict_blocked'', ad_counterparty_item_id := Some counterparty,
      ad_conflict_source := Some source, ad_diagnostics :=
       [(''policy'', VText (cr_policy rule)),
        (''conflict_source'', VText (if source = HeldPosition then ''held_position'' else ''same_tick_intent'')),
        (''resolved_by'', VText (if source = HeldPosition then ''held_position_precedence'' else ''pin_order_tie_break'')),
        (''share_transferred'', VBool False)]
       @ (if unknown_identity then [(''gate'', VText ''portfolio_conflict_symbol_unknown_fail_closed'')] else [])\<rparr>)"

type_synonym outcomes = "(string, arbitration_decision) dict"

fun screen ::
  "ledger \<Rightarrow> profiles \<Rightarrow> conflict_policy_rule \<Rightarrow> pairing list \<Rightarrow> outcomes \<Rightarrow> pairing list
     \<Rightarrow> outcomes \<times> pairing list" where
  "screen l profiles rule [] outcomes survivors = (outcomes, survivors)"
| "screen l profiles rule (px # ps) outcomes survivors =
     (if \<not> is_actionable (snd px)
      then screen l profiles rule ps (dset (it_item_id (snd px)) (idle_outcome rule px) outcomes) survivors
      else case (if cr_opposite_same_instrument rule = BlockedTogether
                 then conflict_against l profiles survivors px else None) of
        None \<Rightarrow> screen l profiles rule ps outcomes (survivors @ [px])
      | Some c \<Rightarrow> screen l profiles rule ps
          (dset (it_item_id (snd px)) (blocked_outcome rule px c) outcomes) survivors)"

section \<open>Capacity\<close>

definition price_of :: "item_intent \<Rightarrow> rat" where
  "price_of x = (case it_effective_price x of Some p \<Rightarrow> p
     | None \<Rightarrow> (case it_reference_price x of Some p \<Rightarrow> p | None \<Rightarrow> 0))"

definition decide_capacity ::
  "ledger \<Rightarrow> portfolio_snapshot \<Rightarrow> item_intent \<Rightarrow> rat \<Rightarrow> rat option \<Rightarrow> rat option
     \<Rightarrow> (capacity_decision \<times> bool) res" where
  "decide_capacity l s x committed max_position max_exposure =
     rbind (resolve_capacity l (it_item_id x) s (it_desired_size x) (price_of x) max_position
         (map_option (\<lambda>m. dsub m committed) max_exposure)) (\<lambda>d.
       if cd_outcome d = Rejected then ok (d, False)
       else let headroom = dsub (available_capital l) committed in
         if cd_granted_notional d > headroom
         then ok (\<lparr>cd_item_id = cd_item_id d, cd_outcome = Rejected,
                   cd_requested_units = cd_requested_units d, cd_granted_units = 0,
                   cd_requested_notional = cd_requested_notional d, cd_granted_notional = 0,
                   cd_binding_constraint = Some ''ledger_solvency'', cd_reason = Some ''ledger_insolvent'',
                   cd_limits = dset ''ledger_solvency'' (max 0 headroom) (cd_limits d)\<rparr>, True)
         else ok (d, False))"

definition capacity_outcome_of :: "capacity_outcome \<Rightarrow> conflict_outcome" where
  "capacity_outcome_of c = (case c of Admitted \<Rightarrow> OAdmitted | Capped \<Rightarrow> OCapped | Rejected \<Rightarrow> ORejected)"

definition capacity_result ::
  "conflict_policy_rule \<Rightarrow> pairing \<Rightarrow> rat \<Rightarrow> capacity_decision \<times> bool \<Rightarrow> arbitration_decision" where
  "capacity_result rule px committed_before cc = (case cc of (c, contended) \<Rightarrow>
     (decision_base px (capacity_outcome_of (cd_outcome c)))
     \<lparr>ad_granted_units := cd_granted_units c, ad_granted_notional := cd_granted_notional c,
      ad_reason := cd_reason c, ad_binding_constraint := cd_binding_constraint c,
      ad_limits := cd_limits c, ad_diagnostics :=
        [(''policy'', VText (cr_policy rule)), (''tick_committed_before'', VDec committed_before),
         (''contended'', VBool contended), (''selection_policy'', VText ''pin_order_admission''),
         (''share_transferred'', VBool False)]\<rparr>)"

fun admit ::
  "ledger \<Rightarrow> portfolio_snapshot \<Rightarrow> conflict_policy_rule \<Rightarrow> (string, rat) dict \<Rightarrow> rat option \<Rightarrow> pairing list
     \<Rightarrow> outcomes \<Rightarrow> rat \<Rightarrow> (outcomes \<times> rat) res" where
  "admit l s rule max_positions max_exposure [] outcomes committed = ok (outcomes, committed)"
| "admit l s rule max_positions max_exposure (px # ps) outcomes committed =
     rbind (decide_capacity l s (snd px) committed (dget max_positions (it_item_id (snd px))) max_exposure)
       (\<lambda>cc. admit l s rule max_positions max_exposure ps
          (dset (it_item_id (snd px)) (capacity_result rule px committed cc) outcomes)
          (if cd_is_admitted (fst cc) then dadd committed (cd_granted_notional (fst cc)) else committed))"

definition arbitrate ::
  "digest \<Rightarrow> ledger \<Rightarrow> portfolio_snapshot \<Rightarrow> item_intent list \<Rightarrow> profiles \<Rightarrow> string option
     \<Rightarrow> (string, rat) dict \<Rightarrow> rat option \<Rightarrow> arbitration_report res" where
  "arbitrate H l s intents profiles policy max_positions max_exposure =
     rbind (resolve_policy policy) (\<lambda>rule.
     rbind (validate l s intents profiles) (\<lambda>pairs.
     let (outcomes, survivors) = screen l profiles rule pairs [] [] in
     rbind (admit l s rule max_positions max_exposure survivors outcomes 0) (\<lambda>(outcomes', committed).
     let report = \<lparr>rp_t_ms = sn_t_ms s, rp_policy = cr_policy rule, rp_snapshot_identity = sn_identity s,
           rp_decisions = map (\<lambda>px. the (dget outcomes' (it_item_id (snd px)))) pairs,
           rp_committed_notional = committed, rp_identity = []\<rparr> in
     ok (report\<lparr>rp_identity := H (report_identity_parts report)\<rparr>))))"

definition profiles_from_pins :: "(string \<times> string option) list \<Rightarrow> profiles" where
  "profiles_from_pins pins = foldl (\<lambda>d (n, (i, instrument)). dset i
     \<lparr>ap_item_id = i, ap_pin_ordinal = int n, ap_instrument_id = instrument\<rparr> d) [] (zip [0..<length pins] pins)"

end
