(* ===== verification/Arbitration_Safety.thy ===== *)
theory Arbitration_Safety
  imports Arbitration "HOL-Library.Sublist"
begin

text \<open>
  What a tick's arbitration guarantees: one decision per intent in pinned order, no two admitted
  items against each other, no more capital committed than there is, independence of the order
  of the arguments, and that what was admitted can be opened.
\<close>

section \<open>Screening\<close>

abbreviation pitem :: "pairing \<Rightarrow> string" where
  "pitem px \<equiv> it_item_id (snd px)"

definition from_pair :: "pairing \<Rightarrow> arbitration_decision \<Rightarrow> bool" where
  "from_pair px d \<longleftrightarrow> ad_item_id d = pitem px \<and> ad_pin_ordinal d = ap_pin_ordinal (fst px) \<and>
     ad_kind d = it_kind (snd px) \<and> ad_direction d = it_direction (snd px) \<and>
     ad_instrument_id d = ap_instrument_id (fst px) \<and> ad_requested_units d = it_desired_size (snd px)"

definition no_grant :: "arbitration_decision \<Rightarrow> bool" where
  "no_grant d \<longleftrightarrow> ad_granted_units d = 0 \<and> ad_granted_notional d = 0"

definition turned_away :: "pairing \<Rightarrow> arbitration_decision \<Rightarrow> bool" where
  "turned_away px d \<longleftrightarrow> from_pair px d \<and> no_grant d \<and> \<not> is_admitted d"

lemma decision_base_from: "from_pair px (decision_base px c)"
  by (simp add: from_pair_def decision_base_def)

lemma outcomes_turned_away: "turned_away px (idle_outcome rule px)" "turned_away px (blocked_outcome rule px c)"
  by (simp_all add: turned_away_def from_pair_def no_grant_def is_admitted_def idle_outcome_def
      blocked_outcome_def decision_base_def split: prod.split)

definition clear_of_positions :: "ledger \<Rightarrow> profiles \<Rightarrow> pairing \<Rightarrow> bool" where
  "clear_of_positions l pr px = (\<forall>h \<in> set (lg_positions l). \<not> held_conflict pr px h)"

definition blocks_opposite :: "conflict_policy_rule \<Rightarrow> bool" where
  "blocks_opposite rule = (cr_opposite_same_instrument rule = BlockedTogether)"

lemma conflict_against_None:
  "conflict_against l pr surv px = None \<Longrightarrow>
     clear_of_positions l pr px \<and> (\<forall>py \<in> set surv. \<not> intent_conflict px py)"
  by (auto simp: conflict_against_def clear_of_positions_def find_None_iff split: option.splits)

text \<open>One step of the screening either turns the intent away or keeps it.\<close>

lemma screen_step:
  obtains (Skip) d where "screen l pr rule (px # ps) out surv = screen l pr rule ps (dset (pitem px) d out) surv"
      "turned_away px d"
    | (Keep) "screen l pr rule (px # ps) out surv = screen l pr rule ps out (surv @ [px])"
      "is_actionable (snd px)"
      "blocks_opposite rule \<Longrightarrow> clear_of_positions l pr px \<and> (\<forall>py \<in> set surv. \<not> intent_conflict px py)"
proof (cases "is_actionable (snd px)")
  case False
  then show ?thesis using Skip outcomes_turned_away(1) [of px rule] by (simp add: screen.simps(2))
next
  case True
  show ?thesis
  proof (cases "if blocks_opposite rule then conflict_against l pr surv px else None")
    case None
    then show ?thesis using True Keep by (auto simp: screen.simps(2) blocks_opposite_def conflict_against_None split: if_splits)
  next
    case (Some c)
    then show ?thesis using True Skip outcomes_turned_away(2) [of px rule c]
      by (auto simp: screen.simps(2) blocks_opposite_def split: if_splits)
  qed
qed

declare screen.simps(2) [simp del]

lemma screen_kept: "\<exists>kept. snd (screen l pr rule ps out surv) = surv @ kept \<and> subseq kept ps"
proof (induction ps arbitrary: out surv)
  case Nil
  then show ?case by simp
next
  case (Cons px ps)
  show ?case
  proof (cases rule: screen_step [of l pr rule px ps out surv])
    case (Skip d)
    then show ?thesis using Cons [of "dset (pitem px) d out" surv] by (auto intro: list_emb_Cons)
  next
    case Keep
    then show ?thesis using Cons [of out "surv @ [px]"] by auto
  qed
qed

lemma screen_other: "i \<notin> pitem ` set ps \<Longrightarrow> dget (fst (screen l pr rule ps out surv)) i = dget out i"
proof (induction ps arbitrary: out surv)
  case Nil
  then show ?case by simp
next
  case (Cons px ps)
  then show ?case by (cases rule: screen_step [of l pr rule px ps out surv]) auto
qed

lemma screen_outcome:
  assumes "distinct (map pitem ps)" "px \<in> set ps"
  shows "px \<in> set (snd (screen l pr rule ps out surv)) \<or>
    (\<exists>d. dget (fst (screen l pr rule ps out surv)) (pitem px) = Some d \<and> turned_away px d)"
  using assms
proof (induction ps arbitrary: out surv)
  case Nil
  then show ?case by simp
next
  case (Cons py ps)
  have other: "pitem py \<notin> pitem ` set ps" using Cons.prems(1) by auto
  have later: ?case if "px \<noteq> py" using that Cons
    by (cases rule: screen_step [of l pr rule py ps out surv]) simp_all
  show ?case
  proof (cases rule: screen_step [of l pr rule py ps out surv])
    case (Skip d)
    then show ?thesis using later screen_other [OF other] by (cases "px = py") simp_all
  next
    case Keep
    then show ?thesis using later screen_kept [of l pr rule ps out "surv @ [py]"] by (cases "px = py") auto
  qed
qed

lemma screen_survivors_act:
  assumes "px \<in> set (snd (screen l pr rule ps out surv))" "px \<notin> set surv"
  shows "is_actionable (snd px) \<and> (blocks_opposite rule \<longrightarrow> clear_of_positions l pr px)"
  using assms
proof (induction ps arbitrary: out surv)
  case Nil
  then show ?case by simp
next
  case (Cons py ps)
  show ?case
  proof (cases rule: screen_step [of l pr rule py ps out surv])
    case (Skip d)
    then show ?thesis using Cons by simp
  next
    case Keep
    then show ?thesis using Cons by (cases "px = py") auto
  qed
qed

lemma screen_survivors_apart:
  assumes "blocks_opposite rule" "sorted_wrt (\<lambda>a b. \<not> intent_conflict b a) surv"
  shows "sorted_wrt (\<lambda>a b. \<not> intent_conflict b a) (snd (screen l pr rule ps out surv))"
  using assms(2)
proof (induction ps arbitrary: out surv)
  case Nil
  then show ?case by simp
next
  case (Cons py ps)
  then show ?case using assms(1)
    by (cases rule: screen_step [of l pr rule py ps out surv]) (simp_all add: sorted_wrt_append)
qed

section \<open>Admission\<close>

lemma decision_of_zero:
  "capacity_decision_of i req price lims Rejected 0 b r = Inr d \<Longrightarrow>
     cd_granted_units d = 0 \<and> cd_granted_notional d = 0"
  by (auto simp: capacity_decision_of_def rbind_Inr_iff money_def quantize_def dmul_def split: if_splits)

lemma decision_of_rejected:
  "capacity_decision_of i req price lims out g b r = Inr d \<Longrightarrow> cd_outcome d = Rejected \<Longrightarrow> out = Rejected"
  by (auto dest!: capacity_decision_ofD)

lemma resolve_capacity_rejected:
  assumes "resolve_capacity l i s req price mp me = Inr d" "cd_outcome d = Rejected"
  shows "cd_granted_units d = 0 \<and> cd_granted_notional d = 0"
proof -
  note out = decision_of_rejected [OF _ assms(2)]
  from assms(1) obtain sleeve where s: "remaining_sleeve_capacity s i = Inr sleeve"
    by (auto simp: resolve_capacity_def rbind_Inr_iff Let_def split: if_splits)
  let ?me = "map_option (\<lambda>m. max 0 (dsub m (gross_exposure l))) me" and ?mp = "map_option (max 0) mp"
  let ?D = "capacity_decision_of i req price (capacity_limits sleeve (available_capital l) ?mp ?me)"
  let ?loop = "cap_loop price (cap_layers sleeve ?mp ?me) req None"
  have "?D Rejected 0 None (Some ''no_requested_size'') = Inr d \<or>
      ?D Rejected 0 None (Some ''unpriceable_capacity'') = Inr d \<or>
      (\<exists>r. ?loop = Inr r \<and> (case r of Inl (c, reason) \<Rightarrow> ?D Rejected 0 (Some c) (Some reason)
        | Inr (granted, binding) \<Rightarrow> rbind (money (dmul granted price)) (\<lambda>n.
            if n > available_capital l then ?D Rejected 0 (Some ''ledger_solvency'') (Some ''ledger_insolvent'')
            else if binding = None then ?D Admitted granted None None
            else ?D Capped granted binding None)) = Inr d)"
    using assms(1) s
    by (simp add: resolve_capacity_def Let_def rbind_Inr_iff [of ?loop] split: if_splits)
  then have "\<exists>b r. ?D Rejected 0 b r = Inr d"
  proof (elim disjE exE conjE)
    fix r
    assume r: "(case r of Inl (c, reason) \<Rightarrow> ?D Rejected 0 (Some c) (Some reason)
        | Inr (granted, binding) \<Rightarrow> rbind (money (dmul granted price)) (\<lambda>n.
            if n > available_capital l then ?D Rejected 0 (Some ''ledger_solvency'') (Some ''ledger_insolvent'')
            else if binding = None then ?D Admitted granted None None
            else ?D Capped granted binding None)) = Inr d"
    show ?thesis
    proof (cases r)
      case (Inl cr)
      then show ?thesis using r by (cases cr) auto
    next
      case (Inr gb)
      then obtain n where "(if n > available_capital l
            then ?D Rejected 0 (Some ''ledger_solvency'') (Some ''ledger_insolvent'')
            else if snd gb = None then ?D Admitted (fst gb) None None
            else ?D Capped (fst gb) (snd gb) None) = Inr d"
        using r by (auto simp: rbind_Inr_iff [of "money _"] case_prod_beta)
      then show ?thesis by (auto split: if_splits dest: out)
    qed
  qed blast+
  then show ?thesis by (auto dest: decision_of_zero)
qed

lemma decide_capacity_rejected:
  assumes "decide_capacity l s x c mp me = Inr (d, k)" "cd_outcome d = Rejected"
  shows "cd_granted_units d = 0 \<and> cd_granted_notional d = 0"
  using assms
  by (auto simp: decide_capacity_def rbind_Inr_iff Let_def split: if_splits dest: resolve_capacity_rejected)

lemma decide_capacity_admitted:
  assumes "decide_capacity l s x c mp me = Inr (d, k)" "cd_outcome d \<noteq> Rejected"
  shows "0 < cd_granted_units d \<and> cd_granted_units d \<le> it_desired_size x \<and> 0 < price_of x \<and>
    money (dmul (cd_granted_units d) (price_of x)) = Inr (cd_granted_notional d) \<and>
    cd_granted_notional d \<le> dsub (available_capital l) c \<and>
    dget (lg_attribution l) (it_item_id x) \<noteq> None"
proof -
  from assms obtain me' where r: "resolve_capacity l (it_item_id x) s (it_desired_size x) (price_of x) mp me' = Inr d"
    and h: "cd_granted_notional d \<le> dsub (available_capital l) c"
    by (auto simp: decide_capacity_def rbind_Inr_iff Let_def split: if_splits)
  have "cd_is_admitted d" using assms(2) by (simp add: cd_is_admitted_def)
  with r show ?thesis by (rule resolve_capacity_admitted) (use h in auto)
qed

text \<open>The decision an admission pass leaves for one survivor.\<close>

definition settled :: "ledger \<Rightarrow> pairing \<Rightarrow> arbitration_decision \<Rightarrow> bool" where
  "settled l px d \<longleftrightarrow> from_pair px d \<and> ad_outcome d \<in> {OAdmitted, OCapped, ORejected} \<and>
     (if is_admitted d
      then 0 < ad_granted_units d \<and> ad_granted_units d \<le> it_desired_size (snd px) \<and>
        0 < price_of (snd px) \<and> money (dmul (ad_granted_units d) (price_of (snd px))) = Inr (ad_granted_notional d) \<and>
        dget (lg_attribution l) (pitem px) \<noteq> None
      else no_grant d)"

lemma capacity_result_settled:
  assumes "decide_capacity l s (snd px) c mp me = Inr (d, k)"
  shows "settled l px (capacity_result rule px c (d, k))"
  using decide_capacity_admitted [OF assms] decide_capacity_rejected [OF assms]
  by (cases "cd_outcome d")
    (simp_all add: settled_def from_pair_def no_grant_def is_admitted_def capacity_result_def
      capacity_outcome_of_def decision_base_def)

lemma admit_Cons:
  assumes "admit l s rule mps me (py # ps) out c = Inr r"
  obtains d k where "decide_capacity l s (snd py) c (dget mps (pitem py)) me = Inr (d, k)"
    "admit l s rule mps me ps (dset (pitem py) (capacity_result rule py c (d, k)) out)
      (if cd_is_admitted d then dadd c (cd_granted_notional d) else c) = Inr r"
proof (cases "decide_capacity l s (snd py) c (dget mps (pitem py)) me")
  case (Inl e)
  then show ?thesis using assms by simp
next
  case (Inr cc)
  obtain d k where "cc = (d, k)" by (cases cc)
  with Inr show ?thesis
    using assms that [of d k] unfolding admit.simps by (simp only: rbind_simps fst_conv)
qed

lemma admit_other:
  "admit l s rule mps me ps out c = Inr (out', c') \<Longrightarrow> i \<notin> pitem ` set ps \<Longrightarrow> dget out' i = dget out i"
  by (induction l s rule mps me ps out c rule: admit.induct) (auto simp: rbind_Inr_iff)

lemma admit_settles:
  assumes "admit l s rule mps me ps out c = Inr (out', c')" "distinct (map pitem ps)" "px \<in> set ps"
  shows "\<exists>d. dget out' (pitem px) = Some d \<and> settled l px d"
  using assms
proof (induction l s rule mps me ps out c rule: admit.induct)
  case (1 l s rule mps me out c)
  then show ?case by simp
next
  case (2 l s rule mps me py ps out c)
  from "2.prems"(1) obtain d k
    where dk: "decide_capacity l s (snd py) c (dget mps (pitem py)) me = Inr (d, k)"
    and rest: "admit l s rule mps me ps (dset (pitem py) (capacity_result rule py c (d, k)) out)
      (if cd_is_admitted d then dadd c (cd_granted_notional d) else c) = Inr (out', c')"
    by (rule admit_Cons)
  show ?case
  proof (cases "px = py")
    case True
    have "pitem py \<notin> pitem ` set ps" using "2.prems"(2) by auto
    from admit_other [OF rest this] show ?thesis using True capacity_result_settled [OF dk] by simp
  next
    case False
    then show ?thesis using "2.IH" [of "(d, k)", unfolded fst_conv, OF rest] "2.prems" by auto
  qed
qed

definition granted :: "outcomes \<Rightarrow> pairing \<Rightarrow> rat" where
  "granted out px = ad_granted_notional (the (dget out (pitem px)))"

lemma available_representable: "representable (available_capital l)"
  using representableI [of 0 0 0] by (auto simp: available_capital_def dsub_def max_def)

text \<open>The running total is exact, and stays within the capital that was available.\<close>

lemma admit_accounts:
  assumes "admit l s rule mps me ps out c = Inr (out', c')" "distinct (map pitem ps)"
    and "available_capital l \<le> 10 ^ 26" "cents c" "0 \<le> c" "c \<le> available_capital l"
  shows "c' = c + (\<Sum>px\<leftarrow>ps. granted out' px) \<and> cents c' \<and> 0 \<le> c' \<and> c' \<le> available_capital l"
  using assms
proof (induction l s rule mps me ps out c rule: admit.induct)
  case (1 l s rule mps me out c)
  then show ?case by simp
next
  case (2 l s rule mps me py ps out c)
  from "2.prems"(1) obtain d k
    where dk: "decide_capacity l s (snd py) c (dget mps (pitem py)) me = Inr (d, k)"
    and rest: "admit l s rule mps me ps (dset (pitem py) (capacity_result rule py c (d, k)) out)
      (if cd_is_admitted d then dadd c (cd_granted_notional d) else c) = Inr (out', c')"
    by (rule admit_Cons)
  let ?n = "cd_granted_notional d" and ?c = "if cd_is_admitted d then dadd c (cd_granted_notional d) else c"
  have "pitem py \<notin> pitem ` set ps" using "2.prems"(2) by auto
  from admit_other [OF rest this] have g: "granted out' py = ?n"
    by (simp add: granted_def capacity_result_def)
  have step: "?c = c + ?n \<and> cents ?c \<and> 0 \<le> ?c \<and> ?c \<le> available_capital l"
  proof (cases "cd_outcome d = Rejected")
    case True
    then show ?thesis using decide_capacity_rejected [OF dk] "2.prems" by (simp add: cd_is_admitted_def)
  next
    case False
    note a = decide_capacity_admitted [OF dk False]
    have n: "cents ?n" "0 \<le> ?n"
      using a by (auto simp: money_def dmul_def quantize_nonneg dest: quantizeD)
    have "dsub (available_capital l) c = available_capital l - c"
      using "2.prems" available_representable by (intro headroom_exact)
    then have le: "c + ?n \<le> available_capital l" using a by simp
    have cn: "cents (c + ?n)" using "2.prems"(4) n(1) by (rule on_grid_add)
    have "dadd c ?n = c + ?n" unfolding dadd_def
      using cn n(2) "2.prems" le by (intro cents_exact) simp_all
    then show ?thesis using False cn n(2) "2.prems" le by (simp add: cd_is_admitted_def)
  qed
  have dd: "distinct (map pitem ps)" using "2.prems"(2) by simp
  have st: "?c = c + ?n" "cents ?c" "0 \<le> ?c" "?c \<le> available_capital l" using step by blast+
  from "2.IH" [of "(d, k)", unfolded fst_conv, OF rest dd "2.prems"(3) st(2-4)] g
  show ?case unfolding st(1) by (elim conjE) simp
qed

section \<open>What validation lets through\<close>

definition arbitrable :: "portfolio_snapshot \<Rightarrow> profiles \<Rightarrow> item_intent \<Rightarrow> bool" where
  "arbitrable s pr x \<longleftrightarrow> it_phase x \<noteq> P3 \<and> it_kind x \<notin> set mandatory_kinds \<and> it_t_ms x = sn_t_ms s \<and>
     snapshot_identity x = Some (sn_identity s) \<and>
     (case dget pr (it_item_id x) of None \<Rightarrow> False
      | Some p \<Rightarrow> ap_pin_ordinal p = id_pin_ordinal (it_identity x))"

definition pair_of :: "profiles \<Rightarrow> item_intent \<Rightarrow> pairing" where
  "pair_of pr x = (the (dget pr (it_item_id x)), x)"

lemma snd_pair_of [simp]: "snd (pair_of pr x) = x"
  by (simp add: pair_of_def)

lemma validate_loop_iff:
  "validate_loop s pr seen xs = Inr ps \<longleftrightarrow> distinct (map it_item_id xs) \<and>
     (\<forall>x \<in> set xs. arbitrable s pr x \<and> it_item_id x \<notin> set seen) \<and> ps = map (pair_of pr) xs"
proof (induction s pr seen xs arbitrary: ps rule: validate_loop.induct)
  case (1 s pr seen)
  then show ?case by auto
next
  case (2 s pr seen x xs)
  show ?case
  proof (cases "arbitrable s pr x \<and> it_item_id x \<notin> set seen")
    case False
    then have "validate_loop s pr seen (x # xs) \<noteq> Inr ps"
      by (auto simp: arbitrable_def profile_for_def split: option.splits)
    then show ?thesis using False by auto
  next
    case True
    then have p: "profile_for x pr = Inr (the (dget pr (it_item_id x)))"
      by (auto simp: arbitrable_def profile_for_def split: option.splits)
    have eq: "validate_loop s pr seen (x # xs)
      = rbind (validate_loop s pr (it_item_id x # seen) xs) (\<lambda>ps. ok (pair_of pr x # ps))"
      unfolding pair_of_def using True p by (simp add: arbitrable_def)
    have IH: "validate_loop s pr (it_item_id x # seen) xs = Inr qs \<longleftrightarrow> distinct (map it_item_id xs) \<and>
       (\<forall>y \<in> set xs. arbitrable s pr y \<and> it_item_id y \<notin> set (it_item_id x # seen)) \<and>
       qs = map (pair_of pr) xs" for qs
      using True p by (intro "2.IH") (auto simp: arbitrable_def)
    have "validate_loop s pr seen (x # xs) = Inr ps \<longleftrightarrow>
        (\<exists>qs. validate_loop s pr (it_item_id x # seen) xs = Inr qs \<and> ps = pair_of pr x # qs)"
      unfolding eq by (auto simp: rbind_Inr_iff)
    also have "\<dots> \<longleftrightarrow> distinct (map it_item_id xs) \<and>
       (\<forall>y \<in> set xs. arbitrable s pr y \<and> it_item_id y \<notin> set (it_item_id x # seen)) \<and>
       ps = pair_of pr x # map (pair_of pr) xs" unfolding IH by blast
    also have "\<dots> \<longleftrightarrow> distinct (map it_item_id (x # xs)) \<and>
       (\<forall>y \<in> set (x # xs). arbitrable s pr y \<and> it_item_id y \<notin> set seen) \<and>
       ps = map (pair_of pr) (x # xs)" using True by (auto simp: image_iff)
    finally show ?thesis .
  qed
qed

lemma validate_iff:
  "validate l s xs pr = Inr ps \<longleftrightarrow> lg_frozen_at l \<noteq> None \<and> distinct (map it_item_id xs) \<and>
     list_all (arbitrable s pr) xs \<and> ps = sort_key (\<lambda>p. priority (fst p)) (map (pair_of pr) xs)"
  by (auto simp: validate_def rbind_Inr_iff validate_loop_iff list_all_iff)

section \<open>Reading a report\<close>

text \<open>A successful arbitration, taken apart.\<close>

lemma arbitrate_Inr:
  assumes "arbitrate H l s xs pr policy mps me = Inr r"
  obtains rule pairs out kept out' where
    "resolve_policy policy = Inr rule" "validate l s xs pr = Inr pairs"
    "screen l pr rule pairs [] [] = (out, kept)"
    "admit l s rule mps me kept out 0 = Inr (out', rp_committed_notional r)"
    "rp_decisions r = map (\<lambda>px. the (dget out' (pitem px))) pairs" "rp_policy r = cr_policy rule"
  using assms by (auto simp: arbitrate_def rbind_Inr_iff Let_def case_prod_beta intro: that [OF _ _ surjective_pairing])

lemma pairs_items:
  assumes "validate l s xs pr = Inr pairs"
  shows "mset (map pitem pairs) = mset (map it_item_id xs)" "distinct (map pitem pairs)"
    "sorted (map (priority \<circ> fst) pairs)" "px \<in> set pairs \<Longrightarrow> dget pr (pitem px) = Some (fst px) \<and> snd px \<in> set xs"
proof -
  have p: "pairs = sort_key (\<lambda>p. priority (fst p)) (map (pair_of pr) xs)" "distinct (map it_item_id xs)"
    "list_all (arbitrable s pr) xs" using assms by (simp_all add: validate_iff)
  have "mset (map pitem pairs) = image_mset pitem (mset (map (pair_of pr) xs))" unfolding p(1) by simp
  also have "\<dots> = mset (map it_item_id xs)" by (simp add: image_mset.compositionality comp_def)
  finally show m: "mset (map pitem pairs) = mset (map it_item_id xs)" .
  then show "distinct (map pitem pairs)" using p(2) mset_eq_imp_distinct_iff by blast
  show "sorted (map (priority \<circ> fst) pairs)" unfolding p(1) comp_def by (rule sorted_sort_key)
  show "dget pr (pitem px) = Some (fst px) \<and> snd px \<in> set xs" if "px \<in> set pairs"
    using that p(1,3) by (auto simp: pair_of_def list_all_iff arbitrable_def split: option.splits)
qed

lemma subseq_facts:
  "subseq ks ps \<Longrightarrow> set ks \<subseteq> set ps \<and> (distinct (map f ps) \<longrightarrow> distinct (map f ks))"
proof (induction ks ps rule: list_emb.induct)
  case (list_emb_Cons2 k p ks ps)
  then show ?case by auto
qed auto

text \<open>Each pair's decision: settled by the capacity pass when it survived the screening, turned away
  otherwise.\<close>

lemma decision_cases:
  assumes "distinct (map pitem pairs)" "screen l pr rule pairs [] [] = (out, kept)"
    and "admit l s rule mps me kept out c = Inr (out', c')" "px \<in> set pairs"
  obtains d where "dget out' (pitem px) = Some d" "px \<in> set kept \<and> settled l px d \<or> px \<notin> set kept \<and> turned_away px d"
proof (cases "px \<in> set kept")
  case True
  have "subseq kept pairs" using screen_kept [of l pr rule pairs "[]" "[]"] assms(2) by simp
  then have "distinct (map pitem kept)" using assms(1) subseq_facts by blast
  from admit_settles [OF assms(3) this True] show ?thesis using True that by blast
next
  case False
  obtain d where d: "dget out (pitem px) = Some d" "turned_away px d"
    using screen_outcome [OF assms(1,4), of l pr rule "[]" "[]"] assms(2) False by auto
  have "subseq kept pairs" using screen_kept [of l pr rule pairs "[]" "[]"] assms(2) by simp
  then have "set kept \<subseteq> set pairs" using subseq_facts by blast
  then have "pitem px \<notin> pitem ` set kept"
    using False assms(1,4) by (auto simp: distinct_map inj_on_def)
  from admit_other [OF assms(3) this] d False that show ?thesis by auto
qed

definition keyed :: "profiles \<Rightarrow> bool" where
  "keyed pr = list_all (\<lambda>(i, p). ap_item_id p = i) pr"

lemma keyed_get: "keyed pr \<Longrightarrow> dget pr i = Some p \<Longrightarrow> ap_item_id p = i"
  by (auto simp: keyed_def list_all_iff dest: dget_in)

definition sound_decision :: "arbitration_decision \<Rightarrow> bool" where
  "sound_decision d \<longleftrightarrow>
     (if is_admitted d then 0 < ad_granted_units d \<and> ad_granted_units d \<le> ad_requested_units d
      else no_grant d)"

lemma settled_sound:
  "settled l px d \<Longrightarrow> sound_decision d \<and> from_pair px d" "turned_away px d \<Longrightarrow> sound_decision d \<and> from_pair px d"
  by (auto simp: settled_def turned_away_def sound_decision_def from_pair_def)

text \<open>C4. A report answers every intent once, in the pinned order: the decided items are exactly the
  intents' items, ordered by pin ordinal and item; what is admitted is granted a positive size of
  at most the requested one; and a blocked, rejected or idle item is granted nothing.\<close>

theorem arbitration_answers_every_intent:
  assumes "arbitrate H l s xs pr policy mps me = Inr r" "keyed pr"
  shows "mset (map ad_item_id (rp_decisions r)) = mset (map it_item_id xs) \<and>
    sorted (map (\<lambda>d. (ad_pin_ordinal d, ad_item_id d)) (rp_decisions r)) \<and>
    list_all sound_decision (rp_decisions r) \<and> rp_t_ms r = sn_t_ms s"
proof -
  from assms(1) have t: "rp_t_ms r = sn_t_ms s"
    by (auto simp: arbitrate_def rbind_Inr_iff Let_def case_prod_beta)
  from assms(1) show ?thesis
  proof (cases rule: arbitrate_Inr)
    case (1 rule pairs out kept out')
    note p = pairs_items [OF 1(2)]
    let ?D = "\<lambda>px. the (dget out' (pitem px))"
    have D: "sound_decision (?D px) \<and> from_pair px (?D px)" if px: "px \<in> set pairs" for px
      by (rule decision_cases [OF p(2) 1(3,4) px]) (auto simp: settled_sound)
    have k: "ap_item_id (fst px) = pitem px" if "px \<in> set pairs" for px
      using p(4) [OF that] keyed_get [OF assms(2)] by blast
    have i1: "map ad_item_id (map ?D pairs) = map pitem pairs"
      using D by (simp add: from_pair_def)
    have i2: "map (\<lambda>d. (ad_pin_ordinal d, ad_item_id d)) (map ?D pairs) = map (priority \<circ> fst) pairs"
      using D k by (auto simp: from_pair_def priority_def)
    show ?thesis unfolding 1(5) i1 i2 using p(1,3) D t by (simp add: list_all_iff)
  qed
qed

section \<open>No two admitted items oppose each other\<close>

definition clash :: "string option \<Rightarrow> string option \<Rightarrow> string option \<Rightarrow> string option \<Rightarrow> bool" where
  "clash dir instrument dir' instrument' =
     (opposes dir dir' \<and> fst (may_be_same_instrument instrument instrument'))"

lemma clash_sym: "clash d i d' i' = clash d' i' d i"
  by (auto simp: clash_def opposes_def may_be_same_instrument_def Let_def)

lemma block_opposite_rule:
  "resolve_policy policy = Inr rule \<Longrightarrow> cr_policy rule = ''BLOCK_OPPOSITE'' \<Longrightarrow> blocks_opposite rule"
  by (auto simp: resolve_policy_def conflict_policy_table_def blocks_opposite_def Let_def
      split: option.splits if_splits)

lemma sorted_wrt_pairs: "sorted_wrt P xs \<Longrightarrow> x \<in> set xs \<Longrightarrow> y \<in> set xs \<Longrightarrow> x \<noteq> y \<Longrightarrow> P x y \<or> P y x"
  by (induction xs) auto

lemma admitted_survives:
  assumes "distinct (map pitem pairs)" "screen l pr rule pairs [] [] = (out, kept)"
    and "admit l s rule mps me kept out c = Inr (out', c')"
    and "d \<in> set (filter is_admitted (map (\<lambda>px. the (dget out' (pitem px))) pairs))"
  obtains px where "px \<in> set pairs" "px \<in> set kept" "settled l px d" "from_pair px d"
    "d = the (dget out' (pitem px))"
proof -
  from assms(4) obtain px where px: "px \<in> set pairs" "d = the (dget out' (pitem px))" "is_admitted d" by auto
  from assms(1-3) px(1) show ?thesis
  proof (rule decision_cases)
    fix d'
    assume "dget out' (pitem px) = Some d'"
      "px \<in> set kept \<and> settled l px d' \<or> px \<notin> set kept \<and> turned_away px d'"
    with px have k: "px \<in> set kept" "settled l px d" by (auto simp: turned_away_def)
    show ?thesis using that [OF px(1) k _ px(2)] settled_sound(1) [OF k(2)] by blast
  qed
qed

text \<open>C1. Under the blocking policy no two admitted items take opposite directions on instruments that
  may be the same, and no admitted item opposes a position another item already holds on such an
  instrument. A missing instrument identity counts as the same instrument.\<close>

theorem admitted_items_never_oppose:
  assumes "arbitrate H l s xs pr policy mps me = Inr r" "rp_policy r = ''BLOCK_OPPOSITE''"
  shows "(\<forall>d \<in> set (admitted r). \<forall>e \<in> set (admitted r). ad_item_id d \<noteq> ad_item_id e \<longrightarrow>
      \<not> clash (ad_direction d) (ad_instrument_id d) (ad_direction e) (ad_instrument_id e)) \<and>
    (\<forall>d \<in> set (admitted r). \<forall>(i, p) \<in> set (lg_positions l). i \<noteq> ad_item_id d \<longrightarrow>
      \<not> clash (ad_direction d) (ad_instrument_id d) (Some (op_direction p)) (instrument_of pr i))"
  using assms(1)
proof (cases rule: arbitrate_Inr)
  case (1 rule pairs out kept out')
  note dist = pairs_items(2) [OF 1(2)]
  have blk: "blocks_opposite rule" using block_opposite_rule [OF 1(1)] 1(6) assms(2) by simp
  have kept: "snd (screen l pr rule pairs [] []) = kept" using 1(3) by simp
  have apart: "sorted_wrt (\<lambda>a b. \<not> intent_conflict b a) kept"
    using screen_survivors_apart [OF blk, of "[]" l pr pairs "[]"] kept by simp
  have act: "is_actionable (snd px) \<and> clear_of_positions l pr px" if "px \<in> set kept" for px
    using screen_survivors_act [of px l pr rule pairs "[]" "[]"] kept that blk by simp
  have adm: "admitted r = filter is_admitted (map (\<lambda>px. the (dget out' (pitem px))) pairs)"
    by (simp add: admitted_def 1(5))
  have two: "\<not> clash (ad_direction d) (ad_instrument_id d) (ad_direction e) (ad_instrument_id e)"
    if de: "d \<in> set (admitted r)" "e \<in> set (admitted r)" "ad_item_id d \<noteq> ad_item_id e" for d e
  proof -
    obtain px where px: "px \<in> set kept" "from_pair px d"
      using admitted_survives [OF dist 1(3,4) de(1) [unfolded adm]] by blast
    obtain py where py: "py \<in> set kept" "from_pair py e"
      using admitted_survives [OF dist 1(3,4) de(2) [unfolded adm]] by blast
    have "px \<noteq> py" using px(2) py(2) de(3) by (auto simp: from_pair_def)
    from sorted_wrt_pairs [OF apart px(1) py(1) this] show ?thesis
      using px(2) py(2) act [OF px(1)] act [OF py(1)]
        clash_sym [of "ad_direction d" "ad_instrument_id d" "ad_direction e" "ad_instrument_id e"]
      by (auto simp: intent_conflict_def clash_def from_pair_def)
  qed
  have held: "\<not> clash (ad_direction d) (ad_instrument_id d) (Some (op_direction p)) (instrument_of pr i)"
    if d: "d \<in> set (admitted r)" "(i, p) \<in> set (lg_positions l)" "i \<noteq> ad_item_id d" for d i p
  proof -
    obtain px where px: "px \<in> set kept" "from_pair px d"
      using admitted_survives [OF dist 1(3,4) d(1) [unfolded adm]] by blast
    from act [OF px(1)] d(2) have "\<not> held_conflict pr px (i, p)" by (auto simp: clear_of_positions_def)
    then show ?thesis using px(2) d(3) by (auto simp: held_conflict_def clash_def from_pair_def)
  qed
  from two held show ?thesis by blast
qed

section \<open>The capital committed\<close>

lemma sum_filter_zero:
  "(\<And>x. x \<in> set xs \<Longrightarrow> \<not> P x \<Longrightarrow> f x = (0::rat)) \<Longrightarrow> (\<Sum>x\<leftarrow>filter P xs. f x) = (\<Sum>x\<leftarrow>xs. f x)"
  by (induction xs) auto

lemma sum_subseq_zero:
  "subseq ks ps \<Longrightarrow> distinct ps \<Longrightarrow> (\<And>p. p \<in> set ps \<Longrightarrow> p \<notin> set ks \<Longrightarrow> f p = (0::rat)) \<Longrightarrow>
     (\<Sum>p\<leftarrow>ps. f p) = (\<Sum>k\<leftarrow>ks. f k)"
proof (induction ks ps rule: list_emb.induct)
  case (list_emb_Cons ks ps p)
  then have "p \<notin> set ks" using subseq_facts by fastforce
  then show ?case using list_emb_Cons by simp
next
  case (list_emb_Cons2 k p ks ps)
  then show ?case by auto
next
  case (list_emb_Nil ys)
  then show ?case by (induction ys) auto
qed

lemma committed_is_sum:
  assumes "arbitrate H l s xs pr policy mps me = Inr r" "available_capital l \<le> 10 ^ 26"
  shows "rp_committed_notional r = (\<Sum>d\<leftarrow>admitted r. ad_granted_notional d) \<and>
    0 \<le> rp_committed_notional r \<and> rp_committed_notional r \<le> available_capital l"
  using assms(1)
proof (cases rule: arbitrate_Inr)
  case (1 rule pairs out kept out')
  note dist = pairs_items(2) [OF 1(2)]
  let ?D = "\<lambda>px. the (dget out' (pitem px))"
  have sub: "subseq kept pairs" using screen_kept [of l pr rule pairs "[]" "[]"] 1(3) by simp
  then have dk: "distinct (map pitem kept)" using dist subseq_facts by blast
  have "0 \<le> available_capital l" by (simp add: available_capital_def)
  from admit_accounts [OF 1(4) dk assms(2) _ _ this]
  have acc: "rp_committed_notional r = (\<Sum>px\<leftarrow>kept. granted out' px)" "0 \<le> rp_committed_notional r"
    "rp_committed_notional r \<le> available_capital l" by simp_all
  have zero: "granted out' px = 0" if px: "px \<in> set pairs" "px \<notin> set kept" for px
    by (rule decision_cases [OF dist 1(3,4) px(1)])
      (use px(2) in \<open>auto simp: granted_def turned_away_def no_grant_def\<close>)
  have "(\<Sum>px\<leftarrow>pairs. granted out' px) = (\<Sum>px\<leftarrow>kept. granted out' px)"
    using sub dist zero by (intro sum_subseq_zero) (simp_all add: distinct_map)
  moreover have ng: "ad_granted_notional (?D px) = 0" if px: "px \<in> set pairs" "\<not> is_admitted (?D px)" for px
    by (rule decision_cases [OF dist 1(3,4) px(1)])
      (use px(2) in \<open>auto simp: settled_def turned_away_def no_grant_def\<close>)
  have "(\<Sum>d\<leftarrow>admitted r. ad_granted_notional d) = (\<Sum>d\<leftarrow>rp_decisions r. ad_granted_notional d)"
    unfolding admitted_def 1(5) using ng by (intro sum_filter_zero) auto
  then have "(\<Sum>d\<leftarrow>admitted r. ad_granted_notional d) = (\<Sum>px\<leftarrow>pairs. granted out' px)"
    by (simp add: 1(5) granted_def comp_def)
  ultimately show ?thesis using acc by simp
qed

text \<open>C2. The notional a tick commits is exactly the sum of what it admitted, is never negative and never
  more than the capital available in the frozen ledger: competing items cannot overdraw it
  together.\<close>

theorem commitments_fit_capital:
  assumes "arbitrate H l s xs pr policy mps me = Inr r" "available_capital l \<le> 10 ^ 26"
  shows "rp_committed_notional r = (\<Sum>d\<leftarrow>admitted r. ad_granted_notional d) \<and>
    0 \<le> rp_committed_notional r \<and> rp_committed_notional r \<le> available_capital l"
  using assms by (rule committed_is_sum)

section \<open>The order of the arguments\<close>

text \<open>A successful arbitration does not depend on the order in which the intents are handed over:
  any permutation of them yields the very same report, its identity included.\<close>

theorem arbitration_ignores_intent_order:
  assumes "arbitrate H l s xs pr policy mps me = Inr r" "mset xs = mset ys" "keyed pr"
  shows "arbitrate H l s ys pr policy mps me = Inr r"
proof -
  from assms(1) obtain rule pairs where v: "validate l s xs pr = Inr pairs" by (rule arbitrate_Inr)
  let ?f = "\<lambda>p. priority (fst p)"
  from v have x: "lg_frozen_at l \<noteq> None" "distinct (map it_item_id xs)" "list_all (arbitrable s pr) xs"
    "pairs = sort_key ?f (map (pair_of pr) xs)" by (simp_all add: validate_iff)
  have set: "set ys = set xs" using assms(2) by (metis set_mset_mset)
  have "distinct (map it_item_id ys)"
    using x(2) assms(2) by (metis mset_eq_imp_distinct_iff mset_map)
  moreover have "list_all (arbitrable s pr) ys" using x(3) set by (simp add: list_all_iff)
  moreover have "sort_key ?f (map (pair_of pr) xs) = sort_key ?f (map (pair_of pr) ys)"
  proof (rule sort_key_inj_key_eq)
    show "mset (map (pair_of pr) xs) = mset (sort_key ?f (map (pair_of pr) ys))" using assms(2) by simp
    have "ap_item_id (fst (pair_of pr z)) = it_item_id z" if "z \<in> set xs" for z
      using x(3) that keyed_get [OF assms(3)]
      by (auto simp: list_all_iff arbitrable_def pair_of_def split: option.splits)
    moreover have "inj_on it_item_id (set xs)" using x(2) by (simp add: distinct_map)
    ultimately show "inj_on ?f (set (map (pair_of pr) xs))"
      by (auto simp: inj_on_def priority_def)
  qed (rule sorted_sort_key)
  ultimately have "validate l s ys pr = Inr pairs" using x(1,4) by (simp add: validate_iff)
  then have eq: "validate l s ys pr = validate l s xs pr" using v by simp
  show ?thesis using assms(1) unfolding arbitrate_def eq .
qed

section \<open>What was admitted can be opened\<close>

lemma available_upper: "available_capital l \<le> max 0 (plan_allocatable (lg_plan l) (lg_equity l))"
  if "pos_ok l" "pos_fits l"
proof -
  let ?A = "plan_allocatable (lg_plan l) (lg_equity l)"
  have "0 \<le> gross_exposure l"
    using that by (auto simp: gross_exact pos_fits_def intro: dsum_nonneg)
  then have "dsub ?A (gross_exposure l) \<le> dfix ?A" unfolding dsub_def by (intro dfix_mono) simp
  also have "dfix ?A = ?A" using representableI [of 0 0 0]
    by (auto simp: plan_allocatable_def max_def dsub_def)
  finally show ?thesis by (auto simp: available_capital_def max_def)
qed

text \<open>Opening a fresh position of notional \<open>n\<close> leaves room for the rest.\<close>

lemma open_leaves_room:
  assumes "pos_ok l" "pos_fits l" "plan_allocatable (lg_plan l) (lg_equity l) < 10 ^ 25"
    and "cents (op_notional c)" "0 \<le> op_notional c" "0 \<le> m" "op_notional c + m \<le> available_capital l"
    and "dget (lg_positions l) i = None"
  defines "l' \<equiv> l\<lparr>lg_positions := dset i c (lg_positions l)\<rparr>"
  shows "pos_ok l'" "pos_fits l'" "m \<le> available_capital l'"
proof -
  let ?A = "plan_allocatable (lg_plan l) (lg_equity l)" and ?n = "op_notional c"
  have sum: "dsum op_notional (lg_positions l') = dsum op_notional (lg_positions l) + ?n"
    using assms(1,8) by (simp add: l'_def pos_ok_def dsum_dset)
  show ok: "pos_ok l'" unfolding l'_def by (rule pos_ok_dset [OF assms(1,4)])
  have g: "gross_exposure l = dsum op_notional (lg_positions l)" by (rule gross_exact [OF assms(1,2)])
  have up: "available_capital l < 10 ^ 25"
    using available_upper [OF assms(1,2)] assms(3) by (auto simp: max_def split: if_splits)
  have room: "gross_exposure l + (?n + m) \<le> ?A" if "0 < ?n + m"
    using available_exact [OF assms(1,2) that assms(7)] up assms(7) by simp
  have below: "dsum op_notional (lg_positions l') < 10 ^ 25"
  proof (cases "0 < ?n + m")
    case True
    then show ?thesis using room g sum assms(3,6) by simp
  next
    case False
    then have "?n = 0" using assms(5,6) by simp
    then show ?thesis using sum assms(2) by (simp add: pos_fits_def)
  qed
  show fits: "pos_fits l'" using below assms(2,5) by (auto simp: pos_fits_def l'_def dest!: dset_set)
  show "m \<le> available_capital l'"
  proof (cases "0 < m")
    case False
    then show ?thesis by (simp add: available_capital_def)
  next
    case True
    have g': "gross_exposure l' = gross_exposure l + ?n" using gross_exact [OF ok fits] sum g by simp
    have le: "gross_exposure l' \<le> ?A - m" using room True assms(5) g' by simp
    have "cents (dsum op_notional d)" if "\<forall>p \<in> set d. cents (op_notional (snd p))"
      for d :: "(item_id, open_position) dict"
      using that by (induction d) auto
    then have "cents (gross_exposure l')" using ok by (simp add: gross_exact [OF ok fits] pos_ok_def)
    moreover have "0 \<le> gross_exposure l'"
      using fits by (auto simp: gross_exact [OF ok fits] pos_fits_def intro: dsum_nonneg)
    moreover have "representable ?A" using representableI [of 0 0 0]
      by (auto simp: plan_allocatable_def max_def dsub_def)
    ultimately have "dsub ?A (gross_exposure l') = ?A - gross_exposure l'"
      using le True assms(3) by (intro headroom_exact) simp_all
    then show ?thesis using le by (simp add: available_capital_def l'_def)
  qed
qed

type_synonym fill_order = "string \<times> string \<times> rat \<times> rat"

definition opening_op :: "fill_order \<Rightarrow> ledger_op" where
  "opening_op q = (case q of (i, dir, units, price) \<Rightarrow> SetPosition i dir units price)"

definition openable :: "ledger \<Rightarrow> fill_order \<Rightarrow> rat \<Rightarrow> bool" where
  "openable l q n = (case q of (i, dir, units, price) \<Rightarrow>
     dir \<in> {''long'', ''short''} \<and> 0 < units \<and> money (dmul units price) = Inr n \<and> 0 \<le> n \<and>
     dget (lg_attribution l) i \<noteq> None \<and> dget (lg_positions l) i = None)"

lemma openings_succeed:
  assumes "lg_frozen_at l = None" "pos_ok l" "pos_fits l"
    and "plan_allocatable (lg_plan l) (lg_equity l) < 10 ^ 25"
    and "list_all2 (openable l) qs ns" "distinct (map fst qs)" "sum_list ns \<le> available_capital l"
  shows "\<exists>l'. run_ops (exec_ledger H) (\<lambda>_. True) (map opening_op qs) l = Some l' \<and>
     (\<forall>i. dget (lg_positions l') i \<noteq> None \<longleftrightarrow> dget (lg_positions l) i \<noteq> None \<or> i \<in> fst ` set qs)"
  using assms
proof (induction qs arbitrary: l ns)
  case Nil
  then show ?case by simp
next
  case (Cons q qs)
  obtain i dir u p where q: "q = (i, dir, u, p)" by (cases q) auto
  from Cons.prems(5) obtain n ms where ns: "ns = n # ms" and o: "openable l q n" "list_all2 (openable l) qs ms"
    by (cases ns) auto
  have ms: "0 \<le> sum_list ms"
    using o(2) by (induction qs ms rule: list_all2_induct) (auto simp: openable_def)
  have money: "money (dmul p u) = Inr n" using o(1) by (simp add: q openable_def dmul_def mult.commute)
  then obtain c where c: "open_position_post_init i dir u p = Inr c" "op_notional c = n"
    using o(1) by (auto simp: q openable_def open_position_post_init_def)
  have n: "cents n" "0 \<le> n" using money o(1) by (auto simp: q openable_def money_cents)
  have fresh: "dget (lg_positions l) i = None" using o(1) by (simp add: q openable_def)
  let ?l = "l\<lparr>lg_positions := dset i c (lg_positions l)\<rparr>"
  have "representable n" using money by (simp add: money_def quantizeD)
  moreover have "n \<le> available_capital l" using Cons.prems(7) ms by (simp add: ns)
  ultimately have step: "exec_ledger H (opening_op q) l = (Inr (), ?l)"
    using Cons.prems(1) o(1) c fresh
    by (auto simp: q opening_op_def openable_def set_position_run is_frozen_def Let_def dsub_def st_simps void_def)
  note room = open_leaves_room [OF Cons.prems(2-4), of c "sum_list ms" i, unfolded c(2), OF n ms _ fresh]
  have "n + sum_list ms \<le> available_capital l" using Cons.prems(7) by (simp add: ns)
  note room' = room [OF this]
  have "list_all2 (openable ?l) qs ms"
    using o(2) Cons.prems(6)
    by (auto simp: list_all2_conv_all_nth openable_def q split: prod.splits)
      (metis fst_conv image_eqI nth_mem)
  moreover have "distinct (map fst qs)" using Cons.prems(6) by simp
  ultimately obtain l' where "run_ops (exec_ledger H) (\<lambda>_. True) (map opening_op qs) ?l = Some l'"
    "\<forall>j. dget (lg_positions l') j \<noteq> None \<longleftrightarrow> dget (lg_positions ?l) j \<noteq> None \<or> j \<in> fst ` set qs"
    using Cons.IH [of ?l ms] Cons.prems(1,4) room' by auto
  then show ?case using step by (auto simp: run_ops_Cons q)
qed

definition order_of :: "item_intent list \<Rightarrow> arbitration_decision \<Rightarrow> fill_order" where
  "order_of xs d = (ad_item_id d, text_or_empty (ad_direction d), ad_granted_units d,
     case List.find (\<lambda>x. it_item_id x = ad_item_id d) xs of None \<Rightarrow> 0 | Some x \<Rightarrow> price_of x)"

lemma find_unique:
  "distinct (map f xs) \<Longrightarrow> x \<in> set xs \<Longrightarrow> List.find (\<lambda>y. f y = f x) xs = Some x"
  by (induction xs) (auto simp: image_iff)

definition new_entry :: "ledger \<Rightarrow> arbitration_decision \<Rightarrow> bool" where
  "new_entry l d = (dget (lg_positions l) (ad_item_id d) = None \<and>
     ad_direction d \<in> {Some ''long'', Some ''short''})"

lemma sum_selection:
  fixes f :: "'a \<Rightarrow> rat"
  assumes "distinct ds" "set ds \<subseteq> set xs" "distinct xs" "\<forall>x \<in> set xs. 0 \<le> f x"
  shows "(\<Sum>x\<leftarrow>ds. f x) \<le> (\<Sum>x\<leftarrow>xs. f x)"
  using assms by (auto simp: sum_list_distinct_conv_sum_set intro!: sum_mono2)

text \<open>C3. What a tick admits can be carried out. Take a ledger reached by successful operations,
  the report of a successful arbitration of its published tick, and any selection of the new
  entries among the admitted items - those that hold no position and have a direction - in any
  order; the tick may admit, beside them, any number of items that add to a position or only
  hold one. After \<open>begin_apply\<close> of that tick, opening the selected items one after the other, each
  at its granted size, direction and sizing price, succeeds at every step, and afterwards each of
  them holds a position. The one restriction is the magnitude: the allocatable capital is below
  \<open>10 ^ 25\<close>, so that the 28 digits of the decimal context represent every sum to the cent.\<close>

theorem admitted_items_can_be_opened:
  assumes run: "run_ops (exec_ledger H) pos_fits ops (ledger_init pl) = Some l"
    and arb: "arbitrate Hr l s xs pr policy mps me = Inr r"
    and reopen: "begin_apply (sn_t_ms s) l = (Inr (), l2)"
    and small: "plan_allocatable (lg_plan l) (lg_equity l) < 10 ^ 25"
    and selection: "distinct ds" "set ds \<subseteq> set (filter (new_entry l) (admitted r))"
  shows "\<exists>l'. run_ops (exec_ledger H) (\<lambda>_. True) (map (opening_op \<circ> order_of xs) ds) l2 = Some l' \<and>
    (\<forall>d \<in> set ds. dget (lg_positions l') (ad_item_id d) \<noteq> None)"
proof -
  have ok: "pos_ok l" "pos_fits l"
    using positions.run_inv [OF init_positions run] positions.run_fits [OF run] by simp_all
  have l2: "l2 = l\<lparr>lg_frozen_at := None\<rparr>" using reopen by (auto simp: begin_apply_run split: if_splits)
  have same: "available_capital l2 = available_capital l" "pos_ok l2" "pos_fits l2"
    using ok by (simp_all add: l2 available_capital_def gross_exposure_def pos_ok_def pos_fits_def)
  have "available_capital l \<le> 10 ^ 26" using available_upper [OF ok] small by (auto simp: max_def split: if_splits)
  note sum = committed_is_sum [OF arb this]
  from arb show ?thesis
  proof (cases rule: arbitrate_Inr)
    case (1 rule pairs out kept out')
    note p = pairs_items [OF 1(2)]
    have dx: "distinct (map it_item_id xs)" using 1(2) by (simp add: validate_iff)
    have adm: "admitted r = filter is_admitted (map (\<lambda>px. the (dget out' (pitem px))) pairs)"
      by (simp add: admitted_def 1(5))
    have item: "from_pair px (the (dget out' (pitem px)))" if px: "px \<in> set pairs" for px
      by (rule decision_cases [OF p(2) 1(3,4) px]) (auto dest: settled_sound)
    have ids: "map ad_item_id (map (\<lambda>px. the (dget out' (pitem px))) pairs) = map pitem pairs"
      using item by (simp add: from_pair_def)
    have "distinct (map ad_item_id (rp_decisions r))" unfolding 1(5) ids by (rule p(2))
    then have "distinct (map ad_item_id (admitted r))" by (simp add: admitted_def distinct_map_filter)
    then have dr: "distinct (admitted r)" "inj_on ad_item_id (set (admitted r))" by (simp_all add: distinct_map)
    have sub: "set ds \<subseteq> set (admitted r)" using selection(2) by auto
    have dist: "distinct (map fst (map (order_of xs) ds))"
      using selection(1) dr(2) sub by (simp add: order_of_def comp_def distinct_map inj_on_subset)
    have can: "0 \<le> ad_granted_notional d \<and> (new_entry l d \<longrightarrow> openable l2 (order_of xs d) (ad_granted_notional d))"
      if d: "d \<in> set (admitted r)" for d
    proof -
      from d [unfolded adm] obtain px where px: "px \<in> set pairs" "settled l px d" "from_pair px d"
        using admitted_survives [OF p(2) 1(3,4)] by blast
      have x: "snd px \<in> set xs" "ad_item_id d = pitem px" using p(4) [OF px(1)] px(3) by (auto simp: from_pair_def)
      have "is_admitted d" using d by (simp add: admitted_def)
      with px(2) have s: "0 < ad_granted_units d" "0 < price_of (snd px)"
        "money (dmul (ad_granted_units d) (price_of (snd px))) = Inr (ad_granted_notional d)"
        "dget (lg_attribution l) (pitem px) \<noteq> None" by (auto simp: settled_def)
      have "0 \<le> dmul (ad_granted_units d) (price_of (snd px))" using s by (simp add: dmul_def)
      then have "0 \<le> ad_granted_notional d" using s(3) by (auto simp: money_def dest: quantize_nonneg)
      moreover have "List.find (\<lambda>y. it_item_id y = ad_item_id d) xs = Some (snd px)"
        using find_unique [OF dx x(1)] x(2) by simp
      ultimately show ?thesis using s x(2)
        by (auto simp: openable_def order_of_def l2 text_or_empty_def new_entry_def)
    qed
    have each: "list_all2 (openable l2) (map (order_of xs) ds) (map ad_granted_notional ds)"
      using can selection(2) by (auto simp: list_all2_conv_all_nth dest!: nth_mem)
    have "(\<Sum>d\<leftarrow>ds. ad_granted_notional d) \<le> available_capital l2"
      using sum_selection [OF selection(1) sub dr(1), of ad_granted_notional] can sum same(1) by simp
    with openings_succeed [OF _ same(2,3) _ each dist, of H] small
    obtain l' where "run_ops (exec_ledger H) (\<lambda>_. True) (map opening_op (map (order_of xs) ds)) l2 = Some l'"
      "\<forall>i. dget (lg_positions l') i \<noteq> None \<longleftrightarrow>
         dget (lg_positions l2) i \<noteq> None \<or> i \<in> fst ` set (map (order_of xs) ds)"
      by (auto simp: l2)
    then show ?thesis by (intro exI [of _ l']) (auto simp: order_of_def image_iff)
  qed
qed

section \<open>A concrete tick\<close>

definition demo_intent :: "string \<Rightarrow> int \<Rightarrow> intent_kind \<Rightarrow> rat \<Rightarrow> item_intent" where
  "demo_intent i n kind units =
     \<lparr>it_identity = (demo_identity i)\<lparr>id_pin_ordinal := n\<rparr>, it_t_ms = 7, it_phase = P4, it_kind = kind,
      it_direction = Some ''long'', it_desired_size = units, it_reference_price = Some 64,
      it_effective_price = Some 64, it_price_authority = FreshBarClose, it_reason = ''r'',
      it_contract_version = ''item-intent-v1'', it_evidence = [],
      it_dependencies = [(''snapshot_identity'', VText [])], it_diagnostics = []\<rparr>"

definition demo_profiles :: profiles where
  "demo_profiles = [(''a'', \<lparr>ap_item_id = ''a'', ap_pin_ordinal = 0, ap_instrument_id = Some ''BTC''\<rparr>),
     (''b'', \<lparr>ap_item_id = ''b'', ap_pin_ordinal = 1, ap_instrument_id = None\<rparr>)]"

definition demo_tick_intents :: "item_intent list" where
  "demo_tick_intents = [demo_intent ''a'' 0 NoOp 0, demo_intent ''b'' 1 EntryIntent 5]"

definition demo_arbitration :: "item_intent list \<Rightarrow> arbitration_report res" where
  "demo_arbitration xs = arbitrate (\<lambda>_. []) demo_frozen demo_snapshot xs demo_profiles
     (Some ''block_opposite'') [(''b'', 300)] (Some 400)"

lemma demo_policy: "upper (strip_opt (Some ''block_opposite'')) = ''BLOCK_OPPOSITE''"
  by code_simp

lemma demo_resolved: "resolve_policy (Some ''block_opposite'')
    = Inr (the (dget conflict_policy_table ''BLOCK_OPPOSITE''))"
  by (simp add: resolve_policy_def demo_policy conflict_policy_table_def)

lemma demo_items: "it_item_id (demo_intent i n k u) = i" "is_actionable (demo_intent i n k u) = (k \<in> set actionable_kinds)"
  "it_direction (demo_intent i n k u) = Some ''long''" "snapshot_identity (demo_intent i n k u) = Some []"
  "it_desired_size (demo_intent i n k u) = u" "price_of (demo_intent i n k u) = 64"
  "it_t_ms (demo_intent i n k u) = 7" "it_phase (demo_intent i n k u) = P4" "it_kind (demo_intent i n k u) = k"
  "id_pin_ordinal (it_identity (demo_intent i n k u)) = n"
  by (simp_all add: demo_intent_def it_item_id_def demo_identity_def is_actionable_def snapshot_identity_def price_of_def)

lemma demo_valid: "validate demo_frozen demo_snapshot demo_tick_intents demo_profiles
    = Inr (map (pair_of demo_profiles) demo_tick_intents)"
  by (simp add: validate_iff demo_tick_intents_def demo_items arbitrable_def demo_profiles_def pair_of_def
      priority_def less_eq_prod_def mandatory_kinds_def demo_snapshot_def demo_frozen_def)

lemma demo_capacity:
  "\<exists>d. decide_capacity demo_frozen demo_snapshot (demo_intent ''b'' 1 EntryIntent 5) 0 (Some 300) (Some 400)
     = Inr (d, False) \<and> cd_is_admitted d \<and> cd_granted_units d = 25/8 \<and> cd_outcome d = Capped"
  by (simp add: decide_capacity_def demo_items capacity_eval cong: let_weak_cong)

lemma demo_report:
  "\<exists>r d. demo_arbitration demo_tick_intents = Inr r \<and> rp_policy r = ''BLOCK_OPPOSITE'' \<and>
     admitted r = [d] \<and> ad_item_id d = ''b'' \<and> ad_granted_units d = 25/8 \<and> ad_direction d = Some ''long''"
proof -
  let ?a = "pair_of demo_profiles (demo_intent ''a'' 0 NoOp 0)"
  let ?b = "pair_of demo_profiles (demo_intent ''b'' 1 EntryIntent 5)"
  let ?rule = "the (dget conflict_policy_table ''BLOCK_OPPOSITE'')"
  obtain d where d: "decide_capacity demo_frozen demo_snapshot (demo_intent ''b'' 1 EntryIntent 5) 0 (Some 300) (Some 400)
     = Inr (d, False)" "cd_granted_units d = 25/8" "cd_outcome d = Capped" using demo_capacity by blast
  have none: "conflict_against demo_frozen demo_profiles [] ?b = None"
    by (simp add: conflict_against_def demo_frozen_def demo_ledger_def held_conflict_def opposes_def demo_items)
  have sc: "screen demo_frozen demo_profiles ?rule (map (pair_of demo_profiles) demo_tick_intents) [] []
      = ([(''a'', idle_outcome ?rule ?a)], [?b])"
    using none by (simp add: screen.simps(2) demo_tick_intents_def demo_items actionable_kinds_def)
  have "demo_arbitration demo_tick_intents = arbitrate (\<lambda>_. []) demo_frozen demo_snapshot demo_tick_intents
      demo_profiles (Some ''block_opposite'') [(''b'', 300)] (Some 400)"
    by (simp add: demo_arbitration_def)
  then show ?thesis using d
    by (simp add: arbitrate_def demo_resolved demo_valid sc demo_items)
      (simp add: demo_tick_intents_def demo_items admitted_def is_admitted_def idle_outcome_def decision_base_def
        capacity_result_def capacity_outcome_of_def conflict_policy_table_def)
qed

theorem arbitration_answers_every_intent_witness:
  "\<exists>r. demo_arbitration demo_tick_intents = Inr r \<and>
     mset (map ad_item_id (rp_decisions r)) = {#''a'', ''b''#} \<and> list_all sound_decision (rp_decisions r)"
proof -
  obtain r where r: "demo_arbitration demo_tick_intents = Inr r" using demo_report by blast
  have "keyed demo_profiles" by (simp add: keyed_def demo_profiles_def)
  from arbitration_answers_every_intent [OF r [unfolded demo_arbitration_def] this] r show ?thesis
    by (simp add: demo_tick_intents_def demo_items)
qed

theorem admitted_items_never_oppose_witness:
  "\<exists>r d. demo_arbitration demo_tick_intents = Inr r \<and> d \<in> set (admitted r) \<and> ad_item_id d = ''b'' \<and>
     \<not> clash (ad_direction d) (ad_instrument_id d) (Some ''long'') (Some ''BTC'')"
proof -
  obtain r d where r: "demo_arbitration demo_tick_intents = Inr r" "rp_policy r = ''BLOCK_OPPOSITE''"
    "admitted r = [d]" "ad_item_id d = ''b''" using demo_report by blast
  have "instrument_of demo_profiles ''a'' = Some ''BTC''" by (simp add: instrument_of_def demo_profiles_def)
  with admitted_items_never_oppose [OF r(1) [unfolded demo_arbitration_def] r(2)] r show ?thesis
    by (auto simp: demo_frozen_def demo_ledger_def)
qed

theorem commitments_fit_capital_witness:
  "\<exists>r. demo_arbitration demo_tick_intents = Inr r \<and> 0 \<le> rp_committed_notional r \<and>
     rp_committed_notional r \<le> 700"
proof -
  obtain r where r: "demo_arbitration demo_tick_intents = Inr r" using demo_report by blast
  have "available_capital demo_frozen = 700" by (simp add: capacity_eval cong: let_weak_cong)
  with commitments_fit_capital [OF r [unfolded demo_arbitration_def]] r show ?thesis by auto
qed

theorem arbitration_ignores_intent_order_witness:
  "is_ok (demo_arbitration demo_tick_intents) \<and>
   demo_arbitration (rev demo_tick_intents) = demo_arbitration demo_tick_intents"
proof -
  obtain r where r: "demo_arbitration demo_tick_intents = Inr r" using demo_report by blast
  have "keyed demo_profiles" by (simp add: keyed_def demo_profiles_def)
  from arbitration_ignores_intent_order [OF r [unfolded demo_arbitration_def] _ this, of "rev demo_tick_intents"] r
  show ?thesis by (simp add: demo_arbitration_def)
qed

theorem admitted_items_can_be_opened_witness:
  "\<exists>r l'. demo_arbitration demo_tick_intents = Inr r \<and>
     run_ops (exec_ledger (\<lambda>_. [])) (\<lambda>_. True) (map (opening_op \<circ> order_of demo_tick_intents) (admitted r))
       demo_ledger = Some l' \<and> dget (lg_positions l') ''b'' \<noteq> None"
proof -
  obtain r d where r: "demo_arbitration demo_tick_intents = Inr r" "admitted r = [d]" "ad_item_id d = ''b''"
    "ad_direction d = Some ''long''" using demo_report by blast
  have run: "run_ops (exec_ledger (\<lambda>_. [])) pos_fits [SetPosition ''a'' ''long'' 2 100, PublishSnapshot 7]
      (ledger_init demo_plan) = Some demo_frozen"
    by (simp add: demo_eval demo_frozen_def pos_fits_def cong: let_weak_cong)
  have ba: "begin_apply (sn_t_ms demo_snapshot) demo_frozen = (Inr (), demo_ledger)"
    by (simp add: begin_apply_run demo_snapshot_def demo_frozen_def demo_ledger_def ledger_init_def)
  have "plan_allocatable (lg_plan demo_frozen) (lg_equity demo_frozen) < 10 ^ 25"
    by (simp add: capacity_eval cong: let_weak_cong)
  moreover have "set [d] \<subseteq> set (filter (new_entry demo_frozen) (admitted r))"
    using r by (simp add: demo_frozen_def demo_ledger_def new_entry_def)
  ultimately show ?thesis
    using admitted_items_can_be_opened [OF run r(1) [unfolded demo_arbitration_def] ba, of "[d]"] r by auto
qed

end
