(* ===== verification/Portfolio_Engine.thy ===== *)
theory Portfolio_Engine
  imports Arbitration
begin

text \<open>
  The per-tick phase loop of a shared portfolio (\<^verbatim>\<open>domain/backtest/portfolio_engine.py\<close>): funding,
  mandatory exits, one published snapshot, intents, arbitration, openings and one equity point, at
  every tick of the merged clock; and the close that the end of the data forces.

  A participant is what the loop sees of an item: a record of its hooks. Every hook may change
  whatever the participants keep, so the state behind all of them is one value of a type \<open>'w\<close>
  that is threaded through the calls in their order, and a hook may raise. The part of the run
  context that changes (the ledger, the prices of the tick, that value) is \<open>run_context\<close>, the part
  that never does is \<open>run_setup\<close>. The two digests, the timestamp parser and the number parser are
  parameters, as in the components the loop calls.
\<close>

section \<open>Participants\<close>

record carry_charges =
  cc_funding :: rat
  cc_fee :: rat
  cc_other_cost :: rat

record mandatory_exit =
  me_decision :: item_decision
  me_units :: rat
  me_gross_pnl :: rat
  me_commission :: rat

record booked_close =
  bk_item_id :: string
  bk_gross_pnl :: rat
  bk_commission :: rat
  bk_net_pnl :: rat

record 'w participant =
  pt_identity :: item_identity
  pt_stream :: item_bar_stream
  pt_instrument_id :: "string option"
  pt_carry :: "item_tick_view \<Rightarrow> ('w, carry_charges option) st"
  pt_mandatory_exit :: "item_tick_view \<Rightarrow> open_position \<Rightarrow> ('w, mandatory_exit option) st"
  pt_entry :: "item_tick_view \<Rightarrow> portfolio_snapshot \<Rightarrow> open_position option \<Rightarrow> ('w, item_intent option) st"
  pt_settle :: "item_tick_view \<Rightarrow> arbitration_decision \<Rightarrow> ('w, unit) st"
  pt_finalize :: "item_tick_view \<Rightarrow> ('w, mandatory_exit option) st"

record portfolio_tick =
  pk_t_ms :: int
  pk_timestamp :: string
  pk_views :: "item_tick_view list"
  pk_snapshot :: portfolio_snapshot
  pk_mandatory :: "item_intent list"
  pk_intents :: "item_intent list"
  pk_report :: arbitration_report
  pk_equity_point :: "equity_point option"
  pk_valuation :: valuation_point
  pk_closes :: "booked_close list"

record portfolio_run =
  pr_ledger :: ledger
  pr_ticks :: "portfolio_tick list"
  pr_final_closes :: "booked_close list"

definition dated_points :: "portfolio_run \<Rightarrow> equity_point list" where
  "dated_points r = filter (\<lambda>p. ep_t_ms p \<noteq> None) (lg_equity_points (pr_ledger r))"

definition instants :: "portfolio_run \<Rightarrow> int list" where
  "instants r = map (\<lambda>p. the (ep_t_ms p)) (dated_points r)"

definition max_drawdown :: "portfolio_run \<Rightarrow> rat" where
  "max_drawdown r = (case map ep_drawdown (lg_equity_points (pr_ledger r)) of
     [] \<Rightarrow> 0 | d # ds \<Rightarrow> foldl max d ds)"

definition tick_at :: "portfolio_run \<Rightarrow> string \<Rightarrow> portfolio_tick res" where
  "tick_at r stamp = (case List.find (\<lambda>k. pk_timestamp k = stamp) (pr_ticks r) of
     None \<Rightarrow> raise KeyError | Some k \<Rightarrow> ok k)"

definition participant_id :: "'w participant \<Rightarrow> string" where
  "participant_id p = id_item_id (pt_identity p)"

definition participant_key :: "'w participant \<Rightarrow> int \<times> string" where
  "participant_key p = (id_pin_ordinal (pt_identity p), participant_id p)"

fun ordered_loop :: "string list \<Rightarrow> 'w participant list \<Rightarrow> unit res" where
  "ordered_loop seen [] = ok ()"
| "ordered_loop seen (p # ps) =
     (if participant_id p \<noteq> bs_item_id (pt_stream p) then raise InvalidParticipantError
      else if id_pin_ordinal (pt_identity p) \<noteq> bs_pin_ordinal (pt_stream p)
        then raise InvalidParticipantError
      else if participant_id p \<in> set seen then raise InvalidParticipantError
      else ordered_loop (participant_id p # seen) ps)"

definition ordered_participants :: "'w participant list \<Rightarrow> 'w participant list res" where
  "ordered_participants ps = rbind (ordered_loop [] ps) (\<lambda>_. ok (sort_key participant_key ps))"

definition validated_intent :: "item_intent \<Rightarrow> item_tick_view \<Rightarrow> portfolio_snapshot \<Rightarrow> item_intent res" where
  "validated_intent x v s =
     (if it_item_id x \<noteq> tv_item_id v then raise MisformedIntentError
      else if it_phase x \<noteq> P4 then raise MisformedIntentError
      else if it_kind x \<in> set mandatory_kinds then raise MisformedIntentError
      else if it_t_ms x \<noteq> tv_t_ms v then raise MisformedIntentError
      else if snapshot_identity x \<noteq> Some (sn_identity s) then raise MisformedIntentError
      else ok x)"

definition entry_price :: "item_intent \<Rightarrow> rat res" where
  "entry_price x =
     (case (case it_effective_price x of Some p \<Rightarrow> Some p | None \<Rightarrow> it_reference_price x) of
        None \<Rightarrow> raise UnpriceableAdmissionError | Some p \<Rightarrow> ok p)"

section \<open>The run context\<close>

record 'w run_context =
  rc_ledger :: ledger
  rc_prices :: "(string, rat) dict"
  rc_world :: 'w

record 'w run_setup =
  su_by_item :: "(string, 'w participant) dict"
  su_profiles :: profiles
  su_conflict_policy :: "string option"
  su_max_position :: "(string, rat) dict option"
  su_max_exposure :: "rat option"
  su_digest :: digest
  su_report_digest :: digest
  su_parse :: parser

definition on_ledger :: "(ledger, 'a) st \<Rightarrow> ('w run_context, 'a) st" where
  "on_ledger m c = (case m (rc_ledger c) of (r, l) \<Rightarrow> (r, c\<lparr>rc_ledger := l\<rparr>))"

definition on_world :: "('w, 'a) st \<Rightarrow> ('w run_context, 'a) st" where
  "on_world m c = (case m (rc_world c) of (r, w) \<Rightarrow> (r, c\<lparr>rc_world := w\<rparr>))"

definition dict_item :: "('k, 'v) dict \<Rightarrow> 'k \<Rightarrow> 'v res" where
  "dict_item d k = (case dget d k of None \<Rightarrow> raise KeyError | Some v \<Rightarrow> ok v)"

definition held_position :: "string \<Rightarrow> ('w run_context, open_position option) st" where
  "held_position i = sbind sget (\<lambda>c. sret (dget (lg_positions (rc_ledger c)) i))"

section \<open>The phases\<close>

definition book_carry :: "string \<Rightarrow> carry_charges option \<Rightarrow> ('w run_context, unit) st" where
  "book_carry i charges = (case charges of
     None \<Rightarrow> sret ()
   | Some ch \<Rightarrow>
       sbind (if cc_funding ch \<noteq> 0 then on_ledger (void (book_funding i (cc_funding ch))) else sret ()) (\<lambda>_.
       sbind (if cc_fee ch \<noteq> 0 then on_ledger (void (book_fee i (cc_fee ch))) else sret ()) (\<lambda>_.
       if cc_other_cost ch \<noteq> 0 then on_ledger (void (book_other_cost i (cc_other_cost ch))) else sret ())))"

fun phase_1_carry :: "'w run_setup \<Rightarrow> item_tick_view list \<Rightarrow> string \<Rightarrow> ('w run_context, string) st" where
  "phase_1_carry su [] stamp = sret stamp"
| "phase_1_carry su (v # vs) stamp =
     (if \<not> is_decision v then phase_1_carry su vs stamp
      else
        sbind (slift (dict_item (su_by_item su) (tv_item_id v))) (\<lambda>p.
        sbind (on_world (pt_carry p v)) (\<lambda>charges.
        sbind (book_carry (tv_item_id v) charges) (\<lambda>_.
        phase_1_carry su vs (if stamp = [] then br_timestamp (last (tv_bars v)) else stamp)))))"

definition close_and_book :: "string \<Rightarrow> mandatory_exit \<Rightarrow> ('w run_context, booked_close) st" where
  "close_and_book i x =
     sbind (on_ledger (close_position i)) (\<lambda>_.
     sbind (on_ledger (book_trade i (me_gross_pnl x) (me_commission x))) (\<lambda>net.
     sret \<lparr>bk_item_id = i, bk_gross_pnl = me_gross_pnl x, bk_commission = me_commission x,
       bk_net_pnl = net\<rparr>))"

definition exit_of ::
    "'w run_setup \<Rightarrow> item_tick_view \<Rightarrow> ('w run_context, (item_intent \<times> booked_close) option) st" where
  "exit_of su v =
     (if \<not> is_decision v then sret None
      else
        sbind (held_position (tv_item_id v)) (\<lambda>held.
        case held of
          None \<Rightarrow> sret None
        | Some h \<Rightarrow>
            sbind (slift (dict_item (su_by_item su) (tv_item_id v))) (\<lambda>p.
            sbind (on_world (pt_mandatory_exit p v h)) (\<lambda>event.
            case event of
              None \<Rightarrow> sret None
            | Some x \<Rightarrow>
                sbind (slift (form_mandatory_intent (su_parse su) (pt_identity p) v (me_decision x)
                  (Some (ClosingSize (me_units x))))) (\<lambda>intent.
                sbind (close_and_book (tv_item_id v) x) (\<lambda>b.
                sret (Some (intent, b))))))))"

fun phase_3_mandatory ::
    "'w run_setup \<Rightarrow> item_tick_view list
      \<Rightarrow> ('w run_context, item_intent list \<times> booked_close list) st" where
  "phase_3_mandatory su [] = sret ([], [])"
| "phase_3_mandatory su (v # vs) =
     sbind (exit_of su v) (\<lambda>e.
     sbind (phase_3_mandatory su vs) (\<lambda>(formed, booked).
     sret (case e of None \<Rightarrow> (formed, booked) | Some (x, b) \<Rightarrow> (x # formed, b # booked))))"

definition marks_at :: "item_tick_view list \<Rightarrow> (string, mark_price) dict" where
  "marks_at views = foldl (\<lambda>d v.
     case price_for v of
       (None, authority) \<Rightarrow> d
     | (Some price, authority) \<Rightarrow> dset (tv_item_id v)
         \<lparr>mk_price = price, mk_authority = authority, mk_staleness_ms = staleness_ms v\<rparr> d) [] views"

definition intent_of ::
    "'w run_setup \<Rightarrow> portfolio_snapshot \<Rightarrow> item_tick_view \<Rightarrow> ('w run_context, item_intent option) st" where
  "intent_of su s v =
     (if \<not> is_decision v then sret None
      else
        sbind (slift (dict_item (su_by_item su) (tv_item_id v))) (\<lambda>p.
        sbind (held_position (tv_item_id v)) (\<lambda>held.
        sbind (on_world (pt_entry p v s held)) (\<lambda>wanted.
        case wanted of
          None \<Rightarrow> sret None
        | Some x \<Rightarrow>
            sbind (slift (validated_intent x v s)) (\<lambda>y.
            sbind (if is_actionable x
                then sbind (slift (entry_price x)) (\<lambda>price.
                  smod (\<lambda>c. c\<lparr>rc_prices := dset (tv_item_id v) price (rc_prices c)\<rparr>))
                else sret ()) (\<lambda>_.
            sret (Some y)))))))"

fun phase_4_intents ::
    "'w run_setup \<Rightarrow> portfolio_snapshot \<Rightarrow> item_tick_view list \<Rightarrow> ('w run_context, item_intent list) st" where
  "phase_4_intents su s [] = sret []"
| "phase_4_intents su s (v # vs) =
     sbind (intent_of su s v) (\<lambda>x.
     sbind (phase_4_intents su s vs) (\<lambda>xs.
     sret (case x of None \<Rightarrow> xs | Some y \<Rightarrow> y # xs)))"

definition is_granted :: "arbitration_decision \<Rightarrow> bool" where
  "is_granted d \<longleftrightarrow> is_admitted d \<and> ad_granted_units d > 0 \<and> text_or_empty (ad_direction d) \<noteq> []"

definition apply_decision ::
    "'w run_setup \<Rightarrow> (string, item_tick_view) dict \<Rightarrow> arbitration_decision \<Rightarrow> ('w run_context, unit) st" where
  "apply_decision su views d =
     (if \<not> is_granted d then sret ()
      else if ad_kind d \<noteq> EntryIntent then sthrow UnsupportedIntentKindError
      else
        sbind (sbind sget (\<lambda>c. slift (dict_item (rc_prices c) (ad_item_id d)))) (\<lambda>price.
        sbind (on_ledger (set_position (ad_item_id d) (text_or_empty (ad_direction d))
          (ad_granted_units d) price)) (\<lambda>_.
        sbind (slift (dict_item (su_by_item su) (ad_item_id d))) (\<lambda>p.
        sbind (slift (dict_item views (ad_item_id d))) (\<lambda>v.
        on_world (pt_settle p v d))))))"

fun apply_decisions ::
    "'w run_setup \<Rightarrow> (string, item_tick_view) dict \<Rightarrow> arbitration_decision list
      \<Rightarrow> ('w run_context, unit) st" where
  "apply_decisions su views [] = sret ()"
| "apply_decisions su views (d # ds) =
     sbind (apply_decision su views d) (\<lambda>_. apply_decisions su views ds)"

definition phase_7_apply :: "'w run_setup \<Rightarrow> clock_tick \<Rightarrow> arbitration_report \<Rightarrow> ('w run_context, unit) st" where
  "phase_7_apply su k r =
     sbind (on_ledger (begin_apply (ct_t_ms k))) (\<lambda>_.
     apply_decisions su (foldl (\<lambda>d v. dset (tv_item_id v) v d) [] (ct_views k)) (rp_decisions r))"

definition arbitrate_tick ::
    "'w run_setup \<Rightarrow> portfolio_snapshot \<Rightarrow> item_intent list \<Rightarrow> ('w run_context, arbitration_report) st" where
  "arbitrate_tick su s intents = sbind sget (\<lambda>c.
     slift (arbitrate (su_report_digest su) (rc_ledger c) s intents (su_profiles su)
       (su_conflict_policy su) (case su_max_position su of None \<Rightarrow> [] | Some m \<Rightarrow> m)
       (su_max_exposure su)))"

definition run_tick :: "'w run_setup \<Rightarrow> clock_tick \<Rightarrow> ('w run_context, portfolio_tick) st" where
  "run_tick su k =
     sbind (phase_1_carry su (ct_views k) []) (\<lambda>stamp.
     sbind (phase_3_mandatory su (ct_views k)) (\<lambda>(mandatory, closes).
     sbind (on_ledger (publish_snapshot (su_digest su) (ct_t_ms k))) (\<lambda>s.
     sbind (sbind sget (\<lambda>c. slift (valuation (rc_ledger c) (ct_t_ms k) (marks_at (ct_views k))))) (\<lambda>val.
     sbind (smod (\<lambda>c. c\<lparr>rc_prices := []\<rparr>)) (\<lambda>_.
     sbind (phase_4_intents su s (ct_views k)) (\<lambda>intents.
     sbind (arbitrate_tick su s intents) (\<lambda>report.
     sbind (phase_7_apply su k report) (\<lambda>_.
     sbind (on_ledger (commit_tick (ct_t_ms k))) (\<lambda>pt.
     sret \<lparr>pk_t_ms = ct_t_ms k, pk_timestamp = stamp, pk_views = ct_views k, pk_snapshot = s,
       pk_mandatory = mandatory, pk_intents = intents, pk_report = report, pk_equity_point = pt,
       pk_valuation = val, pk_closes = closes\<rparr>)))))))))"

section \<open>The end of the data\<close>

definition final_close ::
    "string \<times> 'w participant \<Rightarrow> item_tick_view option \<Rightarrow> ('w run_context, booked_close option) st" where
  "final_close ip last_view = (case last_view of
     None \<Rightarrow> sret None
   | Some v \<Rightarrow>
       sbind (on_world (pt_finalize (snd ip) v)) (\<lambda>event.
       case event of
         None \<Rightarrow> sret None
       | Some x \<Rightarrow>
           sbind (held_position (fst ip)) (\<lambda>held.
           case held of
             None \<Rightarrow> sret None
           | Some h \<Rightarrow> sbind (close_and_book (fst ip) x) (\<lambda>b. sret (Some b)))))"

fun final_closes ::
    "(string \<times> 'w participant) list \<Rightarrow> (string, item_tick_view) dict
      \<Rightarrow> ('w run_context, booked_close list) st" where
  "final_closes [] last_views = sret []"
| "final_closes (ip # ips) last_views =
     sbind (final_close ip (dget last_views (fst ip))) (\<lambda>b.
     sbind (final_closes ips last_views) (\<lambda>bs.
     sret (case b of None \<Rightarrow> bs | Some x \<Rightarrow> x # bs)))"

definition phase_10_finalize ::
    "'w run_setup \<Rightarrow> (string, item_tick_view) dict \<Rightarrow> int option
      \<Rightarrow> ('w run_context, booked_close list \<times> equity_point option) st" where
  "phase_10_finalize su last_views last_t = (case last_t of
     None \<Rightarrow> sret ([], None)
   | Some t \<Rightarrow>
       sbind (final_closes (su_by_item su) last_views) (\<lambda>booked.
       sbind (on_ledger (fold_tick t)) (\<lambda>pt.
       sret (booked, pt))))"

section \<open>The run\<close>

text \<open>
  \<open>iter_portfolio\<close> is a generator: it yields the ticks one after the other and then returns the
  run, or raises. It is modelled by the ticks it yields together with its outcome. The locals of
  the loop are the last view on which each item decided and the last instant.
\<close>

definition note_views :: "item_tick_view list \<Rightarrow> (string, item_tick_view) dict \<Rightarrow> (string, item_tick_view) dict" where
  "note_views views d = foldl (\<lambda>d v. if is_decision v then dset (tv_item_id v) v d else d) d views"

definition finish_run ::
    "'w run_setup \<Rightarrow> (string, item_tick_view) dict \<Rightarrow> int option \<Rightarrow> portfolio_tick list \<Rightarrow> 'w run_context
      \<Rightarrow> portfolio_run res" where
  "finish_run su last_views last_t ticks c =
     (case phase_10_finalize su last_views last_t c of
        (Inl e, c') \<Rightarrow> raise e
      | (Inr (closes, pt), c') \<Rightarrow>
          ok \<lparr>pr_ledger = rc_ledger c', pr_ticks = ticks, pr_final_closes = closes\<rparr>)"

fun tick_loop ::
    "'w run_setup \<Rightarrow> clock_tick list \<Rightarrow> exc option \<Rightarrow> (string, item_tick_view) dict \<Rightarrow> int option
      \<Rightarrow> portfolio_tick list \<Rightarrow> 'w run_context \<Rightarrow> portfolio_tick list \<times> portfolio_run res" where
  "tick_loop su [] stop last_views last_t ticks c =
     ([], case stop of Some e \<Rightarrow> raise e | None \<Rightarrow> finish_run su last_views last_t ticks c)"
| "tick_loop su (k # ks) stop last_views last_t ticks c =
     (case run_tick su k c of
        (Inl e, c') \<Rightarrow> ([], raise e)
      | (Inr committed, c') \<Rightarrow>
          (case tick_loop su ks stop (note_views (ct_views k) last_views) (Some (ct_t_ms k))
              (ticks @ [committed]) c' of
             (yielded, r) \<Rightarrow> (committed # yielded, r)))"

record portfolio_request =
  pq_pool_initial :: rat
  pq_shares :: "(string, rat) dict"
  pq_reserve_percent :: rat
  pq_compound :: bool
  pq_conflict_policy :: "string option"
  pq_max_position :: "(string, rat) dict option"
  pq_max_exposure :: "rat option"

definition dict_of_items :: "'w participant list \<Rightarrow> (string, 'w participant) dict" where
  "dict_of_items ps = foldl (\<lambda>d p. dset (participant_id p) p d) [] ps"

definition setup_of ::
    "digest \<Rightarrow> digest \<Rightarrow> parser \<Rightarrow> portfolio_request \<Rightarrow> 'w participant list \<Rightarrow> 'w run_setup" where
  "setup_of H Hr parse q ordered =
     \<lparr>su_by_item = dict_of_items ordered,
      su_profiles = profiles_from_pins (map (\<lambda>p. (participant_id p, pt_instrument_id p)) ordered),
      su_conflict_policy = pq_conflict_policy q, su_max_position = pq_max_position q,
      su_max_exposure = pq_max_exposure q, su_digest = H, su_report_digest = Hr, su_parse = parse\<rparr>"

text \<open>What is checked, and the ledger that is built, before the first tick.\<close>

definition prepare_run ::
    "portfolio_request \<Rightarrow> 'w participant list \<Rightarrow> ('w participant list \<times> ledger) res" where
  "prepare_run q ps =
     rbind (ordered_participants ps) (\<lambda>ordered.
     let ids = map participant_id ordered in
     if ordered = [] then raise InvalidParticipantError
     else if \<not> list_all (\<lambda>i. dget (pq_shares q) i \<noteq> None) ids then raise InvalidParticipantError
     else if \<not> fst ` set (case pq_max_position q of None \<Rightarrow> [] | Some m \<Rightarrow> m) \<subseteq> set ids
       then raise InvalidParticipantError
     else
       rbind (ledger_for_items (pq_pool_initial q) (pq_reserve_percent q)
         (foldl (\<lambda>d i. dset i (the (dget (pq_shares q) i)) d) [] ids) (pq_compound q)) (\<lambda>l.
       ok (ordered, l)))"

definition iter_portfolio ::
    "digest \<Rightarrow> digest \<Rightarrow> (string \<Rightarrow> int option) \<Rightarrow> parser \<Rightarrow> portfolio_request \<Rightarrow> 'w participant list \<Rightarrow> 'w
      \<Rightarrow> portfolio_tick list \<times> portfolio_run res" where
  "iter_portfolio H Hr key parse q ps w =
     (case prepare_run q ps of
        Inl e \<Rightarrow> ([], raise e)
      | Inr (ordered, l) \<Rightarrow>
          (case iter_ticks key parse (map pt_stream ordered) of
             (ks, stop) \<Rightarrow>
               tick_loop (setup_of H Hr parse q ordered) ks stop [] None []
                 \<lparr>rc_ledger = l, rc_prices = [], rc_world = w\<rparr>))"

definition run_portfolio ::
    "digest \<Rightarrow> digest \<Rightarrow> (string \<Rightarrow> int option) \<Rightarrow> parser \<Rightarrow> portfolio_request \<Rightarrow> 'w participant list \<Rightarrow> 'w
      \<Rightarrow> portfolio_run res" where
  "run_portfolio H Hr key parse q ps w = snd (iter_portfolio H Hr key parse q ps w)"

end
