(* ===== verification/Portfolio_Run.thy ===== *)
theory Portfolio_Run
  imports Portfolio_Engine Arbitration_Safety Ledger_Safety
begin

text \<open>
  What a finished portfolio run is worth: the ledger of the run is the replay of the published
  ticks, and the composite curve is ordered in time.
\<close>

section \<open>Successful calls on the run context\<close>

lemma st_ok [simp]:
  "sret x s = (Inr y, s') \<longleftrightarrow> y = x \<and> s' = s"
  "sthrow e s = (Inr y, s') \<longleftrightarrow> False"
  "slift r s = (Inr y, s') \<longleftrightarrow> r = Inr y \<and> s' = s"
  "sget s = (Inr z, s') \<longleftrightarrow> z = s \<and> s' = s"
  "smod f s = (Inr u, s') \<longleftrightarrow> s' = f s"
  by (auto simp: st_run)

lemma context_ok:
  "on_ledger m c = (Inr x, c') \<longleftrightarrow> (\<exists>l. m (rc_ledger c) = (Inr x, l) \<and> c' = c\<lparr>rc_ledger := l\<rparr>)"
  "on_world n c = (Inr y, c') \<longleftrightarrow> (\<exists>w. n (rc_world c) = (Inr y, w) \<and> c' = c\<lparr>rc_world := w\<rparr>)"
  by (auto simp: on_ledger_def on_world_def split: prod.splits)

lemma held_position_ok:
  "held_position i c = (Inr h, c') \<longleftrightarrow> h = dget (lg_positions (rc_ledger c)) i \<and> c' = c"
  by (auto simp: held_position_def sbind_ok_iff)

lemma dict_item_ok: "dict_item d k = Inr v \<longleftrightarrow> dget d k = Some v"
  by (simp add: dict_item_def split: option.split)

lemmas call_ok = sbind_ok_iff context_ok held_position_ok dict_item_ok

abbreviation replays :: "digest \<Rightarrow> ledger_op list \<Rightarrow> ledger \<Rightarrow> ledger \<Rightarrow> bool" where
  "replays H ops l l' \<equiv> run_ops (exec_ledger H) (\<lambda>_. True) ops l = Some l'"

lemma replays_Nil: "replays H [] l l' \<longleftrightarrow> l' = l"
  by auto

lemma replays_Cons:
  "replays H (p # ps) l l' \<longleftrightarrow> (\<exists>m. exec_ledger H p l = (Inr (), m) \<and> replays H ps m l')"
  by (simp add: run_ops_Cons)

lemma replays_append:
  "replays H (ps @ qs) l l' \<longleftrightarrow> (\<exists>m. replays H ps l m \<and> replays H qs m l')"
  by (induction ps arbitrary: l) (auto simp: replays_Cons)

lemma replays_appendI: "replays H ps l m \<Longrightarrow> replays H qs m l' \<Longrightarrow> replays H (ps @ qs) l l'"
  by (auto simp: replays_append)

lemma replays_one: "replays H [p] l l' \<longleftrightarrow> exec_ledger H p l = (Inr (), l')"
  by (simp add: replays_Cons)

section \<open>What a tick does to the ledger\<close>

definition is_cost :: "ledger_op \<Rightarrow> bool" where
  "is_cost p = (case p of BookFunding i a \<Rightarrow> True | BookFee i a \<Rightarrow> True | BookOtherCost i a \<Rightarrow> True
     | _ \<Rightarrow> False)"

definition close_ops :: "booked_close \<Rightarrow> ledger_op list" where
  "close_ops b = [ClosePosition (bk_item_id b), BookTrade (bk_item_id b) (bk_gross_pnl b) (bk_commission b)]"

definition opening_ops :: "portfolio_tick \<Rightarrow> ledger_op list" where
  "opening_ops k = map (opening_op \<circ> order_of (pk_intents k)) (filter is_granted (rp_decisions (pk_report k)))"

text \<open>The operations of a published tick, given the costs the items stated.\<close>

definition tick_ops :: "ledger_op list \<Rightarrow> portfolio_tick \<Rightarrow> ledger_op list" where
  "tick_ops costs k = costs @ concat (map close_ops (pk_closes k)) @
     [PublishSnapshot (pk_t_ms k), BeginApply (pk_t_ms k)] @ opening_ops k @ [CommitTick (pk_t_ms k)]"

lemma cost_run:
  assumes "(if a \<noteq> 0 then on_ledger (void m) else sret ()) c = (Inr u, c')"
    and "exec_ledger H p = void m" "is_cost p"
  shows "\<exists>ops. list_all is_cost ops \<and> replays H ops (rc_ledger c) (rc_ledger c') \<and>
    rc_prices c' = rc_prices c"
proof (cases "a = 0")
  case True
  with assms(1) show ?thesis by (intro exI [of _ "[]"]) auto
next
  case False
  with assms show ?thesis by (intro exI [of _ "[p]"]) (auto simp: context_ok replays_one)
qed

lemma book_carry_replays:
  assumes "book_carry i ch c = (Inr u, c')"
  shows "\<exists>ops. list_all is_cost ops \<and> replays H ops (rc_ledger c) (rc_ledger c') \<and> rc_prices c' = rc_prices c"
proof (cases ch)
  case None
  with assms show ?thesis by (intro exI [of _ "[]"]) (simp add: book_carry_def)
next
  case (Some x)
  from assms obtain c1 c2 u1 u2 where
    1: "(if cc_funding x \<noteq> 0 then on_ledger (void (book_funding i (cc_funding x))) else sret ()) c = (Inr u1, c1)"
    and 2: "(if cc_fee x \<noteq> 0 then on_ledger (void (book_fee i (cc_fee x))) else sret ()) c1 = (Inr u2, c2)"
    and 3: "(if cc_other_cost x \<noteq> 0 then on_ledger (void (book_other_cost i (cc_other_cost x))) else sret ()) c2
      = (Inr u, c')"
    by (auto simp: book_carry_def Some sbind_ok_iff)
  from cost_run [OF 1, of H "BookFunding i (cc_funding x)"] obtain o1 where
    o1: "list_all is_cost o1" "replays H o1 (rc_ledger c) (rc_ledger c1)" "rc_prices c1 = rc_prices c"
    by (auto simp: is_cost_def)
  from cost_run [OF 2, of H "BookFee i (cc_fee x)"] obtain o2 where
    o2: "list_all is_cost o2" "replays H o2 (rc_ledger c1) (rc_ledger c2)" "rc_prices c2 = rc_prices c1"
    by (auto simp: is_cost_def)
  from cost_run [OF 3, of H "BookOtherCost i (cc_other_cost x)"] obtain o3 where
    o3: "list_all is_cost o3" "replays H o3 (rc_ledger c2) (rc_ledger c')" "rc_prices c' = rc_prices c2"
    by (auto simp: is_cost_def)
  have "replays H (o1 @ o2 @ o3) (rc_ledger c) (rc_ledger c')"
    by (rule replays_appendI [OF o1(2) replays_appendI [OF o2(2) o3(2)]])
  then show ?thesis using o1 o2 o3 by (intro exI [of _ "o1 @ o2 @ o3"]) simp
qed

lemma phase_1_replays:
  fixes su :: "'w run_setup"
  shows "phase_1_carry su vs stamp c = (Inr x, c') \<Longrightarrow>
    \<exists>ops. list_all is_cost ops \<and> replays H ops (rc_ledger c) (rc_ledger c') \<and> rc_prices c' = rc_prices c"
proof (induction vs arbitrary: stamp c)
  case Nil
  then show ?case by (intro exI [of _ "[]"]) simp
next
  case (Cons v vs)
  show ?case
  proof (cases "is_decision v")
    case False
    with Cons show ?thesis by simp
  next
    case True
    with Cons.prems obtain p :: "'w participant" and ch w c2 st where
      hook: "pt_carry p v (rc_world c) = (Inr ch, w)"
      and carry: "book_carry (tv_item_id v) ch (c\<lparr>rc_world := w\<rparr>) = (Inr (), c2)"
      and rest: "phase_1_carry su vs st c2 = (Inr x, c')"
      by (simp add: call_ok) blast
    from book_carry_replays [OF carry, of H] obtain o1 where
      o1: "list_all is_cost o1" "replays H o1 (rc_ledger c) (rc_ledger c2)" "rc_prices c2 = rc_prices c" by auto
    from Cons.IH [OF rest] obtain o2 where
      o2: "list_all is_cost o2" "replays H o2 (rc_ledger c2) (rc_ledger c')" "rc_prices c' = rc_prices c2" by auto
    show ?thesis using o1 o2 replays_appendI [OF o1(2) o2(2)]
      by (intro exI [of _ "o1 @ o2"]) simp
  qed
qed

lemma close_and_book_replays:
  "close_and_book i x c = (Inr b, c') \<Longrightarrow> replays H (close_ops b) (rc_ledger c) (rc_ledger c') \<and>
    bk_item_id b = i \<and> rc_prices c' = rc_prices c \<and> rc_world c' = rc_world c"
  by (auto simp: close_and_book_def call_ok close_ops_def replays_Cons replays_Nil void_ok)

lemma exit_of_replays:
  assumes "exit_of su v c = (Inr e, c')"
  shows "replays H (case e of None \<Rightarrow> [] | Some (x, b) \<Rightarrow> close_ops b) (rc_ledger c) (rc_ledger c') \<and>
    rc_prices c' = rc_prices c"
  using assms
  by (auto simp: exit_of_def call_ok replays_Nil split: if_splits option.splits
      dest!: close_and_book_replays [where H = H])

lemma phase_3_replays:
  "phase_3_mandatory su vs c = (Inr (formed, booked), c') \<Longrightarrow>
    replays H (concat (map close_ops booked)) (rc_ledger c) (rc_ledger c') \<and> rc_prices c' = rc_prices c"
proof (induction vs arbitrary: c formed booked)
  case Nil
  then show ?case by (simp add: replays_Nil)
next
  case (Cons v vs)
  then obtain e c1 f b where one: "exit_of su v c = (Inr e, c1)"
    and rest: "phase_3_mandatory su vs c1 = (Inr (f, b), c')"
    and out: "(formed, booked) = (case e of None \<Rightarrow> (f, b) | Some (x, y) \<Rightarrow> (x # f, y # b))"
    by (auto simp: sbind_ok_iff)
  note r1 = exit_of_replays [OF one, of H] and r2 = Cons.IH [OF rest]
  show ?case
  proof (cases e)
    case None
    with out r1 r2 show ?thesis by (simp add: replays_Nil)
  next
    case (Some xy)
    with out r1 r2 replays_appendI [OF conjunct1 [OF r1] conjunct1 [OF r2]] show ?thesis by (auto split: prod.splits)
  qed
qed

text \<open>An intent that the loop accepts speaks for its item, its tick and its snapshot.\<close>

definition bound_to :: "portfolio_snapshot \<Rightarrow> item_tick_view \<Rightarrow> item_intent \<Rightarrow> bool" where
  "bound_to s v x \<longleftrightarrow> is_decision v \<and> it_item_id x = tv_item_id v \<and> it_phase x = P4 \<and>
     it_kind x \<notin> set mandatory_kinds \<and> it_t_ms x = tv_t_ms v \<and> snapshot_identity x = Some (sn_identity s)"

lemma validated_intent_ok: "validated_intent x v s = Inr y \<and> is_decision v \<longleftrightarrow> y = x \<and> bound_to s v x"
  by (auto simp: validated_intent_def bound_to_def)

definition priced_by :: "item_intent list \<Rightarrow> (string, rat) dict \<Rightarrow> bool" where
  "priced_by xs prices \<longleftrightarrow> (\<forall>i p. dget prices i = Some p \<longrightarrow>
     (\<exists>x \<in> set xs. it_item_id x = i \<and> price_of x = p))"

lemma entry_price_of: "entry_price x = Inr p \<Longrightarrow> price_of x = p"
  by (auto simp: entry_price_def price_of_def split: option.splits)

lemma intent_of_ok:
  assumes "intent_of su s v c = (Inr e, c')"
  shows "rc_ledger c' = rc_ledger c \<and>
    (case e of None \<Rightarrow> rc_prices c' = rc_prices c
     | Some x \<Rightarrow> bound_to s v x \<and> dget (su_by_item su) (tv_item_id v) \<noteq> None \<and> (\<forall>xs. priced_by xs (rc_prices c) \<longrightarrow> priced_by (xs @ [x]) (rc_prices c')))"
proof (cases "is_decision v")
  case False
  with assms show ?thesis by (simp add: intent_of_def)
next
  case True
  from assms True obtain p :: "'a participant" and w wanted where
    known: "dget (su_by_item su) (tv_item_id v) = Some p" and hook: "pt_entry p v s (dget (lg_positions (rc_ledger c)) (tv_item_id v)) (rc_world c) = (Inr wanted, w)"
    and rest: "(case wanted of None \<Rightarrow> sret None | Some x \<Rightarrow>
        sbind (slift (validated_intent x v s)) (\<lambda>y.
        sbind (if is_actionable x
          then sbind (slift (entry_price x)) (\<lambda>price.
            smod (\<lambda>c. c\<lparr>rc_prices := dset (tv_item_id v) price (rc_prices c)\<rparr>))
          else sret ()) (\<lambda>_. sret (Some y)))) (c\<lparr>rc_world := w\<rparr>) = (Inr e, c')"
    by (simp add: intent_of_def call_ok) blast
  show ?thesis
  proof (cases wanted)
    case None
    with rest show ?thesis by simp
  next
    case (Some x)
    with rest obtain y where y: "validated_intent x v s = Inr y" "e = Some y" by (auto simp: sbind_ok_iff)
    with True validated_intent_ok [of x v s y] have x: "e = Some x" "bound_to s v x" by simp_all
    show ?thesis
    proof (cases "is_actionable x")
      case False
      with rest Some x known show ?thesis by (auto simp: call_ok priced_by_def)
    next
      case act: True
      with rest Some obtain price where price: "entry_price x = Inr price"
        and c': "c' = c\<lparr>rc_world := w, rc_prices := dset (tv_item_id v) price (rc_prices c)\<rparr>"
        by (auto simp: call_ok)
      show ?thesis using x known entry_price_of [OF price]
        by (auto simp: c' priced_by_def bound_to_def split: if_splits)
    qed
  qed
qed

lemma phase_4_ok:
  "phase_4_intents su s vs c = (Inr xs, c') \<Longrightarrow> rc_ledger c' = rc_ledger c \<and>
    (\<forall>x \<in> set xs. (\<exists>v \<in> set vs. bound_to s v x) \<and> dget (su_by_item su) (it_item_id x) \<noteq> None) \<and>
    (\<forall>ys. priced_by ys (rc_prices c) \<longrightarrow> priced_by (ys @ xs) (rc_prices c'))"
proof (induction vs arbitrary: c xs)
  case Nil
  then show ?case by simp
next
  case (Cons v vs)
  then obtain e c1 zs where one: "intent_of su s v c = (Inr e, c1)"
    and rest: "phase_4_intents su s vs c1 = (Inr zs, c')"
    and out: "xs = (case e of None \<Rightarrow> zs | Some y \<Rightarrow> y # zs)"
    by (auto simp: sbind_ok_iff)
  note a = intent_of_ok [OF one] and b = Cons.IH [OF rest]
  show ?case
  proof (cases e)
    case None
    with a b out show ?thesis by auto
  next
    case (Some x)
    have "priced_by (ys @ x # zs) (rc_prices c')" if ys: "priced_by ys (rc_prices c)" for ys
    proof -
      have "priced_by (ys @ [x]) (rc_prices c1)" using a ys Some by simp
      then have "priced_by ((ys @ [x]) @ zs) (rc_prices c')" using b by blast
      then show ?thesis by simp
    qed
    with a b out Some show ?thesis by (auto simp: bound_to_def)
  qed
qed

lemma priced_order:
  assumes "priced_by xs prices" "distinct (map it_item_id xs)" "dget prices (ad_item_id d) = Some p"
  shows "opening_op (order_of xs d) = SetPosition (ad_item_id d) (text_or_empty (ad_direction d)) (ad_granted_units d) p"
proof -
  obtain x where x: "x \<in> set xs" "it_item_id x = ad_item_id d" "price_of x = p"
    using assms(1,3) by (auto simp: priced_by_def)
  have "List.find (\<lambda>y. it_item_id y = ad_item_id d) xs = Some x"
    using find_unique [OF assms(2) x(1)] x(2) by simp
  then show ?thesis by (simp add: order_of_def opening_op_def x(3))
qed

lemma apply_decision_replays:
  assumes "apply_decision su views d c = (Inr u, c')"
    and "priced_by xs (rc_prices c)" "distinct (map it_item_id xs)"
  shows "replays H (if is_granted d then [opening_op (order_of xs d)] else []) (rc_ledger c) (rc_ledger c') \<and>
    rc_prices c' = rc_prices c"
proof (cases "is_granted d")
  case False
  with assms(1) show ?thesis by (simp add: apply_decision_def)
next
  case True
  with assms(1) obtain price pos l where price: "dget (rc_prices c) (ad_item_id d) = Some price"
    and set: "set_position (ad_item_id d) (text_or_empty (ad_direction d)) (ad_granted_units d) price (rc_ledger c)
      = (Inr pos, l)"
    and c': "rc_ledger c' = l" "rc_prices c' = rc_prices c"
    by (auto simp: apply_decision_def call_ok split: if_splits)
  show ?thesis using True set priced_order [OF assms(2,3) price] c' by (simp add: replays_one void_ok)
qed

lemma apply_decisions_replays:
  "apply_decisions su views ds c = (Inr u, c') \<Longrightarrow> priced_by xs (rc_prices c) \<Longrightarrow>
    distinct (map it_item_id xs) \<Longrightarrow>
    replays H (map (opening_op \<circ> order_of xs) (filter is_granted ds)) (rc_ledger c) (rc_ledger c')"
proof (induction ds arbitrary: c)
  case Nil
  then show ?case by (simp add: replays_Nil)
next
  case (Cons d ds)
  then obtain v c1 where one: "apply_decision su views d c = (Inr v, c1)"
    and rest: "apply_decisions su views ds c1 = (Inr u, c')" by (auto simp: sbind_ok_iff)
  note a = conjunct1 [OF apply_decision_replays [OF one Cons.prems(2,3), of H]]
    and p = conjunct2 [OF apply_decision_replays [OF one Cons.prems(2,3), of H]]
  have tail: "replays H (map (opening_op \<circ> order_of xs) (filter is_granted ds)) (rc_ledger c1) (rc_ledger c')"
    by (rule Cons.IH [OF rest _ Cons.prems(3)]) (simp only: p Cons.prems(2))
  show ?case
  proof (cases "is_granted d")
    case True
    with replays_appendI [OF a tail] show ?thesis by (simp add: comp_def)
  next
    case False
    with a tail show ?thesis by (simp add: replays_Nil comp_def)
  qed
qed

lemma arbitrate_tick_ok:
  "arbitrate_tick su s xs c = (Inr r, c') \<longleftrightarrow> c' = c \<and>
     arbitrate (su_report_digest su) (rc_ledger c) s xs (su_profiles su) (su_conflict_policy su)
       (case su_max_position su of None \<Rightarrow> [] | Some m \<Rightarrow> m) (su_max_exposure su) = Inr r"
  by (auto simp: arbitrate_tick_def sbind_ok_iff)

text \<open>A committed tick, taken apart: the context after every phase.\<close>

lemma run_tickE:
  assumes "run_tick su k c = (Inr t, c')"
  obtains c1 c2 c3 c4 c5 l3 l6 stamp where
    "phase_1_carry su (ct_views k) [] c = (Inr stamp, c1)"
    "phase_3_mandatory su (ct_views k) c1 = (Inr (pk_mandatory t, pk_closes t), c2)"
    "publish_snapshot (su_digest su) (ct_t_ms k) (rc_ledger c2) = (Inr (pk_snapshot t), l3)"
    "c3 = c2\<lparr>rc_ledger := l3, rc_prices := []\<rparr>"
    "valuation l3 (ct_t_ms k) (marks_at (ct_views k)) = Inr (pk_valuation t)"
    "phase_4_intents su (pk_snapshot t) (ct_views k) c3 = (Inr (pk_intents t), c4)"
    "arbitrate (su_report_digest su) (rc_ledger c4) (pk_snapshot t) (pk_intents t) (su_profiles su)
       (su_conflict_policy su) (case su_max_position su of None \<Rightarrow> [] | Some m \<Rightarrow> m) (su_max_exposure su)
     = Inr (pk_report t)"
    "phase_7_apply su k (pk_report t) c4 = (Inr (), c5)"
    "commit_tick (ct_t_ms k) (rc_ledger c5) = (Inr (pk_equity_point t), l6)"
    "c' = c5\<lparr>rc_ledger := l6\<rparr>" "pk_t_ms t = ct_t_ms k" "pk_views t = ct_views k" "pk_timestamp t = stamp"
proof -
  from assms obtain stamp c1 m cl c2 s l3 val xs c4 r c5 pt l6 where
    "phase_1_carry su (ct_views k) [] c = (Inr stamp, c1)"
    "phase_3_mandatory su (ct_views k) c1 = (Inr (m, cl), c2)"
    "publish_snapshot (su_digest su) (ct_t_ms k) (rc_ledger c2) = (Inr s, l3)"
    "valuation l3 (ct_t_ms k) (marks_at (ct_views k)) = Inr val"
    "phase_4_intents su s (ct_views k) (c2\<lparr>rc_ledger := l3, rc_prices := []\<rparr>) = (Inr xs, c4)"
    "arbitrate_tick su s xs c4 = (Inr r, c4)"
    "phase_7_apply su k r c4 = (Inr (), c5)"
    "commit_tick (ct_t_ms k) (rc_ledger c5) = (Inr pt, l6)"
    "c' = c5\<lparr>rc_ledger := l6\<rparr>"
    "t = \<lparr>pk_t_ms = ct_t_ms k, pk_timestamp = stamp, pk_views = ct_views k, pk_snapshot = s,
       pk_mandatory = m, pk_intents = xs, pk_report = r, pk_equity_point = pt,
       pk_valuation = val, pk_closes = cl\<rparr>"
    unfolding run_tick_def by (auto simp: sbind_ok_iff context_ok arbitrate_tick_ok)
  then show ?thesis by (intro that [OF _ _ _ refl]) (simp_all add: arbitrate_tick_ok)
qed

lemma run_tick_replays:
  assumes "run_tick su k c = (Inr t, c')"
  shows "\<exists>costs. list_all is_cost costs \<and> replays (su_digest su) (tick_ops costs t) (rc_ledger c) (rc_ledger c')"
  using assms
proof (cases rule: run_tickE)
  case (1 c1 c2 c3 c4 c5 l3 l6 stamp)
  let ?H = "su_digest su"
  from phase_1_replays [OF 1(1), of ?H] obtain costs where
    costs: "list_all is_cost costs" "replays ?H costs (rc_ledger c) (rc_ledger c1)" by auto
  have exits: "replays ?H (concat (map close_ops (pk_closes t))) (rc_ledger c1) (rc_ledger c2)"
    using phase_3_replays [OF 1(2), of ?H] by simp
  note four = phase_4_ok [OF 1(6)]
  have "priced_by [] (rc_prices c3)" by (simp add: 1(4) priced_by_def)
  with four have "priced_by ([] @ pk_intents t) (rc_prices c4)" by blast
  then have "priced_by (pk_intents t) (rc_prices c4)" by simp
  moreover have "distinct (map it_item_id (pk_intents t))"
    using 1(7) by (rule arbitrate_Inr) (simp add: validate_iff)
  moreover from 1(8) obtain l where started: "begin_apply (ct_t_ms k) (rc_ledger c4) = (Inr (), l)"
    and opens: "apply_decisions su (foldl (\<lambda>d v. dset (tv_item_id v) v d) [] (ct_views k))
      (rp_decisions (pk_report t)) (c4\<lparr>rc_ledger := l\<rparr>) = (Inr (), c5)"
    by (auto simp: phase_7_apply_def call_ok)
  ultimately have "replays ?H (opening_ops t) l (rc_ledger c5)"
    using apply_decisions_replays [OF opens, of "pk_intents t" ?H] by (simp add: opening_ops_def)
  moreover have "replays ?H [PublishSnapshot (ct_t_ms k), BeginApply (ct_t_ms k)] (rc_ledger c2) l"
    using 1(3) started four by (auto simp: replays_Cons replays_Nil void_ok 1(4))
  moreover have "replays ?H [CommitTick (ct_t_ms k)] (rc_ledger c5) (rc_ledger c')"
    using 1(9,10) by (auto simp: replays_one void_ok)
  ultimately have "replays ?H (tick_ops costs t) (rc_ledger c) (rc_ledger c')"
    unfolding tick_ops_def 1(11)
    by (blast intro: replays_appendI costs(2) exits)
  with costs(1) show ?thesis by blast
qed

section \<open>The loop\<close>

fun ticks_run ::
    "'w run_setup \<Rightarrow> clock_tick list \<Rightarrow> 'w run_context \<Rightarrow> portfolio_tick list \<Rightarrow> 'w run_context \<Rightarrow> bool" where
  "ticks_run su [] c [] c' \<longleftrightarrow> c' = c"
| "ticks_run su (k # ks) c (t # ts) c' \<longleftrightarrow> (\<exists>c1. run_tick su k c = (Inr t, c1) \<and> ticks_run su ks c1 ts c')"
| "ticks_run su ks c ts c' \<longleftrightarrow> False"

definition views_seen :: "clock_tick list \<Rightarrow> (string, item_tick_view) dict \<Rightarrow> (string, item_tick_view) dict" where
  "views_seen ks d = foldl (\<lambda>d k. note_views (ct_views k) d) d ks"

definition last_time :: "int option \<Rightarrow> clock_tick list \<Rightarrow> int option" where
  "last_time t ks = (if ks = [] then t else Some (ct_t_ms (last ks)))"

lemma tick_loop_ok:
  "tick_loop su ks stop lv lt ts c = (ys, Inr r) \<longleftrightarrow> stop = None \<and>
     (\<exists>c'. ticks_run su ks c ys c' \<and>
       finish_run su (views_seen ks lv) (last_time lt ks) (ts @ ys) c' = Inr r)"
proof (induction ks arbitrary: lv lt ts c ys)
  case Nil
  show ?case
    by (cases ys) (auto simp: views_seen_def last_time_def split: option.splits)
next
  case (Cons k ks)
  obtain x c1 where one: "run_tick su k c = (x, c1)" by fastforce
  show ?case
  proof (cases x)
    case (Inl e)
    with one show ?thesis by (cases ys) auto
  next
    case (Inr t)
    obtain zs q where rest: "tick_loop su ks stop (note_views (ct_views k) lv) (Some (ct_t_ms k)) (ts @ [t]) c1 = (zs, q)"
      by fastforce
    have lt: "last_time (Some (ct_t_ms k)) ks = last_time lt (k # ks)" by (simp add: last_time_def)
    have vs: "views_seen ks (note_views (ct_views k) lv) = views_seen (k # ks) lv" by (simp add: views_seen_def)
    note ih = Cons.IH [of "note_views (ct_views k) lv" "Some (ct_t_ms k)" "ts @ [t]" c1, unfolded lt vs]
    show ?thesis
    proof (cases ys)
      case Nil
      with one Inr rest show ?thesis by simp
    next
      case (Cons y zs')
      have "tick_loop su (k # ks) stop lv lt ts c = (ys, Inr r) \<longleftrightarrow>
          y = t \<and> tick_loop su ks stop (note_views (ct_views k) lv) (Some (ct_t_ms k)) (ts @ [t]) c1 = (zs', Inr r)"
        using one Inr rest Cons by auto
      also have "\<dots> \<longleftrightarrow> y = t \<and> stop = None \<and> (\<exists>c'. ticks_run su ks c1 zs' c' \<and>
          finish_run su (views_seen (k # ks) lv) (last_time lt (k # ks)) ((ts @ [t]) @ zs') c' = Inr r)"
        unfolding ih ..
      finally show ?thesis using one Inr Cons by auto
    qed
  qed
qed

text \<open>A finished run, taken apart.\<close>

lemma run_portfolioE:
  assumes "run_portfolio H Hr key parse q ps w = Inr r"
  obtains ordered l ks c where
    "prepare_run q ps = Inr (ordered, l)"
    "iter_ticks key parse (map pt_stream ordered) = (ks, None)"
    "ticks_run (setup_of H Hr parse q ordered) ks \<lparr>rc_ledger = l, rc_prices = [], rc_world = w\<rparr> (pr_ticks r) c"
    "finish_run (setup_of H Hr parse q ordered) (views_seen ks []) (last_time None ks) (pr_ticks r) c = Inr r"
proof -
  obtain ys where "iter_portfolio H Hr key parse q ps w = (ys, Inr r)"
    using assms by (metis run_portfolio_def prod.collapse)
  then obtain ordered l ks where prep: "prepare_run q ps = Inr (ordered, l)"
    and ks: "iter_ticks key parse (map pt_stream ordered) = (ks, None)"
    and loop: "tick_loop (setup_of H Hr parse q ordered) ks None [] None []
      \<lparr>rc_ledger = l, rc_prices = [], rc_world = w\<rparr> = (ys, Inr r)"
    by (auto simp: iter_portfolio_def tick_loop_ok split: sum.splits prod.splits)
  from loop obtain c where c: "ticks_run (setup_of H Hr parse q ordered) ks
      \<lparr>rc_ledger = l, rc_prices = [], rc_world = w\<rparr> ys c"
    "finish_run (setup_of H Hr parse q ordered) (views_seen ks []) (last_time None ks) ys c = Inr r"
    by (auto simp: tick_loop_ok)
  have "pr_ticks r = ys" using c(2) by (auto simp: finish_run_def split: prod.splits sum.splits)
  with that [OF prep ks] c show ?thesis by simp
qed

lemma ticks_run_length: "ticks_run su ks c ts c' \<Longrightarrow> length ts = length ks"
  by (induction su ks c ts c' rule: ticks_run.induct) auto

lemma ticks_run_axis:
  "ticks_run su ks c ts c' \<Longrightarrow> map pk_t_ms ts = map ct_t_ms ks \<and> map pk_views ts = map ct_views ks"
  by (induction su ks c ts c' rule: ticks_run.induct) (auto elim: run_tickE)

lemma ticks_run_member:
  "ticks_run su ks c ts c' \<Longrightarrow> t \<in> set ts \<Longrightarrow> \<exists>k \<in> set ks. \<exists>c1 c2. run_tick su k c1 = (Inr t, c2)"
proof (induction su ks c ts c' rule: ticks_run.induct)
  case (2 su k ks c t0 ts c')
  from "2.prems"(1) obtain c1 where one: "run_tick su k c = (Inr t0, c1)" and rest: "ticks_run su ks c1 ts c'"
    by auto
  show ?case
  proof (cases "t = t0")
    case True
    then show ?thesis using one by auto
  next
    case False
    then have "t \<in> set ts" using "2.prems"(2) by simp
    from "2.IH" [OF rest this] show ?thesis by auto
  qed
qed simp_all

lemma ticks_run_replays:
  "ticks_run su ks c ts c' \<Longrightarrow> \<exists>costs. length costs = length ts \<and> list_all (list_all is_cost) costs \<and>
    replays (su_digest su) (concat (map2 tick_ops costs ts)) (rc_ledger c) (rc_ledger c')"
proof (induction su ks c ts c' rule: ticks_run.induct)
  case (1 su c c')
  then show ?case by (simp add: replays_Nil)
next
  case (2 su k ks c t ts c')
  from "2.prems" obtain c1 where one: "run_tick su k c = (Inr t, c1)" and rest: "ticks_run su ks c1 ts c'"
    by auto
  from run_tick_replays [OF one] obtain cs where
    cs: "list_all is_cost cs" "replays (su_digest su) (tick_ops cs t) (rc_ledger c) (rc_ledger c1)" by blast
  from "2.IH" [OF rest] obtain costs where costs: "length costs = length ts" "list_all (list_all is_cost) costs"
    "replays (su_digest su) (concat (map2 tick_ops costs ts)) (rc_ledger c1) (rc_ledger c')" by blast
  show ?case using cs(1) costs(1,2) replays_appendI [OF cs(2) costs(3)]
    by (intro exI [of _ "cs # costs"]) simp
qed simp_all

lemma final_closes_replays:
  "final_closes ips lv c = (Inr bs, c') \<Longrightarrow> replays H (concat (map close_ops bs)) (rc_ledger c) (rc_ledger c')"
proof (induction ips arbitrary: c bs)
  case Nil
  then show ?case by (simp add: replays_Nil)
next
  case (Cons ip ips)
  then obtain b c1 zs where one: "final_close ip (dget lv (fst ip)) c = (Inr b, c1)"
    and rest: "final_closes ips lv c1 = (Inr zs, c')"
    and out: "bs = (case b of None \<Rightarrow> zs | Some x \<Rightarrow> x # zs)"
    by (auto simp: sbind_ok_iff)
  have a: "replays H (case b of None \<Rightarrow> [] | Some x \<Rightarrow> close_ops x) (rc_ledger c) (rc_ledger c1)"
    using one by (auto simp: final_close_def call_ok replays_Nil split: option.splits
        dest!: close_and_book_replays [where H = H])
  show ?case using replays_appendI [OF a Cons.IH [OF rest]] out by (auto split: option.splits)
qed

lemma finish_run_replays:
  assumes "finish_run su lv lt ts c = Inr r"
  shows "replays H (concat (map close_ops (pr_final_closes r)) @ (case lt of None \<Rightarrow> [] | Some t \<Rightarrow> [FoldTick t]))
    (rc_ledger c) (pr_ledger r)"
proof -
  from assms obtain pt c' where p: "phase_10_finalize su lv lt c = (Inr (pr_final_closes r, pt), c')"
    "pr_ledger r = rc_ledger c'" by (auto simp: finish_run_def split: prod.splits sum.splits)
  show ?thesis
  proof (cases lt)
    case None
    with p show ?thesis by (simp add: phase_10_finalize_def replays_Nil)
  next
    case (Some t)
    with p obtain c1 l where one: "final_closes (su_by_item su) lv c = (Inr (pr_final_closes r), c1)"
      and l: "fold_tick t (rc_ledger c1) = (Inr pt, l)" "rc_ledger c' = l"
      by (auto simp: phase_10_finalize_def call_ok)
    have "replays H [FoldTick t] (rc_ledger c1) l" using l by (auto simp: replays_one void_ok)
    with replays_appendI [OF final_closes_replays [OF one] this] Some p(2) l(2) show ?thesis by simp
  qed
qed

lemma run_replays:
  assumes "run_portfolio H Hr key parse q ps w = Inr r"
  shows "\<exists>ordered l costs. prepare_run q ps = Inr (ordered, l) \<and> length costs = length (pr_ticks r) \<and>
    list_all (list_all is_cost) costs \<and> (pr_ticks r = [] \<longrightarrow> pr_final_closes r = []) \<and>
    replays H (concat (map2 tick_ops costs (pr_ticks r)) @ concat (map close_ops (pr_final_closes r)) @
      (if pr_ticks r = [] then [] else [FoldTick (pk_t_ms (last (pr_ticks r)))])) l (pr_ledger r)"
proof (rule run_portfolioE [OF assms])
  fix ordered l ks c
  assume prep: "prepare_run q ps = Inr (ordered, l)"
    and run: "ticks_run (setup_of H Hr parse q ordered) ks \<lparr>rc_ledger = l, rc_prices = [], rc_world = w\<rparr>
      (pr_ticks r) c"
    and fin: "finish_run (setup_of H Hr parse q ordered) (views_seen ks []) (last_time None ks) (pr_ticks r) c
      = Inr r"
  have "su_digest (setup_of H Hr parse q ordered) = H" by (simp add: setup_of_def)
  with ticks_run_replays [OF run] obtain costs where costs: "length costs = length (pr_ticks r)"
    "list_all (list_all is_cost) costs" "replays H (concat (map2 tick_ops costs (pr_ticks r))) l (rc_ledger c)"
    by auto
  have "map pk_t_ms (pr_ticks r) = map ct_t_ms ks" using ticks_run_axis [OF run] by simp
  then have "last_time None ks = (if pr_ticks r = [] then None else Some (pk_t_ms (last (pr_ticks r))))"
    by (auto simp: last_time_def) (metis last_map map_is_Nil_conv)
  with finish_run_replays [OF fin, of H] have "replays H (concat (map close_ops (pr_final_closes r)) @
      (if pr_ticks r = [] then [] else [FoldTick (pk_t_ms (last (pr_ticks r)))])) (rc_ledger c) (pr_ledger r)"
    by (simp split: if_splits)
  moreover have "pr_ticks r = [] \<longrightarrow> pr_final_closes r = []"
    using fin ticks_run_length [OF run] by (auto simp: last_time_def finish_run_def phase_10_finalize_def st_run)
  ultimately show ?thesis using replays_appendI [OF costs(3)] prep costs(1,2) by blast
qed

text \<open>C14. The published ticks account for the ledger of a finished run: replaying, tick by tick, the
  stated costs, the published closes, the snapshot, the openings of the granted decisions at the
  prices of the published intents, and the commit, and at the end the final closes, all of them
  successful calls of the public methods, leads from the fresh ledger to the ledger of the run.
\<close>

theorem published_ticks_replay_ledger:
  assumes "run_portfolio H Hr key parse q ps w = Inr r"
  shows "\<exists>ordered l costs. prepare_run q ps = Inr (ordered, l) \<and> length costs = length (pr_ticks r) \<and>
    list_all (list_all is_cost) costs \<and>
    run_ops (exec_ledger H) (\<lambda>_. True) (concat (map2 tick_ops costs (pr_ticks r)) @
      concat (map close_ops (pr_final_closes r)) @
      (if pr_ticks r = [] then [] else [FoldTick (pk_t_ms (last (pr_ticks r)))])) l = Some (pr_ledger r)"
  using run_replays [OF assms] by blast

section \<open>The composite curve\<close>

text \<open>The seed has no instant, every later point has one.\<close>

definition curve_times :: "ledger \<Rightarrow> int list \<Rightarrow> bool" where
  "curve_times l ts \<longleftrightarrow> map ep_t_ms (lg_equity_points l) = None # map Some ts"

definition draws :: "ledger_op \<Rightarrow> bool" where
  "draws p = (case p of CommitTick t \<Rightarrow> True | FoldTick t \<Rightarrow> True | _ \<Rightarrow> False)"

lemma other_op_points:
  assumes "exec_ledger H p l = (Inr x, m)" "\<not> draws p"
  shows "curve_times m = curve_times l"
proof -
  have "same_curve l (snd (exec_ledger H p l))"
    using assms(2) by (cases p) (simp_all add: book_same_curve writer_same_curve book_cost_simps draws_def)
  then show ?thesis using assms(1) by (simp add: same_curve_def curve_times_def fun_eq_iff)
qed

lemma replays_no_draw:
  "replays H ops l l' \<Longrightarrow> list_all (\<lambda>p. \<not> draws p) ops \<Longrightarrow> curve_times l' = curve_times l"
proof (induction ops arbitrary: l)
  case Nil
  then show ?case by (simp add: replays_Nil)
next
  case (Cons p ops)
  then obtain m where "exec_ledger H p l = (Inr (), m)" "replays H ops m l'" by (auto simp: replays_Cons)
  with Cons.IH [of m] other_op_points [of H p l "()" m] Cons.prems(2) show ?case by simp
qed

lemma commit_times:
  assumes "commit_tick t l = (Inr x, m)" "curve_times l ts"
  shows "curve_times m ts \<or> curve_times m (ts @ [t])"
  using assms by (auto simp: commit_tick_run curve_times_def Let_def split: if_splits sum.splits)

lemma fold_times:
  assumes "fold_tick t l = (Inr x, m)" "curve_times l ts"
  shows "curve_times m ts \<or> curve_times m (ts @ [t]) \<and> (ts = [] \<or> last ts \<noteq> t)"
proof (cases "lg_equity_points l \<noteq> [] \<and> ep_t_ms (last (lg_equity_points l)) = Some t")
  case True
  have "map ep_t_ms (butlast (lg_equity_points l) @ [e]) = map ep_t_ms (lg_equity_points l)"
    if "ep_t_ms e = ep_t_ms (last (lg_equity_points l))" for e
    using True that by (metis append_butlast_last_id list.simps(8,9) map_append)
  with assms True show ?thesis
    by (auto simp: fold_tick_run curve_times_def Let_def split: if_splits sum.splits)
next
  case False
  have "ep_t_ms (last (lg_equity_points l)) = Some (last ts)" if "ts \<noteq> []"
  proof -
    have "lg_equity_points l \<noteq> []" using assms(2) by (auto simp: curve_times_def)
    then have "ep_t_ms (last (lg_equity_points l)) = last (map ep_t_ms (lg_equity_points l))" by (simp add: last_map)
    also have "\<dots> = Some (last ts)" using assms(2) that by (simp add: curve_times_def last_map)
    finally show ?thesis .
  qed
  moreover have "x = None \<and> m = l \<or> commit_tick t l = (Inr x, m)"
    using assms(1) False by (auto simp: fold_tick_run split: if_splits)
  moreover have "lg_equity_points l \<noteq> []" using assms(2) by (auto simp: curve_times_def)
  ultimately show ?thesis using commit_times [OF _ assms(2), of t x m] assms(2) False by auto
qed

lemma fold_settles: "fold_tick t l = (Inr x, m) \<Longrightarrow> lg_last_point_equity m = lg_equity m"
  by (auto simp: fold_tick_run commit_tick_run Let_def split: if_splits sum.splits)

lemma closes_do_not_draw: "list_all (\<lambda>p. \<not> draws p) (concat (map close_ops bs))"
  by (induction bs) (auto simp: close_ops_def draws_def)

lemma tick_ops_split:
  assumes "list_all is_cost costs"
  obtains ops where "tick_ops costs k = ops @ [CommitTick (pk_t_ms k)]" "list_all (\<lambda>p. \<not> draws p) ops"
proof -
  have "list_all (\<lambda>p. \<not> draws p) costs"
    using assms by (auto simp: list_all_iff is_cost_def draws_def split: ledger_op.splits)
  moreover have "list_all (\<lambda>p. \<not> draws p) (opening_ops k)"
    by (auto simp: list_all_iff opening_ops_def opening_op_def draws_def split: prod.splits)
  ultimately show ?thesis
    by (intro that [of "costs @ concat (map close_ops (pk_closes k)) @
      [PublishSnapshot (pk_t_ms k), BeginApply (pk_t_ms k)] @ opening_ops k"])
      (simp_all add: tick_ops_def closes_do_not_draw, simp_all add: draws_def)
qed

lemma ticks_times:
  "replays H (concat (map2 tick_ops costs ks)) l l' \<Longrightarrow> length costs = length ks \<Longrightarrow>
    list_all (list_all is_cost) costs \<Longrightarrow> curve_times l ts \<Longrightarrow>
    \<exists>us. curve_times l' (ts @ us) \<and> subseq us (map pk_t_ms ks)"
proof (induction costs ks arbitrary: l ts rule: list_induct2')
  case 1
  then show ?case by (intro exI [of _ "[]"]) (simp add: replays_Nil)
next
  case (4 cs costs k ks)
  from "4.prems"(3) have cs: "list_all is_cost cs" and costs: "list_all (list_all is_cost) costs" by simp_all
  obtain ops where ops: "tick_ops cs k = ops @ [CommitTick (pk_t_ms k)]" "list_all (\<lambda>p. \<not> draws p) ops"
    using cs by (rule tick_ops_split)
  from "4.prems"(1) obtain m2 where "replays H (tick_ops cs k) l m2"
    and rest: "replays H (concat (map2 tick_ops costs ks)) m2 l'" by (auto simp: replays_append)
  then obtain m1 where pre: "replays H ops l m1" and "replays H [CommitTick (pk_t_ms k)] m1 m2"
    by (auto simp: ops(1) replays_append)
  then obtain x where "commit_tick (pk_t_ms k) m1 = (Inr x, m2)" by (auto simp: replays_one void_ok)
  moreover have "curve_times m1 ts" using replays_no_draw [OF pre ops(2)] "4.prems"(4) by simp
  ultimately have "curve_times m2 ts \<or> curve_times m2 (ts @ [pk_t_ms k])" by (rule commit_times)
  then show ?case
  proof
    assume "curve_times m2 ts"
    from "4.IH" [OF rest _ costs this] "4.prems"(2) show ?thesis by auto
  next
    assume "curve_times m2 (ts @ [pk_t_ms k])"
    from "4.IH" [OF rest _ costs this] "4.prems"(2) obtain us where
      "curve_times l' ((ts @ [pk_t_ms k]) @ us)" "subseq us (map pk_t_ms ks)" by auto
    then show ?thesis by (intro exI [of _ "pk_t_ms k # us"]) simp
  qed
qed simp_all

lemma prepare_ledger:
  assumes "prepare_run q ps = Inr (ordered, l)"
  obtains pl where "l = ledger_init pl"
  using assms by (auto simp: prepare_run_def rbind_Inr_iff Let_def ledger_for_items_def split: if_splits)

lemma axis_strict: "sorted_wrt (<) (axis key parse streams)"
  by (simp add: axis_def)

lemma run_times:
  assumes "run_portfolio H Hr key parse q ps w = Inr r"
  shows "sorted_wrt (<) (map pk_t_ms (pr_ticks r))"
proof (rule run_portfolioE [OF assms])
  fix ordered l ks c
  assume ks: "iter_ticks key parse (map pt_stream ordered) = (ks, None)"
    and run: "ticks_run (setup_of H Hr parse q ordered) ks \<lparr>rc_ledger = l, rc_prices = [], rc_world = w\<rparr>
      (pr_ticks r) c"
  have "distinct (map bs_item_id (map pt_stream ordered))" "\<forall>s \<in> set (map pt_stream ordered). stream_ok key parse s"
    using ks snd_iter_ticks [of key parse "map pt_stream ordered"] by simp_all
  from iter_ticks_axis [OF this] ks have "map ct_t_ms ks = axis key parse (map pt_stream ordered)"
    by (auto simp: comp_def)
  with ticks_run_axis [OF run] axis_strict show ?thesis by simp
qed

lemma subseq_members: "subseq us ts \<Longrightarrow> set us \<subseteq> set ts"
  by (induction rule: list_emb.induct) auto

lemma subseq_sorted: "subseq us ts \<Longrightarrow> sorted_wrt (<) ts \<Longrightarrow> sorted_wrt (<) (us :: int list)"
  by (induction rule: list_emb.induct) (auto dest: subseq_members)

lemma strict_last: "sorted_wrt (<) ts \<Longrightarrow> u \<in> set ts \<Longrightarrow> (u :: int) \<le> last ts"
  by (induction ts) (auto intro: less_imp_le)

lemma strict_below:
  "sorted_wrt (<) us \<Longrightarrow> (\<And>u. u \<in> set us \<Longrightarrow> u \<le> (t :: int)) \<Longrightarrow> us = [] \<or> last us \<noteq> t \<Longrightarrow>
    u \<in> set us \<Longrightarrow> u < t"
  using strict_last [of us u] last_in_set [of us] by fastforce

lemma curve_instants: "curve_times (pr_ledger r) ts \<Longrightarrow> instants r = ts"
proof -
  have "map (\<lambda>p. the (ep_t_ms p)) (filter (\<lambda>p. ep_t_ms p \<noteq> None) ps)
      = map the (filter (\<lambda>t. t \<noteq> None) (map ep_t_ms ps))" for ps :: "equity_point list"
    by (induction ps) auto
  moreover assume "curve_times (pr_ledger r) ts"
  moreover have "filter (\<lambda>t. t \<noteq> None) (map Some ts) = map Some ts" by (induction ts) auto
  ultimately show ?thesis by (simp add: instants_def dated_points_def curve_times_def comp_def)
qed

lemma replays_curve: "replays H ops l l' \<Longrightarrow> curve_ok l \<Longrightarrow> curve_ok l'"
  by (rule curve.run_inv)

text \<open>The composite curve is ordered in time by construction: its instants are strictly increasing
  and each is the instant of a tick, also after the final closes have been folded in, and it ends at
  the equity of the run.
\<close>

theorem composite_curve_ordered:
  assumes "run_portfolio H Hr key parse q ps w = Inr r"
  shows "sorted_wrt (<) (instants r) \<and> set (instants r) \<subseteq> pk_t_ms ` set (pr_ticks r) \<and>
    ep_equity (last (lg_equity_points (pr_ledger r))) = lg_equity (pr_ledger r)"
proof -
  from run_replays [OF assms] obtain ordered l costs where prep: "prepare_run q ps = Inr (ordered, l)"
    and costs: "length costs = length (pr_ticks r)" "list_all (list_all is_cost) costs"
    and none: "pr_ticks r = [] \<longrightarrow> pr_final_closes r = []"
    and all: "replays H (concat (map2 tick_ops costs (pr_ticks r)) @ concat (map close_ops (pr_final_closes r)) @
      (if pr_ticks r = [] then [] else [FoldTick (pk_t_ms (last (pr_ticks r)))])) l (pr_ledger r)" by blast
  from prep obtain pl where l: "l = ledger_init pl" by (rule prepare_ledger)
  then have fresh: "curve_times l []" by (simp add: curve_times_def ledger_init_def)
  have ok: "curve_ok (pr_ledger r)" using replays_curve [OF all] ledger_init_curve l by simp
  show ?thesis
  proof (cases "pr_ticks r = []")
    case True
    with all none costs(1) have "pr_ledger r = l" by (simp add: replays_Nil)
    then show ?thesis by (simp add: l ledger_init_def instants_def dated_points_def)
  next
    case False
    let ?T = "pk_t_ms (last (pr_ticks r))"
    from all False obtain m1 m2 x where ticks: "replays H (concat (map2 tick_ops costs (pr_ticks r))) l m1"
      and closes: "replays H (concat (map close_ops (pr_final_closes r))) m1 m2"
      and fold: "fold_tick ?T m2 = (Inr x, pr_ledger r)"
      by (auto simp: replays_append replays_one void_ok)
    from ticks_times [OF ticks costs fresh] obtain us where us: "curve_times m1 us"
      "subseq us (map pk_t_ms (pr_ticks r))" by auto
    have times: "sorted_wrt (<) (map pk_t_ms (pr_ticks r))" by (rule run_times [OF assms])
    have strict: "sorted_wrt (<) us" and sub: "set us \<subseteq> set (map pk_t_ms (pr_ticks r))"
      using subseq_sorted [OF us(2) times] subseq_members [OF us(2)] by simp_all
    have upto: "u \<le> ?T" if "u \<in> set us" for u
      using sub that strict_last [OF times] False by (auto simp: last_map)
    have "curve_times m2 us" using replays_no_draw [OF closes closes_do_not_draw] us(1) by simp
    from fold_times [OF fold this] obtain vs where vs: "curve_times (pr_ledger r) vs"
      "vs = us \<or> vs = us @ [?T] \<and> (us = [] \<or> last us \<noteq> ?T)" by blast
    have "sorted_wrt (<) vs \<and> set vs \<subseteq> pk_t_ms ` set (pr_ticks r)"
      using vs(2) strict sub upto False strict_below [OF strict] by (auto simp: sorted_wrt_append)
    moreover have "instants r = vs" using vs(1) by (rule curve_instants)
    moreover have "lg_last_point_equity (pr_ledger r) = lg_equity (pr_ledger r)"
      using fold by (rule fold_settles)
    ultimately show ?thesis using ok by (simp add: curve_ok_def)
  qed
qed

end
