(* ===== verification/Portfolio_Safety.thy ===== *)
theory Portfolio_Safety
  imports Portfolio_Run
begin

text \<open>
  Further guarantees of a finished portfolio run: every item of a tick sizes against one valuation,
  the order of the participants is immaterial, every position is one of an item that has decided on a
  view, and the profiles the run derives from the order of its participants admit only items whose pin
  ordinal is their place in that order.
\<close>

section \<open>One valuation per tick\<close>

lemma report_decision:
  assumes "arbitrate H l s xs pr policy mps me = Inr r" "d \<in> set (rp_decisions r)"
  shows "\<exists>x \<in> set xs. ad_item_id d = it_item_id x \<and> ad_kind d = it_kind x \<and> ad_direction d = it_direction x \<and>
    (if is_admitted d then 0 < ad_granted_units d \<and> ad_granted_units d \<le> it_desired_size x
     else ad_granted_units d = 0)"
  using assms(1)
proof (rule arbitrate_Inr)
  fix rule pairs out kept out'
  assume v: "validate l s xs pr = Inr pairs" and sc: "screen l pr rule pairs [] [] = (out, kept)"
    and ad: "admit l s rule mps me kept out 0 = Inr (out', rp_committed_notional r)"
    and dec: "rp_decisions r = map (\<lambda>px. the (dget out' (pitem px))) pairs"
  note p = pairs_items [OF v]
  from assms(2) dec obtain px where px: "px \<in> set pairs" "d = the (dget out' (pitem px))" by auto
  obtain d' where d': "dget out' (pitem px) = Some d'" "px \<in> set kept \<and> settled l px d' \<or> px \<notin> set kept \<and> turned_away px d'"
    using decision_cases [OF p(2) sc ad px(1)] by blast
  then have "sound_decision d \<and> from_pair px d" using px(2) settled_sound by fastforce
  with p(4) [OF px(1)] show ?thesis
    by (intro bexI [of _ "snd px"]) (auto simp: sound_decision_def from_pair_def no_grant_def)
qed

lemma arbitrate_snapshot:
  "arbitrate H l s xs pr policy mps me = Inr r \<Longrightarrow> rp_t_ms r = sn_t_ms s \<and> rp_snapshot_identity r = sn_identity s"
  by (auto simp: arbitrate_def rbind_Inr_iff Let_def case_prod_beta)

lemma mandatory_intent_unbound:
  assumes "form_mandatory_intent parse ident v d (Some (ClosingSize u)) = Inr x"
  shows "it_phase x = P3 \<and> snapshot_identity x = None \<and> it_kind x \<notin> {EntryIntent, ScaleIn} \<and>
    it_item_id x = tv_item_id v"
  using assms
  by (auto simp: form_mandatory_intent_def build_intent_def rbind_Inr_iff Let_def case_prod_beta
      snapshot_identity_def actionable_kinds_def mandatory_kinds_def it_item_id_def split: if_splits)

lemma phase_3_formed:
  "phase_3_mandatory su vs c = (Inr (formed, booked), c') \<Longrightarrow>
    map it_item_id formed = map bk_item_id booked \<and>
    (\<forall>x \<in> set formed. it_phase x = P3 \<and> snapshot_identity x = None \<and> it_kind x \<notin> {EntryIntent, ScaleIn})"
proof (induction vs arbitrary: c formed booked)
  case Nil
  then show ?case by simp
next
  case (Cons v vs)
  then obtain e c1 f b where one: "exit_of su v c = (Inr e, c1)"
    and rest: "phase_3_mandatory su vs c1 = (Inr (f, b), c')"
    and out: "(formed, booked) = (case e of None \<Rightarrow> (f, b) | Some (x, y) \<Rightarrow> (x # f, y # b))"
    by (auto simp: sbind_ok_iff)
  have "case e of None \<Rightarrow> True | Some (x, y) \<Rightarrow> it_item_id x = bk_item_id y \<and> it_phase x = P3 \<and>
      snapshot_identity x = None \<and> it_kind x \<notin> {EntryIntent, ScaleIn}"
    using one by (auto simp: exit_of_def call_ok split: if_splits option.splits
        dest!: mandatory_intent_unbound close_and_book_replays)
  with Cons.IH [OF rest] out show ?case by (auto split: option.splits prod.splits)
qed

lemma valuation_equity: "valuation l t offered = Inr v \<Longrightarrow> vp_equity v = lg_equity l \<and> vp_t_ms v = t"
  by (auto simp: valuation_def rbind_Inr_iff Let_def case_prod_beta)

definition one_valuation :: "portfolio_tick \<Rightarrow> bool" where
  "one_valuation k \<longleftrightarrow>
     sn_t_ms (pk_snapshot k) = pk_t_ms k \<and> vp_t_ms (pk_valuation k) = pk_t_ms k \<and>
     vp_equity (pk_valuation k) = sn_equity (pk_snapshot k) \<and>
     rp_snapshot_identity (pk_report k) = sn_identity (pk_snapshot k) \<and>
     (\<forall>x \<in> set (pk_intents k). \<exists>v \<in> set (pk_views k). bound_to (pk_snapshot k) v x) \<and>
     (\<forall>x \<in> set (pk_mandatory k). it_phase x = P3 \<and> snapshot_identity x = None \<and>
        it_kind x \<notin> {EntryIntent, ScaleIn}) \<and>
     map it_item_id (pk_mandatory k) = map bk_item_id (pk_closes k) \<and>
     (\<forall>d \<in> set (rp_decisions (pk_report k)). \<exists>x \<in> set (pk_intents k). ad_item_id d = it_item_id x \<and>
        ad_kind d = it_kind x \<and> ad_direction d = it_direction x \<and>
        (if is_admitted d then 0 < ad_granted_units d \<and> ad_granted_units d \<le> it_desired_size x
         else ad_granted_units d = 0))"

lemma run_tick_one_valuation:
  assumes "run_tick su k c = (Inr t, c')"
  shows "one_valuation t"
  using assms
proof (rule run_tickE)
  fix c1 c2 c3 c4 c5 l3 l6 stamp
  assume exits: "phase_3_mandatory su (ct_views k) c1 = (Inr (pk_mandatory t, pk_closes t), c2)"
    and snap: "publish_snapshot (su_digest su) (ct_t_ms k) (rc_ledger c2) = (Inr (pk_snapshot t), l3)"
    and val: "valuation l3 (ct_t_ms k) (marks_at (ct_views k)) = Inr (pk_valuation t)"
    and four: "phase_4_intents su (pk_snapshot t) (ct_views k) c3 = (Inr (pk_intents t), c4)"
    and arb: "arbitrate (su_report_digest su) (rc_ledger c4) (pk_snapshot t) (pk_intents t) (su_profiles su)
       (su_conflict_policy su) (case su_max_position su of None \<Rightarrow> [] | Some m \<Rightarrow> m) (su_max_exposure su)
     = Inr (pk_report t)"
    and t: "pk_t_ms t = ct_t_ms k" "pk_views t = ct_views k"
  from snap have s: "build_snapshot (su_digest su) (ct_t_ms k) (lg_equity (rc_ledger c2))
      (sp_reserve_nominal (lg_plan (rc_ledger c2))) (sleeve_capacity (rc_ledger c2))
      (deployed_notional (rc_ledger c2)) = Inr (pk_snapshot t)" and l3: "lg_equity l3 = lg_equity (rc_ledger c2)"
    by (auto simp: publish_snapshot_run split: sum.splits)
  show ?thesis
    unfolding one_valuation_def t
    using build_snapshot_fields [OF s] valuation_equity [OF val] l3 phase_4_ok [OF four]
      phase_3_formed [OF exits] arbitrate_snapshot [OF arb] report_decision [OF arb]
    by auto
qed

text \<open>C15. At every tick all items size against the one valuation that was published after the mandatory
  exits: the report and every intent name that snapshot, its equity is the equity the tick is valued
  at, every intent speaks for an item with a bar of its own at this instant, a mandatory exit is
  bound to no snapshot and is booked once, and nothing is granted that no intent asked for.
\<close>

theorem every_tick_has_one_valuation:
  assumes "run_portfolio H Hr key parse q ps w = Inr r" "k \<in> set (pr_ticks r)"
  shows "one_valuation k"
proof (rule run_portfolioE [OF assms(1)])
  fix ordered l ks c
  assume "ticks_run (setup_of H Hr parse q ordered) ks \<lparr>rc_ledger = l, rc_prices = [], rc_world = w\<rparr>
      (pr_ticks r) c"
  from ticks_run_member [OF this assms(2)] show ?thesis by (blast dest: run_tick_one_valuation)
qed

section \<open>The order of the participants\<close>

definition participant_ok :: "'w participant \<Rightarrow> bool" where
  "participant_ok p \<longleftrightarrow> participant_id p = bs_item_id (pt_stream p) \<and>
     id_pin_ordinal (pt_identity p) = bs_pin_ordinal (pt_stream p)"

lemma ordered_loop_iff:
  "ordered_loop seen ps = (if list_all participant_ok ps \<and> distinct (map participant_id ps) \<and>
     set seen \<inter> participant_id ` set ps = {} then ok () else raise InvalidParticipantError)"
  by (induction seen ps rule: ordered_loop.induct) (auto simp: participant_ok_def)

lemma ordered_participants_iff:
  "ordered_participants ps = (if list_all participant_ok ps \<and> distinct (map participant_id ps)
     then ok (sort_key participant_key ps) else raise InvalidParticipantError)"
  by (simp add: ordered_participants_def ordered_loop_iff)

lemma ordered_participants_mset:
  assumes "mset ps = mset ps'"
  shows "ordered_participants ps = ordered_participants ps'"
proof -
  have set: "set ps = set ps'" using assms by (rule mset_eq_setD)
  have dist: "distinct (map participant_id ps) = distinct (map participant_id ps')"
    using assms by (metis mset_eq_imp_distinct_iff mset_map)
  show ?thesis
  proof (cases "distinct (map participant_id ps)")
    case True
    then have "inj_on participant_id (set ps)" by (simp add: distinct_map)
    then have "inj_on participant_key (set ps)" by (auto simp: inj_on_def participant_key_def)
    then have "sort_key participant_key ps = sort_key participant_key ps'"
      using assms by (intro sort_key_inj_key_eq) simp_all
    with True dist set show ?thesis by (simp add: ordered_participants_iff list_all_iff)
  next
    case False
    with dist show ?thesis by (simp add: ordered_participants_iff)
  qed
qed

text \<open>C16. The run does not depend on the order in which the participants are handed over: a permutation
  yields the same ticks and the same outcome, also when the run is refused or fails.
\<close>

theorem participants_in_any_order:
  assumes "mset ps = mset ps'"
  shows "iter_portfolio H Hr key parse q ps w = iter_portfolio H Hr key parse q ps' w"
  by (simp add: iter_portfolio_def prepare_run_def ordered_participants_mset [OF assms])

section \<open>The end of the data\<close>

lemma op_positions:
  assumes "exec_ledger H p l = (Inr x, m)" "dget (lg_positions m) i \<noteq> None"
  shows "dget (lg_positions l) i \<noteq> None \<or> (\<exists>d u pr. p = SetPosition i d u pr)"
proof -
  have "lg_positions (snd (book_trade i g c l)) = lg_positions l"
    "lg_positions (snd (book_cost bl i a l)) = lg_positions l" for i g c bl a
    by (auto simp: book_trade_run book_cost_run Let_def split: sum.split)
  note other = this
  show ?thesis
    using assms other by (cases p)
      (auto simp: void_ok book_cost_simps writer_runs Let_def split: if_splits sum.splits option.splits
        dest!: arg_cong [of _ _ snd])
qed

lemma replays_positions:
  "replays H ops l l' \<Longrightarrow> dget (lg_positions l') i \<noteq> None \<Longrightarrow>
    dget (lg_positions l) i \<noteq> None \<or> (\<exists>d u pr. SetPosition i d u pr \<in> set ops)"
proof (induction ops arbitrary: l)
  case Nil
  then show ?case by (simp add: replays_Nil)
next
  case (Cons p ops)
  then obtain m where "exec_ledger H p l = (Inr (), m)" "replays H ops m l'" by (auto simp: replays_Cons)
  with Cons.IH [of m] Cons.prems(2) op_positions [of H p l "()" m i] show ?case by auto
qed

lemma tick_opens:
  assumes "SetPosition i d u pr \<in> set (tick_ops costs k)" "list_all is_cost costs"
  shows "\<exists>x \<in> set (rp_decisions (pk_report k)). ad_item_id x = i"
  using assms
  by (auto simp: tick_ops_def close_ops_def opening_ops_def opening_op_def order_of_def list_all_iff is_cost_def
      split: ledger_op.splits)

lemma note_views_keeps: "dget d i \<noteq> None \<Longrightarrow> dget (note_views vs d) i \<noteq> None"
  unfolding note_views_def by (induction vs arbitrary: d) auto

lemma note_views_member: "v \<in> set vs \<Longrightarrow> is_decision v \<Longrightarrow> dget (note_views vs d) (tv_item_id v) \<noteq> None"
proof (induction vs arbitrary: d)
  case (Cons u vs)
  show ?case
  proof (cases "v = u")
    case True
    then show ?thesis
      using note_views_keeps [of "dset (tv_item_id v) v d" "tv_item_id v" vs] Cons.prems(2)
      by (simp add: note_views_def)
  next
    case False
    then show ?thesis using Cons by (simp add: note_views_def)
  qed
qed simp

text \<open>Whatever is held is held by a participant that has been asked at least once.\<close>

definition accounted :: "'w run_setup \<Rightarrow> (string, item_tick_view) dict \<Rightarrow> ledger \<Rightarrow> bool" where
  "accounted su lv l \<longleftrightarrow> (\<forall>i. dget (lg_positions l) i \<noteq> None \<longrightarrow>
     dget (su_by_item su) i \<noteq> None \<and> dget lv i \<noteq> None)"

lemma run_tick_accounted:
  assumes "run_tick su k c = (Inr t, c')" "accounted su lv (rc_ledger c)"
  shows "accounted su (note_views (ct_views k) lv) (rc_ledger c')"
  unfolding accounted_def
proof (intro allI impI)
  fix i
  assume held: "dget (lg_positions (rc_ledger c')) i \<noteq> None"
  from run_tick_replays [OF assms(1)] obtain costs where costs: "list_all is_cost costs"
    and ops: "replays (su_digest su) (tick_ops costs t) (rc_ledger c) (rc_ledger c')" by blast
  have "dget (su_by_item su) i \<noteq> None \<and> dget (note_views (ct_views k) lv) i \<noteq> None"
    if "\<exists>d u pr. SetPosition i d u pr \<in> set (tick_ops costs t)"
  proof -
    from that tick_opens [OF _ costs] obtain d where d: "d \<in> set (rp_decisions (pk_report t))" "ad_item_id d = i"
      by blast
    from assms(1) show ?thesis
    proof (rule run_tickE)
      fix c1 c2 c3 c4 c5 l3 l6 stamp
      assume four: "phase_4_intents su (pk_snapshot t) (ct_views k) c3 = (Inr (pk_intents t), c4)"
        and arb: "arbitrate (su_report_digest su) (rc_ledger c4) (pk_snapshot t) (pk_intents t) (su_profiles su)
           (su_conflict_policy su) (case su_max_position su of None \<Rightarrow> [] | Some m \<Rightarrow> m) (su_max_exposure su)
         = Inr (pk_report t)"
      from report_decision [OF arb d(1)] d(2) obtain x where x: "x \<in> set (pk_intents t)" "it_item_id x = i" by auto
      with phase_4_ok [OF four] obtain v where "v \<in> set (ct_views k)" "bound_to (pk_snapshot t) v x"
        "dget (su_by_item su) i \<noteq> None" by blast
      with note_views_member [of v "ct_views k" lv] x(2) show ?thesis by (auto simp: bound_to_def)
    qed
  qed
  with replays_positions [OF ops held] assms(2) note_views_keeps [of lv i "ct_views k"]
  show "dget (su_by_item su) i \<noteq> None \<and> dget (note_views (ct_views k) lv) i \<noteq> None"
    unfolding accounted_def by blast
qed

lemma ticks_run_accounted:
  "ticks_run su ks c ts c' \<Longrightarrow> accounted su lv (rc_ledger c) \<Longrightarrow> accounted su (views_seen ks lv) (rc_ledger c')"
proof (induction su ks c ts c' arbitrary: lv rule: ticks_run.induct)
  case (2 su k ks c t ts c')
  from "2.prems"(1) obtain c1 where one: "run_tick su k c = (Inr t, c1)" and rest: "ticks_run su ks c1 ts c'"
    by auto
  from "2.IH" [OF rest run_tick_accounted [OF one "2.prems"(2)]] show ?case by (simp add: views_seen_def)
qed (simp_all add: views_seen_def)

lemma close_position_gone: "close_position i l = (Inr h, l') \<Longrightarrow> lg_positions l' = dpop i (lg_positions l)"
  by (auto simp: close_position_run split: if_splits option.splits)

lemma book_trade_keeps_positions: "book_trade i g c l = (Inr x, l') \<Longrightarrow> lg_positions l' = lg_positions l"
  by (auto simp: book_trade_run Let_def split: if_splits sum.splits)

lemma final_close_untouched:
  "final_close ip None c = (Inr b, c') \<Longrightarrow> c' = c"
  by (simp add: final_close_def)

lemma dict_of_items_values: "(i, p) \<in> set (dict_of_items ps) \<Longrightarrow> p \<in> set ps"
proof -
  have "(i, p) \<in> set (foldl (\<lambda>d p. dset (participant_id p) p d) d ps) \<Longrightarrow> p \<in> set ps \<or> (i, p) \<in> set d" for d
    by (induction ps arbitrary: d) (auto dest: dset_set)
  from this [of "[]"] show "(i, p) \<in> set (dict_of_items ps) \<Longrightarrow> p \<in> set ps"
    by (simp add: dict_of_items_def)
qed

lemma prepared_participants: "prepare_run q ps = Inr (ordered, l) \<Longrightarrow> set ordered = set ps"
  by (auto simp: prepare_run_def rbind_Inr_iff ordered_participants_def Let_def split: if_splits)

lemma finish_with_ticks:
  assumes "finish_run su lv (Some t) ts c = Inr r"
  shows "\<exists>c1 pt. final_closes (su_by_item su) lv c = (Inr (pr_final_closes r), c1) \<and>
    fold_tick t (rc_ledger c1) = (Inr pt, pr_ledger r)"
proof -
  from assms obtain bs pt c' where p: "phase_10_finalize su lv (Some t) c = (Inr (bs, pt), c')"
    and r: "r = \<lparr>pr_ledger = rc_ledger c', pr_ticks = ts, pr_final_closes = bs\<rparr>"
    by (auto simp: finish_run_def split: prod.splits sum.splits)
  from p show ?thesis by (auto simp: phase_10_finalize_def call_ok r)
qed

lemma finish_without_ticks: "finish_run su lv None ts c = Inr r \<Longrightarrow> pr_ledger r = rc_ledger c"
  by (auto simp: finish_run_def phase_10_finalize_def st_run)

section \<open>The profiles\<close>

definition pin_profile :: "nat \<times> string \<times> string option \<Rightarrow> arbitration_profile" where
  "pin_profile z = \<lparr>ap_item_id = fst (snd z), ap_pin_ordinal = int (fst z), ap_instrument_id = snd (snd z)\<rparr>"

lemma profiles_fold:
  "dget (foldl (\<lambda>d z. dset (fst (snd z)) (pin_profile z) d) d zs) i = Some p \<Longrightarrow>
    dget d i = Some p \<or> (\<exists>z \<in> set zs. fst (snd z) = i \<and> p = pin_profile z)"
proof (induction zs arbitrary: d)
  case (Cons z zs)
  from Cons.IH [of "dset (fst (snd z)) (pin_profile z) d"] Cons.prems
  have "dget (dset (fst (snd z)) (pin_profile z) d) i = Some p \<or>
      (\<exists>z \<in> set zs. fst (snd z) = i \<and> p = pin_profile z)" by (simp only: foldl_Cons)
  then show ?case by (auto split: if_splits)
qed simp

lemma profiles_from_pins_at:
  assumes "dget (profiles_from_pins pins) i = Some p"
  shows "\<exists>n < length pins. fst (pins ! n) = i \<and> ap_pin_ordinal p = int n"
proof -
  have "profiles_from_pins pins
      = foldl (\<lambda>d z. dset (fst (snd z)) (pin_profile z) d) [] (zip [0..<length pins] pins)"
    unfolding profiles_from_pins_def pin_profile_def case_prod_unfold ..
  with assms profiles_fold [of "[]" _ i p] obtain z where
    z: "z \<in> set (zip [0..<length pins] pins)" "fst (snd z) = i" "p = pin_profile z" by fastforce
  then show ?thesis by (auto simp: in_set_zip pin_profile_def)
qed

lemma setup_profile:
  assumes "dget (su_profiles (setup_of H Hr parse q ordered)) i = Some pr"
  shows "\<exists>n < length ordered. participant_id (ordered ! n) = i \<and> ap_pin_ordinal pr = int n"
  using profiles_from_pins_at [of "map (\<lambda>p. (participant_id p, pt_instrument_id p)) ordered" i pr] assms
  by (auto simp: setup_of_def)

lemma prepared_distinct: "prepare_run q ps = Inr (ordered, l) \<Longrightarrow> distinct (map participant_id ordered)"
  by (auto simp: prepare_run_def rbind_Inr_iff ordered_participants_iff Let_def distinct_map split: if_splits)

text \<open>C18. A participant whose pin ordinal is not its place among the participants, because an item that
  does not participate is pinned before it, never trades: the profiles number the participants
  consecutively, and arbitration refuses an intent whose ordinal differs from its profile, so no
  finished run contains an intent of this participant, and the first it forms stops the run.
\<close>

theorem gapped_pins_never_trade:
  fixes ps :: "'w participant list"
  assumes "prepare_run q ps = Inr (ordered, l)" "n < length ordered"
    and "id_pin_ordinal (pt_identity (ordered ! n)) \<noteq> int n"
    and "run_portfolio H Hr key parse q ps w = Inr r" "k \<in> set (pr_ticks r)"
  shows "pt_identity (ordered ! n) \<notin> it_identity ` set (pk_intents k)"
proof (rule run_portfolioE [OF assms(4)])
  fix ordered' :: "'w participant list" and l' ks c
  let ?su = "setup_of H Hr parse q ordered'"
  assume prep: "prepare_run q ps = Inr (ordered', l')"
    and run: "ticks_run ?su ks \<lparr>rc_ledger = l', rc_prices = [], rc_world = w\<rparr> (pr_ticks r) c"
  have same: "ordered' = ordered" using prep assms(1) by simp
  from ticks_run_member [OF run assms(5)] obtain kt c1 c2 where "run_tick ?su kt c1 = (Inr k, c2)" by blast
  then show ?thesis
  proof (rule run_tickE)
    fix c4 :: "'w run_context"
    assume "arbitrate (su_report_digest ?su) (rc_ledger c4) (pk_snapshot k) (pk_intents k) (su_profiles ?su)
       (su_conflict_policy ?su) (case su_max_position ?su of None \<Rightarrow> [] | Some m \<Rightarrow> m) (su_max_exposure ?su)
     = Inr (pk_report k)"
    then have "list_all (arbitrable (pk_snapshot k) (su_profiles ?su)) (pk_intents k)"
      by (rule arbitrate_Inr) (simp add: validate_iff)
    then have valid: "\<exists>pr. dget (su_profiles ?su) (it_item_id x) = Some pr \<and>
        ap_pin_ordinal pr = id_pin_ordinal (it_identity x)" if "x \<in> set (pk_intents k)" for x
      using that by (auto simp: list_all_iff arbitrable_def split: option.splits)
    show ?thesis
    proof
      assume "pt_identity (ordered ! n) \<in> it_identity ` set (pk_intents k)"
      then obtain x where x: "x \<in> set (pk_intents k)" "it_identity x = pt_identity (ordered ! n)" by auto
      from valid [OF x(1)] obtain pr where pr: "dget (su_profiles ?su) (it_item_id x) = Some pr"
        "ap_pin_ordinal pr = id_pin_ordinal (it_identity x)" by blast
      from setup_profile [OF pr(1)] obtain m where
        m: "m < length ordered" "participant_id (ordered ! m) = it_item_id x" "ap_pin_ordinal pr = int m"
        by (auto simp: same)
      then have "map participant_id ordered ! n = map participant_id ordered ! m"
        using x(2) assms(2) by (simp add: it_item_id_def participant_id_def)
      with prepared_distinct [OF assms(1)] m(1) assms(2) have "n = m"
        by (simp only: nth_eq_iff_index_eq length_map)
      with assms(3) pr(2) m(3) x(2) show False by simp
    qed
  qed
qed

end
