(* ===== verification/Portfolio_Demo.thy ===== *)
theory Portfolio_Demo
  imports Portfolio_Safety
begin

text \<open>
  A concrete portfolio run: one item with one bar, opened at 100 by an entry of two units and closed
  at the end of the data with a profit of 20 against a commission of 1. The same item pinned one
  place later is refused by arbitration, although it is the only participant.
\<close>

definition demo_key :: "string \<Rightarrow> int option" where
  "demo_key s = (if s = ''1'' then Some 1 else None)"

definition run_stream :: "int \<Rightarrow> item_bar_stream" where
  "run_stream n = \<lparr>bs_item_id = ''a'', bs_pin_ordinal = n, bs_batches = [[demo_row ''1'' 100]]\<rparr>"

definition run_identity :: "int \<Rightarrow> item_identity" where
  "run_identity n = \<lparr>id_item_id = ''a'', id_item_kind = ''strategy'', id_pin_ordinal = n, id_root_id = None,
     id_selected_revision_id = None, id_item_label = None\<rparr>"

definition run_intent :: "int \<Rightarrow> item_intent" where
  "run_intent n = \<lparr>it_identity = run_identity n, it_t_ms = 1, it_phase = P4, it_kind = EntryIntent,
     it_direction = Some ''long'', it_desired_size = 2, it_reference_price = Some 100,
     it_effective_price = Some 100, it_price_authority = FreshBarClose, it_reason = ''signal'',
     it_contract_version = ''item-intent-v1'', it_evidence = [],
     it_dependencies = [(''snapshot_identity'', VText ''d'')], it_diagnostics = []\<rparr>"

definition run_exit :: mandatory_exit where
  "run_exit = \<lparr>me_decision = \<lparr>dn_kind = Exit, dn_reason = ''end'', dn_direction = Some ''long'', dn_evidence = []\<rparr>,
     me_units = 2, me_gross_pnl = 20, me_commission = 1\<rparr>"

definition run_participant :: "int \<Rightarrow> bool \<Rightarrow> unit participant" where
  "run_participant n wants = \<lparr>pt_identity = run_identity n, pt_stream = run_stream n,
     pt_instrument_id = Some ''BTC'', pt_carry = (\<lambda>v. sret None), pt_mandatory_exit = (\<lambda>v h. sret None),
     pt_entry = (\<lambda>v s h. sret (if wants then Some (run_intent n) else None)),
     pt_settle = (\<lambda>v d. sret ()), pt_finalize = (\<lambda>v. sret (Some run_exit))\<rparr>"

definition run_request :: portfolio_request where
  "run_request = \<lparr>pq_pool_initial = 1000, pq_shares = [(''a'', 50)], pq_reserve_percent = 10,
     pq_compound = True, pq_conflict_policy = None, pq_max_position = None, pq_max_exposure = None\<rparr>"

definition demo_run :: "int \<Rightarrow> bool \<Rightarrow> portfolio_run res" where
  "demo_run n wants = run_portfolio (\<lambda>_. ''d'') (\<lambda>_. []) demo_key (\<lambda>_. None) run_request
     [run_participant n wants] ()"

section \<open>The run, step by step\<close>

definition run_plan :: sleeve_plan where
  "run_plan = \<lparr>sp_pool_initial = 1000, sp_reserve_nominal = 100, sp_shares = [(''a'', 50)], sp_compound = True,
     sp_allocatable_initial = 900, sp_initial_sleeves = [(''a'', 450)], sp_unallocated_initial = 450\<rparr>"

lemma run_prepared:
  "prepare_run run_request [run_participant n wants] = Inr ([run_participant n wants], ledger_init run_plan)"
  by (simp add: prepare_run_def ordered_participants_def participant_id_def run_participant_def
      run_identity_def run_stream_def run_request_def ledger_for_items_def plan_eval dec_eval run_plan_def
      cong: let_weak_cong)

definition run_view :: "int \<Rightarrow> item_tick_view" where
  "run_view n = \<lparr>tv_item_id = ''a'', tv_pin_ordinal = n, tv_t_ms = 1, tv_bars = [demo_axis_bar ''1'' 100],
     tv_last_closed = Some (demo_axis_bar ''1'' 100), tv_last_closed_t_ms = Some 1\<rparr>"

definition run_clock_tick :: "int \<Rightarrow> clock_tick" where
  "run_clock_tick n = \<lparr>ct_t_ms = 1, ct_views = [run_view n]\<rparr>"

lemma run_ticks:
  "iter_ticks demo_key (\<lambda>_. None) (map pt_stream [run_participant 0 w]) = ([run_clock_tick 0], None)"
  "iter_ticks demo_key (\<lambda>_. None) (map pt_stream [run_participant 1 w]) = ([run_clock_tick 1], None)"
  by code_simp+

abbreviation run_setup_of :: "int \<Rightarrow> bool \<Rightarrow> unit run_setup" where
  "run_setup_of n wants \<equiv> setup_of (\<lambda>_. ''d'') (\<lambda>_. []) (\<lambda>_. None) run_request [run_participant n wants]"

definition run_start :: "unit run_context" where
  "run_start = \<lparr>rc_ledger = ledger_init run_plan, rc_prices = [], rc_world = ()\<rparr>"

lemma run_one:
  "phase_1_carry (run_setup_of 0 w) [run_view 0] [] run_start = (Inr ''1'', run_start)"
  "phase_1_carry (run_setup_of 1 w) [run_view 1] [] run_start = (Inr ''1'', run_start)"
  "phase_3_mandatory (run_setup_of 0 w) [run_view 0] run_start = (Inr ([], []), run_start)"
  "phase_3_mandatory (run_setup_of 1 w) [run_view 1] run_start = (Inr ([], []), run_start)"
  by code_simp+

definition run_snapshot :: portfolio_snapshot where
  "run_snapshot = \<lparr>sn_t_ms = 1, sn_equity = 1000, sn_reserve_nominal = 100, sn_allocatable = 900,
     sn_sleeve_capacity = [(''a'', 450)], sn_deployed_notional = [(''a'', 0)],
     sn_unallocated = 450, sn_item_ids = [''a''], sn_identity = ''d''\<rparr>"

definition run_frozen :: ledger where
  "run_frozen = (ledger_init run_plan)\<lparr>lg_frozen_at := Some 1\<rparr>"

lemma run_published: "publish_snapshot (\<lambda>_. ''d'') 1 (ledger_init run_plan) = (Inr run_snapshot, run_frozen)"
  by (simp add: run_plan_def ledger_eval plan_eval dec_eval build_snapshot_def snapshot_post_init_def
      run_snapshot_def run_frozen_def plan_sleeve_capacity_def deployed_notional_def cong: let_weak_cong)

lemma run_valued: "\<exists>v. valuation run_frozen 1 (marks_at [run_view n]) = Inr v"
  by (simp add: valuation_def run_frozen_def run_plan_def ledger_eval plan_eval dec_eval cong: let_weak_cong)

lemma run_intents:
  "phase_4_intents (run_setup_of 0 True) run_snapshot [run_view 0] (run_start\<lparr>rc_ledger := run_frozen\<rparr>)
     = (Inr [run_intent 0], run_start\<lparr>rc_ledger := run_frozen, rc_prices := [(''a'', 100)]\<rparr>)"
  "phase_4_intents (run_setup_of 1 True) run_snapshot [run_view 1] (run_start\<lparr>rc_ledger := run_frozen\<rparr>)
     = (Inr [run_intent 1], run_start\<lparr>rc_ledger := run_frozen, rc_prices := [(''a'', 100)]\<rparr>)"
  "phase_4_intents (run_setup_of 1 False) run_snapshot [run_view 1] (run_start\<lparr>rc_ledger := run_frozen\<rparr>)
     = (Inr [], run_start\<lparr>rc_ledger := run_frozen\<rparr>)"
  by code_simp+

definition run_policy :: conflict_policy_rule where
  "run_policy = the (dget conflict_policy_table ''KEEP_SEPARATE'')"

lemma run_resolved: "resolve_policy None = Inr run_policy"
  by code_simp

abbreviation run_profiles :: "int \<Rightarrow> bool \<Rightarrow> profiles" where
  "run_profiles n w \<equiv> su_profiles (run_setup_of n w)"

definition run_pair :: pairing where
  "run_pair = (\<lparr>ap_item_id = ''a'', ap_pin_ordinal = 0, ap_instrument_id = Some ''BTC''\<rparr>, run_intent 0)"

lemma run_valid:
  "validate run_frozen run_snapshot [run_intent 0] (run_profiles 0 True) = Inr [run_pair]"
  "validate run_frozen run_snapshot [run_intent 1] (run_profiles 1 True) = Inl UnknownArbitrationItemError"
  "validate run_frozen run_snapshot [] (run_profiles 1 False) = Inr []"
  by code_simp+

lemma run_screened: "screen run_frozen (run_profiles 0 True) run_policy [run_pair] [] [] = ([], [run_pair])"
  by code_simp

lemma run_capacity:
  "\<exists>d. decide_capacity run_frozen run_snapshot (run_intent 0) 0 None None = Inr (d, False) \<and>
     cd_outcome d = Admitted \<and> cd_granted_units d = 2"
  by (simp add: decide_capacity_def run_intent_def it_item_id_def run_identity_def price_of_def run_frozen_def
      run_snapshot_def run_plan_def capacity_eval cong: let_weak_cong)

lemma run_report:
  "\<exists>r d. arbitrate (\<lambda>_. []) run_frozen run_snapshot [run_intent 0] (run_profiles 0 True) None [] None = Inr r \<and>
     rp_decisions r = [d] \<and> is_granted d \<and> ad_kind d = EntryIntent \<and> ad_item_id d = ''a'' \<and>
     ad_direction d = Some ''long'' \<and> ad_granted_units d = 2"
proof -
  obtain d where d: "decide_capacity run_frozen run_snapshot (run_intent 0) 0 None None = Inr (d, False)"
    "cd_outcome d = Admitted" "cd_granted_units d = 2" using run_capacity by blast
  have [simp]: "snd run_pair = run_intent 0" by (simp add: run_pair_def)
  have [simp]: "it_item_id (run_intent 0) = ''a''" "it_kind (run_intent 0) = EntryIntent"
    "it_direction (run_intent 0) = Some ''long''"
    by (simp_all add: run_intent_def it_item_id_def run_identity_def)
  show ?thesis using d
    by (simp add: arbitrate_def run_resolved run_valid run_screened capacity_result_def
        capacity_outcome_of_def decision_base_def is_granted_def is_admitted_def text_or_empty_def
        del: screen.simps)
qed

lemma run_idle_report:
  "\<exists>r. arbitrate (\<lambda>_. []) run_frozen run_snapshot [] (run_profiles 1 False) None [] None = Inr r \<and>
     rp_decisions r = []"
  by (simp add: arbitrate_def run_resolved run_valid)

lemma run_refused:
  "arbitrate (\<lambda>_. []) run_frozen run_snapshot [run_intent 1] (run_profiles 1 True) None [] None
     = Inl UnknownArbitrationItemError"
  by (simp add: arbitrate_def run_resolved run_valid)

definition run_position :: open_position where
  "run_position = \<lparr>op_item_id = ''a'', op_direction = ''long'', op_size = 2, op_entry_price = 100, op_notional = 200\<rparr>"

definition run_held :: ledger where
  "run_held = (ledger_init run_plan)\<lparr>lg_positions := [(''a'', run_position)]\<rparr>"

lemma run_opened:
  "begin_apply 1 run_frozen = (Inr (), ledger_init run_plan)"
  "set_position ''a'' ''long'' 2 100 (ledger_init run_plan) = (Inr run_position, run_held)"
  "commit_tick 1 run_held = (Inr None, run_held)"
  "commit_tick 1 (ledger_init run_plan) = (Inr None, ledger_init run_plan)"
  "fold_tick 1 (ledger_init run_plan) = (Inr None, ledger_init run_plan)"
  by (simp_all add: run_frozen_def run_held_def run_position_def run_plan_def ledger_eval plan_eval dec_eval
      cong: let_weak_cong)

lemma run_closed:
  "\<exists>l l' b pt. close_position ''a'' run_held = (Inr run_position, l) \<and> book_trade ''a'' 20 1 l = (Inr b, l') \<and>
     fold_tick 1 l' = (Inr pt, l'\<lparr>lg_equity_points := lg_equity_points l' @ [the pt], lg_last_point_equity := 1019\<rparr>) \<and>
     lg_equity l' = 1019"
  by (simp add: run_held_def run_position_def run_plan_def ledger_eval plan_eval dec_eval
      cong: let_weak_cong)

lemma run_tick_opens:
  "\<exists>t. run_tick (run_setup_of 0 True) (run_clock_tick 0) run_start
     = (Inr t, run_start\<lparr>rc_prices := [(''a'', 100)], rc_ledger := run_held\<rparr>)"
proof -
  obtain r d where r: "arbitrate (\<lambda>_. []) run_frozen run_snapshot [run_intent 0] (run_profiles 0 True) None [] None
      = Inr r" "rp_decisions r = [d]" "is_granted d" "ad_kind d = EntryIntent" "ad_item_id d = ''a''"
      "ad_direction d = Some ''long''" "ad_granted_units d = 2" using run_report by blast
  obtain v where v: "valuation run_frozen 1 (marks_at [run_view 0]) = Inr v" using run_valued by blast
  have [simp]: "su_digest (run_setup_of 0 True) = (\<lambda>_. ''d'')" "su_report_digest (run_setup_of 0 True) = (\<lambda>_. [])"
    "su_conflict_policy (run_setup_of 0 True) = None" "su_max_position (run_setup_of 0 True) = None"
    "su_max_exposure (run_setup_of 0 True) = None"
    "su_by_item (run_setup_of 0 True) = [(''a'', run_participant 0 True)]"
    by (simp_all add: setup_of_def run_request_def dict_of_items_def participant_id_def run_participant_def
        run_identity_def)
  have [simp]: "ct_views (run_clock_tick 0) = [run_view 0]" "ct_t_ms (run_clock_tick 0) = 1"
    "rc_ledger run_start = ledger_init run_plan" "tv_item_id (run_view 0) = ''a''"
    "run_start\<lparr>rc_prices := []\<rparr> = run_start"
    by (simp_all add: run_clock_tick_def run_start_def run_view_def)
  have settles: "pt_settle (run_participant 0 True) = (\<lambda>v d. sret ())" by (simp add: run_participant_def)
  have same: "run_start\<lparr>rc_ledger := run_frozen, rc_prices := []\<rparr> = run_start\<lparr>rc_ledger := run_frozen\<rparr>"
    by (simp add: run_start_def)
  have apply_one: "apply_decision (run_setup_of 0 True) [(''a'', run_view 0)] d
      (run_start\<lparr>rc_prices := [(''a'', 100)], rc_ledger := ledger_init run_plan\<rparr>)
     = (Inr (), run_start\<lparr>rc_prices := [(''a'', 100)], rc_ledger := run_held\<rparr>)"
    using r run_opened by (simp add: apply_decision_def st_simps on_ledger_def on_world_def dict_item_def
        text_or_empty_def settles run_start_def)
  show ?thesis using r v apply_one
    by (simp add: run_tick_def st_simps run_one on_ledger_def run_published same run_intents arbitrate_tick_def
        phase_7_apply_def run_opened del: phase_1_carry.simps phase_3_mandatory.simps phase_4_intents.simps)
qed

lemma run_tick_idle: "\<exists>t. run_tick (run_setup_of 1 False) (run_clock_tick 1) run_start = (Inr t, run_start)"
proof -
  obtain r where r: "arbitrate (\<lambda>_. []) run_frozen run_snapshot [] (run_profiles 1 False) None [] None = Inr r"
    "rp_decisions r = []" using run_idle_report by blast
  obtain v where v: "valuation run_frozen 1 (marks_at [run_view 1]) = Inr v" using run_valued by blast
  have [simp]: "su_digest (run_setup_of 1 w) = (\<lambda>_. ''d'')" "su_report_digest (run_setup_of 1 w) = (\<lambda>_. [])"
    "su_conflict_policy (run_setup_of 1 w) = None" "su_max_position (run_setup_of 1 w) = None"
    "su_max_exposure (run_setup_of 1 w) = None" for w
    by (simp_all add: setup_of_def run_request_def)
  have [simp]: "ct_views (run_clock_tick 1) = [run_view 1]" "ct_t_ms (run_clock_tick 1) = 1"
    "rc_ledger run_start = ledger_init run_plan" "tv_item_id (run_view 1) = ''a''"
    "run_start\<lparr>rc_prices := []\<rparr> = run_start" "run_start\<lparr>rc_ledger := ledger_init run_plan\<rparr> = run_start"
    by (simp_all add: run_clock_tick_def run_start_def run_view_def)
  have same: "run_start\<lparr>rc_ledger := run_frozen, rc_prices := []\<rparr> = run_start\<lparr>rc_ledger := run_frozen\<rparr>"
    by (simp add: run_start_def)
  show ?thesis using r v
    by (simp add: run_tick_def st_simps run_one on_ledger_def run_published same run_intents arbitrate_tick_def
        phase_7_apply_def run_opened del: phase_1_carry.simps phase_3_mandatory.simps phase_4_intents.simps)
qed

lemma run_tick_refused:
  "fst (run_tick (run_setup_of 1 True) (run_clock_tick 1) run_start) = Inl UnknownArbitrationItemError"
proof -
  obtain v where v: "valuation run_frozen 1 (marks_at [run_view 1]) = Inr v" using run_valued by blast
  have [simp]: "su_digest (run_setup_of 1 w) = (\<lambda>_. ''d'')" "su_report_digest (run_setup_of 1 w) = (\<lambda>_. [])"
    "su_conflict_policy (run_setup_of 1 w) = None" "su_max_position (run_setup_of 1 w) = None"
    "su_max_exposure (run_setup_of 1 w) = None" for w
    by (simp_all add: setup_of_def run_request_def)
  have [simp]: "ct_views (run_clock_tick 1) = [run_view 1]" "ct_t_ms (run_clock_tick 1) = 1"
    "rc_ledger run_start = ledger_init run_plan"
    by (simp_all add: run_clock_tick_def run_start_def)
  have same: "run_start\<lparr>rc_ledger := run_frozen, rc_prices := []\<rparr> = run_start\<lparr>rc_ledger := run_frozen\<rparr>"
    by (simp add: run_start_def)
  show ?thesis using v run_refused
    by (simp add: run_tick_def st_simps run_one on_ledger_def run_published same run_intents arbitrate_tick_def
        del: phase_1_carry.simps phase_3_mandatory.simps phase_4_intents.simps)
qed

section \<open>The runs\<close>

lemma demo_run_unfold:
  "demo_run n wants = (case iter_ticks demo_key (\<lambda>_. None) (map pt_stream [run_participant n wants]) of
     (ks, stop) \<Rightarrow> snd (tick_loop (run_setup_of n wants) ks stop [] None [] run_start))"
  by (simp add: demo_run_def run_portfolio_def iter_portfolio_def run_prepared run_start_def split: prod.split)

lemma demo_run_trades:
  "\<exists>r k. demo_run 0 True = Inr r \<and> pr_ticks r = [k] \<and> lg_equity (pr_ledger r) = 1019"
proof -
  obtain t where t: "run_tick (run_setup_of 0 True) (run_clock_tick 0) run_start
     = (Inr t, run_start\<lparr>rc_prices := [(''a'', 100)], rc_ledger := run_held\<rparr>)" using run_tick_opens by blast
  obtain l l' b pt where l: "close_position ''a'' run_held = (Inr run_position, l)" "book_trade ''a'' 20 1 l = (Inr b, l')"
    "fold_tick 1 l' = (Inr pt, l'\<lparr>lg_equity_points := lg_equity_points l' @ [the pt], lg_last_point_equity := 1019\<rparr>)"
    "lg_equity l' = 1019" using run_closed by blast
  have items: "su_by_item (run_setup_of 0 True) = [(''a'', run_participant 0 True)]"
    by (simp add: setup_of_def dict_of_items_def participant_id_def run_participant_def run_identity_def)
  have [simp]: "dget (lg_positions run_held) ''a'' = Some run_position" by (simp add: run_held_def)
  have [simp]: "ct_views (run_clock_tick 0) = [run_view 0]" "ct_t_ms (run_clock_tick 0) = 1"
    "is_decision (run_view 0)" "tv_item_id (run_view 0) = ''a''"
    "pt_finalize (run_participant 0 True) = (\<lambda>v. sret (Some run_exit))"
    "me_gross_pnl run_exit = 20" "me_commission run_exit = 1"
    by (simp_all add: run_clock_tick_def run_view_def is_decision_def run_participant_def run_exit_def)
  show ?thesis using t l
    by (simp add: demo_run_unfold run_ticks finish_run_def phase_10_finalize_def items note_views_def final_close_def
        st_simps on_world_def on_ledger_def held_position_def close_and_book_def del: list.map)
qed

lemma demo_run_idle: "\<exists>r k. demo_run 1 False = Inr r \<and> pr_ticks r = [k]"
proof -
  obtain t where t: "run_tick (run_setup_of 1 False) (run_clock_tick 1) run_start = (Inr t, run_start)"
    using run_tick_idle by blast
  have items: "su_by_item (run_setup_of 1 False) = [(''a'', run_participant 1 False)]"
    by (simp add: setup_of_def dict_of_items_def participant_id_def run_participant_def run_identity_def)
  have [simp]: "ct_views (run_clock_tick 1) = [run_view 1]" "ct_t_ms (run_clock_tick 1) = 1"
    "is_decision (run_view 1)" "tv_item_id (run_view 1) = ''a''"
    "pt_finalize (run_participant 1 False) = (\<lambda>v. sret (Some run_exit))"
    "rc_ledger run_start = ledger_init run_plan" "dget (lg_positions (ledger_init run_plan)) ''a'' = None"
    by (simp_all add: run_clock_tick_def run_view_def is_decision_def run_participant_def run_start_def ledger_init_def)
  show ?thesis using t
    by (simp add: demo_run_unfold run_ticks finish_run_def phase_10_finalize_def items note_views_def final_close_def
        st_simps on_world_def on_ledger_def held_position_def run_opened del: list.map)
qed

lemma demo_run_refused: "demo_run 1 True = Inl UnknownArbitrationItemError"
proof -
  obtain c where "run_tick (run_setup_of 1 True) (run_clock_tick 1) run_start = (Inl UnknownArbitrationItemError, c)"
    using run_tick_refused by (metis prod.collapse)
  then show ?thesis by (simp add: demo_run_unfold run_ticks del: list.map)
qed

section \<open>Witnesses\<close>

theorem published_ticks_replay_ledger_witness:
  "\<exists>r k costs. demo_run 0 True = Inr r \<and> pr_ticks r = [k] \<and> lg_equity (pr_ledger r) = 1019 \<and>
     run_ops (exec_ledger (\<lambda>_. ''d'')) (\<lambda>_. True) (tick_ops costs k @
       concat (map close_ops (pr_final_closes r)) @ [FoldTick (pk_t_ms k)]) (ledger_init run_plan)
     = Some (pr_ledger r)"
proof -
  obtain r k where r: "demo_run 0 True = Inr r" "pr_ticks r = [k]" "lg_equity (pr_ledger r) = 1019"
    using demo_run_trades by blast
  from published_ticks_replay_ledger [OF r(1) [unfolded demo_run_def]] obtain costs where
    "length costs = 1" "run_ops (exec_ledger (\<lambda>_. ''d'')) (\<lambda>_. True) (concat (map2 tick_ops costs [k]) @
       concat (map close_ops (pr_final_closes r)) @ [FoldTick (pk_t_ms k)]) (ledger_init run_plan)
     = Some (pr_ledger r)"
    by (auto simp: run_prepared r(2))
  then obtain c where "run_ops (exec_ledger (\<lambda>_. ''d'')) (\<lambda>_. True) (tick_ops c k @
       concat (map close_ops (pr_final_closes r)) @ [FoldTick (pk_t_ms k)]) (ledger_init run_plan)
     = Some (pr_ledger r)" by (cases costs) auto
  with r show ?thesis by blast
qed

theorem composite_curve_ordered_witness:
  "\<exists>r. demo_run 0 True = Inr r \<and> ep_equity (last (lg_equity_points (pr_ledger r))) = 1019"
proof -
  obtain r k where r: "demo_run 0 True = Inr r" "lg_equity (pr_ledger r) = 1019" using demo_run_trades by blast
  with composite_curve_ordered [OF r(1) [unfolded demo_run_def]] show ?thesis by simp
qed

theorem every_tick_has_one_valuation_witness:
  "\<exists>r k. demo_run 0 True = Inr r \<and> k \<in> set (pr_ticks r) \<and> one_valuation k"
proof -
  obtain r k where r: "demo_run 0 True = Inr r" "pr_ticks r = [k]" using demo_run_trades by blast
  with every_tick_has_one_valuation [OF r(1) [unfolded demo_run_def], of k] show ?thesis by auto
qed

definition rival_participant :: "unit participant" where
  "rival_participant = (run_participant 1 False)
     \<lparr>pt_identity := (run_identity 1)\<lparr>id_item_id := ''b''\<rparr>, pt_stream := (run_stream 1)\<lparr>bs_item_id := ''b''\<rparr>\<rparr>"

theorem participants_in_any_order_witness:
  "iter_portfolio (\<lambda>_. ''d'') (\<lambda>_. []) demo_key (\<lambda>_. None) run_request
       [run_participant 0 True, rival_participant] ()
     = iter_portfolio (\<lambda>_. ''d'') (\<lambda>_. []) demo_key (\<lambda>_. None) run_request
       [rival_participant, run_participant 0 True] ()"
  by (rule participants_in_any_order) simp

theorem gapped_pins_never_trade_witness:
  "\<exists>r k. demo_run 1 False = Inr r \<and> pr_ticks r = [k] \<and> run_identity 1 \<notin> it_identity ` set (pk_intents k) \<and>
     demo_run 1 True = Inl UnknownArbitrationItemError"
proof -
  obtain r k where r: "demo_run 1 False = Inr r" "pr_ticks r = [k]" using demo_run_idle by blast
  have "pt_identity ([run_participant 1 False] ! 0) = run_identity 1" "id_pin_ordinal (run_identity 1) \<noteq> int 0"
    by (simp_all add: run_participant_def run_identity_def)
  with gapped_pins_never_trade [OF run_prepared _ _ r(1) [unfolded demo_run_def], of 0 k] r demo_run_refused
  show ?thesis by simp
qed

end
