(* ===== verification/Lifecycles.thy ===== *)
theory Lifecycles
  imports Py_Prelude
begin

text \<open>
  The lifecycle tables (\<^verbatim>\<open>domain/*/state_machine.py\<close>, \<^verbatim>\<open>domain/capability/lifecycle.py\<close>): one datatype
  for each state enum, one table and one guarded move for each component. The interface they share
  is the locale \<open>lifecycle\<close>: a move returns the target the table allows and raises otherwise. What
  follows from a table alone, the closed sets of states and the gates that every history passes,
  is proved once in the locale and reaches each component through its interpretation.

  A history is the list of targets asked for, one call of the guard for each, the first refusal
  ending it (\<open>run_moves\<close>).
\<close>

fun run_moves :: "('s \<Rightarrow> 's \<Rightarrow> 's res) \<Rightarrow> 's \<Rightarrow> 's list \<Rightarrow> 's res" where
  "run_moves move s [] = ok s"
| "run_moves move s (t # ts) = rbind (move s t) (\<lambda>s'. run_moves move s' ts)"

text \<open>The states some history leads to, as a relation.\<close>

inductive reaches :: "('s \<Rightarrow> 's \<Rightarrow> 's res) \<Rightarrow> 's \<Rightarrow> 's \<Rightarrow> bool" for move where
  reaches_refl: "reaches move s s"
| reaches_step: "move s t = Inr t' \<Longrightarrow> reaches move t' u \<Longrightarrow> reaches move s u"

inductive_cases reachesE: "reaches move s u"

lemma reaches_iff_run: "reaches move s u \<longleftrightarrow> (\<exists>ts. run_moves move s ts = Inr u)"
proof
  show "reaches move s u \<Longrightarrow> \<exists>ts. run_moves move s ts = Inr u"
  proof (induction rule: reaches.induct)
    case (reaches_refl s)
    then show ?case by (intro exI [of _ "[]"]) simp
  next
    case (reaches_step s t t' u)
    then obtain ts where "run_moves move t' ts = Inr u" by blast
    with reaches_step show ?case by (intro exI [of _ "t # ts"]) simp
  qed
  have "run_moves move s ts = Inr u \<Longrightarrow> reaches move s u" for ts
    by (induction ts arbitrary: s) (auto simp: rbind_Inr_iff intro: reaches.intros)
  then show "\<exists>ts. run_moves move s ts = Inr u \<Longrightarrow> reaches move s u" by blast
qed

section \<open>The interface of a lifecycle\<close>

locale lifecycle =
  fixes move :: "'s \<Rightarrow> 's \<Rightarrow> 's res" and table :: "'s \<Rightarrow> 's set"
  assumes accepts: "t \<in> table s \<Longrightarrow> move s t = Inr t"
    and refuses: "t \<notin> table s \<Longrightarrow> \<not> is_ok (move s t)"
begin

lemma move_iff: "move s t = Inr t' \<longleftrightarrow> t \<in> table s \<and> t' = t"
  using accepts [of t s] refuses [of t s] by (cases "t \<in> table s") auto

lemma run_Cons: "run_moves move s (t # ts) = Inr u \<longleftrightarrow> t \<in> table s \<and> run_moves move t ts = Inr u"
  by (auto simp: rbind_Inr_iff move_iff)

lemma run_append: "run_moves move s (us @ vs) = Inr u \<longleftrightarrow>
    (\<exists>t. run_moves move s us = Inr t \<and> run_moves move t vs = Inr u)"
  by (induction us arbitrary: s) (auto simp: run_Cons simp del: run_moves.simps(2))

lemma run_last: "run_moves move s ts = Inr u \<Longrightarrow> u = last (s # ts)"
  by (induction ts arbitrary: s) (auto simp: run_Cons simp del: run_moves.simps(2))

text \<open>The last move of a history that ends elsewhere than it began.\<close>

lemma arrives:
  assumes "run_moves move s ts = Inr u" and "u \<noteq> s"
  obtains us x where "ts = us @ [u]" "u \<in> table x" "run_moves move s us = Inr x"
proof -
  obtain us t where ts: "ts = us @ [t]" using assms by (cases ts rule: rev_exhaust) auto
  with assms(1) obtain x where "run_moves move s us = Inr x" "run_moves move x [t] = Inr u"
    by (auto simp: run_append)
  with ts show thesis using that by (auto simp: run_Cons simp del: run_moves.simps(2))
qed

text \<open>A state with no move out of it ends every history.\<close>

lemma absorbing: "table s = {} \<Longrightarrow> run_moves move s ts = Inr u \<longleftrightarrow> ts = [] \<and> u = s"
  by (cases ts) (auto simp: run_Cons simp del: run_moves.simps(2))

text \<open>A history that leaves a set of states passes one of the states that lead out of it.\<close>

lemma gated:
  assumes "\<forall>x\<in>before. table x \<subseteq> gates \<union> before" and "gates \<inter> before = {}"
  shows "run_moves move s ts = Inr u \<Longrightarrow> s \<in> before \<Longrightarrow> u \<notin> before \<Longrightarrow> set ts \<inter> gates \<noteq> {}"
proof (induction ts arbitrary: s)
  case (Cons t ts)
  then have "t \<in> gates \<or> t \<in> before" "run_moves move t ts = Inr u"
    using assms(1) by (auto simp: run_Cons simp del: run_moves.simps(2))
  with Cons.IH [of t] Cons.prems show ?case by auto
qed simp

text \<open>A state with one predecessor is entered from it.\<close>

lemma entered_from:
  assumes "\<And>x. goal \<in> table x \<Longrightarrow> x = gate"
    and "run_moves move s ts = Inr goal" and "ts \<noteq> []"
  shows "\<exists>us. s # ts = us @ [gate, goal]"
proof -
  obtain us t where ts: "ts = us @ [t]" using assms(3) by (meson rev_exhaust)
  with assms(2) obtain x where x: "run_moves move s us = Inr x" "run_moves move x [t] = Inr goal"
    by (auto simp: run_append)
  then have "t = goal" "goal \<in> table x" by (auto simp: run_Cons simp del: run_moves.simps(2))
  then have "s # us = butlast (s # us) @ [gate]"
    using assms(1) run_last [OF x(1)] by (metis append_butlast_last_id list.distinct(1))
  with ts \<open>t = goal\<close> show ?thesis by (metis append_Cons append_assoc append_Nil)
qed

end

text \<open>
  Work states that always have a way to end: every state reaches a final one, and final states
  have no move out.
\<close>

locale terminating_lifecycle = lifecycle +
  fixes final :: "'s set"
  assumes final_closed: "s \<in> final \<Longrightarrow> table s = {}"
    and can_finish: "s \<notin> final \<Longrightarrow> table s \<inter> final \<noteq> {}"
begin

lemma never_stuck: "s \<notin> final \<longleftrightarrow> (\<exists>t\<in>final. move s t = Inr t)"
  using final_closed [of s] can_finish [of s] by (auto simp: move_iff)

lemma final_stays: "s \<in> final \<Longrightarrow> run_moves move s ts = Inr u \<longleftrightarrow> ts = [] \<and> u = s"
  using absorbing final_closed by blast

end

section \<open>Deletion\<close>

datatype deletion_state = DelActive | DelSoftDeleted | DelPurgePending | DelPurged

definition deletion_allowed :: "deletion_state \<Rightarrow> deletion_state set" where
  "deletion_allowed s = (case s of
     DelActive \<Rightarrow> {DelSoftDeleted}
   | DelSoftDeleted \<Rightarrow> {DelActive, DelPurgePending}
   | DelPurgePending \<Rightarrow> {DelPurged, DelSoftDeleted}
   | DelPurged \<Rightarrow> {})"

definition can_soft_delete :: "deletion_state \<Rightarrow> bool" where
  "can_soft_delete current = (current = DelActive)"

definition can_restore :: "deletion_state \<Rightarrow> bool" where
  "can_restore current = (current = DelSoftDeleted)"

definition can_purge :: "deletion_state \<Rightarrow> bool" where
  "can_purge current = (current \<in> {DelSoftDeleted, DelPurgePending})"

definition next_deletion_state :: "deletion_state \<Rightarrow> deletion_state \<Rightarrow> deletion_state res" where
  "next_deletion_state current target =
     (if target \<notin> deletion_allowed current then raise IllegalTransition else ok target)"

interpretation del: lifecycle next_deletion_state deletion_allowed
  by unfold_locales (auto simp: next_deletion_state_def)

section \<open>Resolvers and instruments\<close>

datatype resolver_trust = TrustCandidate | TrustedActive | TrustDeprecated | TrustUnavailable

definition resolver_allowed :: "resolver_trust \<Rightarrow> resolver_trust set" where
  "resolver_allowed s = (case s of
     TrustCandidate \<Rightarrow> {TrustedActive, TrustUnavailable}
   | TrustedActive \<Rightarrow> {TrustDeprecated, TrustUnavailable}
   | TrustDeprecated \<Rightarrow> {TrustUnavailable}
   | TrustUnavailable \<Rightarrow> {})"

definition can_activate_resolver :: "resolver_trust \<Rightarrow> bool" where
  "can_activate_resolver current = (current = TrustCandidate)"

definition can_deprecate_resolver :: "resolver_trust \<Rightarrow> bool" where
  "can_deprecate_resolver current = (current = TrustedActive)"

definition next_resolver_trust_state :: "resolver_trust \<Rightarrow> resolver_trust \<Rightarrow> resolver_trust res" where
  "next_resolver_trust_state current target =
     (if target \<notin> resolver_allowed current then raise IllegalTransition else ok target)"

interpretation resolver: lifecycle next_resolver_trust_state resolver_allowed
  by unfold_locales (auto simp: next_resolver_trust_state_def)

datatype instrument_state = InstrumentActive | InstrumentDeprecated

definition instrument_allowed :: "instrument_state \<Rightarrow> instrument_state set" where
  "instrument_allowed s = (case s of
     InstrumentActive \<Rightarrow> {InstrumentDeprecated} | InstrumentDeprecated \<Rightarrow> {})"

definition can_deprecate_instrument :: "instrument_state \<Rightarrow> bool" where
  "can_deprecate_instrument current = (current = InstrumentActive)"

definition next_instrument_state ::
    "instrument_state \<Rightarrow> instrument_state \<Rightarrow> instrument_state res" where
  "next_instrument_state current target =
     (if target \<notin> instrument_allowed current then raise IllegalTransition else ok target)"

interpretation instrument: terminating_lifecycle
  next_instrument_state instrument_allowed "{InstrumentDeprecated}"
  by unfold_locales
    (auto simp: next_instrument_state_def instrument_allowed_def split: instrument_state.splits)

interpretation resolver_end: terminating_lifecycle
  next_resolver_trust_state resolver_allowed "{TrustUnavailable}"
  by unfold_locales (auto simp: resolver_allowed_def split: resolver_trust.splits)


section \<open>Market and research revisions\<close>

datatype market_state = MarketDraft | MarketUploading | MarketAnalyzing | MarketNeedsReview
  | MarketVerified | MarketRejected | MarketApproved | MarketDeprecated

definition market_allowed :: "market_state \<Rightarrow> market_state set" where
  "market_allowed s = (case s of
     MarketDraft \<Rightarrow> {MarketUploading, MarketRejected}
   | MarketUploading \<Rightarrow> {MarketAnalyzing, MarketRejected}
   | MarketAnalyzing \<Rightarrow> {MarketNeedsReview, MarketVerified, MarketRejected}
   | MarketNeedsReview \<Rightarrow> {MarketAnalyzing, MarketVerified, MarketRejected}
   | MarketVerified \<Rightarrow> {MarketApproved, MarketRejected, MarketNeedsReview}
   | MarketApproved \<Rightarrow> {MarketDeprecated}
   | MarketRejected \<Rightarrow> {}
   | MarketDeprecated \<Rightarrow> {})"

definition market_can_approve :: "market_state \<Rightarrow> bool" where
  "market_can_approve current = (current = MarketVerified)"

definition market_can_deprecate :: "market_state \<Rightarrow> bool" where
  "market_can_deprecate current = (current = MarketApproved)"

definition market_can_verify :: "market_state \<Rightarrow> bool" where
  "market_can_verify current = (MarketVerified \<in> market_allowed current)"

definition market_can_reject :: "market_state \<Rightarrow> bool" where
  "market_can_reject current = (MarketRejected \<in> market_allowed current)"

definition next_market_revision_state :: "market_state \<Rightarrow> market_state \<Rightarrow> market_state res" where
  "next_market_revision_state current target =
     (if target \<notin> market_allowed current then raise IllegalTransition else ok target)"

interpretation market: lifecycle next_market_revision_state market_allowed
  by unfold_locales (auto simp: next_market_revision_state_def)

datatype research_state = ResearchDraft | ResearchAnalyzing | ResearchNeedsReview
  | ResearchVerified | ResearchApproved | ResearchDeprecated | ResearchApprovalRevoked

definition research_allowed :: "research_state \<Rightarrow> research_state set" where
  "research_allowed s = (case s of
     ResearchDraft \<Rightarrow> {ResearchAnalyzing}
   | ResearchAnalyzing \<Rightarrow> {ResearchNeedsReview, ResearchVerified}
   | ResearchNeedsReview \<Rightarrow> {ResearchAnalyzing, ResearchVerified}
   | ResearchVerified \<Rightarrow> {ResearchApproved, ResearchNeedsReview}
   | ResearchApproved \<Rightarrow> {ResearchDeprecated, ResearchApprovalRevoked}
   | ResearchApprovalRevoked \<Rightarrow> {ResearchDeprecated}
   | ResearchDeprecated \<Rightarrow> {})"

definition research_can_approve :: "research_state \<Rightarrow> bool" where
  "research_can_approve current = (current = ResearchVerified)"

definition research_can_revoke :: "research_state \<Rightarrow> bool" where
  "research_can_revoke current = (current = ResearchApproved)"

definition research_can_deprecate :: "research_state \<Rightarrow> bool" where
  "research_can_deprecate current = (ResearchDeprecated \<in> research_allowed current)"

definition research_can_verify :: "research_state \<Rightarrow> bool" where
  "research_can_verify current = (ResearchVerified \<in> research_allowed current)"

definition next_research_revision_state ::
    "research_state \<Rightarrow> research_state \<Rightarrow> research_state res" where
  "next_research_revision_state current target =
     (if target \<notin> research_allowed current then raise IllegalTransition else ok target)"

interpretation research: lifecycle next_research_revision_state research_allowed
  by unfold_locales (auto simp: next_research_revision_state_def)

section \<open>Create-package requests and pre-check scans\<close>

datatype request_state = Requested | PrecheckPassed | PrecheckBlocked | PrecheckNotApplicable
  | PrecheckStale | PrecheckFailed | CandidateGenerating | CandidateReady | CandidateFailed
  | DraftCreated | ValidationRunning | EligibleForApproval | RevisionRequired | RequestApproved
  | RequestRejected

definition request_allowed :: "request_state \<Rightarrow> request_state set" where
  "request_allowed s = (case s of
     Requested \<Rightarrow> {PrecheckPassed, PrecheckBlocked, PrecheckNotApplicable, PrecheckFailed,
       CandidateGenerating}
   | PrecheckPassed \<Rightarrow> {PrecheckStale, PrecheckBlocked, PrecheckPassed, PrecheckFailed,
       CandidateGenerating}
   | PrecheckBlocked \<Rightarrow> {PrecheckStale, PrecheckPassed, PrecheckBlocked, PrecheckFailed}
   | PrecheckNotApplicable \<Rightarrow> {PrecheckPassed, PrecheckBlocked, PrecheckFailed,
       CandidateGenerating, PrecheckNotApplicable}
   | PrecheckStale \<Rightarrow> {PrecheckPassed, PrecheckBlocked, PrecheckNotApplicable, PrecheckFailed}
   | PrecheckFailed \<Rightarrow> {PrecheckPassed, PrecheckBlocked, PrecheckNotApplicable, PrecheckFailed,
       PrecheckStale}
   | CandidateGenerating \<Rightarrow> {CandidateReady, CandidateFailed}
   | CandidateReady \<Rightarrow> {DraftCreated, CandidateGenerating}
   | CandidateFailed \<Rightarrow> {CandidateGenerating}
   | DraftCreated \<Rightarrow> {ValidationRunning, EligibleForApproval, RevisionRequired, RequestRejected,
       CandidateGenerating}
   | ValidationRunning \<Rightarrow> {EligibleForApproval, RevisionRequired}
   | EligibleForApproval \<Rightarrow> {RequestApproved, RequestRejected, RevisionRequired}
   | RevisionRequired \<Rightarrow> {CandidateGenerating}
   | RequestApproved \<Rightarrow> {}
   | RequestRejected \<Rightarrow> {CandidateGenerating})"

definition next_request_state :: "request_state \<Rightarrow> request_state \<Rightarrow> request_state res" where
  "next_request_state current target =
     (if target \<notin> request_allowed current then raise IllegalTransition else ok target)"

interpretation request: lifecycle next_request_state request_allowed
  by unfold_locales (auto simp: next_request_state_def)

datatype scan_status = ScanNotChecked | ScanChecking | ScanPassed | ScanBlocked
  | ScanNotApplicable | ScanFailed | ScanStale

definition scan_allowed :: "scan_status \<Rightarrow> scan_status set" where
  "scan_allowed s = (case s of
     ScanNotChecked \<Rightarrow> {ScanChecking, ScanNotApplicable}
   | ScanChecking \<Rightarrow> {ScanPassed, ScanBlocked, ScanNotApplicable, ScanFailed}
   | ScanPassed \<Rightarrow> {ScanStale}
   | ScanBlocked \<Rightarrow> {ScanStale, ScanChecking}
   | ScanNotApplicable \<Rightarrow> {ScanChecking}
   | ScanFailed \<Rightarrow> {ScanChecking}
   | ScanStale \<Rightarrow> {ScanChecking})"

definition scan_blocking_states :: "scan_status set" where
  "scan_blocking_states = {ScanBlocked, ScanFailed, ScanStale, ScanNotChecked, ScanChecking}"

definition next_scan_status :: "scan_status \<Rightarrow> scan_status \<Rightarrow> scan_status res" where
  "next_scan_status current target =
     (if target \<notin> scan_allowed current then raise IllegalTransition else ok target)"

interpretation scan: lifecycle next_scan_status scan_allowed
  by unfold_locales (auto simp: next_scan_status_def)


section \<open>Agent runtime, tasks and directives\<close>

datatype runtime_status = RuntimeActive | RuntimePaused | RuntimeStopping | RuntimeRecovering

datatype runtime_control = ControlPause | ControlStop

definition runtime_pause_eligible :: "runtime_status set" where
  "runtime_pause_eligible = {RuntimeActive}"

definition runtime_resume_eligible :: "runtime_status set" where
  "runtime_resume_eligible = {RuntimePaused}"

definition runtime_can_pause :: "runtime_status \<Rightarrow> runtime_control option \<Rightarrow> bool" where
  "runtime_can_pause status pending = (status \<in> runtime_pause_eligible \<and> pending = None)"

definition runtime_can_resume :: "runtime_status \<Rightarrow> bool" where
  "runtime_can_resume status = (status \<in> runtime_resume_eligible)"

definition runtime_can_request_stop :: "runtime_status \<Rightarrow> runtime_control option \<Rightarrow> bool" where
  "runtime_can_request_stop status pending =
     (status \<in> {RuntimeActive, RuntimeRecovering} \<and> pending = None)"

datatype task_status = TaskQueued | TaskRunning | TaskWaiting | TaskCheckpointing | TaskPaused
  | TaskSucceeded | TaskFailed | TaskCancelled

definition task_transitions :: "task_status \<Rightarrow> task_status set" where
  "task_transitions s = (case s of
     TaskQueued \<Rightarrow> {TaskRunning, TaskWaiting, TaskCancelled}
   | TaskRunning \<Rightarrow> {TaskWaiting, TaskCheckpointing, TaskPaused, TaskSucceeded, TaskFailed,
       TaskCancelled}
   | TaskWaiting \<Rightarrow> {TaskRunning, TaskCheckpointing, TaskCancelled, TaskFailed}
   | TaskCheckpointing \<Rightarrow> {TaskRunning, TaskPaused, TaskSucceeded, TaskFailed, TaskCancelled}
   | TaskPaused \<Rightarrow> {TaskRunning, TaskCancelled}
   | TaskSucceeded \<Rightarrow> {}
   | TaskFailed \<Rightarrow> {}
   | TaskCancelled \<Rightarrow> {})"

definition task_transition_allowed :: "task_status \<Rightarrow> task_status \<Rightarrow> bool" where
  "task_transition_allowed frm to = (to \<in> task_transitions frm)"

definition task_active_states :: "task_status set" where
  "task_active_states = {TaskQueued, TaskRunning, TaskWaiting, TaskCheckpointing}"

definition task_terminal_states :: "task_status set" where
  "task_terminal_states = {TaskSucceeded, TaskFailed, TaskCancelled}"

definition task_stoppable_states :: "task_status set" where
  "task_stoppable_states = {TaskRunning, TaskWaiting, TaskCheckpointing}"

text \<open>The executor refuses a move the table does not allow (\<^verbatim>\<open>_transition\<close>).\<close>

definition transition_task :: "task_status \<Rightarrow> task_status \<Rightarrow> task_status res" where
  "transition_task s to = (if \<not> task_transition_allowed s to then raise RuntimeError else ok to)"

interpretation task: terminating_lifecycle transition_task task_transitions task_terminal_states
  by unfold_locales (auto simp: transition_task_def task_transition_allowed_def task_terminal_states_def
    task_transitions_def split: task_status.splits)

datatype directive_status = DirectiveQueued | DirectiveConsumed | DirectiveDeferred
  | DirectiveCompleted | DirectiveCancelled

definition directive_transitions :: "directive_status \<Rightarrow> directive_status set" where
  "directive_transitions s = (case s of
     DirectiveQueued \<Rightarrow> {DirectiveConsumed, DirectiveDeferred, DirectiveCancelled}
   | DirectiveDeferred \<Rightarrow> {DirectiveQueued, DirectiveConsumed, DirectiveCancelled}
   | DirectiveConsumed \<Rightarrow> {DirectiveCompleted}
   | DirectiveCompleted \<Rightarrow> {}
   | DirectiveCancelled \<Rightarrow> {})"

definition directive_transition_allowed :: "directive_status \<Rightarrow> directive_status \<Rightarrow> bool" where
  "directive_transition_allowed frm to = (to \<in> directive_transitions frm)"

datatype task_priority = PriorityNormal | PriorityHigh | PriorityAutonomous

definition task_priority_of :: "string \<Rightarrow> task_priority option" where
  "task_priority_of raw =
     (if raw = ''normal'' then Some PriorityNormal else if raw = ''high'' then Some PriorityHigh
      else if raw = ''autonomous'' then Some PriorityAutonomous else None)"

definition human_directive_priorities :: "task_priority set" where
  "human_directive_priorities = {PriorityNormal, PriorityHigh}"

definition parse_human_directive_priority :: "string \<Rightarrow> task_priority res" where
  "parse_human_directive_priority raw =
     (case task_priority_of raw of
        None \<Rightarrow> raise InvalidDirectivePriorityError
      | Some candidate \<Rightarrow> if candidate \<notin> human_directive_priorities
          then raise InvalidDirectivePriorityError else ok candidate)"


section \<open>What the tables guarantee\<close>

text \<open>The tables, as the simplifier reads them, and the shape of the proofs over them.\<close>

lemmas table_defs = deletion_allowed_def market_allowed_def research_allowed_def
  request_allowed_def scan_allowed_def task_transitions_def directive_transitions_def

lemma purged_from: "DelPurged \<in> deletion_allowed d \<Longrightarrow> d = DelPurgePending"
  and market_approved_from: "MarketApproved \<in> market_allowed m \<Longrightarrow> m = MarketVerified"
  and research_approved_from: "ResearchApproved \<in> research_allowed r \<Longrightarrow> r = ResearchVerified"
  and request_approved_from: "RequestApproved \<in> request_allowed q \<Longrightarrow> q = EligibleForApproval"
  by (auto simp: table_defs split: deletion_state.splits market_state.splits research_state.splits
    request_state.splits)

lemma request_entered_from:
  "EligibleForApproval \<in> request_allowed q \<Longrightarrow> q = ValidationRunning \<or> q = DraftCreated"
  "ValidationRunning \<in> request_allowed q \<Longrightarrow> q = DraftCreated"
  "DraftCreated \<in> request_allowed q \<Longrightarrow> q = CandidateReady"
  "CandidateReady \<in> request_allowed q \<Longrightarrow> q = CandidateGenerating"
  by (auto simp: request_allowed_def split: request_state.splits)

lemma draft_of_candidate:
  assumes "run_moves next_request_state Requested ts = Inr DraftCreated"
  shows "\<exists>us. ts = us @ [CandidateGenerating, CandidateReady, DraftCreated]"
proof -
  obtain us x where 1: "ts = us @ [DraftCreated]" "DraftCreated \<in> request_allowed x"
    "run_moves next_request_state Requested us = Inr x" by (rule request.arrives [OF assms]) simp
  then have "run_moves next_request_state Requested us = Inr CandidateReady"
    using request_entered_from(3) by simp
  then obtain vs y where 2: "us = vs @ [CandidateReady]" "CandidateReady \<in> request_allowed y"
    "run_moves next_request_state Requested vs = Inr y" by (rule request.arrives) simp
  then have "run_moves next_request_state Requested vs = Inr CandidateGenerating"
    using request_entered_from(4) by simp
  then obtain ws where "vs = ws @ [CandidateGenerating]" by (rule request.arrives) simp_all
  then show ?thesis using 1 2 by simp
qed

text \<open>C28. What the table of the create-package requests guarantees of an approval, and what it does
  not. An approval is the end of one unbroken chain: a candidate was generated, was ready, became
  the draft, and that very draft - no regeneration in between - became eligible and was approved.
  The table does not make the validation run part of the chain: it lets a draft become eligible
  with or without it, and the history without any validation run is allowed up to the approval.
  The comment beside the table and the message of \<open>ValidationRequired\<close> say that a passed
  validation run is the only way; what holds that line is the caller, which asks for eligibility in
  the validation job alone.\<close>

theorem approved_request_has_evidence:
  assumes "run_moves next_request_state Requested ts = Inr RequestApproved"
  shows "(\<exists>us validation. ts = us @ [CandidateGenerating, CandidateReady, DraftCreated] @ validation @
      [EligibleForApproval, RequestApproved] \<and> validation \<in> {[], [ValidationRunning]}) \<and>
    run_moves next_request_state Requested [PrecheckPassed, CandidateGenerating, CandidateReady,
      DraftCreated, EligibleForApproval, RequestApproved] = Inr RequestApproved"
proof -
  obtain us x where 1: "ts = us @ [RequestApproved]" "RequestApproved \<in> request_allowed x"
    "run_moves next_request_state Requested us = Inr x" by (rule request.arrives [OF assms]) simp
  then have "run_moves next_request_state Requested us = Inr EligibleForApproval"
    using request_approved_from by simp
  then obtain vs y where 2: "us = vs @ [EligibleForApproval]" "EligibleForApproval \<in> request_allowed y"
    "run_moves next_request_state Requested vs = Inr y" by (rule request.arrives) simp
  from request_entered_from(1) [OF 2(2)]
  have "\<exists>ws validation. vs = ws @ [CandidateGenerating, CandidateReady, DraftCreated] @ validation \<and>
      validation \<in> {[], [ValidationRunning]}"
  proof
    assume "y = DraftCreated"
    then show ?thesis using draft_of_candidate [of vs] 2(3) by auto
  next
    assume "y = ValidationRunning"
    then have "run_moves next_request_state Requested vs = Inr ValidationRunning" using 2(3) by simp
    then obtain ws z where 3: "vs = ws @ [ValidationRunning]" "ValidationRunning \<in> request_allowed z"
      "run_moves next_request_state Requested ws = Inr z" by (rule request.arrives) simp
    with request_entered_from(2) obtain us where "ws = us @ [CandidateGenerating, CandidateReady, DraftCreated]"
      using draft_of_candidate [of ws] by auto
    with 3(1) show ?thesis by (intro exI [of _ us] exI [of _ "[ValidationRunning]"]) simp
  qed
  moreover have "run_moves next_request_state Requested [PrecheckPassed, CandidateGenerating,
      CandidateReady, DraftCreated, EligibleForApproval, RequestApproved] = Inr RequestApproved"
    by (simp add: next_request_state_def request_allowed_def)
  ultimately show ?thesis using 1(1) 2(1) by auto
qed

theorem approved_request_has_evidence_witness:
  "\<exists>us validation. [PrecheckPassed, CandidateGenerating, CandidateReady, DraftCreated, ValidationRunning,
      EligibleForApproval, RequestApproved] = us @ [CandidateGenerating, CandidateReady, DraftCreated] @
        validation @ [EligibleForApproval, RequestApproved] \<and> validation \<in> {[], [ValidationRunning]}"
  by (rule approved_request_has_evidence [THEN conjunct1]) (simp add: next_request_state_def request_allowed_def)

text \<open>A blocked, failed or stale pre-check keeps the generator out until a new check has passed.\<close>

lemma failed_precheck_blocks_generation:
  assumes "run_moves next_request_state s ts = Inr CandidateGenerating"
    and "s \<in> {PrecheckBlocked, PrecheckFailed, PrecheckStale}"
  shows "set ts \<inter> {PrecheckPassed, PrecheckNotApplicable} \<noteq> {}"
  using request.gated [of "{PrecheckBlocked, PrecheckFailed, PrecheckStale}"
    "{PrecheckPassed, PrecheckNotApplicable}", OF _ _ assms(1)] assms(2)
  by (auto simp: table_defs)

text \<open>A market or research revision is approved out of the verified state only, after an analysis of
  it: no history of guarded moves skips verification.
\<close>

theorem approved_data_was_verified:
  assumes "run_moves next_market_revision_state MarketDraft ts = Inr MarketApproved"
    and "run_moves next_research_revision_state ResearchDraft rs = Inr ResearchApproved"
  shows "(\<exists>us. ts = us @ [MarketVerified, MarketApproved] \<and> MarketAnalyzing \<in> set us) \<and>
    (\<exists>us. rs = us @ [ResearchVerified, ResearchApproved] \<and> ResearchAnalyzing \<in> set us)"
proof -
  have ne: "ts \<noteq> []" "rs \<noteq> []" using assms by auto
  obtain us where us: "MarketDraft # ts = us @ [MarketVerified, MarketApproved]"
    using market.entered_from [OF market_approved_from assms(1) ne(1)] by blast
  obtain vs where vs: "ResearchDraft # rs = vs @ [ResearchVerified, ResearchApproved]"
    using research.entered_from [OF research_approved_from assms(2) ne(2)] by blast
  have "MarketAnalyzing \<in> set ts"
    using market.gated [of "{MarketDraft, MarketUploading, MarketRejected}" "{MarketAnalyzing}", OF _ _ assms(1)]
    by (auto simp: table_defs)
  moreover have "ResearchAnalyzing \<in> set rs"
    using research.gated [of "{ResearchDraft}" "{ResearchAnalyzing}", OF _ _ assms(2)]
    by (auto simp: table_defs)
  ultimately show ?thesis using us vs by (cases us; cases vs) auto
qed

theorem approved_data_was_verified_witness:
  "(\<exists>us. [MarketUploading, MarketAnalyzing, MarketVerified, MarketApproved] =
      us @ [MarketVerified, MarketApproved] \<and> MarketAnalyzing \<in> set us) \<and>
   (\<exists>us. [ResearchAnalyzing, ResearchNeedsReview, ResearchVerified, ResearchApproved] =
      us @ [ResearchVerified, ResearchApproved] \<and> ResearchAnalyzing \<in> set us)"
  by (rule approved_data_was_verified)
    (simp_all add: next_market_revision_state_def next_research_revision_state_def table_defs)

text \<open>An agent task can always be brought to an end: exactly the states that are not terminal have a
  move into a terminal one, and a terminal state admits no further move, so the record of how a task
  ended is final.
\<close>

theorem agent_tasks_can_end:
  "(s \<notin> task_terminal_states \<longleftrightarrow> (\<exists>t. t \<in> task_terminal_states \<and> transition_task s t = ok t)) \<and>
     (run_moves transition_task TaskSucceeded ts = ok u \<longleftrightarrow> ts = [] \<and> u = TaskSucceeded) \<and>
     (run_moves transition_task TaskFailed ts = ok u \<longleftrightarrow> ts = [] \<and> u = TaskFailed) \<and>
     (run_moves transition_task TaskCancelled ts = ok u \<longleftrightarrow> ts = [] \<and> u = TaskCancelled)"
  using task.never_stuck [of s] task.final_stays by (auto simp: task_terminal_states_def)

end
