(* ===== verification/Idempotency.thy ===== *)
theory Idempotency
  imports Py_Prelude
begin

text \<open>
  Commands in a transaction, and the idempotency keys that protect them
  (\<^verbatim>\<open>application/idempotency.py\<close>, \<^verbatim>\<open>infrastructure/postgres/repositories/idempotency.py\<close>).

  A command of the application layer is a function from the stored state to an answer and the new
  state, or to an exception; the caller commits only when it returns, so an exception leaves the
  stored state as it was (\<open>committed\<close>). \<open>run_idempotent\<close> is written over any state that holds a table
  of keys; the two functions that read and write that table are its first arguments, and their laws
  are the locale \<open>key_store\<close>. The request is stored itself where the code stores its SHA-256 digest.
\<close>

type_synonym ('s, 'r) command = "'s \<Rightarrow> ('r \<times> 's) res"

definition committed :: "('s, 'r) command \<Rightarrow> 's \<Rightarrow> 's" where
  "committed c s = (case c s of Inl e \<Rightarrow> s | Inr (r, s') \<Rightarrow> s')"

lemma committed_cases:
  obtains (raised) e where "c s = Inl e" and "committed c s = s"
    | (returned) r s' where "c s = Inr (r, s')" and "committed c s = s'"
  by (cases "c s") (auto simp: committed_def)

record ('p, 'r) key_row =
  ik_actor :: "string option"
  ik_request :: 'p
  ik_completed :: bool
  ik_response :: "'r option"

type_synonym ('p, 'r) key_table = "(string, ('p, 'r) key_row) dict"

definition add_key ::
    "string \<Rightarrow> string option \<Rightarrow> 'p \<Rightarrow> ('p, 'r) key_table \<Rightarrow> ('p, 'r) key_table" where
  "add_key k actor request d =
     dset k \<lparr>ik_actor = actor, ik_request = request, ik_completed = False, ik_response = None\<rparr> d"

definition complete_key ::
    "string \<Rightarrow> ('p, 'r) key_row \<Rightarrow> 'r \<Rightarrow> ('p, 'r) key_table \<Rightarrow> ('p, 'r) key_table" where
  "complete_key k row r d = dset k (row\<lparr>ik_response := Some r, ik_completed := True\<rparr>) d"

definition new_row :: "string option \<Rightarrow> 'p \<Rightarrow> ('p, 'r) key_row" where
  "new_row actor request =
     \<lparr>ik_actor = actor, ik_request = request, ik_completed = False, ik_response = None\<rparr>"

definition run_idempotent ::
    "('s \<Rightarrow> ('p, 'r) key_table) \<Rightarrow> (('p, 'r) key_table \<Rightarrow> 's \<Rightarrow> 's) \<Rightarrow> string option \<Rightarrow>
     string option \<Rightarrow> 'p \<Rightarrow> ('s, 'r) command \<Rightarrow> ('s, 'r) command" where
  "run_idempotent keys put key actor request operation s =
     (case key of
        None \<Rightarrow> operation s
      | Some k \<Rightarrow>
          (let finish = (\<lambda>row s. rbind (operation s) (\<lambda>(r, s').
             ok (r, put (complete_key k row r (keys s')) s'))) in
           case dget (keys s) k of
             None \<Rightarrow> finish (new_row actor request) (put (add_key k actor request (keys s)) s)
           | Some row \<Rightarrow>
               if ik_actor row \<noteq> None \<and> ik_actor row \<noteq> actor then raise IdempotencyConflictError
               else if ik_request row \<noteq> request then raise IdempotencyConflictError
               else if ik_completed row \<and> ik_response row \<noteq> None then ok (the (ik_response row), s)
               else finish row s))"

section \<open>The interface of a key table\<close>

locale key_store =
  fixes keys :: "'s \<Rightarrow> ('p, 'r) key_table" and put :: "('p, 'r) key_table \<Rightarrow> 's \<Rightarrow> 's"
  assumes keys_put [simp]: "keys (put d s) = d"
begin

text \<open>A call with a key leaves a completed row behind, with the answer it gave.\<close>

lemma leaves_row:
  assumes "run_idempotent keys put (Some k) actor request operation s = Inr (r, s')"
  shows "\<exists>row. dget (keys s') k = Some row \<and> (ik_actor row = None \<or> ik_actor row = actor) \<and>
    ik_request row = request \<and> ik_completed row \<and> ik_response row = Some r"
proof (cases "dget (keys s) k")
  case None
  then show ?thesis using assms
    by (auto simp: run_idempotent_def rbind_Inr_iff complete_key_def new_row_def)
next
  case (Some row)
  then show ?thesis using assms
    by (auto simp: run_idempotent_def rbind_Inr_iff complete_key_def split: if_splits)
qed

text \<open>The same request under the same key again: the recorded answer, and nothing is done.\<close>

lemma replay:
  assumes "run_idempotent keys put (Some k) actor request operation s = Inr (r, s')"
  shows "run_idempotent keys put (Some k) actor request operation' s' = Inr (r, s')"
  using leaves_row [OF assms] by (auto simp: run_idempotent_def)

text \<open>Another request under the key is refused.\<close>

lemma refused:
  assumes "run_idempotent keys put (Some k) actor request operation s = Inr (r, s')"
    and "request' \<noteq> request"
  shows "run_idempotent keys put (Some k) actor' request' operation' s' = Inl IdempotencyConflictError"
  using leaves_row [OF assms(1)] assms(2) by (auto simp: run_idempotent_def)

text \<open>
  What holds after the operation holds after its protected call, if the key table is no part of it:
  either nothing is done, or the operation is called once.
\<close>

lemma run_preserves:
  assumes pre: "\<And>d s. P (put d s) \<longleftrightarrow> P s" and post: "\<And>d s. Q (put d s) \<longleftrightarrow> Q s"
    and step: "\<And>s r s'. P s \<Longrightarrow> operation s = Inr (r, s') \<Longrightarrow> Q s'"
    and run: "run_idempotent keys put key actor request operation s = Inr (r, s')" and "P s"
  shows "s' = s \<or> Q s'"
proof (cases key)
  case None
  with run step \<open>P s\<close> show ?thesis by (auto simp: run_idempotent_def)
next
  case (Some k)
  show ?thesis
  proof (cases "dget (keys s) k")
    case None
    with Some run obtain s1 s2 where "operation s1 = Inr (r, s2)" "P s1 \<longleftrightarrow> P s" "Q s' \<longleftrightarrow> Q s2"
      using pre post by (auto simp: run_idempotent_def rbind_Inr_iff)
    with step \<open>P s\<close> show ?thesis by blast
  next
    case row: (Some row)
    show ?thesis
    proof (cases "ik_completed row \<and> ik_response row \<noteq> None")
      case True
      with Some row run show ?thesis by (auto simp: run_idempotent_def split: if_splits)
    next
      case False
      with Some row run obtain s2 where "operation s = Inr (r, s2)" "Q s' \<longleftrightarrow> Q s2"
        using post by (auto simp: run_idempotent_def rbind_Inr_iff split: if_splits)
      with step \<open>P s\<close> show ?thesis by blast
    qed
  qed
qed

end

end
