(* ===== verification/Identity.thy ===== *)
theory Identity
  imports Py_Prelude
begin

text \<open>
  Actors and the access policy (\<^verbatim>\<open>domain/identity/actor.py\<close>, \<^verbatim>\<open>domain/identity/policy.py\<close>): who may see
  and change a resource, and the guards that the commands call first. A guard raises or returns
  nothing.
\<close>

datatype principal_type = AnonymousPrincipal | HumanPrincipal | AgentPrincipal | SystemPrincipal

datatype role = AdminRole | SupervisorRole | UserRole

datatype actor_kind = HumanActor | AgentActor | SystemServiceActor

record actor =
  ac_principal_id :: "string option"
  ac_principal_type :: principal_type
  ac_role :: "role option"
  ac_request_id :: string
  ac_correlation_id :: string

definition is_authenticated :: "actor \<Rightarrow> bool" where
  "is_authenticated a = (ac_principal_type a \<noteq> AnonymousPrincipal \<and> ac_principal_id a \<noteq> None)"

definition is_admin :: "actor \<Rightarrow> bool" where
  "is_admin a = (ac_principal_type a = HumanPrincipal \<and> ac_role a = Some AdminRole)"

definition is_agent :: "actor \<Rightarrow> bool" where
  "is_agent a = (ac_principal_type a = AgentPrincipal)"

definition actor_kind_of :: "actor \<Rightarrow> actor_kind" where
  "actor_kind_of a = (case ac_principal_type a of
     AgentPrincipal \<Rightarrow> AgentActor | SystemPrincipal \<Rightarrow> SystemServiceActor | _ \<Rightarrow> HumanActor)"

definition anonymous_actor :: "string \<Rightarrow> string \<Rightarrow> actor" where
  "anonymous_actor request correlation =
     \<lparr>ac_principal_id = None, ac_principal_type = AnonymousPrincipal, ac_role = None,
      ac_request_id = request, ac_correlation_id = correlation\<rparr>"

definition public_visibilities :: "string set" where
  "public_visibilities = {''published'', ''system''}"

definition require_authenticated :: "actor \<Rightarrow> unit res" where
  "require_authenticated a = (if \<not> is_authenticated a then raise UnauthenticatedError else ok ())"

text \<open>The Admin guards differ in the error each page raises.\<close>

definition require_admin_with :: "exc \<Rightarrow> actor \<Rightarrow> unit res" where
  "require_admin_with e a =
     rbind (require_authenticated a) (\<lambda>_. if \<not> is_admin a then raise e else ok ())"

definition require_admin :: "actor \<Rightarrow> unit res" where
  "require_admin = require_admin_with AccessDeniedError"

definition require_admin_panel :: "actor \<Rightarrow> unit res" where
  "require_admin_panel = require_admin_with AdminPanelAccessRequiredError"

definition require_trash_admin :: "actor \<Rightarrow> unit res" where
  "require_trash_admin = require_admin_with TrashAccessForbiddenError"

definition require_manual_admin :: "actor \<Rightarrow> unit res" where
  "require_manual_admin = require_admin_with AdminManualWriteRequiredError"

definition require_capability_admin :: "actor \<Rightarrow> unit res" where
  "require_capability_admin = require_admin_with CapabilityAccessDeniedError"

definition require_role :: "actor \<Rightarrow> role list \<Rightarrow> unit res" where
  "require_role a roles = rbind (require_authenticated a) (\<lambda>_.
     case ac_role a of
       None \<Rightarrow> raise AccessDeniedError
     | Some r \<Rightarrow> if r \<notin> set roles then raise AccessDeniedError else ok ())"

definition can_view :: "actor \<Rightarrow> string option \<Rightarrow> string \<Rightarrow> string list option \<Rightarrow> bool" where
  "can_view a owner visibility shared =
     (if is_admin a then True
      else if visibility \<in> public_visibilities then True
      else if \<not> is_authenticated a then False
      else if owner \<noteq> None \<and> owner = ac_principal_id a then True
      else if visibility = ''explicitly_shared'' then
        (case shared of None \<Rightarrow> False | Some ids \<Rightarrow> ac_principal_id a \<in> Some ` set ids)
      else False)"

definition ensure_can_view ::
    "actor \<Rightarrow> string option \<Rightarrow> string \<Rightarrow> string list option \<Rightarrow> unit res" where
  "ensure_can_view a owner visibility shared =
     (if \<not> can_view a owner visibility shared then raise AccessDeniedError else ok ())"

definition can_edit :: "actor \<Rightarrow> string option \<Rightarrow> bool" where
  "can_edit a owner =
     (if is_admin a then True
      else if \<not> is_authenticated a then False
      else owner \<noteq> None \<and> owner = ac_principal_id a)"

definition ensure_can_edit :: "actor \<Rightarrow> string option \<Rightarrow> unit res" where
  "ensure_can_edit a owner = (if \<not> can_edit a owner then raise AccessDeniedError else ok ())"

definition assert_role_assignable :: "role \<Rightarrow> unit res" where
  "assert_role_assignable r =
     (if r \<notin> {AdminRole, SupervisorRole, UserRole} then raise AgentRoleNotAssignableError else ok ())"

definition ensure_not_last_admin :: "exc \<Rightarrow> bool \<Rightarrow> bool \<Rightarrow> nat \<Rightarrow> unit res" where
  "ensure_not_last_admin e target_is_admin becomes_admin active_admin_count =
     (if target_is_admin \<and> \<not> becomes_admin \<and> active_admin_count \<le> 1 then raise e else ok ())"

section \<open>The policy\<close>

lemma guard_ok_iff:
  "require_authenticated a = ok () \<longleftrightarrow> is_authenticated a"
  "require_admin_with e a = ok () \<longleftrightarrow> is_authenticated a \<and> is_admin a"
  "ensure_can_edit a owner = ok () \<longleftrightarrow> can_edit a owner"
  by (auto simp: require_authenticated_def require_admin_with_def ensure_can_edit_def rbind_Inr_iff)

text \<open>The access policy is monotone: an actor who may change a resource may see it, whatever its
  visibility and its shares; and an actor who is not signed in sees public resources only, and
  changes none.
\<close>

theorem edit_implies_view:
  "(can_edit a owner, can_view a owner visibility shared) \<noteq> (True, False) \<and>
     can_edit (anonymous_actor q c) owner = False \<and>
     can_view (anonymous_actor q c) owner visibility shared = (visibility \<in> public_visibilities)"
  by (auto simp: can_edit_def can_view_def anonymous_actor_def is_admin_def is_authenticated_def)

end
