(* ===== verification/Roles.thy ===== *)
theory Roles
  imports Identity Idempotency Lifecycles
begin

text \<open>
  The two commands that change the role of a human user (\<^verbatim>\<open>application/commands/roles.py\<close> and
  \<^verbatim>\<open>application/commands/role_assignment.py\<close>) over the user registry
  (\<^verbatim>\<open>infrastructure/postgres/repositories/identity.py\<close>): the count of operational Admins in each
  authentication mode, the guard of the last one, the version check of the Admin Panel, the audit
  event and the idempotency key. Time stamps are an argument, \<open>now\<close>; the outbox row repeats the
  audit event and is not kept apart.
\<close>

record human_user =
  hu_current_role :: role
  hu_status :: string
  hu_deletion_state :: deletion_state
  hu_version :: int
  hu_role_changed_at :: "int option"
  hu_role_changed_by :: "string option"

record role_event =
  re_kind :: string
  re_actor :: "string option"
  re_target :: string
  re_previous :: role
  re_new :: role
  re_reason :: "string option"

datatype role_request =
    AssignRequest string role int
  | ChangeRequest string role

datatype role_answer =
    Projection string human_user bool
  | VersionAnswer string int

record user_registry =
  ur_users :: "(string, human_user) dict"
  ur_credentials :: "string list"
  ur_agents :: "string list"
  ur_events :: "role_event list"
  ur_keys :: "(role_request, role_answer) key_table"

datatype auth_mode = DevMode | SessionMode

definition is_active_admin :: "human_user \<Rightarrow> bool" where
  "is_active_admin u = (hu_current_role u = AdminRole \<and> hu_status u = ''active'' \<and>
     hu_deletion_state u = DelActive)"

definition count_active_admins :: "user_registry \<Rightarrow> nat" where
  "count_active_admins s = length (filter (\<lambda>(uid, u). is_active_admin u) (ur_users s))"

definition count_login_capable_admins :: "user_registry \<Rightarrow> nat" where
  "count_login_capable_admins s =
     length (filter (\<lambda>(uid, u). uid \<in> set (ur_credentials s) \<and> is_active_admin u) (ur_users s))"

definition count_operational_admins :: "auth_mode \<Rightarrow> user_registry \<Rightarrow> nat" where
  "count_operational_admins mode s =
     (if mode = SessionMode then count_login_capable_admins s else count_active_admins s)"

definition set_role ::
    "string \<Rightarrow> actor \<Rightarrow> int \<Rightarrow> string \<Rightarrow> role \<Rightarrow> string option \<Rightarrow> human_user \<Rightarrow> user_registry
      \<Rightarrow> human_user \<times> user_registry" where
  "set_role kind a now uid new_role reason u s =
     (let u' = u\<lparr>hu_current_role := new_role, hu_version := hu_version u + 1,
        hu_role_changed_at := Some now, hu_role_changed_by := ac_principal_id a\<rparr> in
      (u', s\<lparr>ur_users := dset uid u' (ur_users s),
        ur_events := ur_events s @ [\<lparr>re_kind = kind, re_actor = ac_principal_id a, re_target = uid,
          re_previous = hu_current_role u, re_new = new_role, re_reason = reason\<rparr>]\<rparr>))"

text \<open>The operation of the Admin Panel command, run under the key.\<close>

definition assign_operation ::
    "auth_mode \<Rightarrow> actor \<Rightarrow> int \<Rightarrow> string \<Rightarrow> role \<Rightarrow> int \<Rightarrow> string option
      \<Rightarrow> (user_registry, role_answer) command" where
  "assign_operation mode a now uid target expected reason s =
     (case dget (ur_users s) uid of
        None \<Rightarrow> if uid \<in> set (ur_agents s) then raise AgentRoleNotAssignableError
          else raise NotFoundError
      | Some u \<Rightarrow>
          if expected \<noteq> hu_version u then raise UserRoleVersionConflictError
          else if hu_current_role u = target then ok (Projection uid u False, s)
          else
            rbind (if hu_current_role u = AdminRole \<and> target \<noteq> AdminRole
               then ensure_not_last_admin LastAdminProtectionError True False
                 (count_operational_admins mode s)
               else ok ()) (\<lambda>_.
            let (u', s') = set_role ''user.role_assigned'' a now uid target reason u s in
            ok (Projection uid u' True, s')))"

definition put_role_keys :: "(role_request, role_answer) key_table \<Rightarrow> user_registry \<Rightarrow> user_registry" where
  "put_role_keys d s = s\<lparr>ur_keys := d\<rparr>"

definition assign_user_role ::
    "auth_mode \<Rightarrow> actor \<Rightarrow> int \<Rightarrow> string \<Rightarrow> role \<Rightarrow> int \<Rightarrow> string option \<Rightarrow> string option
      \<Rightarrow> (user_registry, role_answer) command" where
  "assign_user_role mode a now uid target expected reason key s =
     rbind (require_admin_panel a) (\<lambda>_.
     rbind (assert_role_assignable target) (\<lambda>_.
     run_idempotent ur_keys put_role_keys key (ac_principal_id a) (AssignRequest uid target expected)
       (assign_operation mode a now uid target expected reason) s))"

text \<open>
  The older command: the user is read and the guard runs before the key is looked up; the operation
  under the key sets the role on the row read before.
\<close>

definition change_operation ::
    "actor \<Rightarrow> int \<Rightarrow> string \<Rightarrow> role \<Rightarrow> human_user \<Rightarrow> (user_registry, role_answer) command" where
  "change_operation a now uid new_role u s =
     (let (u', s') = set_role ''user.role_changed'' a now uid new_role None u s in
      ok (VersionAnswer uid (hu_version u'), s'))"

definition change_user_role ::
    "auth_mode \<Rightarrow> actor \<Rightarrow> int \<Rightarrow> string \<Rightarrow> role \<Rightarrow> string option
      \<Rightarrow> (user_registry, human_user) command" where
  "change_user_role mode a now uid new_role key s =
     rbind (require_admin a) (\<lambda>_.
     rbind (assert_role_assignable new_role) (\<lambda>_.
     case dget (ur_users s) uid of
       None \<Rightarrow> raise NotFoundError
     | Some u \<Rightarrow>
         if hu_current_role u = new_role then ok (u, s)
         else
           rbind (if hu_current_role u = AdminRole \<and> new_role \<noteq> AdminRole
              then ensure_not_last_admin LastAdminProtectedError True False
                (count_operational_admins mode s)
              else ok ()) (\<lambda>_.
           rbind (run_idempotent ur_keys put_role_keys key (ac_principal_id a)
              (ChangeRequest uid new_role) (change_operation a now uid new_role u) s) (\<lambda>(r, s').
           ok ((case dget (ur_users s') uid of None \<Rightarrow> u | Some u' \<Rightarrow> u'), s')))))"

interpretation role_keys: key_store ur_keys put_role_keys
  by unfold_locales (simp add: put_role_keys_def)

section \<open>The last Admin\<close>

text \<open>One of the two commands, with its arguments.\<close>

datatype role_command =
    Assign actor int string role int "string option" "string option"
  | Change actor int string role "string option"

fun exec_role :: "auth_mode \<Rightarrow> role_command \<Rightarrow> user_registry \<Rightarrow> user_registry" where
  "exec_role mode (Assign a now uid target expected reason key) s =
     committed (assign_user_role mode a now uid target expected reason key) s"
| "exec_role mode (Change a now uid target key) s =
     committed (change_user_role mode a now uid target key) s"

lemma count_dset:
  assumes "dget d k = Some u" and "wf_dict d"
  shows "length (filter (\<lambda>(i, v). P i v) (dset k u' d)) + (if P k u then 1 else 0) =
    length (filter (\<lambda>(i, v). P i v) d) + (if P k u' then 1 else 0)"
  using assms
proof (induction d)
  case (Cons p d)
  show ?case
  proof (cases "fst p = k")
    case True
    with Cons.prems show ?thesis by (cases p) auto
  next
    case False
    with Cons show ?thesis by (cases p) (auto simp: wf_dict_def)
  qed
qed simp

text \<open>Changing the role of one user changes the count of operational Admins by at most one.\<close>

lemma operational_count_set_role:
  assumes "dget (ur_users s) uid = Some u" and "wf_dict (ur_users s)"
    and "set_role kind a now uid target reason u s = (u', s')"
  shows "count_operational_admins mode s \<le>
    count_operational_admins mode s' + (if hu_current_role u = AdminRole \<and> target \<noteq> AdminRole then 1 else 0)"
proof -
  let ?P = "\<lambda>i v. (mode = SessionMode \<longrightarrow> i \<in> set (ur_credentials s)) \<and> is_active_admin v"
  have count: "count_operational_admins mode t = length (filter (\<lambda>(i, v). ?P i v) (ur_users t))"
    if "ur_credentials t = ur_credentials s" for t
    using that by (simp add: count_operational_admins_def count_login_capable_admins_def
      count_active_admins_def)
  have s': "ur_users s' = dset uid u' (ur_users s)" "ur_credentials s' = ur_credentials s"
      "u' = u\<lparr>hu_current_role := target, hu_version := hu_version u + 1,
        hu_role_changed_at := Some now, hu_role_changed_by := ac_principal_id a\<rparr>"
    using assms(3) by (auto simp: set_role_def Let_def)
  show ?thesis
    using count_dset [OF assms(1,2), where u' = u' and P = ?P] count [of s] count [of s'] s'
    by (auto simp: is_active_admin_def split: if_splits)
qed

definition admin_inv :: "auth_mode \<Rightarrow> user_registry \<Rightarrow> bool" where
  "admin_inv mode s \<longleftrightarrow> wf_dict (ur_users s) \<and> 1 \<le> count_operational_admins mode s"

lemma admin_inv_keys: "admin_inv mode (put_role_keys d s) \<longleftrightarrow> admin_inv mode s"
  by (simp add: admin_inv_def put_role_keys_def count_operational_admins_def
    count_login_capable_admins_def count_active_admins_def)

lemma admin_inv_set_role:
  assumes "admin_inv mode s" and "dget (ur_users s) uid = Some u"
    and "hu_current_role u = AdminRole \<and> target \<noteq> AdminRole \<Longrightarrow> 1 < count_operational_admins mode s"
    and "set_role kind a now uid target reason u s = (u', s')"
  shows "admin_inv mode s'"
proof -
  have "wf_dict (ur_users s')" using assms(1,4) by (auto simp: set_role_def Let_def admin_inv_def)
  moreover have "1 \<le> count_operational_admins mode s'"
    using operational_count_set_role [OF assms(2) _ assms(4), of mode] assms(1,3)
    by (auto simp: admin_inv_def split: if_splits)
  ultimately show ?thesis by (simp add: admin_inv_def)
qed

lemma guard_passed: "ensure_not_last_admin e True False n = Inr x \<longleftrightarrow> 1 < n"
  by (simp add: ensure_not_last_admin_def)

lemma assign_operation_inv:
  assumes "admin_inv mode s" and "assign_operation mode a now uid target expected reason s = Inr (r, s')"
  shows "admin_inv mode s'"
proof -
  obtain u where u: "dget (ur_users s) uid = Some u"
    using assms(2) by (cases "dget (ur_users s) uid") (auto simp: assign_operation_def split: if_splits)
  obtain u' s1 where set: "set_role ''user.role_assigned'' a now uid target reason u s = (u', s1)"
    by fastforce
  have "s' = s \<or> s' = s1 \<and>
      (hu_current_role u = AdminRole \<and> target \<noteq> AdminRole \<longrightarrow> 1 < count_operational_admins mode s)"
    using assms(2) u set
    by (auto simp: assign_operation_def rbind_Inr_iff guard_passed split: if_splits)
  then show ?thesis using admin_inv_set_role [OF assms(1) u _ set] assms(1) by auto
qed

lemma change_role_inv:
  assumes "admin_inv mode s" and "change_user_role mode a now uid target key s = Inr (r, s')"
  shows "admin_inv mode s'"
proof (cases "dget (ur_users s) uid")
  case None
  with assms show ?thesis by (simp add: change_user_role_def rbind_Inr_iff)
next
  case (Some u)
  let ?I = "\<lambda>t. admin_inv mode t \<and> ur_users t = ur_users s \<and> ur_credentials t = ur_credentials s"
  consider "s' = s" | answer where
      "hu_current_role u = AdminRole \<and> target \<noteq> AdminRole \<Longrightarrow> 1 < count_operational_admins mode s"
      "run_idempotent ur_keys put_role_keys key (ac_principal_id a) (ChangeRequest uid target)
        (change_operation a now uid target u) s = Inr (answer, s')"
    using assms(2) Some
    by (auto simp: change_user_role_def rbind_Inr_iff guard_passed split: if_splits)
  then show ?thesis
  proof cases
    case 1
    with assms(1) show ?thesis by simp
  next
    case 2
    have keep: "admin_inv mode t'"
      if pre: "?I t" and step: "change_operation a now uid target u t = Inr (x, t')" for t x t'
    proof -
      have "dget (ur_users t) uid = Some u" using pre Some by simp
      moreover have "count_operational_admins mode t = count_operational_admins mode s"
        using pre by (simp add: count_operational_admins_def count_login_capable_admins_def
          count_active_admins_def)
      moreover obtain u1 where
          "set_role ''user.role_changed'' a now uid target None u t = (u1, t')"
        using step by (auto simp: change_operation_def split: prod.splits)
      ultimately show ?thesis using admin_inv_set_role [of mode t uid u target] pre 2(1) by simp
    qed
    have "s' = s \<or> admin_inv mode s'"
      by (rule role_keys.run_preserves [where P = ?I, OF _ _ _ 2(2)])
        (use keep assms(1) in \<open>auto simp: admin_inv_keys\<close>, simp_all add: put_role_keys_def)
    then show ?thesis using assms(1) by auto
  qed
qed


lemma exec_role_inv: "admin_inv mode s \<Longrightarrow> admin_inv mode (exec_role mode c s)"
proof (cases c)
  case (Assign a now uid target expected reason key)
  assume inv: "admin_inv mode s"
  show ?thesis
  proof (cases "assign_user_role mode a now uid target expected reason key s")
    case (Inl e)
    with Assign inv show ?thesis by (simp add: committed_def)
  next
    case (Inr p)
    then obtain r s' where p: "assign_user_role mode a now uid target expected reason key s = Inr (r, s')"
      by (cases p) auto
    then have run: "run_idempotent ur_keys put_role_keys key (ac_principal_id a)
        (AssignRequest uid target expected) (assign_operation mode a now uid target expected reason) s = Inr (r, s')"
      by (auto simp: assign_user_role_def rbind_Inr_iff)
    have "s' = s \<or> admin_inv mode s'"
      by (rule role_keys.run_preserves [where P = "admin_inv mode", OF admin_inv_keys admin_inv_keys _ run inv])
        (rule assign_operation_inv)
    with Assign p inv show ?thesis by (auto simp: committed_def)
  qed
next
  case (Change a now uid target key)
  assume "admin_inv mode s"
  with Change change_role_inv show ?thesis
    by (cases "change_user_role mode a now uid target key s") (auto simp: committed_def)
qed

text \<open>C27. In both authentication modes no sequence of role commands, by whatever actors and with
  whatever keys, leaves the installation without an operational Admin.
\<close>

theorem operational_admin_remains:
  assumes "wf_dict (ur_users s)" and "1 \<le> count_operational_admins mode s"
  shows "1 \<le> count_operational_admins mode (fold (exec_role mode) commands s)"
proof -
  have "admin_inv mode s" using assms by (simp add: admin_inv_def)
  then have "admin_inv mode (fold (exec_role mode) commands s)"
    by (induction commands arbitrary: s) (auto intro: exec_role_inv)
  then show ?thesis by (simp add: admin_inv_def)
qed

text \<open>A role assignment under a key happens at most once: repeating the call returns the recorded
  answer and changes nothing, and another assignment under the same key is refused.
\<close>

theorem assignment_happens_once:
  assumes "assign_user_role mode a now uid target expected reason (Some k) s = ok (answer, s')"
    and "(uid', target', expected') \<noteq> (uid, target, expected)"
  shows "assign_user_role mode a now' uid target expected reason' (Some k) s' = ok (answer, s') \<and>
    assign_user_role mode a now' uid' target' expected' reason' (Some k) s' =
      raise IdempotencyConflictError"
proof -
  have guards: "require_admin_panel a = ok ()" "assert_role_assignable t = ok ()" for t
    using assms(1) by (auto simp: assign_user_role_def rbind_Inr_iff assert_role_assignable_def
      intro: role.exhaust [of t])
  from assms(1) guards have run: "run_idempotent ur_keys put_role_keys (Some k) (ac_principal_id a)
      (AssignRequest uid target expected) (assign_operation mode a now uid target expected reason) s =
      Inr (answer, s')"
    by (simp add: assign_user_role_def)
  then show ?thesis
    using role_keys.replay [OF run] role_keys.refused [OF run] guards assms(2)
    by (simp add: assign_user_role_def)
qed

section \<open>Witnesses\<close>

definition demo_admin :: actor where
  "demo_admin = \<lparr>ac_principal_id = Some ''ann'', ac_principal_type = HumanPrincipal,
     ac_role = Some AdminRole, ac_request_id = [], ac_correlation_id = []\<rparr>"

definition demo_user :: "role \<Rightarrow> human_user" where
  "demo_user r = \<lparr>hu_current_role = r, hu_status = ''active'', hu_deletion_state = DelActive,
     hu_version = 1, hu_role_changed_at = None, hu_role_changed_by = None\<rparr>"

definition demo_registry :: user_registry where
  "demo_registry = \<lparr>ur_users = [(''ann'', demo_user AdminRole), (''bob'', demo_user UserRole)],
     ur_credentials = [''ann''], ur_agents = [], ur_events = [], ur_keys = []\<rparr>"

lemmas role_eval = assign_user_role_def require_admin_panel_def require_admin_with_def
  require_authenticated_def is_authenticated_def is_admin_def demo_admin_def assert_role_assignable_def
  run_idempotent_def demo_registry_def demo_user_def assign_operation_def set_role_def
  put_role_keys_def add_key_def new_row_def complete_key_def Let_def

lemma demo_assignment: "\<exists>answer s'. assign_user_role SessionMode demo_admin 5 ''bob'' SupervisorRole 1 None
    (Some ''k1'') demo_registry = ok (answer, s')"
  by (simp add: role_eval)

theorem operational_admin_remains_witness:
  "1 \<le> count_operational_admins SessionMode (fold (exec_role SessionMode)
     [Assign demo_admin 5 ''ann'' UserRole 1 None (Some ''k1''),
      Change demo_admin 6 ''bob'' AdminRole None,
      Assign demo_admin 7 ''ann'' UserRole 1 None (Some ''k1'')] demo_registry)"
  by (rule operational_admin_remains)
    (simp_all add: demo_registry_def demo_user_def wf_dict_def count_operational_admins_def
      count_login_capable_admins_def is_active_admin_def)

theorem assignment_happens_once_witness:
  "\<exists>answer s'. assign_user_role SessionMode demo_admin 9 ''bob'' SupervisorRole 1 (Some ''again'')
      (Some ''k1'') s' = ok (answer, s') \<and>
    assign_user_role SessionMode demo_admin 9 ''bob'' AdminRole 1 None (Some ''k1'') s' =
      raise IdempotencyConflictError"
proof -
  obtain answer s' where "assign_user_role SessionMode demo_admin 5 ''bob'' SupervisorRole 1 None
      (Some ''k1'') demo_registry = ok (answer, s')"
    using demo_assignment by blast
  from assignment_happens_once [OF this, where uid' = "''bob''" and target' = AdminRole and expected' = 1]
  show ?thesis by blast
qed

end
