(* ===== verification/Trash.thy ===== *)
theory Trash
  imports Lifecycles Identity Idempotency Run_State
begin

text \<open>
  The trash: soft delete, restore and two-phase purge (\<^verbatim>\<open>application/commands/deletion.py\<close>,
  \<^verbatim>\<open>application/jobs/purge.py\<close>, the delete commands of results, Analysis Lab outputs and manuals,
  \<^verbatim>\<open>domain/trash/*\<close> and the trash repository). The state holds the tables these commands write:
  the entity registry, the three row types that keep a deletion state of their own, the trash
  entries, the purge jobs, the tombstones, the publication events of the manual stream, the proofs
  of re-authentication, the audit trail and the idempotency keys.

  What the preflights ask of other components (active runs, family assignments, trusted resolvers,
  the status of an agent task) is the record \<open>trash_env\<close>. Identifiers of entries and jobs come from
  a counter: \<^verbatim>\<open>new_id\<close> promises fresh ones, and the newest entry is the one added last. The outbox
  rows repeat the audit events, and the descriptive columns of an entry (location, snapshot for the
  reader) are not kept.
\<close>

section \<open>Restore conflicts\<close>

datatype conflict_kind = HeadPointerMoved | TargetMissing

datatype restore_resolution = RestoreAtCurrentHead

definition resolutions_of :: "conflict_kind \<Rightarrow> restore_resolution list" where
  "resolutions_of k = (case k of HeadPointerMoved \<Rightarrow> [RestoreAtCurrentHead] | TargetMissing \<Rightarrow> [])"

definition supports_resolution :: "conflict_kind \<Rightarrow> restore_resolution option \<Rightarrow> bool" where
  "supports_resolution k r = (case r of None \<Rightarrow> False | Some x \<Rightarrow> x \<in> set (resolutions_of k))"

definition parse_resolution :: "string option \<Rightarrow> restore_resolution option res" where
  "parse_resolution raw = (case raw of
     None \<Rightarrow> ok None
   | Some t \<Rightarrow> if t = ''restore_at_current_head'' then ok (Some RestoreAtCurrentHead)
       else raise UnsupportedRestoreResolutionError)"

definition restore_conflict :: "conflict_kind \<Rightarrow> exc" where
  "restore_conflict k = (case k of
     HeadPointerMoved \<Rightarrow> HeadPointerMovedConflict | TargetMissing \<Rightarrow> TargetMissingConflict)"

section \<open>The tables\<close>

datatype entry_status = EntrySoftDeleted | EntryRestored | EntryPurgePending | EntryPurgeFailed
  | EntryPurged

definition recoverable_statuses :: "entry_status set" where
  "recoverable_statuses = {EntrySoftDeleted, EntryPurgePending, EntryPurgeFailed}"

record trash_entry =
  te_entity_id :: string
  te_entity_type :: string
  te_deleted_by :: "string option"
  te_reason :: "string option"
  te_owner :: "string option"
  te_head :: "string option"
  te_display_name :: "string option"
  te_status :: entry_status
  te_row_version :: int
  te_purge_job :: "nat option"
  te_purge_error :: "exc option"
  te_requested_by :: "string option"
  te_restored_by :: "string option"

record root_row =
  rt_entity_type :: string
  rt_owner :: "string option"
  rt_deletion_state :: deletion_state
  rt_current_revision_id :: "string option"
  rt_row_version :: int
  rt_deleted_by :: "string option"
  rt_delete_reason :: "string option"

record result_row =
  rs_owner :: "string option"
  rs_deletion_state :: deletion_state
  rs_row_version :: int

record artifact_row =
  ar_owner :: "string option"
  ar_title :: string
  ar_source_task :: "string option"
  ar_deletion_state :: deletion_state
  ar_row_version :: int

record manual_row =
  md_owner :: "string option"
  md_is_baseline :: bool
  md_title :: string
  md_current_revision_id :: "string option"
  md_deletion_state :: deletion_state
  md_row_version :: int
  md_stream_active :: "bool option"

datatype job_status = JobQueued | JobRunning | JobSucceeded

record purge_job =
  pj_entry :: nat
  pj_status :: job_status
  pj_actor :: "string option"

record publication =
  pu_type :: string
  pu_document :: string
  pu_prior :: int
  pu_resulting :: int

record proof_row =
  pf_user :: string
  pf_purpose :: string
  pf_used :: bool
  pf_expires_at :: int

record trash_audit =
  ta_kind :: string
  ta_actor :: "string option"
  ta_target :: string

datatype trash_request = SoftDeleteRequest string | ResultDeleteRequest string "int option"
  | ManualDeleteRequest string "int option" | RestoreRequest nat "int option" "string option"
  | PurgeRequest nat "int option" string

datatype trash_answer = Deleted string | StateAnswer string deletion_state
  | RestoredAnswer nat string "string option" "string option" int
  | PurgeAnswer nat nat int

record trash_state =
  ts_roots :: "(string, root_row) dict"
  ts_results :: "(string, result_row) dict"
  ts_artifacts :: "(string, artifact_row) dict"
  ts_manuals :: "(string, manual_row) dict"
  ts_entries :: "(nat, trash_entry) dict"
  ts_next_entry :: nat
  ts_jobs :: "(nat, purge_job) dict"
  ts_next_job :: nat
  ts_tombstones :: "(string \<times> string \<times> string option) list"
  ts_publications :: "publication list"
  ts_proofs :: "(string, proof_row) dict"
  ts_audit :: "trash_audit list"
  ts_keys :: "(trash_request, trash_answer) key_table"

record trash_env =
  ev_active_run :: "string \<Rightarrow> bool"
  ev_family_assignments :: "string \<Rightarrow> nat"
  ev_trusted_resolver :: "string \<Rightarrow> bool"
  ev_task_status :: "string \<Rightarrow> task_status option"

definition put_trash_keys :: "(trash_request, trash_answer) key_table \<Rightarrow> trash_state \<Rightarrow> trash_state" where
  "put_trash_keys d s = s\<lparr>ts_keys := d\<rparr>"

definition add_trash_entry ::
    "string \<Rightarrow> string \<Rightarrow> actor \<Rightarrow> string option \<Rightarrow> string option \<Rightarrow> string option \<Rightarrow> string option
      \<Rightarrow> trash_state \<Rightarrow> trash_state" where
  "add_trash_entry eid ty a reason owner head name s =
     s\<lparr>ts_entries := dset (ts_next_entry s)
         \<lparr>te_entity_id = eid, te_entity_type = ty, te_deleted_by = ac_principal_id a,
          te_reason = reason, te_owner = owner, te_head = head, te_display_name = name,
          te_status = EntrySoftDeleted, te_row_version = 1, te_purge_job = None,
          te_purge_error = None, te_requested_by = None, te_restored_by = None\<rparr> (ts_entries s),
       ts_next_entry := Suc (ts_next_entry s)\<rparr>"

definition get_recoverable_entry_for_entity :: "trash_state \<Rightarrow> string \<Rightarrow> nat option" where
  "get_recoverable_entry_for_entity s eid =
     map_option fst (find (\<lambda>(i, e). te_entity_id e = eid \<and> te_status e \<in> recoverable_statuses)
       (rev (ts_entries s)))"

definition audit :: "string \<Rightarrow> string option \<Rightarrow> string \<Rightarrow> trash_state \<Rightarrow> trash_state" where
  "audit kind a target s =
     s\<lparr>ts_audit := ts_audit s @ [\<lparr>ta_kind = kind, ta_actor = a, ta_target = target\<rparr>]\<rparr>"

definition current_stream_version :: "trash_state \<Rightarrow> int" where
  "current_stream_version s = fold max (map pu_resulting (ts_publications s)) 0"

definition add_publication_event :: "string \<Rightarrow> string \<Rightarrow> trash_state \<Rightarrow> trash_state" where
  "add_publication_event ty doc s =
     (let prior = current_stream_version s in
      s\<lparr>ts_publications := ts_publications s @
        [\<lparr>pu_type = ty, pu_document = doc, pu_prior = prior, pu_resulting = prior + 1\<rparr>]\<rparr>)"

definition check_row_version :: "int \<Rightarrow> int option \<Rightarrow> unit res" where
  "check_row_version actual expected =
     (if expected \<noteq> None \<and> expected \<noteq> Some actual then raise StaleRevisionError else ok ())"

section \<open>Soft delete\<close>

definition soft_delete_preflight :: "trash_env \<Rightarrow> string \<Rightarrow> root_row \<Rightarrow> unit res" where
  "soft_delete_preflight env eid row =
     (if rt_entity_type row = ''work_object'' then
        (if ev_active_run env eid then raise ObjectInActiveRunError else ok ())
      else if rt_entity_type row = ''rationale_family'' then
        (if ev_family_assignments env eid > 0 then raise RationaleFamilyInUseError else ok ())
      else if rt_entity_type row = ''package'' then
        (if ev_trusted_resolver env eid then raise DeletePolicyBlocked else ok ())
      else ok ())"

text \<open>The guards both registry commands run under the row lock; \<open>None\<close> is the idempotent repeat.\<close>

definition delete_root_guard ::
    "trash_env \<Rightarrow> string \<Rightarrow> root_row \<Rightarrow> int option \<Rightarrow> deletion_state option res" where
  "delete_root_guard env eid row expected =
     rbind (check_row_version (rt_row_version row) expected) (\<lambda>_.
     case rt_deletion_state row of
       DelSoftDeleted \<Rightarrow> ok None
     | DelPurgePending \<Rightarrow> raise PurgeInProgressError
     | DelPurged \<Rightarrow> raise ObjectAlreadyPurgedError
     | DelActive \<Rightarrow>
         rbind (soft_delete_preflight env eid row) (\<lambda>_.
         rbind (next_deletion_state DelActive DelSoftDeleted) (\<lambda>st. ok (Some st))))"

definition mark_root_deleted ::
    "string \<Rightarrow> root_row \<Rightarrow> deletion_state \<Rightarrow> actor \<Rightarrow> string option \<Rightarrow> trash_state \<Rightarrow> trash_state" where
  "mark_root_deleted eid row st a reason s =
     s\<lparr>ts_roots := dset eid (row\<lparr>rt_deletion_state := st, rt_deleted_by := ac_principal_id a,
        rt_delete_reason := reason\<rparr>) (ts_roots s)\<rparr>"

definition soft_delete_operation ::
    "actor \<Rightarrow> string \<Rightarrow> root_row \<Rightarrow> string option \<Rightarrow> string option
      \<Rightarrow> (trash_state, trash_answer) command" where
  "soft_delete_operation a eid row reason name s =
     ok (Deleted eid, audit ''entity.soft_deleted'' (ac_principal_id a) eid
       (add_trash_entry eid (rt_entity_type row) a reason (rt_owner row) (rt_current_revision_id row)
         name s))"

definition soft_delete_entity ::
    "trash_env \<Rightarrow> actor \<Rightarrow> string \<Rightarrow> string option \<Rightarrow> string option \<Rightarrow> int option \<Rightarrow> string option
      \<Rightarrow> (trash_state, root_row) command" where
  "soft_delete_entity env a eid reason name expected key s =
     (case dget (ts_roots s) eid of
        None \<Rightarrow> raise NotFoundError
      | Some row \<Rightarrow>
          rbind (ensure_can_edit a (rt_owner row)) (\<lambda>_.
          rbind (delete_root_guard env eid row expected) (\<lambda>next.
          case next of
            None \<Rightarrow> ok (row, s)
          | Some st \<Rightarrow>
              rbind (run_idempotent ts_keys put_trash_keys key (ac_principal_id a)
                 (SoftDeleteRequest eid) (soft_delete_operation a eid row reason name)
                 (mark_root_deleted eid row st a reason s)) (\<lambda>(r, s').
              ok (row\<lparr>rt_deletion_state := st, rt_deleted_by := ac_principal_id a,
                rt_delete_reason := reason\<rparr>, s')))))"

definition soft_delete_registry_root ::
    "trash_env \<Rightarrow> actor \<Rightarrow> string \<Rightarrow> root_row \<Rightarrow> string option \<Rightarrow> string option \<Rightarrow> int option
      \<Rightarrow> (trash_state, (deletion_state \<times> deletion_state) option) command" where
  "soft_delete_registry_root env a eid row reason name expected s =
     rbind (delete_root_guard env eid row expected) (\<lambda>next.
     case next of
       None \<Rightarrow> ok (None, s)
     | Some st \<Rightarrow>
         ok (Some (rt_deletion_state row, st),
           add_trash_entry eid (rt_entity_type row) a reason (rt_owner row)
             (rt_current_revision_id row) name (mark_root_deleted eid row st a reason s)))"

definition result_delete_operation ::
    "actor \<Rightarrow> string \<Rightarrow> int option \<Rightarrow> (trash_state, trash_answer) command" where
  "result_delete_operation a rid expected s =
     (case dget (ts_results s) rid of
        None \<Rightarrow> raise BacktestResultNotFoundError
      | Some row \<Rightarrow>
          if rs_deletion_state row \<noteq> DelActive then ok (StateAnswer rid (rs_deletion_state row), s)
          else if expected \<noteq> None \<and> expected \<noteq> Some (rs_row_version row) then raise RowVersionConflictError
          else
            (let row' = row\<lparr>rs_deletion_state := DelSoftDeleted, rs_row_version := rs_row_version row + 1\<rparr> in
             ok (StateAnswer rid DelSoftDeleted,
               audit ''backtest.result_soft_deleted'' (ac_principal_id a) rid
                 (add_trash_entry rid ''backtest_result'' a None (rs_owner row) None (Some rid)
                   (s\<lparr>ts_results := dset rid row' (ts_results s)\<rparr>)))))"

definition soft_delete_backtest_result ::
    "actor \<Rightarrow> string \<Rightarrow> int option \<Rightarrow> string option \<Rightarrow> (trash_state, trash_answer) command" where
  "soft_delete_backtest_result a rid expected key s =
     rbind (require_authenticated a) (\<lambda>_.
     case dget (ts_results s) rid of
       None \<Rightarrow> raise BacktestResultNotFoundError
     | Some row \<Rightarrow>
         if rs_deletion_state row \<noteq> DelActive then raise BacktestResultNotFoundError
         else
           rbind (ensure_can_edit a (rs_owner row)) (\<lambda>_.
           run_idempotent ts_keys put_trash_keys key (ac_principal_id a)
             (ResultDeleteRequest rid expected) (result_delete_operation a rid expected) s))"

definition soft_delete_hypothesis_artifact ::
    "actor \<Rightarrow> string \<Rightarrow> string option \<Rightarrow> (trash_state, trash_answer) command" where
  "soft_delete_hypothesis_artifact a aid reason s =
     (case dget (ts_artifacts s) aid of
        None \<Rightarrow> raise ArtifactOwnershipError
      | Some row \<Rightarrow>
          if \<not> can_edit a (ar_owner row) then raise ArtifactOwnershipError
          else if ar_deletion_state row \<noteq> DelActive then ok (StateAnswer aid (ar_deletion_state row), s)
          else
            (let row' = row\<lparr>ar_deletion_state := DelSoftDeleted, ar_row_version := ar_row_version row + 1\<rparr> in
             ok (StateAnswer aid DelSoftDeleted,
               audit ''agent.artifact.soft_deleted'' (ac_principal_id a) aid
                 (add_trash_entry aid ''hypothesis_artifact'' a reason (ar_owner row) None
                   (Some (take 200 (ar_title row))) (s\<lparr>ts_artifacts := dset aid row' (ts_artifacts s)\<rparr>)))))"


text \<open>
  The manual document: the stream entry of a document keeps its slot and is switched off and on; the
  version of the stream is the largest a publication event has recorded.
\<close>

definition manual_delete_operation ::
    "actor \<Rightarrow> string \<Rightarrow> string option \<Rightarrow> int option \<Rightarrow> (trash_state, trash_answer) command" where
  "manual_delete_operation a did reason expected s =
     (case dget (ts_manuals s) did of
        None \<Rightarrow> raise ManualDocumentNotFoundError
      | Some row \<Rightarrow>
          if md_is_baseline row then raise BaselineManualImmutableError
          else (case md_deletion_state row of
              DelSoftDeleted \<Rightarrow> ok (StateAnswer did DelSoftDeleted, s)
            | DelPurgePending \<Rightarrow> raise PurgeInProgressError
            | DelPurged \<Rightarrow> raise ObjectAlreadyPurgedError
            | DelActive \<Rightarrow>
                if expected \<noteq> None \<and> expected \<noteq> Some (current_stream_version s)
                then raise ManualStreamConflictError
                else
                  (let row' = row\<lparr>md_deletion_state := DelSoftDeleted,
                      md_row_version := md_row_version row + 1,
                      md_stream_active := map_option (\<lambda>_. False) (md_stream_active row)\<rparr> in
                   ok (StateAnswer did DelSoftDeleted,
                     audit ''manual.document_soft_deleted'' (ac_principal_id a) did
                       (add_publication_event ''manual_document_soft_deleted'' did
                         (add_trash_entry did ''manual_document'' a reason (md_owner row)
                           (md_current_revision_id row) (Some (md_title row))
                           (s\<lparr>ts_manuals := dset did row' (ts_manuals s)\<rparr>)))))))"

definition soft_delete_manual_document ::
    "actor \<Rightarrow> string \<Rightarrow> string option \<Rightarrow> int option \<Rightarrow> string option
      \<Rightarrow> (trash_state, trash_answer) command" where
  "soft_delete_manual_document a did reason expected key s =
     rbind (require_manual_admin a) (\<lambda>_.
     run_idempotent ts_keys put_trash_keys key (ac_principal_id a) (ManualDeleteRequest did expected)
       (manual_delete_operation a did reason expected) s)"

section \<open>Restore\<close>

definition display_identity :: "trash_entry \<Rightarrow> string" where
  "display_identity e = (case te_display_name e of
     None \<Rightarrow> te_entity_id e | Some n \<Rightarrow> if n = [] then te_entity_id e else n)"

definition assert_entry_recoverable :: "trash_entry \<Rightarrow> unit res" where
  "assert_entry_recoverable e =
     (if te_status e = EntryPurgePending then raise PurgeInProgressError
      else if te_status e = EntryPurged then raise ObjectAlreadyPurgedError
      else if te_status e = EntryRestored then raise EntityNotSoftDeletedError
      else ok ())"

text \<open>The check of a target that is about to leave the soft-deleted state.\<close>

definition assert_soft_deleted :: "deletion_state \<Rightarrow> unit res" where
  "assert_soft_deleted previous =
     (if previous = DelPurgePending then raise PurgeInProgressError
      else if previous = DelPurged then raise ObjectAlreadyPurgedError
      else if previous \<noteq> DelSoftDeleted then raise EntityNotSoftDeletedError
      else ok ())"

text \<open>
  The head recorded at deletion against the current one: \<open>True\<close> where a resolution was applied.
\<close>

definition head_check ::
    "string option \<Rightarrow> string option \<Rightarrow> restore_resolution option \<Rightarrow> bool res" where
  "head_check expected current resolution =
     (if expected \<noteq> None \<and> expected \<noteq> current then
        (if \<not> supports_resolution HeadPointerMoved resolution
         then raise (restore_conflict HeadPointerMoved) else ok True)
      else ok False)"

text \<open>What a restored target reports: its revision and whether a resolution was applied.\<close>

type_synonym target_restore = "string option \<times> bool"

definition restore_registry_target ::
    "trash_entry \<Rightarrow> restore_resolution option \<Rightarrow> (trash_state, target_restore) command" where
  "restore_registry_target e resolution s =
     (case dget (ts_roots s) (te_entity_id e) of
        None \<Rightarrow> raise (restore_conflict TargetMissing)
      | Some row \<Rightarrow>
          rbind (assert_soft_deleted (rt_deletion_state row)) (\<lambda>_.
          rbind (head_check (te_head e) (rt_current_revision_id row) resolution) (\<lambda>applied.
          rbind (next_deletion_state (rt_deletion_state row) DelActive) (\<lambda>st.
          ok ((rt_current_revision_id row, applied),
            s\<lparr>ts_roots := dset (te_entity_id e) (row\<lparr>rt_deletion_state := st,
              rt_deleted_by := None, rt_delete_reason := None\<rparr>) (ts_roots s)\<rparr>)))))"

definition restore_result_target :: "trash_entry \<Rightarrow> (trash_state, target_restore) command" where
  "restore_result_target e s =
     (case dget (ts_results s) (te_entity_id e) of
        None \<Rightarrow> raise (restore_conflict TargetMissing)
      | Some row \<Rightarrow>
          rbind (assert_soft_deleted (rs_deletion_state row)) (\<lambda>_.
          ok ((None, False), s\<lparr>ts_results := dset (te_entity_id e)
            (row\<lparr>rs_deletion_state := DelActive, rs_row_version := rs_row_version row + 1\<rparr>)
            (ts_results s)\<rparr>)))"

definition restore_artifact_target :: "trash_entry \<Rightarrow> (trash_state, target_restore) command" where
  "restore_artifact_target e s =
     (case dget (ts_artifacts s) (te_entity_id e) of
        None \<Rightarrow> raise (restore_conflict TargetMissing)
      | Some row \<Rightarrow>
          rbind (assert_soft_deleted (ar_deletion_state row)) (\<lambda>_.
          ok ((None, False), s\<lparr>ts_artifacts := dset (te_entity_id e)
            (row\<lparr>ar_deletion_state := DelActive, ar_row_version := ar_row_version row + 1\<rparr>)
            (ts_artifacts s)\<rparr>)))"

definition restore_manual_target ::
    "trash_entry \<Rightarrow> restore_resolution option \<Rightarrow> (trash_state, target_restore) command" where
  "restore_manual_target e resolution s =
     (case dget (ts_manuals s) (te_entity_id e) of
        None \<Rightarrow> raise (restore_conflict TargetMissing)
      | Some row \<Rightarrow>
          rbind (assert_soft_deleted (md_deletion_state row)) (\<lambda>_.
          rbind (head_check (te_head e) (md_current_revision_id row) resolution) (\<lambda>applied.
          ok ((md_current_revision_id row, applied),
            add_publication_event ''manual_document_restored'' (te_entity_id e)
              (s\<lparr>ts_manuals := dset (te_entity_id e) (row\<lparr>md_deletion_state := DelActive,
                md_row_version := md_row_version row + 1,
                md_stream_active := map_option (\<lambda>_. True) (md_stream_active row)\<rparr>)
                (ts_manuals s)\<rparr>)))))"

definition restore_target ::
    "trash_entry \<Rightarrow> restore_resolution option \<Rightarrow> (trash_state, target_restore) command" where
  "restore_target e resolution s =
     (if te_entity_type e = ''backtest_result'' then restore_result_target e s
      else if te_entity_type e = ''manual_document'' then restore_manual_target e resolution s
      else if te_entity_type e = ''hypothesis_artifact'' then restore_artifact_target e s
      else restore_registry_target e resolution s)"

definition set_entry :: "nat \<Rightarrow> trash_entry \<Rightarrow> trash_state \<Rightarrow> trash_state" where
  "set_entry i e s = s\<lparr>ts_entries := dset i e (ts_entries s)\<rparr>"

definition restore_entry_core ::
    "actor \<Rightarrow> nat \<Rightarrow> trash_entry \<Rightarrow> restore_resolution option \<Rightarrow> (trash_state, trash_answer) command" where
  "restore_entry_core a i e resolution s =
     rbind (assert_entry_recoverable e) (\<lambda>_.
     rbind (restore_target e resolution s) (\<lambda>((revision, applied), s').
     let e' = e\<lparr>te_status := EntryRestored, te_restored_by := ac_principal_id a,
       te_purge_error := None, te_row_version := te_row_version e + 1\<rparr> in
     ok (RestoredAnswer i (te_entity_id e) revision
         (if applied then Some ''restore_at_current_head'' else None) (te_row_version e'),
       audit ''trash.restored'' (ac_principal_id a) (te_entity_id e) (set_entry i e' s'))))"

text \<open>An entry read for update, with the version the caller expects.\<close>

definition require_entry :: "nat \<Rightarrow> int option \<Rightarrow> trash_state \<Rightarrow> trash_entry res" where
  "require_entry i expected s =
     (case dget (ts_entries s) i of
        None \<Rightarrow> raise TrashEntryNotFoundError
      | Some e \<Rightarrow> if expected \<noteq> None \<and> expected \<noteq> Some (te_row_version e)
          then raise StaleRevisionError else ok e)"

definition restore_operation ::
    "actor \<Rightarrow> nat \<Rightarrow> int option \<Rightarrow> restore_resolution option \<Rightarrow> (trash_state, trash_answer) command" where
  "restore_operation a i expected resolution s =
     rbind (require_entry i expected s) (\<lambda>e. restore_entry_core a i e resolution s)"

definition restore_trash_entry ::
    "actor \<Rightarrow> nat \<Rightarrow> int option \<Rightarrow> string option \<Rightarrow> string option \<Rightarrow> (trash_state, trash_answer) command" where
  "restore_trash_entry a i expected resolution key s =
     rbind (require_trash_admin a) (\<lambda>_.
     rbind (parse_resolution resolution) (\<lambda>parsed.
     run_idempotent ts_keys put_trash_keys key (ac_principal_id a)
       (RestoreRequest i expected resolution) (restore_operation a i expected parsed) s))"

definition restore_entity :: "actor \<Rightarrow> string \<Rightarrow> (trash_state, root_row) command" where
  "restore_entity a eid s =
     rbind (require_trash_admin a) (\<lambda>_.
     case get_recoverable_entry_for_entity s eid of
       None \<Rightarrow> raise EntityNotSoftDeletedError
     | Some i \<Rightarrow>
         rbind (require_entry i None s) (\<lambda>e.
         rbind (restore_entry_core a i e None s) (\<lambda>(r, s').
         case dget (ts_roots s') eid of None \<Rightarrow> raise NotFoundError | Some row \<Rightarrow> ok (row, s'))))"

section \<open>Purge\<close>

definition consume_reauth_proof ::
    "int \<Rightarrow> string \<Rightarrow> string \<Rightarrow> string option \<Rightarrow> (trash_state, unit) command" where
  "consume_reauth_proof now user purpose proof s =
     (if strip_opt proof = [] then raise ReauthRequiredError
      else case dget (ts_proofs s) (strip_opt proof) of
          None \<Rightarrow> raise ReauthProofInvalidError
        | Some row \<Rightarrow>
            if pf_user row \<noteq> user \<or> pf_purpose row \<noteq> purpose \<or> pf_used row \<or> pf_expires_at row \<le> now
            then raise ReauthProofInvalidError
            else ok ((), s\<lparr>ts_proofs := dset (strip_opt proof) (row\<lparr>pf_used := True\<rparr>) (ts_proofs s)\<rparr>))"

definition mark_target_purge_pending :: "trash_entry \<Rightarrow> (trash_state, deletion_state) command" where
  "mark_target_purge_pending e s =
     (let eid = te_entity_id e in
      if te_entity_type e = ''manual_document'' then
        (case dget (ts_manuals s) eid of
           None \<Rightarrow> raise ObjectAlreadyPurgedError
         | Some row \<Rightarrow>
             rbind (assert_soft_deleted (md_deletion_state row)) (\<lambda>_.
             ok (md_deletion_state row, s\<lparr>ts_manuals := dset eid (row\<lparr>md_deletion_state := DelPurgePending,
               md_row_version := md_row_version row + 1\<rparr>) (ts_manuals s)\<rparr>)))
      else if te_entity_type e = ''hypothesis_artifact'' then
        (case dget (ts_artifacts s) eid of
           None \<Rightarrow> raise ObjectAlreadyPurgedError
         | Some row \<Rightarrow>
             rbind (assert_soft_deleted (ar_deletion_state row)) (\<lambda>_.
             ok (ar_deletion_state row, s\<lparr>ts_artifacts := dset eid (row\<lparr>ar_deletion_state := DelPurgePending,
               ar_row_version := ar_row_version row + 1\<rparr>) (ts_artifacts s)\<rparr>)))
      else if te_entity_type e = ''backtest_result'' then
        (case dget (ts_results s) eid of
           None \<Rightarrow> raise ObjectAlreadyPurgedError
         | Some row \<Rightarrow>
             if rs_deletion_state row \<noteq> DelSoftDeleted then raise EntityNotSoftDeletedError
             else ok (rs_deletion_state row, s\<lparr>ts_results := dset eid
               (row\<lparr>rs_deletion_state := DelPurgePending, rs_row_version := rs_row_version row + 1\<rparr>)
               (ts_results s)\<rparr>))
      else
        (case dget (ts_roots s) eid of
           None \<Rightarrow> raise NotFoundError
         | Some row \<Rightarrow>
             rbind (assert_soft_deleted (rt_deletion_state row)) (\<lambda>_.
             rbind (next_deletion_state (rt_deletion_state row) DelPurgePending) (\<lambda>st.
             ok (rt_deletion_state row, s\<lparr>ts_roots := dset eid (row\<lparr>rt_deletion_state := st\<rparr>)
               (ts_roots s)\<rparr>)))))"

definition enqueue_purge_job :: "nat \<Rightarrow> string option \<Rightarrow> trash_state \<Rightarrow> nat \<times> trash_state" where
  "enqueue_purge_job i a s =
     (ts_next_job s, s\<lparr>ts_jobs := dset (ts_next_job s)
        \<lparr>pj_entry = i, pj_status = JobQueued, pj_actor = a\<rparr> (ts_jobs s),
        ts_next_job := Suc (ts_next_job s)\<rparr>)"

definition purge_operation ::
    "actor \<Rightarrow> int \<Rightarrow> nat \<Rightarrow> string \<Rightarrow> string option \<Rightarrow> int option \<Rightarrow> (trash_state, trash_answer) command" where
  "purge_operation a now i phrase proof expected s =
     rbind (consume_reauth_proof now (case ac_principal_id a of None \<Rightarrow> [] | Some p \<Rightarrow> p)
        ''trash_purge'' proof s) (\<lambda>(u, s1).
     rbind (require_entry i expected s1) (\<lambda>e.
     rbind (assert_entry_recoverable e) (\<lambda>_.
     if strip phrase \<noteq> display_identity e then raise PurgeConfirmationInvalidError
     else
       rbind (mark_target_purge_pending e s1) (\<lambda>(previous, s2).
       let (job, s3) = enqueue_purge_job i (ac_principal_id a) s2;
           e' = e\<lparr>te_status := EntryPurgePending, te_purge_job := Some job,
             te_requested_by := ac_principal_id a, te_purge_error := None,
             te_row_version := te_row_version e + 1\<rparr> in
       ok (PurgeAnswer job i (te_row_version e'),
         audit ''trash.purge_requested'' (ac_principal_id a) (te_entity_id e) (set_entry i e' s3))))))"

definition request_purge ::
    "actor \<Rightarrow> int \<Rightarrow> nat \<Rightarrow> string \<Rightarrow> string option \<Rightarrow> int option \<Rightarrow> string option
      \<Rightarrow> (trash_state, trash_answer) command" where
  "request_purge a now i phrase proof expected key s =
     rbind (require_trash_admin a) (\<lambda>_.
     run_idempotent ts_keys put_trash_keys key (ac_principal_id a) (PurgeRequest i expected phrase)
       (purge_operation a now i phrase proof expected) s)"

section \<open>The purge worker\<close>

definition purge_preflight :: "trash_env \<Rightarrow> trash_state \<Rightarrow> trash_entry \<Rightarrow> unit res" where
  "purge_preflight env s e =
     (if te_entity_type e = ''backtest_result'' then ok ()
      else if te_entity_type e = ''manual_document'' then
        (case dget (ts_manuals s) (te_entity_id e) of
           None \<Rightarrow> ok ()
         | Some row \<Rightarrow> if md_is_baseline row then raise PurgeNotEligibleError else ok ())
      else if te_entity_type e = ''hypothesis_artifact'' then
        (case dget (ts_artifacts s) (te_entity_id e) of
           None \<Rightarrow> ok ()
         | Some row \<Rightarrow>
             (case ar_source_task row of
                None \<Rightarrow> ok ()
              | Some task \<Rightarrow>
                  (case ev_task_status env task of
                     None \<Rightarrow> ok ()
                   | Some st \<Rightarrow> if st \<in> task_active_states then raise PurgeNotEligibleError else ok ())))
      else if te_entity_type e = ''work_object'' \<and> ev_active_run env (te_entity_id e)
        then raise PurgeNotEligibleError
      else ok ())"

definition finalize_purge :: "trash_entry \<Rightarrow> (trash_state, unit) command" where
  "finalize_purge e s =
     (let eid = te_entity_id e;
          tomb = (\<lambda>s. s\<lparr>ts_tombstones := ts_tombstones s @ [(eid, te_entity_type e, te_requested_by e)]\<rparr>) in
      if te_entity_type e = ''backtest_result'' then
        (case dget (ts_results s) eid of
           None \<Rightarrow> raise ValueError
         | Some row \<Rightarrow> ok ((), tomb (s\<lparr>ts_results := dset eid (row\<lparr>rs_deletion_state := DelPurged,
             rs_row_version := rs_row_version row + 1\<rparr>) (ts_results s)\<rparr>)))
      else if te_entity_type e = ''hypothesis_artifact'' then
        (case dget (ts_artifacts s) eid of
           None \<Rightarrow> raise ValueError
         | Some row \<Rightarrow> ok ((), tomb (s\<lparr>ts_artifacts := dset eid (row\<lparr>ar_deletion_state := DelPurged,
             ar_row_version := ar_row_version row + 1\<rparr>) (ts_artifacts s)\<rparr>)))
      else if te_entity_type e = ''manual_document'' then
        (case dget (ts_manuals s) eid of
           None \<Rightarrow> raise ValueError
         | Some row \<Rightarrow> ok ((), tomb (add_publication_event ''manual_document_purged'' eid
             (s\<lparr>ts_manuals := dset eid (row\<lparr>md_deletion_state := DelPurged,
               md_row_version := md_row_version row + 1\<rparr>) (ts_manuals s)\<rparr>))))
      else
        (case dget (ts_roots s) eid of
           None \<Rightarrow> raise ValueError
         | Some row \<Rightarrow>
             rbind (next_deletion_state (rt_deletion_state row) DelPurged) (\<lambda>st.
             ok ((), tomb (s\<lparr>ts_roots := dset eid (row\<lparr>rt_deletion_state := st\<rparr>) (ts_roots s)\<rparr>)))))"

definition return_target_soft_deleted :: "trash_entry \<Rightarrow> trash_state \<Rightarrow> trash_state" where
  "return_target_soft_deleted e s =
     (let eid = te_entity_id e in
      if te_entity_type e = ''backtest_result'' then
        (case dget (ts_results s) eid of
           None \<Rightarrow> s
         | Some row \<Rightarrow> if rs_deletion_state row = DelPurgePending
             then s\<lparr>ts_results := dset eid (row\<lparr>rs_deletion_state := DelSoftDeleted,
               rs_row_version := rs_row_version row + 1\<rparr>) (ts_results s)\<rparr> else s)
      else if te_entity_type e = ''hypothesis_artifact'' then
        (case dget (ts_artifacts s) eid of
           None \<Rightarrow> s
         | Some row \<Rightarrow> if ar_deletion_state row = DelPurgePending
             then s\<lparr>ts_artifacts := dset eid (row\<lparr>ar_deletion_state := DelSoftDeleted,
               ar_row_version := ar_row_version row + 1\<rparr>) (ts_artifacts s)\<rparr> else s)
      else if te_entity_type e = ''manual_document'' then
        (case dget (ts_manuals s) eid of
           None \<Rightarrow> s
         | Some row \<Rightarrow> if md_deletion_state row = DelPurgePending
             then s\<lparr>ts_manuals := dset eid (row\<lparr>md_deletion_state := DelSoftDeleted,
               md_row_version := md_row_version row + 1\<rparr>) (ts_manuals s)\<rparr> else s)
      else
        (case dget (ts_roots s) eid of
           None \<Rightarrow> s
         | Some row \<Rightarrow> if rt_deletion_state row = DelPurgePending
             then (case next_deletion_state DelPurgePending DelSoftDeleted of
                 Inl x \<Rightarrow> s
               | Inr st \<Rightarrow> s\<lparr>ts_roots := dset eid (row\<lparr>rt_deletion_state := st\<rparr>) (ts_roots s)\<rparr>)
             else s))"

definition set_job :: "nat \<Rightarrow> purge_job \<Rightarrow> trash_state \<Rightarrow> trash_state" where
  "set_job j job s = s\<lparr>ts_jobs := dset j job (ts_jobs s)\<rparr>"

text \<open>
  \<open>run_purge\<close> answers the entry's status. A purge that is not eligible is a recorded outcome of a job
  that succeeded; a redelivered job finds its entry in another state and does nothing.
\<close>

definition run_purge :: "trash_env \<Rightarrow> nat \<Rightarrow> (trash_state, entry_status) command" where
  "run_purge env j s =
     (case dget (ts_jobs s) j of
        None \<Rightarrow> raise ValueError
      | Some job \<Rightarrow>
          (case dget (ts_entries s) (pj_entry job) of
             None \<Rightarrow> raise ValueError
           | Some e \<Rightarrow>
               if te_status e \<noteq> EntryPurgePending then ok (te_status e, s)
               else
                 (case rbind (purge_preflight env s e) (\<lambda>_. finalize_purge e s) of
                    Inl x \<Rightarrow>
                      if x = PurgeNotEligibleError then
                        (let e' = e\<lparr>te_status := EntryPurgeFailed, te_purge_error := Some x,
                             te_row_version := te_row_version e + 1\<rparr> in
                         ok (EntryPurgeFailed, set_job j (job\<lparr>pj_status := JobSucceeded\<rparr>)
                           (audit ''trash.purge_failed'' (te_requested_by e) (te_entity_id e)
                             (set_entry (pj_entry job) e' (return_target_soft_deleted e s)))))
                      else raise x
                  | Inr (u, s') \<Rightarrow>
                      (let e' = e\<lparr>te_status := EntryPurged, te_purge_error := None,
                           te_row_version := te_row_version e + 1\<rparr> in
                       ok (EntryPurged, set_job j (job\<lparr>pj_status := JobSucceeded\<rparr>)
                         (audit ''trash.purge_completed'' (te_requested_by e) (te_entity_id e)
                           (set_entry (pj_entry job) e' s')))))))"

end
