(* ===== verification/Trash_Safety.thy ===== *)
theory Trash_Safety
  imports Trash
begin

text \<open>
  What the trash guarantees. The abstraction of a state is, for each object, its deletion state and
  the statuses of its open trash entries. Every command with a key of its own keeps the two in
  agreement and moves at most one object, by one step of the deletion table; a restore undoes a soft
  delete when both come under fresh keys; a soft delete under a key used before loses the entry; and a
  purge takes a proof of re-authentication that is spent with it.
\<close>

section \<open>The abstraction\<close>

datatype target_kind = KResult | KManual | KArtifact | KRoot

definition kind_of :: "string \<Rightarrow> target_kind" where
  "kind_of ty =
     (if ty = ''backtest_result'' then KResult else if ty = ''manual_document'' then KManual
      else if ty = ''hypothesis_artifact'' then KArtifact else KRoot)"

definition target_state :: "trash_state \<Rightarrow> target_kind \<Rightarrow> string \<Rightarrow> deletion_state option" where
  "target_state s k eid = (case k of
     KResult \<Rightarrow> map_option rs_deletion_state (dget (ts_results s) eid)
   | KManual \<Rightarrow> map_option md_deletion_state (dget (ts_manuals s) eid)
   | KArtifact \<Rightarrow> map_option ar_deletion_state (dget (ts_artifacts s) eid)
   | KRoot \<Rightarrow> map_option rt_deletion_state (dget (ts_roots s) eid))"

definition concerns :: "target_kind \<Rightarrow> string \<Rightarrow> trash_entry \<Rightarrow> bool" where
  "concerns k eid e = (kind_of (te_entity_type e) = k \<and> te_entity_id e = eid)"

definition open_of :: "target_kind \<Rightarrow> string \<Rightarrow> (nat, trash_entry) dict \<Rightarrow> entry_status list" where
  "open_of k eid d =
     map te_status (filter (\<lambda>e. concerns k eid e \<and> te_status e \<noteq> EntryRestored) (map snd d))"

definition open_statuses :: "trash_state \<Rightarrow> target_kind \<Rightarrow> string \<Rightarrow> entry_status list" where
  "open_statuses s k eid = open_of k eid (ts_entries s)"

definition agrees :: "deletion_state option \<Rightarrow> entry_status list \<Rightarrow> bool" where
  "agrees st sts = (case st of
     None \<Rightarrow> sts = []
   | Some DelActive \<Rightarrow> sts = []
   | Some DelSoftDeleted \<Rightarrow> sts = [EntrySoftDeleted] \<or> sts = [EntryPurgeFailed]
   | Some DelPurgePending \<Rightarrow> sts = [EntryPurgePending]
   | Some DelPurged \<Rightarrow> sts = [EntryPurged])"

lemma agrees_simps [simp]:
  "agrees None sts \<longleftrightarrow> sts = []"
  "agrees (Some DelActive) sts \<longleftrightarrow> sts = []"
  "agrees (Some DelSoftDeleted) sts \<longleftrightarrow> sts = [EntrySoftDeleted] \<or> sts = [EntryPurgeFailed]"
  "agrees (Some DelPurgePending) sts \<longleftrightarrow> sts = [EntryPurgePending]"
  "agrees (Some DelPurged) sts \<longleftrightarrow> sts = [EntryPurged]"
  by (simp_all add: agrees_def)

text \<open>The part of the state that is bookkeeping: entry numbers and the types of registry rows.\<close>

definition entries_ok :: "trash_state \<Rightarrow> bool" where
  "entries_ok s \<longleftrightarrow> wf_dict (ts_entries s) \<and> (\<forall>i\<in>fst ` set (ts_entries s). i < ts_next_entry s) \<and>
     (\<forall>eid row. dget (ts_roots s) eid = Some row \<longrightarrow> kind_of (rt_entity_type row) = KRoot)"

definition trash_ok :: "trash_state \<Rightarrow> bool" where
  "trash_ok s \<longleftrightarrow> entries_ok s \<and> (\<forall>k eid. agrees (target_state s k eid) (open_statuses s k eid))"

section \<open>Effects on the abstraction\<close>

text \<open>\<open>moves s s' k eid sts st\<close>: one object gets new open entries and a new deletion state.\<close>

definition moves :: "trash_state \<Rightarrow> trash_state \<Rightarrow> target_kind \<Rightarrow> string \<Rightarrow> entry_status list
    \<Rightarrow> deletion_state \<Rightarrow> bool" where
  "moves s s' k eid sts st \<longleftrightarrow> entries_ok s' \<and>
     (\<forall>k' x. target_state s' k' x = (if k' = k \<and> x = eid then Some st else target_state s k' x)) \<and>
     (\<forall>k' x. open_statuses s' k' x = (if k' = k \<and> x = eid then sts else open_statuses s k' x))"

lemma moves_ok: "trash_ok s \<Longrightarrow> moves s s' k eid sts st \<Longrightarrow> agrees (Some st) sts \<Longrightarrow> trash_ok s'"
  by (auto simp: trash_ok_def moves_def)

text \<open>The update of one target row alone.\<close>

definition retargets :: "trash_state \<Rightarrow> trash_state \<Rightarrow> target_kind \<Rightarrow> string \<Rightarrow> deletion_state \<Rightarrow> bool" where
  "retargets s s' k eid st \<longleftrightarrow> ts_entries s' = ts_entries s \<and> ts_next_entry s' = ts_next_entry s \<and>
     (\<forall>k' x. target_state s' k' x = (if k' = k \<and> x = eid then Some st else target_state s k' x)) \<and>
     (\<forall>x row'. dget (ts_roots s') x = Some row' \<longrightarrow>
        (\<exists>row. dget (ts_roots s) x = Some row \<and> rt_entity_type row' = rt_entity_type row))"

text \<open>Fields that do not bear on the abstraction.\<close>

definition same_tables :: "trash_state \<Rightarrow> trash_state \<Rightarrow> bool" where
  "same_tables s s' \<longleftrightarrow> ts_entries s' = ts_entries s \<and> ts_next_entry s' = ts_next_entry s \<and>
     ts_roots s' = ts_roots s \<and> ts_results s' = ts_results s \<and> ts_artifacts s' = ts_artifacts s \<and>
     ts_manuals s' = ts_manuals s"

lemma same_tables_ok: "same_tables s s' \<Longrightarrow>
    trash_ok s' = trash_ok s \<and> entries_ok s' = entries_ok s \<and> target_state s' = target_state s \<and>
    open_statuses s' = open_statuses s"
  by (auto simp: same_tables_def trash_ok_def entries_ok_def target_state_def open_statuses_def
    fun_eq_iff split: target_kind.splits)

lemma same_tables_moves: "same_tables s1 s \<Longrightarrow> same_tables s' s1' \<Longrightarrow> moves s s' k eid sts st \<Longrightarrow>
    moves s1 s1' k eid sts st"
  using same_tables_ok [of s1 s] same_tables_ok [of s' s1'] by (simp add: moves_def)

lemma same_tables_refl [simp]: "same_tables s s"
  by (simp add: same_tables_def)

lemma same_tables_writers [simp]:
  "same_tables s (put_trash_keys d s)" "same_tables (put_trash_keys d s) s"
  "same_tables s (audit kind a target s)" "same_tables s (set_job j job s)"
  "same_tables s (add_publication_event ty doc s)"
  by (simp_all add: same_tables_def put_trash_keys_def audit_def set_job_def
    add_publication_event_def Let_def)

lemma dict_split:
  assumes "wf_dict d" and "dget d i = Some e"
  obtains d1 d2 where "d = d1 @ (i, e) # d2" and "\<And>e'. dset i e' d = d1 @ (i, e') # d2"
proof -
  have "\<exists>d1 d2. d = d1 @ (i, e) # d2 \<and> (\<forall>e'. dset i e' d = d1 @ (i, e') # d2)"
    using assms
  proof (induction d)
    case (Cons p d)
    show ?case
    proof (cases "fst p = i")
      case True
      with Cons.prems show ?thesis by (intro exI [of _ "[]"] exI [of _ d]) (cases p, auto)
    next
      case False
      with Cons obtain d1 d2 where "d = d1 @ (i, e) # d2" "\<forall>e'. dset i e' d = d1 @ (i, e') # d2"
        by (cases p) (auto simp: wf_dict_def)
      with False show ?thesis by (intro exI [of _ "p # d1"] exI [of _ d2]) (cases p, auto)
    qed
  qed simp
  with that show thesis by blast
qed

lemma open_of_append: "open_of k eid (d @ d') = open_of k eid d @ open_of k eid d'"
  by (simp add: open_of_def)

lemma open_of_Cons: "open_of k eid ((i, e) # d) =
    (if concerns k eid e \<and> te_status e \<noteq> EntryRestored then [te_status e] else []) @ open_of k eid d"
  by (simp add: open_of_def)

lemma open_of_Nil [simp]: "open_of k eid [] = []"
  by (simp add: open_of_def)

lemma agrees_short: "agrees st sts \<Longrightarrow> sts = [] \<or> (\<exists>x. sts = [x])"
  by (cases st rule: option.exhaust [case_names none some]) (auto simp: agrees_def split: deletion_state.splits option.splits)

text \<open>An open entry is the only open one of its object; its object's state agrees with it.\<close>

lemma entry_is_open:
  assumes "trash_ok s" and "dget (ts_entries s) i = Some e" and "te_status e \<noteq> EntryRestored"
  shows "open_statuses s (kind_of (te_entity_type e)) (te_entity_id e) = [te_status e]"
proof -
  let ?k = "kind_of (te_entity_type e)" and ?x = "te_entity_id e"
  have "wf_dict (ts_entries s)" using assms(1) by (simp add: trash_ok_def entries_ok_def)
  then obtain d1 d2 where "ts_entries s = d1 @ (i, e) # d2"
    using dict_split [OF _ assms(2)] by metis
  then have "te_status e \<in> set (open_statuses s ?k ?x)"
    using assms(3) by (simp add: open_statuses_def open_of_append open_of_Cons concerns_def)
  moreover have "agrees (target_state s ?k ?x) (open_statuses s ?k ?x)"
    using assms(1) by (simp add: trash_ok_def)
  ultimately show ?thesis using agrees_short by fastforce
qed

text \<open>Closing or changing an open entry while its target changes.\<close>

lemma retarget_and_set_entry:
  assumes okay: "trash_ok s" and e: "dget (ts_entries s) i = Some e" "te_status e \<noteq> EntryRestored"
    and re: "retargets s s' (kind_of (te_entity_type e)) (te_entity_id e) st"
    and e': "te_entity_id e' = te_entity_id e" "te_entity_type e' = te_entity_type e"
  shows "moves s (set_entry i e' s') (kind_of (te_entity_type e)) (te_entity_id e)
    (if te_status e' = EntryRestored then [] else [te_status e']) st"
proof -
  let ?k = "kind_of (te_entity_type e)" and ?x = "te_entity_id e"
  have wf: "wf_dict (ts_entries s)" using okay by (simp add: trash_ok_def entries_ok_def)
  obtain d1 d2 where d: "ts_entries s = d1 @ (i, e) # d2"
      "\<And>e'. dset i e' (ts_entries s) = d1 @ (i, e') # d2"
    using dict_split [OF wf e(1)] by blast
  have same: "ts_entries s' = ts_entries s" "ts_next_entry s' = ts_next_entry s"
    using re by (auto simp: retargets_def)
  have only: "open_of ?k ?x d1 = []" "open_of ?k ?x d2 = []"
    using entry_is_open [OF okay e] e(2)
    by (auto simp: open_statuses_def d(1) open_of_append open_of_Cons concerns_def append_eq_Cons_conv)
  have entries: "ts_entries (set_entry i e' s') = d1 @ (i, e') # d2"
    by (simp add: set_entry_def same d(2))
  have "open_statuses (set_entry i e' s') k x = (if k = ?k \<and> x = ?x
      then (if te_status e' = EntryRestored then [] else [te_status e']) else open_statuses s k x)" for k x
    using only e' e(2) by (auto simp: open_statuses_def entries d(1) open_of_append open_of_Cons concerns_def)
  moreover have "entries_ok (set_entry i e' s')"
    using okay re entries d(1) same
    by (auto simp: trash_ok_def entries_ok_def set_entry_def retargets_def wf_dict_def) fastforce
  moreover have "target_state (set_entry i e' s') k x = target_state s' k x" for k x
    by (simp add: target_state_def set_entry_def split: target_kind.splits)
  ultimately show ?thesis using re by (simp add: moves_def retargets_def)
qed

text \<open>A new entry for an object that has none open.\<close>

lemma retarget_and_add_entry:
  assumes okay: "trash_ok s" and re: "retargets s s' (kind_of ty) eid st"
    and none: "target_state s (kind_of ty) eid = Some DelActive"
  shows "moves s (add_trash_entry eid ty a reason owner head name s') (kind_of ty) eid [EntrySoftDeleted] st"
proof -
  have same: "ts_entries s' = ts_entries s" "ts_next_entry s' = ts_next_entry s"
    using re by (auto simp: retargets_def)
  have fresh: "ts_next_entry s \<notin> fst ` set (ts_entries s)"
    using okay by (auto simp: trash_ok_def entries_ok_def)
  have closed: "open_statuses s (kind_of ty) eid = []"
    using okay none by (metis agrees_simps(2) trash_ok_def)
  obtain e where e: "ts_entries (add_trash_entry eid ty a reason owner head name s') =
      ts_entries s @ [(ts_next_entry s, e)]" "te_entity_id e = eid" "te_entity_type e = ty"
      "te_status e = EntrySoftDeleted"
    using dset_fresh [OF fresh] by (simp add: add_trash_entry_def same)
  have "open_statuses (add_trash_entry eid ty a reason owner head name s') k x =
      (if k = kind_of ty \<and> x = eid then [EntrySoftDeleted] else open_statuses s k x)" for k x
    using e closed by (auto simp: open_statuses_def open_of_append open_of_Cons concerns_def)
  moreover have "entries_ok (add_trash_entry eid ty a reason owner head name s')"
    using okay re same fresh e(1)
    by (auto simp: trash_ok_def entries_ok_def retargets_def wf_dict_def add_trash_entry_def) fastforce+
  moreover have "target_state (add_trash_entry eid ty a reason owner head name s') k x = target_state s' k x" for k x
    by (simp add: target_state_def add_trash_entry_def split: target_kind.splits)
  ultimately show ?thesis using re by (simp add: moves_def retargets_def)
qed


section \<open>The targets\<close>

lemma kind_of_simps [simp]:
  "kind_of ''backtest_result'' = KResult" "kind_of ''manual_document'' = KManual"
  "kind_of ''hypothesis_artifact'' = KArtifact"
  by (simp_all add: kind_of_def)

lemma retarget_root:
  assumes "dget (ts_roots s) eid = Some row" and "rt_entity_type row' = rt_entity_type row"
    and "rt_deletion_state row' = st"
  shows "retargets s (s\<lparr>ts_roots := dset eid row' (ts_roots s)\<rparr>) KRoot eid st"
  using assms by (auto simp: retargets_def target_state_def split: target_kind.splits)

lemma retarget_result:
  "rs_deletion_state row' = st \<Longrightarrow>
     retargets s (s\<lparr>ts_results := dset eid row' (ts_results s)\<rparr>) KResult eid st"
  by (auto simp: retargets_def target_state_def split: target_kind.splits)

lemma retarget_artifact:
  "ar_deletion_state row' = st \<Longrightarrow>
     retargets s (s\<lparr>ts_artifacts := dset eid row' (ts_artifacts s)\<rparr>) KArtifact eid st"
  by (auto simp: retargets_def target_state_def split: target_kind.splits)

lemma retarget_manual:
  "md_deletion_state row' = st \<Longrightarrow>
     retargets s (s\<lparr>ts_manuals := dset eid row' (ts_manuals s)\<rparr>) KManual eid st"
  by (auto simp: retargets_def target_state_def split: target_kind.splits)

lemma retarget_later: "retargets s s' k eid st \<Longrightarrow> same_tables s' s'' \<Longrightarrow> retargets s s'' k eid st"
  using same_tables_ok [of s' s''] by (auto simp: retargets_def same_tables_def)

lemma retarget_earlier: "retargets s s' k eid st \<Longrightarrow> same_tables s0 s \<Longrightarrow> retargets s0 s' k eid st"
  using same_tables_ok [of s0 s] by (auto simp: retargets_def same_tables_def)

lemma retarget_tombstone: "retargets s s' k eid st \<Longrightarrow> retargets s (s'\<lparr>ts_tombstones := d\<rparr>) k eid st"
  by (rule retarget_later) (simp_all add: same_tables_def)

lemma retarget_publication: "retargets s s' k eid st \<Longrightarrow> retargets s (add_publication_event ty doc s') k eid st"
  by (rule retarget_later) (simp_all add: same_tables_def add_publication_event_def Let_def)

lemmas retarget_rules = retarget_root retarget_result retarget_artifact retarget_manual
  retarget_tombstone retarget_publication

lemma assert_soft_deleted_iff: "assert_soft_deleted st = Inr x \<longleftrightarrow> st = DelSoftDeleted"
  by (cases st) (auto simp: assert_soft_deleted_def)

lemma next_state_iff: "next_deletion_state st st' = Inr x \<longleftrightarrow> st' \<in> deletion_allowed st \<and> x = st'"
  by (rule del.move_iff)

lemma kind_cases:
  obtains (result) "ty = ''backtest_result''" "kind_of ty = KResult"
    | (manual) "ty = ''manual_document''" "kind_of ty = KManual"
    | (artifact) "ty = ''hypothesis_artifact''" "kind_of ty = KArtifact"
    | (root) "ty \<noteq> ''backtest_result''" "ty \<noteq> ''manual_document''" "ty \<noteq> ''hypothesis_artifact''"
        "kind_of ty = KRoot"
  by (auto simp: kind_of_def)

lemma restore_target_moves:
  assumes "restore_target e resolution s = Inr (r, s')"
  shows "target_state s (kind_of (te_entity_type e)) (te_entity_id e) = Some DelSoftDeleted \<and>
    retargets s s' (kind_of (te_entity_type e)) (te_entity_id e) DelActive"
proof (cases rule: kind_cases [of "te_entity_type e"])
  case result
  with assms show ?thesis
    by (auto simp: restore_target_def restore_result_target_def rbind_Inr_iff assert_soft_deleted_iff
      target_state_def intro!: retarget_result split: option.splits)
next
  case manual
  with assms show ?thesis
    by (auto simp: restore_target_def restore_manual_target_def rbind_Inr_iff assert_soft_deleted_iff
      target_state_def intro!: retarget_publication retarget_manual split: option.splits)
next
  case artifact
  with assms show ?thesis
    by (auto simp: restore_target_def restore_artifact_target_def rbind_Inr_iff assert_soft_deleted_iff
      target_state_def intro!: retarget_artifact split: option.splits)
next
  case root
  with assms show ?thesis
    by (auto simp: restore_target_def restore_registry_target_def rbind_Inr_iff assert_soft_deleted_iff
      next_state_iff target_state_def intro!: retarget_root split: option.splits)
qed

lemma mark_pending_moves:
  assumes "mark_target_purge_pending e s = Inr (r, s')"
  shows "target_state s (kind_of (te_entity_type e)) (te_entity_id e) = Some DelSoftDeleted \<and>
    retargets s s' (kind_of (te_entity_type e)) (te_entity_id e) DelPurgePending"
proof (cases rule: kind_cases [of "te_entity_type e"])
  case result
  with assms show ?thesis
    by (auto simp: mark_target_purge_pending_def Let_def target_state_def
      intro!: retarget_result split: option.splits if_splits)
next
  case manual
  with assms show ?thesis
    by (auto simp: mark_target_purge_pending_def Let_def rbind_Inr_iff assert_soft_deleted_iff
      target_state_def intro!: retarget_manual split: option.splits)
next
  case artifact
  with assms show ?thesis
    by (auto simp: mark_target_purge_pending_def Let_def rbind_Inr_iff assert_soft_deleted_iff
      target_state_def intro!: retarget_artifact split: option.splits)
next
  case root
  with assms show ?thesis
    by (auto simp: mark_target_purge_pending_def Let_def rbind_Inr_iff assert_soft_deleted_iff
      next_state_iff target_state_def intro!: retarget_root split: option.splits)
qed

lemma finalize_moves:
  assumes "finalize_purge e s = Inr (u, s')"
  shows "retargets s s' (kind_of (te_entity_type e)) (te_entity_id e) DelPurged"
proof (cases rule: kind_cases [of "te_entity_type e"])
  case result
  with assms show ?thesis
    by (auto simp: finalize_purge_def Let_def intro!: retarget_tombstone retarget_result
      split: option.splits)
next
  case manual
  with assms show ?thesis
    by (auto simp: finalize_purge_def Let_def split: option.splits
      intro!: retarget_tombstone retarget_publication retarget_manual)
next
  case artifact
  with assms show ?thesis
    by (auto simp: finalize_purge_def Let_def intro!: retarget_tombstone retarget_artifact
      split: option.splits)
next
  case root
  with assms show ?thesis
    by (auto simp: finalize_purge_def Let_def rbind_Inr_iff next_state_iff
      intro!: retarget_tombstone retarget_root split: option.splits)
qed

lemma return_moves:
  assumes "target_state s (kind_of (te_entity_type e)) (te_entity_id e) = Some DelPurgePending"
  shows "retargets s (return_target_soft_deleted e s) (kind_of (te_entity_type e)) (te_entity_id e)
    DelSoftDeleted"
proof -
  have move: "next_deletion_state DelPurgePending DelSoftDeleted = Inr DelSoftDeleted"
    by (simp add: next_deletion_state_def deletion_allowed_def)
  show ?thesis using assms
    by (cases rule: kind_cases [of "te_entity_type e"])
      (auto simp: return_target_soft_deleted_def Let_def target_state_def move intro!: retarget_rules)
qed


section \<open>The commands\<close>

text \<open>
  \<open>advances s s'\<close>: the abstraction is the same, or one object has moved by one step of the deletion
  table and its open entries agree with its new state.
\<close>

definition advances :: "trash_state \<Rightarrow> trash_state \<Rightarrow> bool" where
  "advances s s' \<longleftrightarrow>
     (entries_ok s' \<and> target_state s' = target_state s \<and> open_statuses s' = open_statuses s) \<or>
     (\<exists>k eid st st' sts. target_state s k eid = Some st \<and> next_deletion_state st st' = Inr st' \<and>
        moves s s' k eid sts st' \<and> agrees (Some st') sts)"

lemma advances_ok: "trash_ok s \<Longrightarrow> advances s s' \<Longrightarrow> trash_ok s'"
  unfolding advances_def
proof (elim disjE exE conjE)
  assume "trash_ok s" "entries_ok s'" "target_state s' = target_state s"
    "open_statuses s' = open_statuses s"
  then show "trash_ok s'" by (simp add: trash_ok_def)
qed (rule moves_ok)

lemma advances_refl: "trash_ok s \<Longrightarrow> advances s s"
  by (simp add: advances_def trash_ok_def)

lemma advancesI:
  "target_state s k eid = Some st \<Longrightarrow> st' \<in> deletion_allowed st \<Longrightarrow> moves s s' k eid sts st' \<Longrightarrow>
     agrees (Some st') sts \<Longrightarrow> advances s s'"
  unfolding advances_def next_state_iff by blast

lemma advances_tables:
  assumes "same_tables s1 s" and "same_tables s' s1'"
  shows "advances s s' \<Longrightarrow> advances s1 s1'"
proof -
  have eqs: "entries_ok s1' = entries_ok s'" "target_state s1' = target_state s'"
      "open_statuses s1' = open_statuses s'" "target_state s1 = target_state s"
      "open_statuses s1 = open_statuses s"
    using same_tables_ok [OF assms(1)] same_tables_ok [OF assms(2)] by simp_all
  show "advances s s' \<Longrightarrow> advances s1 s1'"
    unfolding advances_def moves_def eqs .
qed

lemma delete_advances:
  assumes "trash_ok s" and "target_state s (kind_of ty) eid = Some DelActive"
    and "retargets s s1 (kind_of ty) eid DelSoftDeleted"
    and "same_tables (add_trash_entry eid ty a reason owner head name s1) s'"
  shows "advances s s'"
proof -
  have "advances s (add_trash_entry eid ty a reason owner head name s1)"
    by (rule advancesI [OF assms(2) _ retarget_and_add_entry [OF assms(1,3,2)]])
      (simp_all add: deletion_allowed_def)
  then show ?thesis using advances_tables [OF same_tables_refl assms(4)] by blast
qed

lemma delete_advances_audit:
  assumes "trash_ok s" and "target_state s (kind_of ty) eid = Some DelActive"
    and "retargets s s1 (kind_of ty) eid DelSoftDeleted"
  shows "advances s (audit kind who t (add_trash_entry eid ty a reason owner head name s1))"
    and "advances s (audit kind who t (add_publication_event pty did
      (add_trash_entry eid ty a reason owner head name s1)))"
  by (rule delete_advances [OF assms], simp add: same_tables_def audit_def add_publication_event_def Let_def)+

lemma entry_advances:
  assumes "trash_ok s" and "dget (ts_entries s) i = Some e" and "te_status e \<noteq> EntryRestored"
    and "retargets s s1 (kind_of (te_entity_type e)) (te_entity_id e) st'"
    and "te_entity_id e' = te_entity_id e" and "te_entity_type e' = te_entity_type e"
    and "target_state s (kind_of (te_entity_type e)) (te_entity_id e) = Some st"
    and "st' \<in> deletion_allowed st"
    and "agrees (Some st') (if te_status e' = EntryRestored then [] else [te_status e'])"
    and "same_tables (set_entry i e' s1) s'"
  shows "advances s s'"
  using advances_tables [OF same_tables_refl assms(10)]
    advancesI [OF assms(7,8) retarget_and_set_entry [OF assms(1-6)] assms(9)] by blast

lemma entry_advances_audit:
  assumes "trash_ok s" and "dget (ts_entries s) i = Some e" and "te_status e \<noteq> EntryRestored"
    and "target_state s (kind_of (te_entity_type e)) (te_entity_id e) = Some st"
    and "retargets s s1 (kind_of (te_entity_type e)) (te_entity_id e) st'"
    and "st' \<in> deletion_allowed st"
    and "te_entity_id e' = te_entity_id e" and "te_entity_type e' = te_entity_type e"
    and "agrees (Some st') (if te_status e' = EntryRestored then [] else [te_status e'])"
  shows "advances s (audit kind who t (set_entry i e' s1))"
    and "advances s (set_job j job (audit kind who t (set_entry i e' s1)))"
  by (rule entry_advances [OF assms(1-3,5,7,8,4,6,9)], simp add: same_tables_def audit_def set_job_def)+

lemma guard_active:
  "delete_root_guard env eid row expected = Inr (Some st) \<Longrightarrow>
     rt_deletion_state row = DelActive \<and> st = DelSoftDeleted"
  by (auto simp: delete_root_guard_def rbind_Inr_iff next_state_iff split: deletion_state.splits)

lemma marked_root:
  assumes "dget (ts_roots s) eid = Some row" and "trash_ok s"
  shows "retargets s (mark_root_deleted eid row st a reason s) (kind_of (rt_entity_type row)) eid st"
    and "target_state s (kind_of (rt_entity_type row)) eid = Some (rt_deletion_state row)"
proof -
  have k: "kind_of (rt_entity_type row) = KRoot"
    using assms by (auto simp: trash_ok_def entries_ok_def)
  show "retargets s (mark_root_deleted eid row st a reason s) (kind_of (rt_entity_type row)) eid st"
    using assms(1) unfolding k mark_root_deleted_def by (auto intro: retarget_root)
  show "target_state s (kind_of (rt_entity_type row)) eid = Some (rt_deletion_state row)"
    using assms(1) unfolding k by (simp add: target_state_def)
qed

lemma delete_entity_advances:
  assumes okay: "trash_ok s" and "soft_delete_entity env a eid reason name expected key s = Inr (r, s')"
    and "\<And>k. key = Some k \<Longrightarrow> dget (ts_keys s) k = None"
  shows "advances s s'"
proof -
  obtain row where row: "dget (ts_roots s) eid = Some row"
    using assms(2) by (auto simp: soft_delete_entity_def split: option.splits)
  then consider "s' = s"
    | st answer where "delete_root_guard env eid row expected = Inr (Some st)"
      "run_idempotent ts_keys put_trash_keys key (ac_principal_id a) (SoftDeleteRequest eid)
        (soft_delete_operation a eid row reason name) (mark_root_deleted eid row st a reason s) = Inr (answer, s')"
    using assms(2) by (auto simp: soft_delete_entity_def rbind_Inr_iff split: option.splits)
  then show ?thesis
  proof cases
    case 1
    with okay show ?thesis by (simp add: advances_refl)
  next
    case 2
    let ?m = "mark_root_deleted eid row st a reason s"
    have st: "rt_deletion_state row = DelActive" "st = DelSoftDeleted" using guard_active [OF 2(1)] by auto
    have keys: "ts_keys ?m = ts_keys s" by (simp add: mark_root_deleted_def)
    obtain d where "same_tables (add_trash_entry eid (rt_entity_type row) a reason (rt_owner row)
        (rt_current_revision_id row) name (put_trash_keys d ?m)) s'"
      using 2(2) assms(3) keys
      by (cases key) (auto simp: run_idempotent_def soft_delete_operation_def rbind_Inr_iff
        same_tables_def put_trash_keys_def audit_def add_trash_entry_def intro: that [of "ts_keys ?m"])
    then show ?thesis
      using delete_advances [OF okay] marked_root [OF row okay] st retarget_later same_tables_writers(1)
      by metis
  qed
qed

lemma delete_root_advances:
  assumes okay: "trash_ok s" and row: "dget (ts_roots s) eid = Some row"
    and "soft_delete_registry_root env a eid row reason name expected s = Inr (r, s')"
  shows "advances s s'"
proof -
  consider "s' = s" | st where "delete_root_guard env eid row expected = Inr (Some st)"
      "s' = add_trash_entry eid (rt_entity_type row) a reason (rt_owner row)
        (rt_current_revision_id row) name (mark_root_deleted eid row st a reason s)"
    using assms(3) by (auto simp: soft_delete_registry_root_def rbind_Inr_iff split: option.splits)
  then show ?thesis
  proof cases
    case 1
    with okay show ?thesis by (simp add: advances_refl)
  next
    case 2
    then show ?thesis
      using delete_advances [OF okay] marked_root [OF row okay] guard_active [OF 2(1)] same_tables_refl
      by metis
  qed
qed

lemma result_delete_advances:
  assumes "trash_ok s" and "result_delete_operation a rid expected s = Inr (r, s')"
  shows "advances s s'"
proof (cases "dget (ts_results s) rid")
  case None
  with assms show ?thesis by (simp add: result_delete_operation_def)
next
  case (Some row)
  show ?thesis
  proof (cases "rs_deletion_state row = DelActive")
    case True
    with Some assms(2) show ?thesis
      by (auto simp: result_delete_operation_def Let_def target_state_def split: if_splits
        intro!: delete_advances_audit [OF assms(1)] retarget_result)
  next
    case False
    with Some assms show ?thesis by (auto simp: result_delete_operation_def intro: advances_refl)
  qed
qed

lemma artifact_delete_advances:
  assumes "trash_ok s" and "soft_delete_hypothesis_artifact a aid reason s = Inr (r, s')"
  shows "advances s s'"
proof (cases "dget (ts_artifacts s) aid")
  case None
  with assms show ?thesis by (simp add: soft_delete_hypothesis_artifact_def)
next
  case (Some row)
  show ?thesis
  proof (cases "ar_deletion_state row = DelActive")
    case True
    with Some assms(2) show ?thesis
      by (auto simp: soft_delete_hypothesis_artifact_def Let_def target_state_def split: if_splits
        intro!: delete_advances_audit [OF assms(1)] retarget_artifact)
  next
    case False
    with Some assms show ?thesis
      by (auto simp: soft_delete_hypothesis_artifact_def intro: advances_refl split: if_splits)
  qed
qed


lemma manual_delete_advances:
  assumes "trash_ok s" and "manual_delete_operation a did reason expected s = Inr (r, s')"
  shows "advances s s'"
proof (cases "dget (ts_manuals s) did")
  case None
  with assms show ?thesis by (simp add: manual_delete_operation_def)
next
  case (Some row)
  show ?thesis
  proof (cases "md_deletion_state row = DelActive")
    case True
    with Some assms(2) show ?thesis
      by (auto simp: manual_delete_operation_def Let_def target_state_def split: if_splits
        intro!: delete_advances_audit [OF assms(1)] retarget_manual)
  next
    case False
    with Some assms show ?thesis
      by (auto simp: manual_delete_operation_def intro: advances_refl
        split: if_splits deletion_state.splits)
  qed
qed

lemma require_entry_iff: "require_entry i expected s = Inr e \<longleftrightarrow>
    dget (ts_entries s) i = Some e \<and> (expected = None \<or> expected = Some (te_row_version e))"
  by (auto simp: require_entry_def split: option.splits)

lemma recoverable_open: "assert_entry_recoverable e = Inr x \<Longrightarrow>
    te_status e = EntrySoftDeleted \<or> te_status e = EntryPurgeFailed"
  by (cases "te_status e") (auto simp: assert_entry_recoverable_def)

lemma restore_core_advances:
  assumes okay: "trash_ok s" and e: "dget (ts_entries s) i = Some e"
    and "restore_entry_core a i e resolution s = Inr (r, s')"
  shows "advances s s'"
proof -
  obtain revision applied s1 where open_entry: "te_status e = EntrySoftDeleted \<or> te_status e = EntryPurgeFailed"
    and target: "restore_target e resolution s = Inr ((revision, applied), s1)"
    and s': "s' = audit ''trash.restored'' (ac_principal_id a) (te_entity_id e)
      (set_entry i (e\<lparr>te_status := EntryRestored, te_restored_by := ac_principal_id a,
        te_purge_error := None, te_row_version := te_row_version e + 1\<rparr>) s1)"
    using assms(3) recoverable_open
    by (auto simp: restore_entry_core_def rbind_Inr_iff Let_def split: prod.splits)
  show ?thesis
    unfolding s' using restore_target_moves [OF target] open_entry
    by (intro entry_advances_audit [OF okay e]) (auto simp: deletion_allowed_def)
qed

lemma restore_advances:
  "trash_ok s \<Longrightarrow> restore_operation a i expected resolution s = Inr (r, s') \<Longrightarrow> advances s s'"
  by (auto simp: restore_operation_def rbind_Inr_iff require_entry_iff intro: restore_core_advances)

lemma proof_same_tables: "consume_reauth_proof now user purpose p s = Inr (u, s') \<Longrightarrow> same_tables s s'"
  by (auto simp: consume_reauth_proof_def same_tables_def split: if_splits option.splits)

lemma purge_request_advances:
  assumes okay: "trash_ok s" and "purge_operation a now i phrase proof expected s = Inr (r, s')"
  shows "advances s s'"
proof -
  obtain s1 e previous s2 where reauth: "consume_reauth_proof now
        (case ac_principal_id a of None \<Rightarrow> [] | Some p \<Rightarrow> p) ''trash_purge'' proof s = Inr ((), s1)"
    and entry: "require_entry i expected s1 = Inr e" "assert_entry_recoverable e = Inr ()"
    and mark: "mark_target_purge_pending e s1 = Inr (previous, s2)"
    and s': "s' = audit ''trash.purge_requested'' (ac_principal_id a) (te_entity_id e)
      (set_entry i (e\<lparr>te_status := EntryPurgePending, te_purge_job := Some (ts_next_job s2),
        te_requested_by := ac_principal_id a, te_purge_error := None,
        te_row_version := te_row_version e + 1\<rparr>) (snd (enqueue_purge_job i (ac_principal_id a) s2)))"
    using assms(2) by (auto simp: purge_operation_def rbind_Inr_iff Let_def enqueue_purge_job_def
      split: if_splits)
  have first: "same_tables s s1" by (rule proof_same_tables [OF reauth])
  have e: "dget (ts_entries s1) i = Some e" using entry(1) by (simp add: require_entry_iff)
  have open_entry: "te_status e = EntrySoftDeleted \<or> te_status e = EntryPurgeFailed"
    by (rule recoverable_open [OF entry(2)])
  have okay1: "trash_ok s1" using okay same_tables_ok [OF first] by simp
  have "same_tables s2 (snd (enqueue_purge_job i (ac_principal_id a) s2))"
    by (simp add: enqueue_purge_job_def same_tables_def)
  then have "advances s1 s'"
    unfolding s' using mark_pending_moves [OF mark] open_entry retarget_later
    by (intro entry_advances_audit [OF okay1 e]) (auto simp: deletion_allowed_def)
  then show ?thesis using advances_tables [OF first same_tables_refl] by blast
qed

lemma pending_target:
  assumes "trash_ok s" and "dget (ts_entries s) i = Some e" and "te_status e = EntryPurgePending"
  shows "target_state s (kind_of (te_entity_type e)) (te_entity_id e) = Some DelPurgePending"
proof -
  let ?st = "target_state s (kind_of (te_entity_type e)) (te_entity_id e)"
  have "open_statuses s (kind_of (te_entity_type e)) (te_entity_id e) = [EntryPurgePending]"
    using entry_is_open [OF assms(1,2)] assms(3) by simp
  then have "agrees ?st [EntryPurgePending]" using assms(1) by (metis trash_ok_def)
  then show ?thesis by (cases ?st) (auto simp: agrees_def split: deletion_state.splits)
qed

lemma run_purge_advances:
  assumes okay: "trash_ok s" and "run_purge env j s = Inr (r, s')"
  shows "advances s s'"
proof -
  obtain job e where job: "dget (ts_jobs s) j = Some job" and e: "dget (ts_entries s) (pj_entry job) = Some e"
    using assms(2) by (auto simp: run_purge_def split: option.splits)
  show ?thesis
  proof (cases "te_status e = EntryPurgePending")
    case False
    with assms job e show ?thesis by (auto simp: run_purge_def intro: advances_refl)
  next
    case True
    note pending = pending_target [OF okay e True]
    let ?run = "rbind (purge_preflight env s e) (\<lambda>_. finalize_purge e s)"
    show ?thesis
    proof (cases ?run)
      case (Inl x)
      then have s': "s' = set_job j (job\<lparr>pj_status := JobSucceeded\<rparr>)
          (audit ''trash.purge_failed'' (te_requested_by e) (te_entity_id e)
            (set_entry (pj_entry job) (e\<lparr>te_status := EntryPurgeFailed, te_purge_error := Some x,
              te_row_version := te_row_version e + 1\<rparr>) (return_target_soft_deleted e s)))"
        using assms(2) job e True by (auto simp: run_purge_def Let_def split: if_splits)
      show ?thesis
        unfolding s' using return_moves [OF pending] pending True
        by (intro entry_advances_audit [OF okay e]) (auto simp: deletion_allowed_def)
    next
      case (Inr p)
      obtain s1 where p: "p = ((), s1)" by (cases p) auto
      with Inr have fin: "finalize_purge e s = Inr ((), s1)" by (auto simp: rbind_Inr_iff)
      from p have s': "s' = set_job j (job\<lparr>pj_status := JobSucceeded\<rparr>)
          (audit ''trash.purge_completed'' (te_requested_by e) (te_entity_id e)
            (set_entry (pj_entry job) (e\<lparr>te_status := EntryPurged, te_purge_error := None,
              te_row_version := te_row_version e + 1\<rparr>) s1))"
        using assms(2) job e True Inr by (auto simp: run_purge_def Let_def)
      show ?thesis
        unfolding s' using finalize_moves [OF fin] pending True
        by (intro entry_advances_audit [OF okay e]) (auto simp: deletion_allowed_def)
    qed
  qed
qed

interpretation trash_keys: key_store ts_keys put_trash_keys
  by unfold_locales (simp add: put_trash_keys_def)

lemma keyed_advances:
  assumes okay: "trash_ok s"
    and step: "\<And>t r t'. trash_ok t \<Longrightarrow> operation t = Inr (r, t') \<Longrightarrow> advances t t'"
    and run: "run_idempotent ts_keys put_trash_keys key actor request operation s = Inr (r, s')"
  shows "advances s s'"
proof -
  have "s' = s \<or> advances s s'"
  proof (rule trash_keys.run_preserves [where P = "same_tables s", OF _ _ _ run])
    show "same_tables s (put_trash_keys d t) = same_tables s t" for d t
      by (simp add: same_tables_def put_trash_keys_def)
    show "advances s (put_trash_keys d t) = advances s t" for d t
      using advances_tables [OF same_tables_refl, of t "put_trash_keys d t" s]
        advances_tables [OF same_tables_refl, of "put_trash_keys d t" t s] by auto
    show "advances s t'" if "same_tables s t" "operation t = Inr (r, t')" for t r t'
      using step [OF _ that(2)] same_tables_ok [OF that(1)] okay
        advances_tables [OF that(1) same_tables_refl] by blast
  qed simp
  then show ?thesis using advances_refl [OF okay] by auto
qed


section \<open>Histories\<close>

datatype trash_command =
    DeleteEntity actor string "string option" "string option" "int option" "string option"
  | DeleteRoot actor string root_row "string option" "string option" "int option"
  | DeleteResult actor string "int option" "string option"
  | DeleteArtifact actor string "string option"
  | DeleteManual actor string "string option" "int option" "string option"
  | RestoreEntry actor nat "int option" "string option" "string option"
  | RestoreEntity actor string
  | RequestPurge actor int nat string "string option" "int option" "string option"
  | RunPurge nat

text \<open>A command that raises is rolled back; \<open>DeleteRoot\<close> is called with the row the caller has read.\<close>

fun exec_trash :: "trash_env \<Rightarrow> trash_command \<Rightarrow> trash_state \<Rightarrow> trash_state" where
  "exec_trash env (DeleteEntity a eid reason name expected key) s =
     committed (soft_delete_entity env a eid reason name expected key) s"
| "exec_trash env (DeleteRoot a eid row reason name expected) s =
     (if dget (ts_roots s) eid = Some row
      then committed (soft_delete_registry_root env a eid row reason name expected) s else s)"
| "exec_trash env (DeleteResult a rid expected key) s =
     committed (soft_delete_backtest_result a rid expected key) s"
| "exec_trash env (DeleteArtifact a aid reason) s =
     committed (soft_delete_hypothesis_artifact a aid reason) s"
| "exec_trash env (DeleteManual a did reason expected key) s =
     committed (soft_delete_manual_document a did reason expected key) s"
| "exec_trash env (RestoreEntry a i expected resolution key) s =
     committed (restore_trash_entry a i expected resolution key) s"
| "exec_trash env (RestoreEntity a eid) s = committed (restore_entity a eid) s"
| "exec_trash env (RequestPurge a now i phrase p expected key) s =
     committed (request_purge a now i phrase p expected key) s"
| "exec_trash env (RunPurge j) s = committed (run_purge env j) s"

text \<open>The entity delete must not come with a key that has been used.\<close>

fun own_key :: "trash_command \<Rightarrow> trash_state \<Rightarrow> bool" where
  "own_key (DeleteEntity a eid reason name expected (Some k)) s = (dget (ts_keys s) k = None)"
| "own_key c s = True"

lemma committed_advances:
  "trash_ok s \<Longrightarrow> (\<And>r s'. c s = Inr (r, s') \<Longrightarrow> advances s s') \<Longrightarrow> advances s (committed c s)"
  by (cases "c s") (auto simp: committed_def advances_refl)

lemma exec_advances:
  assumes okay: "trash_ok s" and "own_key c s"
  shows "advances s (exec_trash env c s)"
proof (cases c)
  case (DeleteEntity a eid reason name expected key)
  then have "\<And>k. key = Some k \<Longrightarrow> dget (ts_keys s) k = None" using assms(2) by auto
  with DeleteEntity show ?thesis by (auto intro!: committed_advances okay delete_entity_advances)
next
  case (DeleteRoot a eid row reason name expected)
  then show ?thesis
    by (cases "dget (ts_roots s) eid = Some row")
      (auto intro: advances_refl [OF okay] intro!: committed_advances okay dest: delete_root_advances [OF okay])
next
  case (DeleteResult a rid expected key)
  then show ?thesis
    by (auto simp: soft_delete_backtest_result_def rbind_Inr_iff intro!: committed_advances okay
      intro: keyed_advances [OF okay result_delete_advances] split: option.splits if_splits)
next
  case (DeleteArtifact a aid reason)
  then show ?thesis 
    using committed_advances [OF okay artifact_delete_advances [OF okay]] by simp
next
  case (DeleteManual a did reason expected key)
  then show ?thesis
    by (auto simp: soft_delete_manual_document_def rbind_Inr_iff intro!: committed_advances okay
      intro: keyed_advances [OF okay manual_delete_advances])
next
  case (RestoreEntry a i expected resolution key)
  then show ?thesis
    by (auto simp: restore_trash_entry_def rbind_Inr_iff intro!: committed_advances okay
      intro: keyed_advances [OF okay restore_advances])
next
  case (RestoreEntity a eid)
  then show ?thesis
    by (auto simp: restore_entity_def rbind_Inr_iff require_entry_iff intro!: committed_advances okay
      split: option.splits) (erule (1) restore_core_advances [OF okay])
next
  case (RequestPurge a now i phrase p expected key)
  then show ?thesis
    by (auto simp: request_purge_def rbind_Inr_iff intro!: committed_advances okay
      intro: keyed_advances [OF okay purge_request_advances])
next
  case (RunPurge j)
  then show ?thesis 
    using committed_advances [OF okay run_purge_advances [OF okay]] by simp
qed

inductive trash_history :: "trash_state \<Rightarrow> trash_state \<Rightarrow> bool" for s0 where
  history_start: "trash_history s0 s0"
| history_step: "trash_history s0 s \<Longrightarrow> own_key c s \<Longrightarrow> trash_history s0 (exec_trash env c s)"

lemma history_ok: "trash_history s0 s \<Longrightarrow> trash_ok s0 \<Longrightarrow> trash_ok s"
  by (induction rule: trash_history.induct) (auto intro: advances_ok exec_advances)

text \<open>C19. Over any history of delete, restore and purge commands, raising or not, and of purge
  jobs, delivered once or again, a deletion state and the trash agree: an active object has no open
  entry, a deleted one exactly one, soft-deleted or returned by the worker, an object waiting for its
  purge exactly one waiting, and a purged one exactly one purged.
\<close>

theorem trash_stays_consistent:
  assumes "trash_history s0 s" and "trash_ok s0"
  shows "agrees (target_state s k eid) (open_statuses s k eid)"
  using history_ok [OF assms] by (simp add: trash_ok_def)

text \<open>C20. Every command refines the deletion table: it leaves the deletion states of all objects
  alone, or moves one object by one step that the guard \<open>next_deletion_state\<close> allows.
\<close>

theorem trash_refines_deletion_table:
  assumes "trash_ok s" and "own_key c s"
  shows "target_state (exec_trash env c s) = target_state s \<or>
    (\<exists>k eid st st'. target_state s k eid = Some st \<and> next_deletion_state st st' = ok st' \<and>
       target_state (exec_trash env c s) =
         (\<lambda>k' x. if k' = k \<and> x = eid then Some st' else target_state s k' x))"
  using exec_advances [OF assms, of env] unfolding advances_def moves_def fun_eq_iff by blast

lemma registry_type:
  "trash_ok s \<Longrightarrow> dget (ts_roots s) eid = Some row \<Longrightarrow> kind_of (rt_entity_type row) = KRoot"
  by (auto simp: trash_ok_def entries_ok_def)

lemma entry_fresh: "trash_ok s \<Longrightarrow> ts_next_entry s \<notin> fst ` set (ts_entries s)"
  by (auto simp: trash_ok_def entries_ok_def)

text \<open>An idempotency key no call has used yet. Under such a key, or without one, a keyed operation is
  carried out; whatever the key, a call either carries the operation out or changes nothing.\<close>

definition key_unused :: "string option \<Rightarrow> trash_state \<Rightarrow> bool" where
  "key_unused key s = (case key of None \<Rightarrow> True | Some k \<Rightarrow> dget (ts_keys s) k = None)"

lemma put_same_keys: "put_trash_keys (ts_keys s) s = s"
  by (simp add: put_trash_keys_def)

lemma unused_key_runs:
  assumes "key_unused key s"
  shows "\<exists>d f. \<forall>operation. run_idempotent ts_keys put_trash_keys key actor request operation s =
    rbind (operation (put_trash_keys d s)) (\<lambda>(r, s1). ok (r, put_trash_keys (f r s1) s1))"
proof (cases key)
  case None
  show ?thesis
    by (rule exI [of _ "ts_keys s"], rule exI [of _ "\<lambda>r. ts_keys"])
      (simp add: None run_idempotent_def put_same_keys case_prod_unfold rbind_def split: sum.splits)
next
  case (Some k)
  then have "dget (ts_keys s) k = None" using assms by (simp add: key_unused_def)
  then show ?thesis
    by (intro exI [of _ "add_key k actor request (ts_keys s)"]
          exI [of _ "\<lambda>r s1. complete_key k (new_row actor request) r (ts_keys s1)"])
      (simp add: Some run_idempotent_def)
qed

lemma keyed_call_runs:
  assumes "run_idempotent ts_keys put_trash_keys key actor request operation s = Inr (r, s')" "s' \<noteq> s"
  obtains d d' s1 where "operation (put_trash_keys d s) = Inr (r, s1)" "s' = put_trash_keys d' s1"
proof (cases key)
  case None
  then show ?thesis using assms
    by (intro that [of "ts_keys s" s' "ts_keys s'"]) (simp_all add: run_idempotent_def put_same_keys)
next
  case (Some k)
  show ?thesis
  proof (cases "dget (ts_keys s) k")
    case None
    then show ?thesis using assms Some by (auto simp: run_idempotent_def rbind_Inr_iff intro: that)
  next
    case (Some row)
    then show ?thesis using assms \<open>key = Some k\<close>
      by (auto simp: run_idempotent_def rbind_Inr_iff split: if_splits
          intro: that [of "ts_keys s", unfolded put_same_keys])
  qed
qed

lemma restored_entry:
  assumes okay: "trash_ok s" and get: "dget (ts_entries s) i = Some e" "te_status e = EntrySoftDeleted"
    and row: "dget (ts_roots s) eid = Some row" "te_entity_id e = eid" "kind_of (te_entity_type e) = KRoot"
    and state: "rt_deletion_state row = DelSoftDeleted" "te_head e = rt_current_revision_id row"
  defines "row' \<equiv> row\<lparr>rt_deletion_state := DelActive, rt_deleted_by := None, rt_delete_reason := None\<rparr>"
  obtains s' where
    "restore_entry_core b i e resolution s = Inr (RestoredAnswer i eid (rt_current_revision_id row) None
       (te_row_version e + 1), s')"
    "ts_roots s' = dset eid row' (ts_roots s)" "open_statuses s' KRoot eid = []"
proof -
  have kind: "te_entity_type e \<noteq> ''backtest_result''" "te_entity_type e \<noteq> ''manual_document''"
      "te_entity_type e \<noteq> ''hypothesis_artifact''"
    using row(3) by (auto simp: kind_of_def split: if_splits)
  have move: "next_deletion_state DelSoftDeleted DelActive = Inr DelActive"
    by (simp add: next_deletion_state_def deletion_allowed_def)
  have "restore_target e resolution s = Inr ((rt_current_revision_id row, False),
      s\<lparr>ts_roots := dset eid row' (ts_roots s)\<rparr>)"
    using kind row(1,2) state move
    by (simp add: restore_target_def restore_registry_target_def assert_soft_deleted_def head_check_def row'_def)
  then obtain s' where core: "restore_entry_core b i e resolution s =
        Inr (RestoredAnswer i eid (rt_current_revision_id row) None (te_row_version e + 1), s')"
      and roots: "ts_roots s' = dset eid row' (ts_roots s)"
    using get(2) row(2)
    by (simp add: restore_entry_core_def assert_entry_recoverable_def Let_def audit_def set_entry_def)
  have "trash_ok s'" by (rule advances_ok [OF okay restore_core_advances [OF okay get(1) core]])
  moreover have "target_state s' KRoot eid = Some DelActive"
    by (simp add: target_state_def roots row'_def)
  ultimately have "open_statuses s' KRoot eid = []" by (metis agrees_simps(2) trash_ok_def)
  with that core roots show thesis by blast
qed

lemma first_delete_writes_entry:
  assumes okay: "trash_ok s" and row: "dget (ts_roots s) eid = Some row"
    and active: "rt_deletion_state row = DelActive"
    and delete: "soft_delete_entity env a eid reason name expected key s = ok (r, s')"
    and first_use: "key_unused key s"
  obtains e where "trash_ok s'" "ts_entries s' = ts_entries s @ [(ts_next_entry s, e)]"
    "dget (ts_entries s') (ts_next_entry s) = Some e" "te_status e = EntrySoftDeleted" "te_row_version e = 1"
    "te_entity_id e = eid" "kind_of (te_entity_type e) = KRoot" "te_head e = rt_current_revision_id row"
    "ts_roots s' = dset eid (row\<lparr>rt_deletion_state := DelSoftDeleted, rt_deleted_by := ac_principal_id a,
       rt_delete_reason := reason\<rparr>) (ts_roots s)"
proof -
  let ?m = "mark_root_deleted eid row DelSoftDeleted a reason s"
  have guard: "delete_root_guard env eid row expected = Inr (Some DelSoftDeleted)"
    using delete row active
    by (auto simp: soft_delete_entity_def rbind_Inr_iff delete_root_guard_def next_state_iff
      split: option.splits)
  have unused: "key_unused key ?m" using first_use by (cases key) (simp_all add: key_unused_def mark_root_deleted_def)
  obtain d f where keyed: "\<forall>operation. run_idempotent ts_keys put_trash_keys key (ac_principal_id a)
      (SoftDeleteRequest eid) operation ?m =
      rbind (operation (put_trash_keys d ?m)) (\<lambda>(r, s1). ok (r, put_trash_keys (f r s1) s1))"
    using unused_key_runs [OF unused] by meson
  obtain d' where s': "s' = put_trash_keys d' (audit ''entity.soft_deleted'' (ac_principal_id a) eid
      (add_trash_entry eid (rt_entity_type row) a reason (rt_owner row) (rt_current_revision_id row)
        name (put_trash_keys d ?m)))"
    using delete row guard by (auto simp: soft_delete_entity_def rbind_Inr_iff keyed soft_delete_operation_def)
  have "advances s s'"
    by (rule delete_entity_advances [OF okay delete]) (use first_use in \<open>auto simp: key_unused_def\<close>)
  then have okay': "trash_ok s'" by (rule advances_ok [OF okay])
  obtain e where e: "ts_entries s' = ts_entries s @ [(ts_next_entry s, e)]" "te_entity_id e = eid"
      "te_entity_type e = rt_entity_type row" "te_head e = rt_current_revision_id row"
      "te_status e = EntrySoftDeleted" "te_row_version e = 1"
    using dset_fresh [OF entry_fresh [OF okay]]
    by (simp add: s' audit_def add_trash_entry_def mark_root_deleted_def put_trash_keys_def)
  moreover have "dget (ts_entries s) (ts_next_entry s) = None"
    using entry_fresh [OF okay] by (simp add: map_of_eq_None_iff)
  then have "dget (ts_entries s') (ts_next_entry s) = Some e" by (simp add: e(1) map_add_def)
  moreover have "ts_roots s' = dset eid (row\<lparr>rt_deletion_state := DelSoftDeleted,
      rt_deleted_by := ac_principal_id a, rt_delete_reason := reason\<rparr>) (ts_roots s)"
    by (simp add: s' audit_def add_trash_entry_def mark_root_deleted_def put_trash_keys_def)
  ultimately show thesis using that [OF okay'] registry_type [OF okay row] by simp
qed

text \<open>C21. Restore undoes a soft delete. An owner or an Admin deletes an active registry root, without
  an idempotency key or under one not used before; then an Admin restores the trash entry that this
  delete wrote, again without a key or under an unused one, expecting any version or the entry's
  first one, with any resolution the service knows. The restore succeeds, answers with the root's
  own revision and no resolution applied, gives the root back its state, revision, owner and
  version (with nobody as its deleter), changes no other root and leaves no entry of the root open.
  The entity-level restore answers with that row and closes the entry too. A delete under a key the actor has used before is the
  case of C23: it writes no entry that could be restored.\<close>

theorem restore_undoes_delete:
  assumes okay: "trash_ok s" and row: "dget (ts_roots s) eid = Some row"
    and active: "rt_deletion_state row = DelActive"
    and delete: "soft_delete_entity env a eid reason name expected key s = ok (r, s')"
    and first_use: "key_unused key s" "key_unused key' s'"
    and admin: "require_trash_admin b = ok ()"
    and request: "expected' \<in> {None, Some 1}" "parse_resolution resolution = ok parsed"
  shows "(\<exists>s''. restore_trash_entry b (ts_next_entry s) expected' resolution key' s' =
      ok (RestoredAnswer (ts_next_entry s) eid (rt_current_revision_id row) None 2, s'') \<and>
      dget (ts_roots s'') eid = Some (row\<lparr>rt_deleted_by := None, rt_delete_reason := None\<rparr>) \<and>
      (\<forall>j. j \<noteq> eid \<longrightarrow> dget (ts_roots s'') j = dget (ts_roots s) j) \<and> open_statuses s'' KRoot eid = []) \<and>
    (\<exists>s''. restore_entity b eid s' =
      ok (row\<lparr>rt_deleted_by := None, rt_delete_reason := None\<rparr>, s'') \<and> open_statuses s'' KRoot eid = [])"
proof -
  let ?i = "ts_next_entry s"
  let ?row = "row\<lparr>rt_deletion_state := DelSoftDeleted, rt_deleted_by := ac_principal_id a,
    rt_delete_reason := reason\<rparr>"
  obtain e where okay': "trash_ok s'" and e: "ts_entries s' = ts_entries s @ [(?i, e)]"
    "dget (ts_entries s') ?i = Some e" "te_status e = EntrySoftDeleted" "te_row_version e = 1"
    "te_entity_id e = eid" "kind_of (te_entity_type e) = KRoot" "te_head e = rt_current_revision_id row"
    and roots: "ts_roots s' = dset eid ?row (ts_roots s)"
    by (rule first_delete_writes_entry [OF okay row active delete first_use(1)])
  have same: "row\<lparr>rt_deletion_state := DelActive, rt_deleted_by := None, rt_delete_reason := None\<rparr> =
      row\<lparr>rt_deleted_by := None, rt_delete_reason := None\<rparr>"
    using active by (cases row) simp
  have core: "\<exists>s''. restore_entry_core b ?i e res (put_trash_keys d s') =
      Inr (RestoredAnswer ?i eid (rt_current_revision_id row) None 2, s'') \<and>
      dget (ts_roots s'') eid = Some (row\<lparr>rt_deleted_by := None, rt_delete_reason := None\<rparr>) \<and>
      (\<forall>j. j \<noteq> eid \<longrightarrow> dget (ts_roots s'') j = dget (ts_roots s) j) \<and> open_statuses s'' KRoot eid = []"
    for d res
  proof -
    have "trash_ok (put_trash_keys d s')" using okay' same_tables_ok [of "put_trash_keys d s'" s'] by simp
    from restored_entry [OF this _ e(3) _ e(5,6), of ?i ?row b res]
    show ?thesis using e roots same by (fastforce simp: put_trash_keys_def)
  qed
  obtain d f where keyed: "\<forall>operation. run_idempotent ts_keys put_trash_keys key' (ac_principal_id b)
      (RestoreRequest ?i expected' resolution) operation s' =
      rbind (operation (put_trash_keys d s')) (\<lambda>(r, s1). ok (r, put_trash_keys (f r s1) s1))"
    using unused_key_runs [OF first_use(2)] by meson
  have "require_entry ?i expected' (put_trash_keys d s') = ok e"
    using request(1) e(2,4) by (auto simp: require_entry_def put_trash_keys_def)
  then have "\<exists>s''. restore_trash_entry b ?i expected' resolution key' s' =
      ok (RestoredAnswer ?i eid (rt_current_revision_id row) None 2, s'') \<and>
    dget (ts_roots s'') eid = Some (row\<lparr>rt_deleted_by := None, rt_delete_reason := None\<rparr>) \<and>
    (\<forall>j. j \<noteq> eid \<longrightarrow> dget (ts_roots s'') j = dget (ts_roots s) j) \<and> open_statuses s'' KRoot eid = []"
    using core [of parsed d] admin request(2)
    by (auto simp: restore_trash_entry_def keyed restore_operation_def open_statuses_def put_trash_keys_def)
  moreover have "get_recoverable_entry_for_entity s' eid = Some ?i"
    using e by (simp add: get_recoverable_entry_for_entity_def recoverable_statuses_def)
  then have "\<exists>s''. restore_entity b eid s' =
      ok (row\<lparr>rt_deleted_by := None, rt_delete_reason := None\<rparr>, s'') \<and> open_statuses s'' KRoot eid = []"
    using core [of None "ts_keys s'"] admin e(2)
    by (auto simp: restore_entity_def require_entry_def put_same_keys)
  ultimately show ?thesis by blast
qed


text \<open>C23. A soft delete under a key that the same actor has used for this entity before loses the
  trash entry: the root is soft-deleted before the key is looked up, the replay writes no entry, and
  no Admin can restore the entity.
\<close>

theorem replayed_delete_strands_root:
  assumes okay: "trash_ok s" and row: "dget (ts_roots s) eid = Some row"
    and active: "rt_deletion_state row = DelActive"
    and alone: "target_state s KResult eid = None" "target_state s KManual eid = None"
      "target_state s KArtifact eid = None"
    and allowed: "soft_delete_entity env a eid reason name expected None s = ok (r0, s0)"
    and key: "dget (ts_keys s) k = Some used" "ik_actor used = ac_principal_id a"
      "ik_request used = SoftDeleteRequest eid" "ik_completed used" "ik_response used = Some x"
    and admin: "require_trash_admin b = ok ()"
  shows "\<exists>r s'. soft_delete_entity env a eid reason name expected (Some k) s = ok (r, s') \<and>
    target_state s' KRoot eid = Some DelSoftDeleted \<and> open_statuses s' KRoot eid = [] \<and>
    restore_entity b eid s' = raise EntityNotSoftDeletedError"
proof -
  let ?s = "mark_root_deleted eid row DelSoftDeleted a reason s"
  have edit: "ensure_can_edit a (rt_owner row) = ok ()"
    and guard: "delete_root_guard env eid row expected = Inr (Some DelSoftDeleted)"
    using allowed row active
    by (auto simp: soft_delete_entity_def rbind_Inr_iff delete_root_guard_def next_state_iff
      split: option.splits)
  have run: "run_idempotent ts_keys put_trash_keys (Some k) (ac_principal_id a) (SoftDeleteRequest eid)
      (soft_delete_operation a eid row reason name) ?s = ok (x, ?s)"
    using key by (simp add: run_idempotent_def mark_root_deleted_def)
  have entries: "ts_entries ?s = ts_entries s" by (simp add: mark_root_deleted_def)
  have closed: "open_statuses s kind eid = []" for kind
    using okay alone row active unfolding trash_ok_def
    by (cases kind) (metis agrees_simps(1), metis agrees_simps(1), metis agrees_simps(1),
      metis (mono_tags) agrees_simps(2) option.simps(9) target_kind.simps(16) target_state_def)
  have "e \<notin> snd ` set (ts_entries s) \<or> te_entity_id e \<noteq> eid \<or> te_status e = EntryRestored" for e
  proof -
    have "open_of (kind_of (te_entity_type e)) eid (ts_entries s) = []"
      using closed by (simp add: open_statuses_def)
    then show ?thesis by (auto simp: open_of_def concerns_def filter_empty_conv)
  qed
  then have "\<not> (\<exists>p. p \<in> set (rev (ts_entries s)) \<and>
      (case p of (i, e) \<Rightarrow> te_entity_id e = eid \<and> te_status e \<in> recoverable_statuses))"
    by (force simp: recoverable_statuses_def)
  then have "get_recoverable_entry_for_entity ?s eid = None"
    unfolding get_recoverable_entry_for_entity_def entries by (simp only: find_None_iff [symmetric] option.map)
  then have "restore_entity b eid ?s = raise EntityNotSoftDeletedError"
    using admin by (simp add: restore_entity_def)
  moreover have "target_state ?s KRoot eid = Some DelSoftDeleted"
    by (simp add: target_state_def mark_root_deleted_def)
  moreover have "open_statuses ?s KRoot eid = []"
    using closed [of KRoot] entries by (simp add: open_statuses_def)
  ultimately show ?thesis
    using row edit guard run by (auto simp: soft_delete_entity_def)
qed

lemma purge_operation_steps:
  assumes "purge_operation a now i phrase p expected s = Inr (r, s')"
  obtains row e where "strip_opt p \<noteq> []" "dget (ts_proofs s) (strip_opt p) = Some row"
    "pf_user row = (case ac_principal_id a of None \<Rightarrow> [] | Some p \<Rightarrow> p)" "pf_purpose row = ''trash_purge''"
    "\<not> pf_used row" "now < pf_expires_at row"
    "dget (ts_entries s) i = Some e" "te_status e \<in> recoverable_statuses" "strip phrase = display_identity e"
    "dget (ts_proofs s') (strip_opt p) = Some (row\<lparr>pf_used := True\<rparr>)"
    "ts_next_job s' = Suc (ts_next_job s)"
    "\<exists>e'. dget (ts_entries s') i = Some e' \<and> te_status e' = EntryPurgePending \<and>
       te_purge_job e' = Some (ts_next_job s) \<and> te_requested_by e' = ac_principal_id a"
proof -
  from assms obtain s1 e previous s2 where
    reauth: "consume_reauth_proof now (case ac_principal_id a of None \<Rightarrow> [] | Some p \<Rightarrow> p) ''trash_purge'' p s
      = Inr ((), s1)"
    and entry: "require_entry i expected s1 = Inr e" and status: "assert_entry_recoverable e = Inr ()"
    and phrase: "strip phrase = display_identity e"
    and mark: "mark_target_purge_pending e s1 = Inr (previous, s2)"
    and s': "ts_proofs s' = ts_proofs s2" "ts_next_job s' = Suc (ts_next_job s2)"
      "\<exists>e'. dget (ts_entries s') i = Some e' \<and> te_status e' = EntryPurgePending \<and>
       te_purge_job e' = Some (ts_next_job s2) \<and> te_requested_by e' = ac_principal_id a"
    by (auto simp: purge_operation_def rbind_Inr_iff Let_def enqueue_purge_job_def audit_def set_entry_def
      split: if_splits)
  from reauth obtain row where row: "strip_opt p \<noteq> []" "dget (ts_proofs s) (strip_opt p) = Some row"
      "pf_user row = (case ac_principal_id a of None \<Rightarrow> [] | Some p \<Rightarrow> p)"
      "pf_purpose row = ''trash_purge''" "\<not> pf_used row" "now < pf_expires_at row"
      "s1 = s\<lparr>ts_proofs := dset (strip_opt p) (row\<lparr>pf_used := True\<rparr>) (ts_proofs s)\<rparr>"
    by (auto simp: consume_reauth_proof_def split: if_splits option.splits)
  have recoverable: "te_status e \<in> recoverable_statuses"
    using status by (cases "te_status e") (auto simp: assert_entry_recoverable_def recoverable_statuses_def)
  have "ts_proofs s2 = ts_proofs s1 \<and> ts_next_job s2 = ts_next_job s1"
    using mark by (cases rule: kind_cases [of "te_entity_type e"])
      (auto simp: mark_target_purge_pending_def Let_def rbind_Inr_iff split: option.splits if_splits)
  then show thesis
    using row s' entry recoverable phrase by (intro that [OF row(1-6)]) (auto simp: require_entry_iff)
qed

lemma spent_proof_refused:
  assumes "strip_opt p \<noteq> []" "dget (ts_proofs s) (strip_opt p) = Some row" "pf_used row"
  shows "purge_operation b now i phrase p expected (put_trash_keys d s) = Inl ReauthProofInvalidError"
  using assms by (simp add: purge_operation_def consume_reauth_proof_def put_trash_keys_def)

text \<open>C22. A purge is asked for by an Admin who has named the object and signed in again. Whenever a
  request queues a job - under any idempotency key or none - the actor is an Admin, the request
  carried an unused, unexpired proof of this actor for this purpose and the exact name of a
  recoverable entry, and it left that entry pending under the job it queued. It has used the proof
  up: afterwards a request with that proof, by any Admin, for any entry and at any time, raises
  when it comes without a key or under an unused one, and changes nothing under any key.\<close>

theorem purge_needs_confirmation:
  assumes request: "request_purge a now i phrase p expected key s = ok (r, s')"
    and queued: "ts_next_job s' \<noteq> ts_next_job s"
  shows "is_admin a \<and>
    (\<exists>row. dget (ts_proofs s) (strip_opt p) = Some row \<and> Some (pf_user row) = ac_principal_id a \<and>
       pf_purpose row = ''trash_purge'' \<and> \<not> pf_used row \<and> now < pf_expires_at row) \<and>
    (\<exists>e e'. dget (ts_entries s) i = Some e \<and> te_status e \<in> recoverable_statuses \<and>
       strip phrase = display_identity e \<and> dget (ts_entries s') i = Some e' \<and>
       te_status e' = EntryPurgePending \<and> te_purge_job e' = Some (ts_next_job s) \<and>
       te_requested_by e' = ac_principal_id a) \<and>
    (\<forall>b now' i' phrase' expected' key'.
       committed (request_purge b now' i' phrase' p expected' key') s' = s' \<and>
       (require_trash_admin b = ok () \<and> key_unused key' s' \<longrightarrow>
         request_purge b now' i' phrase' p expected' key' s' = raise ReauthProofInvalidError))"
proof -
  have admin: "require_trash_admin a = ok ()"
    using request by (auto simp: request_purge_def rbind_Inr_iff)
  then have who: "is_admin a" "ac_principal_id a \<noteq> None"
    unfolding require_trash_admin_def guard_ok_iff by (auto simp: is_authenticated_def)
  from request admin have run: "run_idempotent ts_keys put_trash_keys key (ac_principal_id a)
      (PurgeRequest i expected phrase) (purge_operation a now i phrase p expected) s = Inr (r, s')"
    by (simp add: request_purge_def)
  have "s' \<noteq> s" using queued by auto
  then obtain d d' s1 where op: "purge_operation a now i phrase p expected (put_trash_keys d s) = Inr (r, s1)"
    and s': "s' = put_trash_keys d' s1"
    by (rule keyed_call_runs [OF run])
  obtain row e where st: "strip_opt p \<noteq> []" "dget (ts_proofs s) (strip_opt p) = Some row"
    "pf_user row = (case ac_principal_id a of None \<Rightarrow> [] | Some p \<Rightarrow> p)" "pf_purpose row = ''trash_purge''"
    "\<not> pf_used row" "now < pf_expires_at row"
    "dget (ts_entries s) i = Some e" "te_status e \<in> recoverable_statuses" "strip phrase = display_identity e"
    "dget (ts_proofs s') (strip_opt p) = Some (row\<lparr>pf_used := True\<rparr>)"
    "\<exists>e'. dget (ts_entries s') i = Some e' \<and> te_status e' = EntryPurgePending \<and>
       te_purge_job e' = Some (ts_next_job s) \<and> te_requested_by e' = ac_principal_id a"
    by (rule purge_operation_steps [OF op]) (simp add: s' put_trash_keys_def)
  have refused: "purge_operation b now' i' phrase' p expected' (put_trash_keys d s') = Inl ReauthProofInvalidError"
    for b now' i' phrase' expected' d
    by (rule spent_proof_refused [OF st(1,10)]) simp
  have "request_purge b now' i' phrase' p expected' key' s' = raise ReauthProofInvalidError"
    if "require_trash_admin b = ok ()" "key_unused key' s'" for b now' i' phrase' expected' key'
    using that(1) unused_key_runs [OF that(2), of "ac_principal_id b" "PurgeRequest i' expected' phrase'"]
    by (auto simp: request_purge_def refused)
  moreover have "committed (request_purge b now' i' phrase' p expected' key') s' = s'"
    for b now' i' phrase' expected' key'
  proof (cases rule: committed_cases [of "request_purge b now' i' phrase' p expected' key'" s'])
    case (returned r2 s2)
    then have "run_idempotent ts_keys put_trash_keys key' (ac_principal_id b) (PurgeRequest i' expected' phrase')
        (purge_operation b now' i' phrase' p expected') s' = Inr (r2, s2)"
      by (auto simp: request_purge_def rbind_Inr_iff)
    then have "s2 = s'" using keyed_call_runs refused by (metis Inl_Inr_False)
    then show ?thesis using returned by simp
  qed simp
  ultimately show ?thesis using who st(2-9,11) by auto
qed


section \<open>Witnesses\<close>

definition quiet_env :: trash_env where
  "quiet_env = \<lparr>ev_active_run = (\<lambda>_. False), ev_family_assignments = (\<lambda>_. 0),
     ev_trusted_resolver = (\<lambda>_. False), ev_task_status = (\<lambda>_. None)\<rparr>"

definition trash_admin :: actor where
  "trash_admin = \<lparr>ac_principal_id = Some ''ann'', ac_principal_type = HumanPrincipal,
     ac_role = Some AdminRole, ac_request_id = [], ac_correlation_id = []\<rparr>"

definition demo_root :: root_row where
  "demo_root = \<lparr>rt_entity_type = ''package'', rt_owner = Some ''bob'', rt_deletion_state = DelActive,
     rt_current_revision_id = Some ''r1'', rt_row_version = 1, rt_deleted_by = None,
     rt_delete_reason = None\<rparr>"

definition demo_trash :: trash_state where
  "demo_trash = \<lparr>ts_roots = [(''p1'', demo_root)], ts_results = [], ts_artifacts = [],
     ts_manuals = [], ts_entries = [], ts_next_entry = 0, ts_jobs = [], ts_next_job = 0,
     ts_tombstones = [], ts_publications = [],
     ts_proofs = [(''token'', \<lparr>pf_user = ''ann'', pf_purpose = ''trash_purge'', pf_used = False,
       pf_expires_at = 100\<rparr>)], ts_audit = [], ts_keys = []\<rparr>"

definition demo_delete :: trash_command where
  "demo_delete = DeleteEntity trash_admin ''p1'' None (Some ''Pack'') None (Some ''k1'')"

definition demo_deleted :: trash_state where
  "demo_deleted = exec_trash quiet_env demo_delete demo_trash"

definition demo_restored :: trash_state where
  "demo_restored = exec_trash quiet_env (RestoreEntity trash_admin ''p1'') demo_deleted"

definition demo_purged :: trash_state where
  "demo_purged = exec_trash quiet_env (RunPurge 0)
     (exec_trash quiet_env (RequestPurge trash_admin 50 0 '' Pack '' (Some ''token'') (Some 1) None)
       demo_deleted)"

lemma demo_trash_ok: "trash_ok demo_trash"
  by (auto simp: trash_ok_def entries_ok_def demo_trash_def demo_root_def target_state_def
    open_statuses_def wf_dict_def kind_of_def split: target_kind.splits)

lemma demo_own_key: "own_key demo_delete demo_trash"
  by (simp add: demo_delete_def demo_trash_def)

lemma demo_history: "trash_history demo_trash demo_deleted" "trash_history demo_trash demo_restored"
    "trash_history demo_trash demo_purged"
  unfolding demo_deleted_def demo_restored_def demo_purged_def
  by (intro history_step history_start demo_own_key own_key.simps(2-) [THEN iffD2] TrueI; simp)+

lemma demo_states: "target_state demo_purged KRoot ''p1'' = Some DelPurged"
    "open_statuses demo_purged KRoot ''p1'' = [EntryPurged]"
    "dget (ts_roots demo_restored) ''p1'' = Some demo_root"
    "target_state demo_restored KResult ''p1'' = None" "target_state demo_restored KManual ''p1'' = None"
    "target_state demo_restored KArtifact ''p1'' = None"
    "dget (ts_keys demo_restored) ''k1'' = Some \<lparr>ik_actor = Some ''ann'',
      ik_request = SoftDeleteRequest ''p1'', ik_completed = True, ik_response = Some (Deleted ''p1'')\<rparr>"
    "require_trash_admin trash_admin = ok ()"
  by code_simp+

lemma demo_delete_runs: "\<exists>r s'. soft_delete_entity quiet_env trash_admin ''p1'' None (Some ''Pack'') None None s =
    ok (r, s')" if "dget (ts_roots s) ''p1'' = Some demo_root"
  using that by (simp add: soft_delete_entity_def demo_root_def trash_admin_def ensure_can_edit_def
    can_edit_def is_admin_def delete_root_guard_def check_row_version_def soft_delete_preflight_def
    quiet_env_def next_deletion_state_def deletion_allowed_def run_idempotent_def
    soft_delete_operation_def)

lemma demo_delete_keyed: "\<exists>r. soft_delete_entity quiet_env trash_admin ''p1'' None (Some ''Pack'') None (Some ''k1'')
    demo_trash = ok (r, demo_deleted)"
proof -
  have "is_ok (soft_delete_entity quiet_env trash_admin ''p1'' None (Some ''Pack'') None (Some ''k1'') demo_trash)"
    by code_simp
  then show ?thesis by (auto simp: is_ok_iff demo_deleted_def demo_delete_def committed_def)
qed

lemma demo_keys: "key_unused (Some ''k1'') demo_trash" "key_unused (Some ''k2'') demo_deleted"
  by code_simp+

theorem trash_stays_consistent_witness:
  "agrees (target_state demo_purged KRoot ''p1'') (open_statuses demo_purged KRoot ''p1'') \<and>
     target_state demo_purged KRoot ''p1'' = Some DelPurged"
  using trash_stays_consistent [OF demo_history(3) demo_trash_ok] demo_states(1) by blast

theorem trash_refines_deletion_table_witness:
  "target_state demo_deleted = target_state demo_trash \<or>
    (\<exists>k eid st st'. target_state demo_trash k eid = Some st \<and> next_deletion_state st st' = ok st' \<and>
       target_state demo_deleted =
         (\<lambda>k' x. if k' = k \<and> x = eid then Some st' else target_state demo_trash k' x))"
  unfolding demo_deleted_def by (rule trash_refines_deletion_table [OF demo_trash_ok demo_own_key])

theorem restore_undoes_delete_witness:
  "\<exists>r s' s''. soft_delete_entity quiet_env trash_admin ''p1'' None (Some ''Pack'') None (Some ''k1'') demo_trash =
      ok (r, s') \<and>
    restore_trash_entry trash_admin 0 (Some 1) None (Some ''k2'') s' =
      ok (RestoredAnswer 0 ''p1'' (Some ''r1'') None 2, s'') \<and> dget (ts_roots s'') ''p1'' = Some demo_root"
proof -
  have row: "dget (ts_roots demo_trash) ''p1'' = Some demo_root" by (simp add: demo_trash_def)
  obtain r where del: "soft_delete_entity quiet_env trash_admin ''p1'' None (Some ''Pack'') None (Some ''k1'')
      demo_trash = ok (r, demo_deleted)"
    using demo_delete_keyed by blast
  have "demo_root\<lparr>rt_deleted_by := None, rt_delete_reason := None\<rparr> = demo_root" "ts_next_entry demo_trash = 0"
    "parse_resolution None = ok None"
    by (simp_all add: demo_root_def demo_trash_def parse_resolution_def)
  then show ?thesis
    using restore_undoes_delete [OF demo_trash_ok row _ del demo_keys demo_states(8), of "Some 1" None None] del
    by (auto simp: demo_root_def)
qed

theorem replayed_delete_strands_root_witness:
  "\<exists>r s'. soft_delete_entity quiet_env trash_admin ''p1'' None (Some ''Pack'') None (Some ''k1'')
      demo_restored = ok (r, s') \<and> target_state s' KRoot ''p1'' = Some DelSoftDeleted \<and>
    restore_entity trash_admin ''p1'' s' = raise EntityNotSoftDeletedError"
proof -
  obtain r s' where "soft_delete_entity quiet_env trash_admin ''p1'' None (Some ''Pack'') None None
      demo_restored = ok (r, s')"
    using demo_delete_runs [OF demo_states(3)] by blast
  from replayed_delete_strands_root [OF history_ok [OF demo_history(2) demo_trash_ok] demo_states(3)
      _ demo_states(4-6) this demo_states(7) _ _ _ _ demo_states(8)]
  show ?thesis by (auto simp: demo_root_def trash_admin_def)
qed

lemma demo_purge_requested:
  "case request_purge trash_admin 50 0 ''Pack'' (Some ''token'') (Some 1) (Some ''k2'') demo_deleted of
     Inl x \<Rightarrow> False
   | Inr (r, s') \<Rightarrow> ts_next_job s' \<noteq> ts_next_job demo_deleted \<and> key_unused (Some ''k3'') s'"
  by code_simp

theorem purge_needs_confirmation_witness:
  "\<exists>r s'. request_purge trash_admin 50 0 ''Pack'' (Some ''token'') (Some 1) (Some ''k2'') demo_deleted = ok (r, s') \<and>
     request_purge trash_admin 60 0 ''Pack'' (Some ''token'') (Some 1) (Some ''k3'') s' =
       raise ReauthProofInvalidError"
proof -
  obtain r s' where run: "request_purge trash_admin 50 0 ''Pack'' (Some ''token'') (Some 1) (Some ''k2'') demo_deleted =
      ok (r, s')" "ts_next_job s' \<noteq> ts_next_job demo_deleted" "key_unused (Some ''k3'') s'"
    using demo_purge_requested by (auto split: sum.splits)
  from purge_needs_confirmation [OF run(1,2)] run(1,3) demo_states(8) show ?thesis by blast
qed

end
