(* ===== verification/Py_Json.thy ===== *)
theory Py_Json
  imports Py_Prelude
begin

text \<open>
  A parsed JSON document, as the JSONB columns hold it: what \<open>json.loads\<close> returns, an object being a
  dictionary in insertion order.
\<close>

datatype json = JNull | JBool bool | JNum rat | JStr string | JArr "json list"
  | JObj "(string \<times> json) list"

text \<open>\<open>bool(x)\<close>, and \<open>d.get(key)\<close>, where a missing key and a stored \<open>None\<close> read the same.\<close>

definition json_truthy :: "json \<Rightarrow> bool" where
  "json_truthy j = (case j of
     JNull \<Rightarrow> False | JBool b \<Rightarrow> b | JNum q \<Rightarrow> q \<noteq> 0 | JStr t \<Rightarrow> t \<noteq> [] | JArr xs \<Rightarrow> xs \<noteq> []
   | JObj m \<Rightarrow> m \<noteq> [])"

definition jfield :: "(string, json) dict \<Rightarrow> string \<Rightarrow> json" where
  "jfield m k = (case dget m k of None \<Rightarrow> JNull | Some v \<Rightarrow> v)"

text \<open>
  \<open>str(x)\<close>. The text of a number, a list or a dictionary is the argument \<open>shown\<close>: no claim depends
  on it.
\<close>

definition json_str :: "(json \<Rightarrow> string) \<Rightarrow> json \<Rightarrow> string" where
  "json_str shown j = (case j of
     JStr t \<Rightarrow> t | JNull \<Rightarrow> ''None'' | JBool b \<Rightarrow> (if b then ''True'' else ''False'') | _ \<Rightarrow> shown j)"

end
