(* ===== verification/Allocation.thy ===== *)
theory Allocation
  imports Sizing Fills Portfolio_Ledger Py_Json
begin

text \<open>
  The shared capital plan of a composition (\<^verbatim>\<open>domain/allocation/\<close>): the plan document, its semantic
  validation with the preview amounts (\<open>rules.py\<close>), the admission of sleeve holders
  (\<open>shared_mode_admission.py\<close>), and the way a run reads the frozen plan back from the untyped manifest
  snapshot (\<open>resolve_allocation_execution\<close> and \<open>resolve_portfolio_rules\<close> of the engine, and the
  capital half of \<open>_shared_clock_inputs\<close> of the worker job). The texts of the issues are not kept; the
  issue codes, their severity and what they point at are.
\<close>

section \<open>The plan document\<close>

datatype allocation_currency = USD | USDT | EUR | TRY

datatype compounding_mode = COMPOUND_PORTFOLIO_EQUITY | FIXED_INITIAL_PORTFOLIO_CAPITAL

datatype cross_item_policy = BLOCK_OPPOSITE | KEEP_SEPARATE

datatype mainboard_item_kind = STRATEGY | TRADING_SIGNAL | TRADE_LOG

fun currency_value :: "allocation_currency \<Rightarrow> string" where
  "currency_value USD = ''USD''"
| "currency_value USDT = ''USDT''"
| "currency_value EUR = ''EUR''"
| "currency_value TRY = ''TRY''"

fun compounding_value :: "compounding_mode \<Rightarrow> string" where
  "compounding_value COMPOUND_PORTFOLIO_EQUITY = ''COMPOUND_PORTFOLIO_EQUITY''"
| "compounding_value FIXED_INITIAL_PORTFOLIO_CAPITAL = ''FIXED_INITIAL_PORTFOLIO_CAPITAL''"

fun policy_value :: "cross_item_policy \<Rightarrow> string" where
  "policy_value BLOCK_OPPOSITE = ''BLOCK_OPPOSITE''"
| "policy_value KEEP_SEPARATE = ''KEEP_SEPARATE''"

fun item_kind_value :: "mainboard_item_kind \<Rightarrow> string" where
  "item_kind_value STRATEGY = ''strategy''"
| "item_kind_value TRADING_SIGNAL = ''trading_signal''"
| "item_kind_value TRADE_LOG = ''trade_log''"

record money_v1 =
  mv_amount :: rat
  mv_currency :: allocation_currency

record allocation_entry =
  ae_item :: string
  ae_type :: "mainboard_item_kind option"
  ae_active :: bool
  ae_share :: "rat option"

record allocation_config =
  ac_enabled :: bool
  ac_initial_capital :: "money_v1 option"
  ac_compounding :: "compounding_mode option"
  ac_reserve :: "rat option"
  ac_max_exposure :: "rat option"
  ac_policy :: "cross_item_policy option"
  ac_entries :: "allocation_entry list"

section \<open>Issues\<close>

datatype issue_severity = Blocker | Warning

datatype issue_code = INITIAL_CAPITAL_INVALID | BASE_CURRENCY_INVALID | COMPOUNDING_MODE_INVALID
  | RESERVE_OUT_OF_RANGE | NO_ACTIVE_ENTRY | ENTRY_SHARE_INVALID | TOTAL_ALLOCATION_EXCEEDS_100
  | TOTAL_ALLOCATION_UNDER_100 | DUPLICATE_ACTIVE_ENTRY | ITEM_UNAVAILABLE | ONE_ACTIVE_SLEEVE
  | FX_DEPENDENCY_MISSING | MAX_TOTAL_EXPOSURE_INVALID | ITEM_KIND_NOT_ALLOCATABLE
  | SHARED_MODE_NOT_IN_BUILD

record allocation_issue =
  ai_code :: issue_code
  ai_severity :: issue_severity
  ai_field :: "string option"
  ai_item :: "string option"

definition field_blocker :: "issue_code \<Rightarrow> string \<Rightarrow> allocation_issue" where
  "field_blocker c f = \<lparr>ai_code = c, ai_severity = Blocker, ai_field = Some f, ai_item = None\<rparr>"

definition item_blocker :: "issue_code \<Rightarrow> string \<Rightarrow> allocation_issue" where
  "item_blocker c i = \<lparr>ai_code = c, ai_severity = Blocker, ai_field = None, ai_item = Some i\<rparr>"

definition has_blockers :: "allocation_issue list \<Rightarrow> bool" where
  "has_blockers issues = (\<exists>i \<in> set issues. ai_severity i = Blocker)"

text \<open>The availability of an item, as the command layer resolved it.\<close>

record allocation_item_ref =
  ir_kind :: mainboard_item_kind
  ir_available :: bool
  ir_settlement_currency :: "string option"

definition allocatable_item_kinds :: "mainboard_item_kind set" where
  "allocatable_item_kinds = {STRATEGY, TRADING_SIGNAL, TRADE_LOG}"

definition shared_allocation_status :: string where
  "shared_allocation_status = ''active_v1''"

definition shared_allocation_is_executable :: bool where
  "shared_allocation_is_executable = (shared_allocation_status = ''active_v1'')"

section \<open>Validation\<close>

text \<open>The checks on the pool itself, in the order of the code.\<close>

definition capital_ok :: "allocation_config \<Rightarrow> bool" where
  "capital_ok cfg = (case ac_initial_capital cfg of None \<Rightarrow> False | Some m \<Rightarrow> mv_amount m > 0)"

definition reserve_of :: "allocation_config \<Rightarrow> rat" where
  "reserve_of cfg = (case ac_reserve cfg of None \<Rightarrow> 0 | Some r \<Rightarrow> r)"

definition reserve_ok :: "allocation_config \<Rightarrow> bool" where
  "reserve_ok cfg = (0 \<le> reserve_of cfg \<and> reserve_of cfg < 100)"

definition active_entries :: "allocation_config \<Rightarrow> allocation_entry list" where
  "active_entries cfg = filter ae_active (ac_entries cfg)"

definition pool_issues :: "allocation_config \<Rightarrow> allocation_issue list" where
  "pool_issues cfg =
     (if shared_allocation_is_executable then []
      else [field_blocker SHARED_MODE_NOT_IN_BUILD ''enabled'']) @
     (if capital_ok cfg then [] else [field_blocker INITIAL_CAPITAL_INVALID ''initial_capital'']) @
     (if ac_initial_capital cfg = None
      then [field_blocker BASE_CURRENCY_INVALID ''initial_capital.currency''] else []) @
     (if ac_compounding cfg = None
      then [field_blocker COMPOUNDING_MODE_INVALID ''compounding_mode''] else []) @
     (if reserve_ok cfg then [] else [field_blocker RESERVE_OUT_OF_RANGE ''reserve_cash_percent'']) @
     (case ac_max_exposure cfg of
        Some x \<Rightarrow> if x \<le> 0 then [field_blocker MAX_TOTAL_EXPOSURE_INVALID ''max_total_exposure_percent'']
                  else []
      | None \<Rightarrow> []) @
     (if active_entries cfg = [] then [field_blocker NO_ACTIVE_ENTRY ''entries''] else [])"

text \<open>The loop over the active entries: the issues so far, the ids seen and the share total.\<close>

definition entry_issues :: "(string \<Rightarrow> allocation_item_ref option) \<Rightarrow> allocation_entry \<Rightarrow> allocation_issue list" where
  "entry_issues refs e =
     (let cid = ae_item e; ref = refs cid in
       (case ref of
          None \<Rightarrow> [item_blocker ITEM_UNAVAILABLE cid]
        | Some r \<Rightarrow> if ir_available r then [] else [item_blocker ITEM_UNAVAILABLE cid]) @
       (case ref of
          None \<Rightarrow> []
        | Some r \<Rightarrow> if ir_kind r \<in> allocatable_item_kinds then []
                    else [item_blocker ITEM_KIND_NOT_ALLOCATABLE cid]) @
       (case ae_share e of
          None \<Rightarrow> [item_blocker ENTRY_SHARE_INVALID cid]
        | Some w \<Rightarrow> if w \<le> 0 then [item_blocker ENTRY_SHARE_INVALID cid] else []))"

fun entry_loop ::
    "(string \<Rightarrow> allocation_item_ref option) \<Rightarrow> allocation_entry list \<Rightarrow> string list \<Rightarrow> rat
     \<Rightarrow> allocation_issue list \<times> rat" where
  "entry_loop refs [] seen tot = ([], tot)"
| "entry_loop refs (e # es) seen tot =
     (if ae_item e \<in> set seen
      then (let (iss, t) = entry_loop refs es seen tot in
             (item_blocker DUPLICATE_ACTIVE_ENTRY (ae_item e) # iss, t))
      else (let tot' = (case ae_share e of
                    None \<Rightarrow> tot | Some w \<Rightarrow> if w \<le> 0 then tot else dadd tot w);
                (iss, t) = entry_loop refs es (ae_item e # seen) tot' in
             (entry_issues refs e @ iss, t)))"

definition total_issues :: "allocation_entry list \<Rightarrow> rat \<Rightarrow> allocation_issue list" where
  "total_issues active tot =
     (if tot > 100 then [field_blocker TOTAL_ALLOCATION_EXCEEDS_100 ''entries'']
      else if active \<noteq> [] \<and> tot > 0 \<and> tot < 100
      then [\<lparr>ai_code = TOTAL_ALLOCATION_UNDER_100, ai_severity = Warning, ai_field = Some ''entries'',
             ai_item = None\<rparr>]
      else []) @
     (case active of
        [e] \<Rightarrow> [\<lparr>ai_code = ONE_ACTIVE_SLEEVE, ai_severity = Warning, ai_field = None,
                 ai_item = Some (ae_item e)\<rparr>]
      | _ \<Rightarrow> [])"

definition normalize_currency :: "string option \<Rightarrow> string" where
  "normalize_currency v = upper (strip_opt v)"

definition fx_entry_issues ::
    "string \<Rightarrow> (string \<Rightarrow> allocation_item_ref option) \<Rightarrow> allocation_entry \<Rightarrow> allocation_issue list" where
  "fx_entry_issues base refs e = (case refs (ae_item e) of
     None \<Rightarrow> []
   | Some r \<Rightarrow> (case ir_settlement_currency r of
         None \<Rightarrow> []
       | Some c \<Rightarrow> (let own = normalize_currency (Some c) in
           if own = [] \<or> own = base then []
           else [\<lparr>ai_code = FX_DEPENDENCY_MISSING, ai_severity = Blocker,
                  ai_field = Some ''initial_capital.currency'', ai_item = Some (ae_item e)\<rparr>])))"

definition fx_dependency_issues ::
    "allocation_config \<Rightarrow> allocation_entry list \<Rightarrow> (string \<Rightarrow> allocation_item_ref option)
     \<Rightarrow> allocation_issue list" where
  "fx_dependency_issues cfg active refs =
     (let base = (case ac_initial_capital cfg of
            None \<Rightarrow> [] | Some m \<Rightarrow> normalize_currency (Some (currency_value (mv_currency m)))) in
      if base = [] then [] else concat (map (fx_entry_issues base refs) active))"

section \<open>Preview amounts\<close>

text \<open>
  \<open>_money\<close> of the validator rounds half up (away from zero), unlike the ledger, which rounds half even;
  like \<open>quantize\<close> it refuses a result of more than 28 digits.
\<close>

definition money_half_up :: "rat \<Rightarrow> rat res" where
  "money_half_up x =
     (let c = \<lfloor>\<bar>x\<bar> * 100 + 1 / 2\<rfloor> in
      if c \<ge> 10 ^ 28 then raise InvalidOperation else ok (sgn x * of_int c / 100))"

record sleeve_amount =
  sa_item :: string
  sa_share :: rat
  sa_capital :: rat

record derived_amounts =
  dv_currency :: string
  dv_pool :: rat
  dv_reserved :: rat
  dv_available :: rat
  dv_allocated :: rat
  dv_unallocated :: rat
  dv_share_total :: rat
  dv_sleeves :: "sleeve_amount list"

fun sleeve_loop ::
    "rat \<Rightarrow> allocation_entry list \<Rightarrow> sleeve_amount list \<Rightarrow> rat \<Rightarrow> rat \<Rightarrow> (sleeve_amount list \<times> rat \<times> rat) res" where
  "sleeve_loop a0 [] sleeves allocated tot = ok (sleeves, allocated, tot)"
| "sleeve_loop a0 (e # es) sleeves allocated tot =
     (case ae_share e of
        None \<Rightarrow> sleeve_loop a0 es sleeves allocated tot
      | Some w \<Rightarrow>
          if w \<le> 0 then sleeve_loop a0 es sleeves allocated tot
          else (let sleeve = dquo (dmul a0 w) 100 in
            rbind (money_half_up sleeve) (\<lambda>m.
              sleeve_loop a0 es (sleeves @ [\<lparr>sa_item = ae_item e, sa_share = w, sa_capital = m\<rparr>])
                (dadd allocated sleeve) (dadd tot w))))"

definition derive :: "money_v1 \<Rightarrow> rat \<Rightarrow> allocation_entry list \<Rightarrow> derived_amounts res" where
  "derive capital reserve active =
     (let p0 = mv_amount capital; r0 = dquo (dmul p0 reserve) 100; a = dsub p0 r0;
          a0 = (if a < 0 then 0 else a) in
      rbind (sleeve_loop a0 active [] 0 0) (\<lambda>(sleeves, allocated, tot).
      rbind (money_half_up p0) (\<lambda>pool.
      rbind (money_half_up r0) (\<lambda>reserved.
      rbind (money_half_up a0) (\<lambda>available.
      rbind (money_half_up allocated) (\<lambda>alloc.
      rbind (money_half_up (dsub a0 allocated)) (\<lambda>unalloc.
        ok \<lparr>dv_currency = currency_value (mv_currency capital), dv_pool = pool, dv_reserved = reserved,
            dv_available = available, dv_allocated = alloc, dv_unallocated = unalloc,
            dv_share_total = tot, dv_sleeves = sleeves\<rparr>)))))))"

definition validate_allocation ::
    "allocation_config \<Rightarrow> (string \<Rightarrow> allocation_item_ref option)
     \<Rightarrow> (allocation_issue list \<times> derived_amounts option) res" where
  "validate_allocation cfg refs =
     (if \<not> ac_enabled cfg then ok ([], None)
      else let active = active_entries cfg; (entry_iss, tot) = entry_loop refs active [] 0;
               issues = pool_issues cfg @ entry_iss @ total_issues active tot
                        @ fx_dependency_issues cfg active refs in
        (case ac_initial_capital cfg of
           Some m \<Rightarrow> if capital_ok cfg \<and> reserve_ok cfg
             then rbind (derive m (reserve_of cfg) active) (\<lambda>d. ok (issues, Some d))
             else ok (issues, None)
         | None \<Rightarrow> ok (issues, None)))"

section \<open>The frozen snapshot\<close>

text \<open>
  \<open>canonical_config\<close> dumps the plan into JSON, decimals as strings. The text of a decimal is the
  argument \<open>dec\<close>; the theorems ask of it that the engine reads the number back. \<open>capital_mode\<close> is the
  document the Ready Check pins for the run.
\<close>

definition json_opt :: "('a \<Rightarrow> json) \<Rightarrow> 'a option \<Rightarrow> json" where
  "json_opt f x = (case x of None \<Rightarrow> JNull | Some v \<Rightarrow> f v)"

definition canonical_entry :: "(rat \<Rightarrow> string) \<Rightarrow> allocation_entry \<Rightarrow> json" where
  "canonical_entry dec e = JObj
     [(''composition_item_id'', JStr (ae_item e)),
      (''item_type'', json_opt (JStr \<circ> item_kind_value) (ae_type e)),
      (''active'', JBool (ae_active e)),
      (''equity_share_percent'', json_opt (JStr \<circ> dec) (ae_share e))]"

definition canonical_config :: "(rat \<Rightarrow> string) \<Rightarrow> allocation_config \<Rightarrow> json" where
  "canonical_config dec cfg = JObj
     [(''enabled'', JBool (ac_enabled cfg)),
      (''initial_capital'', json_opt (\<lambda>m. JObj [(''amount'', JStr (dec (mv_amount m))),
          (''currency'', JStr (currency_value (mv_currency m)))]) (ac_initial_capital cfg)),
      (''compounding_mode'', json_opt (JStr \<circ> compounding_value) (ac_compounding cfg)),
      (''reserve_cash_percent'', json_opt (JStr \<circ> dec) (ac_reserve cfg)),
      (''max_total_exposure_percent'', json_opt (JStr \<circ> dec) (ac_max_exposure cfg)),
      (''conflict_policy'', json_opt (JStr \<circ> policy_value) (ac_policy cfg)),
      (''entries'', JArr (map (canonical_entry dec) (ac_entries cfg)))]"

definition capital_mode :: "(rat \<Rightarrow> string) \<Rightarrow> (string \<times> json) list \<Rightarrow> allocation_config \<Rightarrow> json" where
  "capital_mode dec docs cfg = JObj
     ((''enabled'', JBool (ac_enabled cfg)) #
      (''config'', if ac_enabled cfg then canonical_config dec cfg else JNull) # docs)"

text \<open>
  \<open>Decimal(text)\<close> when it is a finite number: optional white space and underscores, a sign, digits
  with an optional point, an optional exponent. The names of infinities and of NaN are not finite.
\<close>

definition split_sign :: "string \<Rightarrow> int \<times> string" where
  "split_sign s = (case s of c # cs \<Rightarrow> if c = CHR ''-'' then (- 1, cs)
      else if c = CHR ''+'' then (1, cs) else (1, s) | [] \<Rightarrow> (1, s))"

definition parse_exponent :: "string \<Rightarrow> int option" where
  "parse_exponent s = (case s of
      [] \<Rightarrow> Some 0
    | c # cs \<Rightarrow> if c = CHR ''e'' \<or> c = CHR ''E'' then
        (let (sg, ds) = split_sign cs in
         if ds \<noteq> [] \<and> list_all is_digit ds then Some (sg * digits_value ds) else None)
      else None)"

definition parse_decimal :: "string \<Rightarrow> rat option" where
  "parse_decimal text =
     (let (sg, body) = split_sign (filter (\<lambda>c. c \<noteq> CHR ''_'') (strip text));
          whole = takeWhile is_digit body; rest = dropWhile is_digit body;
          (frac, tail) = (case rest of
             c # cs \<Rightarrow> if c = CHR ''.'' then (takeWhile is_digit cs, dropWhile is_digit cs) else ([], rest)
           | [] \<Rightarrow> ([], [])) in
      if whole @ frac = [] then None
      else map_option (\<lambda>e. of_int (sg * digits_value (whole @ frac)) * 10 powi (e - int (length frac)))
             (parse_exponent tail))"

definition safe_decimal :: "json \<Rightarrow> rat option" where
  "safe_decimal v = (case v of
     JNum q \<Rightarrow> Some q | JStr t \<Rightarrow> parse_decimal t | _ \<Rightarrow> None)"

section \<open>What the engine reads back\<close>

record allocation_execution =
  ax_initial_capital :: rat
  ax_reserve_percent :: rat
  ax_compound :: bool
  ax_item_share_percent :: rat
  ax_currency :: "string option"

fun active_share_loop :: "(json \<Rightarrow> string) \<Rightarrow> string \<Rightarrow> json list \<Rightarrow> rat" where
  "active_share_loop shown item_id [] = 0"
| "active_share_loop shown item_id (e # es) =
     (case e of
        JObj m \<Rightarrow>
          if json_str shown (jfield m ''composition_item_id'') \<noteq> item_id
             \<or> \<not> json_truthy (jfield m ''active'')
          then active_share_loop shown item_id es
          else (case safe_decimal (jfield m ''equity_share_percent'') of
              Some w \<Rightarrow> if w > 0 then w else active_share_loop shown item_id es
            | None \<Rightarrow> active_share_loop shown item_id es)
      | _ \<Rightarrow> active_share_loop shown item_id es)"

definition active_item_share :: "(json \<Rightarrow> string) \<Rightarrow> json \<Rightarrow> string \<Rightarrow> rat" where
  "active_item_share shown entries item_id =
     (case entries of JArr es \<Rightarrow> active_share_loop shown item_id es | _ \<Rightarrow> 0)"

text \<open>\<open>d.get("config")\<close> of a plan that is a dictionary and enabled, when it is a dictionary too.\<close>

definition enabled_config :: "json \<Rightarrow> (string, json) dict option" where
  "enabled_config ce = (case ce of
     JObj m \<Rightarrow> if json_truthy (jfield m ''enabled'')
       then (case jfield m ''config'' of JObj cfg \<Rightarrow> Some cfg | _ \<Rightarrow> None) else None
   | _ \<Rightarrow> None)"

definition resolve_allocation_execution ::
    "(json \<Rightarrow> string) \<Rightarrow> json \<Rightarrow> string \<Rightarrow> allocation_execution option" where
  "resolve_allocation_execution shown ce item_id =
     (case enabled_config ce of None \<Rightarrow> None | Some cfg \<Rightarrow>
      (case jfield cfg ''initial_capital'' of
         JObj pool \<Rightarrow>
           (case safe_decimal (jfield pool ''amount'') of None \<Rightarrow> None | Some p0 \<Rightarrow>
             if p0 \<le> 0 then None
             else Some
               \<lparr>ax_initial_capital = p0,
                ax_reserve_percent = max (case safe_decimal (jfield cfg ''reserve_cash_percent'') of
                    None \<Rightarrow> 0 | Some r \<Rightarrow> r) 0,
                ax_compound = (jfield cfg ''compounding_mode''
                    = JStr (compounding_value COMPOUND_PORTFOLIO_EQUITY)),
                ax_item_share_percent = active_item_share shown (jfield cfg ''entries'') item_id,
                ax_currency = (if jfield pool ''currency'' = JNull then None
                    else Some (json_str shown (jfield pool ''currency'')))\<rparr>)
       | _ \<Rightarrow> None))"

definition exposure_setting :: "json \<Rightarrow> rat option \<times> bool" where
  "exposure_setting raw =
     (if raw = JNull then (None, False)
      else (case safe_decimal raw of
          None \<Rightarrow> (None, True)
        | Some p \<Rightarrow> if p \<le> 0 then (None, True) else (Some p, False)))"

definition policy_setting :: "(json \<Rightarrow> string) \<Rightarrow> json \<Rightarrow> string option" where
  "policy_setting shown raw =
     (if raw = JNull \<or> strip (json_str shown raw) = [] then None
      else Some (upper (strip (json_str shown raw))))"

definition resolve_portfolio_rules :: "(json \<Rightarrow> string) \<Rightarrow> json \<Rightarrow> portfolio_rules option" where
  "resolve_portfolio_rules shown ce =
     (case enabled_config ce of None \<Rightarrow> None | Some cfg \<Rightarrow>
      (let (pct, invalid) = exposure_setting (jfield cfg ''max_total_exposure_percent'');
           policy = policy_setting shown (jfield cfg ''conflict_policy'') in
       if pct = None \<and> \<not> invalid \<and> (policy = None \<or> policy = Some ''KEEP_SEPARATE'') then None
       else Some \<lparr>pr_max_total_exposure_percent = pct, pr_conflict_policy = policy, pr_own_symbol = None,
                  pr_prior_intervals = [], pr_exposure_percent_invalid = invalid\<rparr>))"

section \<open>Admission of sleeve holders\<close>

definition executing_item_kinds :: "mainboard_item_kind list" where
  "executing_item_kinds = [STRATEGY]"

definition shared_allocation_requested :: "json \<Rightarrow> bool" where
  "shared_allocation_requested ce =
     (case ce of JObj m \<Rightarrow> json_truthy (jfield m ''enabled'') | _ \<Rightarrow> False)"

definition snapshot_entries :: "json \<Rightarrow> (string, json) dict list" where
  "snapshot_entries ce = (case ce of
     JObj m \<Rightarrow> (case jfield m ''config'' of
         JObj cfg \<Rightarrow> (case jfield cfg ''entries'' of
             JArr es \<Rightarrow> List.map_filter (\<lambda>e. case e of
                 JObj d \<Rightarrow> if jfield d ''active'' = JBool False then None else Some d | _ \<Rightarrow> None) es
           | _ \<Rightarrow> [])
       | _ \<Rightarrow> [])
   | _ \<Rightarrow> [])"

text \<open>
  A share that does not read as a number counts as capital, and so do NaN, whose comparison raises, and
  infinity; only an infinite share of negative sign does not.
\<close>

definition minus_infinity :: "string \<Rightarrow> bool" where
  "minus_infinity text =
     (upper (filter (\<lambda>c. c \<noteq> CHR ''_'') (strip text)) \<in> {''-INF'', ''-INFINITY''})"

definition holds_capital :: "(string, json) dict \<Rightarrow> bool" where
  "holds_capital d = (case jfield d ''equity_share_percent'' of
     JNull \<Rightarrow> False
   | JStr t \<Rightarrow> (case parse_decimal t of None \<Rightarrow> \<not> minus_infinity t | Some w \<Rightarrow> w > 0)
   | JNum q \<Rightarrow> q > 0
   | _ \<Rightarrow> True)"

definition non_executing_sleeve_holders :: "(json \<Rightarrow> string) \<Rightarrow> json \<Rightarrow> string list" where
  "non_executing_sleeve_holders shown ce =
     List.map_filter (\<lambda>d.
       if jfield d ''item_type'' = JNull \<or> \<not> holds_capital d then None
       else if json_str shown (jfield d ''item_type'') \<in> set (map item_kind_value executing_item_kinds)
       then None
       else (case jfield d ''composition_item_id'' of
           JStr i \<Rightarrow> if i \<noteq> [] then Some i else None | _ \<Rightarrow> None)) (snapshot_entries ce)"

section \<open>The capital side of a shared run\<close>

text \<open>
  The shares of the prepared items, the ordinals of the manifest and the exposure cap, as the worker
  hands them to the phase loop. An item whose snapshot resolves to no sleeve fails the preparation.
\<close>

datatype prep_failure = ManifestResolution string

record shared_capital =
  sc_pool_initial :: rat
  sc_shares :: "(string, rat) dict"
  sc_reserve_percent :: rat
  sc_compound :: bool
  sc_conflict_policy :: "string option"
  sc_max_exposure_notional :: "rat option"

fun shares_loop ::
    "(string \<times> allocation_execution option) list \<Rightarrow> (string, rat) dict \<Rightarrow> prep_failure + (string, rat) dict" where
  "shares_loop [] shares = Inr shares"
| "shares_loop ((i, alloc) # items) shares =
     (case alloc of
        None \<Rightarrow> Inl (ManifestResolution i)
      | Some a \<Rightarrow> shares_loop items (dset i (ax_item_share_percent a) shares))"

definition exposure_notional :: "allocation_execution \<Rightarrow> portfolio_rules option \<Rightarrow> rat option res" where
  "exposure_notional plan rules = (case rules of
     None \<Rightarrow> ok None
   | Some r \<Rightarrow>
       if pr_exposure_percent_invalid r then rbind (money 0) (\<lambda>c. ok (Some c))
       else (case pr_max_total_exposure_percent r of
           None \<Rightarrow> ok None
         | Some p \<Rightarrow> rbind (money (dquo (dmul (ax_initial_capital plan) p) 100)) (\<lambda>c. ok (Some c))))"

definition shared_clock_capital ::
    "(string \<times> allocation_execution option) list \<Rightarrow> portfolio_rules option
     \<Rightarrow> (prep_failure + shared_capital) res" where
  "shared_clock_capital items rules =
     (case shares_loop items [] of
        Inl f \<Rightarrow> ok (Inl f)
      | Inr shares \<Rightarrow> (case items of
            [] \<Rightarrow> raise IndexError
          | (i, alloc) # rest \<Rightarrow> (case alloc of
                None \<Rightarrow> ok (Inl (ManifestResolution i))
              | Some plan \<Rightarrow> rbind (exposure_notional plan rules) (\<lambda>cap.
                  ok (Inr \<lparr>sc_pool_initial = ax_initial_capital plan, sc_shares = shares,
                    sc_reserve_percent = ax_reserve_percent plan, sc_compound = ax_compound plan,
                    sc_conflict_policy = (case rules of None \<Rightarrow> None | Some r \<Rightarrow> pr_conflict_policy r),
                    sc_max_exposure_notional = cap\<rparr>)))))"

definition pin_ordinals :: "(json \<Rightarrow> string) \<Rightarrow> (string, json) dict list \<Rightarrow> (string, nat) dict" where
  "pin_ordinals shown items =
     fold (\<lambda>(n, d) m. dset (json_str shown (jfield d ''item_id'')) n m)
       (zip [0..<length items] items) []"

text \<open>The capital fields of one item's run configuration (\<open>_build_stepper\<close>).\<close>

definition with_allocation :: "allocation_execution \<Rightarrow> run_config \<Rightarrow> run_config res" where
  "with_allocation a ctx =
     rbind (money (ax_initial_capital a)) (\<lambda>pool.
       let reserve = dquo (dmul pool (ax_reserve_percent a)) 100 in
       ok (ctx\<lparr>rc_alloc_on := True, rc_alloc_compound := ax_compound a, rc_reserve_nominal := reserve,
               rc_allocatable_initial := max 0 (dsub pool reserve),
               rc_item_share := ax_item_share_percent a\<rparr>))"

end
