(* ===== verification/Allocation_Safety.thy ===== *)
theory Allocation_Safety
  imports Allocation
begin

text \<open>
  What the validation of a capital plan decides, and that a plan it lets through funds the run: the
  engine reads the same plan back from the frozen snapshot, every item gets its share, the ledger can be
  built, and each item derives the very sleeve the pool publishes.
\<close>

section \<open>Blockers\<close>

lemma has_blockers_simps [simp]:
  "\<not> has_blockers []"
  "has_blockers (i # is') = (ai_severity i = Blocker \<or> has_blockers is')"
  "has_blockers (xs @ ys) = (has_blockers xs \<or> has_blockers ys)"
  "has_blockers (concat xss) = (\<exists>xs \<in> set xss. has_blockers xs)"
  by (auto simp: has_blockers_def)

lemma blocker_severity [simp]:
  "ai_severity (field_blocker c f) = Blocker" "ai_severity (item_blocker c i) = Blocker"
  by (simp_all add: field_blocker_def item_blocker_def)

text \<open>An entry the loop raises nothing for.\<close>

definition entry_sound :: "(string \<Rightarrow> allocation_item_ref option) \<Rightarrow> allocation_entry \<Rightarrow> bool" where
  "entry_sound refs e = ((\<exists>r. refs (ae_item e) = Some r \<and> ir_available r) \<and> (\<exists>w. ae_share e = Some w \<and> 0 < w))"

lemma entry_issues_blockers [simp]: "has_blockers (entry_issues refs e) = (\<not> entry_sound refs e)"
proof -
  have "k \<in> allocatable_item_kinds" for k by (cases k) (auto simp: allocatable_item_kinds_def)
  then show ?thesis by (auto simp: entry_issues_def entry_sound_def Let_def split: option.splits)
qed

definition share_of_entry :: "allocation_entry \<Rightarrow> rat" where
  "share_of_entry e = (case ae_share e of None \<Rightarrow> 0 | Some w \<Rightarrow> w)"

lemma entry_loop_blockers:
  assumes "entry_loop refs es seen tot = (iss, t)"
  shows "\<not> has_blockers iss \<longleftrightarrow> distinct (map ae_item es) \<and> set (map ae_item es) \<inter> set seen = {}
           \<and> (\<forall>e \<in> set es. entry_sound refs e)"
  using assms
proof (induction refs es seen tot arbitrary: iss t rule: entry_loop.induct)
  case (2 refs e es seen tot)
  show ?case
  proof (cases "ae_item e \<in> set seen")
    case True
    then show ?thesis using 2 by (auto simp: Let_def split: prod.splits)
  next
    case False
    obtain iss' where "entry_loop refs es (ae_item e # seen)
        (case ae_share e of None \<Rightarrow> tot | Some w \<Rightarrow> if w \<le> 0 then tot else dadd tot w) = (iss', t)"
      and "iss = entry_issues refs e @ iss'"
      using 2 False by (auto simp: Let_def split: prod.splits)
    with 2(2) [OF False refl] show ?thesis using False by auto
  qed
qed simp

lemma entry_loop_total:
  assumes "entry_loop refs es seen tot = (iss, t)" "\<not> has_blockers iss"
  shows "t = foldl dadd tot (map share_of_entry es)"
  using assms
proof (induction refs es seen tot arbitrary: iss t rule: entry_loop.induct)
  case (2 refs e es seen tot)
  then show ?case
    by (auto simp: Let_def entry_sound_def share_of_entry_def split: prod.splits if_splits option.splits)
qed simp

definition same_currency :: "allocation_config \<Rightarrow> (string \<Rightarrow> allocation_item_ref option) \<Rightarrow> allocation_entry \<Rightarrow> bool" where
  "same_currency cfg refs e = (\<forall>m r c. ac_initial_capital cfg = Some m \<longrightarrow> refs (ae_item e) = Some r \<longrightarrow>
     ir_settlement_currency r = Some c \<longrightarrow>
     normalize_currency (Some c) \<in> {[], currency_value (mv_currency m)})"

lemma normalize_currency_value [simp]: "normalize_currency (Some (currency_value c)) = currency_value c"
  by (cases c) (simp_all add: normalize_currency_def strip_opt_def strip_def is_space_def upper_def upper_char_def)

lemma currency_value_Nil [simp]: "currency_value c \<noteq> []"
  by (cases c) simp_all

lemma fx_entry_blockers:
  "ac_initial_capital cfg = Some m \<Longrightarrow>
     has_blockers (fx_entry_issues (currency_value (mv_currency m)) refs e) = (\<not> same_currency cfg refs e)"
  by (cases "refs (ae_item e)"; cases "ir_settlement_currency (the (refs (ae_item e)))")
    (auto simp: fx_entry_issues_def same_currency_def Let_def)

lemma fx_blockers [simp]:
  "has_blockers (fx_dependency_issues cfg active refs) \<longleftrightarrow> (\<exists>e \<in> set active. \<not> same_currency cfg refs e)"
  by (cases "ac_initial_capital cfg")
    (auto simp: fx_dependency_issues_def fx_entry_blockers Let_def, auto simp: same_currency_def)

text \<open>The plans without a blocker.\<close>

definition plan_sound :: "allocation_config \<Rightarrow> (string \<Rightarrow> allocation_item_ref option) \<Rightarrow> bool" where
  "plan_sound cfg refs =
     ((\<exists>m. ac_initial_capital cfg = Some m \<and> 0 < mv_amount m) \<and> ac_compounding cfg \<noteq> None \<and>
      reserve_ok cfg \<and> (\<forall>x. ac_max_exposure cfg = Some x \<longrightarrow> 0 < x) \<and>
      active_entries cfg \<noteq> [] \<and> distinct (map ae_item (active_entries cfg)) \<and>
      (\<forall>e \<in> set (active_entries cfg). entry_sound refs e \<and> same_currency cfg refs e) \<and>
      dsum_list (map share_of_entry (active_entries cfg)) \<le> 100)"

lemma pool_blockers:
  "\<not> has_blockers (pool_issues cfg) \<longleftrightarrow>
     (\<exists>m. ac_initial_capital cfg = Some m \<and> 0 < mv_amount m) \<and> ac_compounding cfg \<noteq> None \<and>
     reserve_ok cfg \<and> (\<forall>x. ac_max_exposure cfg = Some x \<longrightarrow> 0 < x) \<and> active_entries cfg \<noteq> []"
  by (auto simp: pool_issues_def capital_ok_def shared_allocation_is_executable_def
      shared_allocation_status_def not_less split: option.splits)

lemma total_blockers [simp]: "has_blockers (total_issues active t) = (t > 100)"
  by (auto simp: total_issues_def split: list.splits)

lemma validate_issues:
  assumes "validate_allocation cfg refs = Inr (issues, d)" "ac_enabled cfg"
  obtains iss t where "entry_loop refs (active_entries cfg) [] 0 = (iss, t)"
    "issues = pool_issues cfg @ iss @ total_issues (active_entries cfg) t
       @ fx_dependency_issues cfg (active_entries cfg) refs"
  using assms by (auto simp: validate_allocation_def Let_def rbind_Inr_iff split: prod.splits option.splits if_splits)

lemma validation_blocks:
  assumes "validate_allocation cfg refs = Inr (issues, d)"
  shows "has_blockers issues \<longleftrightarrow> ac_enabled cfg \<and> \<not> plan_sound cfg refs"
proof (cases "ac_enabled cfg")
  case False
  then show ?thesis using assms by (simp add: validate_allocation_def)
next
  case True
  with assms obtain iss t where l: "entry_loop refs (active_entries cfg) [] 0 = (iss, t)"
    and i: "issues = pool_issues cfg @ iss @ total_issues (active_entries cfg) t
       @ fx_dependency_issues cfg (active_entries cfg) refs" by (rule validate_issues)
  show ?thesis
    using entry_loop_blockers [OF l] entry_loop_total [OF l] True pool_blockers [of cfg]
    by (auto simp: i plan_sound_def dsum_list_def not_less)
qed

text \<open>C8. The validation lets a shared plan through exactly when the pool is positive, the compounding
  mode and a reserve in [0, 100) are set, a set exposure cap is positive, at least one entry is active, no
  item is active twice, every active item is available, holds a positive share and settles in the base
  currency, and the shares add up to at most 100 percent. A plan that is not enabled raises nothing.\<close>

theorem validation_blocks_exactly:
  assumes "validate_allocation cfg refs = Inr (issues, d)"
  shows "has_blockers issues \<longleftrightarrow> ac_enabled cfg \<and> \<not> plan_sound cfg refs"
  by (rule validation_blocks [OF assms])

section \<open>One snapshot, one pool\<close>

lemma resolve_cases:
  assumes "resolve_allocation_execution shown ce i = Some a"
  obtains cfg pool p0 where "enabled_config ce = Some cfg" "jfield cfg ''initial_capital'' = JObj pool"
    "safe_decimal (jfield pool ''amount'') = Some p0" "0 < p0" "ax_initial_capital a = p0"
    "ax_reserve_percent a = max (case safe_decimal (jfield cfg ''reserve_cash_percent'') of None \<Rightarrow> 0 | Some r \<Rightarrow> r) 0"
    "ax_compound a = (jfield cfg ''compounding_mode'' = JStr (compounding_value COMPOUND_PORTFOLIO_EQUITY))"
    "ax_item_share_percent a = active_item_share shown (jfield cfg ''entries'') i"
  using assms
  by (fastforce simp: resolve_allocation_execution_def not_le split: option.splits json.splits if_splits)

lemma resolve_same_pool:
  assumes "resolve_allocation_execution shown ce i = Some a" "resolve_allocation_execution shown ce j = Some b"
  shows "ax_initial_capital a = ax_initial_capital b \<and> ax_reserve_percent a = ax_reserve_percent b
           \<and> ax_compound a = ax_compound b"
  using assms by (auto elim!: resolve_cases)

lemma reserve_nonneg: "resolve_allocation_execution shown ce i = Some a \<Longrightarrow> 0 \<le> ax_reserve_percent a"
  by (auto elim!: resolve_cases)

lemma shares_loop_Inr:
  assumes "shares_loop items shares = Inr out" "distinct (map fst items)" "fst ` set items \<inter> fst ` set shares = {}"
  shows "(\<forall>x \<in> set items. snd x \<noteq> None) \<and>
    out = shares @ map (\<lambda>(i, a). (i, ax_item_share_percent (the a))) items"
  using assms
proof (induction items shares rule: shares_loop.induct)
  case (2 i alloc items shares)
  then show ?case by (cases alloc) (auto simp: dset_fresh)
qed simp

lemma shared_clock_capitalE:
  assumes "shared_clock_capital items rules = Inr (Inr sc)"
  obtains i a rest where "items = (i, Some a) # rest" "shares_loop items [] = Inr (sc_shares sc)"
    "sc_pool_initial sc = ax_initial_capital a" "sc_reserve_percent sc = ax_reserve_percent a"
    "sc_compound sc = ax_compound a"
  using assms
  by (auto simp: shared_clock_capital_def rbind_Inr_iff simp del: shares_loop.simps split: sum.splits list.splits option.splits)

lemma sleeve_amounts_get:
  "dget (sleeve_amounts x shares) i = map_option (\<lambda>w. dquo (dmul x w) 100) (dget shares i)"
  by (induction shares) (auto simp: sleeve_amounts_def)

text \<open>C9. Whatever the snapshot says, an item of a shared run sizes its entries against the sleeve the
  pool publishes for it: the capital the item derives from its own reading of the snapshot and the
  portfolio equity is the capacity of the ledger's plan at that equity, in both compounding modes.\<close>

theorem item_derives_pool_sleeve:
  assumes "shared_clock_capital (map (\<lambda>i. (i, resolve_allocation_execution shown ce i)) ids) rules = Inr (Inr sc)"
    and "ledger_for_items (sc_pool_initial sc) (sc_reserve_percent sc) (sc_shares sc) (sc_compound sc) = Inr l"
    and "distinct ids" "i \<in> set ids"
  shows "\<exists>a ctx'. resolve_allocation_execution shown ce i = Some a \<and> with_allocation a ctx = Inr ctx' \<and>
    dget (plan_sleeve_capacity (lg_plan l) equity) i = Some (sleeve_capital ctx' equity)"
proof (rule shared_clock_capitalE [OF assms(1)])
  fix j b rest
  let ?R = "resolve_allocation_execution shown ce"
  assume items: "map (\<lambda>i. (i, ?R i)) ids = (j, Some b) # rest"
    and loop: "shares_loop (map (\<lambda>i. (i, ?R i)) ids) [] = Inr (sc_shares sc)"
    and sc: "sc_pool_initial sc = ax_initial_capital b" "sc_reserve_percent sc = ax_reserve_percent b"
      "sc_compound sc = ax_compound b"
  have b: "?R j = Some b" using items by auto
  have dist: "distinct (map fst (map (\<lambda>i. (i, ?R i)) ids))" using assms(3) by (simp add: comp_def)
  from shares_loop_Inr [OF loop dist] have some: "\<And>k. k \<in> set ids \<Longrightarrow> ?R k \<noteq> None"
    and shares: "sc_shares sc = map (\<lambda>k. (k, ax_item_share_percent (the (?R k)))) ids" by auto
  from some [OF assms(4)] obtain a where a: "?R i = Some a" by blast
  have eq: "ax_initial_capital a = ax_initial_capital b" "ax_reserve_percent a = ax_reserve_percent b"
    "ax_compound a = ax_compound b" using resolve_same_pool [OF a b] by auto
  have share: "dget (sc_shares sc) i = Some (ax_item_share_percent a)"
    using assms(4) a by (simp add: shares map_of_map_restrict comp_def)
  from assms(2) obtain p0 p where p0: "money (ax_initial_capital b) = Inr p0"
    and p: "sleeve_plan_post_init p0 (dquo (dmul p0 (max (ax_reserve_percent b) 0)) 100) (sc_shares sc) (ax_compound b) = Inr p"
    and l: "l = ledger_init p"
    by (auto simp: ledger_for_items_def build_sleeve_plan_def rbind_Inr_iff sc)
  have m: "max (ax_reserve_percent b) 0 = ax_reserve_percent b" using reserve_nonneg [OF b] by simp
  define ctx' where "ctx' = ctx\<lparr>rc_alloc_on := True, rc_alloc_compound := ax_compound b,
    rc_reserve_nominal := dquo (dmul p0 (ax_reserve_percent b)) 100,
    rc_allocatable_initial := max 0 (dsub p0 (dquo (dmul p0 (ax_reserve_percent b)) 100)),
    rc_item_share := ax_item_share_percent a\<rparr>"
  have w: "with_allocation a ctx = Inr ctx'"
    by (simp add: with_allocation_def eq p0 ctx'_def Let_def)
  have "dget (plan_sleeve_capacity p equity) i = Some (sleeve_capital ctx' equity)"
    using p share
    by (auto simp: m sleeve_plan_post_init_def plan_sleeve_capacity_def sleeve_amounts_get plan_allocatable_def
        sleeve_capital_def ctx'_def Let_def split: if_splits)
  with a w show ?thesis by (auto simp: l ledger_init_def)
qed

section \<open>A validated plan funds the run\<close>

definition plan_numbers :: "allocation_config \<Rightarrow> rat set" where
  "plan_numbers cfg = mv_amount ` set_option (ac_initial_capital cfg) \<union> set_option (ac_reserve cfg)
     \<union> set_option (ac_max_exposure cfg) \<union> (\<Union>e \<in> set (ac_entries cfg). set_option (ae_share e))"

text \<open>The share of an item in the plan: of its active entry, nothing when it has none.\<close>

definition plan_share :: "allocation_config \<Rightarrow> string \<Rightarrow> rat" where
  "plan_share cfg i = (case find (\<lambda>e. ae_item e = i) (active_entries cfg) of
     None \<Rightarrow> 0 | Some e \<Rightarrow> share_of_entry e)"

lemma jfield_Cons [simp]: "jfield ((k, v) # m) k' = (if k = k' then v else jfield m k')"
  by (simp add: jfield_def)

lemma jfield_Nil [simp]: "jfield [] k = JNull"
  by (simp add: jfield_def)

lemma json_opt_simps [simp]: "json_opt f None = JNull" "json_opt f (Some x) = f x"
  by (simp_all add: json_opt_def)

lemma safe_decimal_simps [simp]:
  "safe_decimal JNull = None" "safe_decimal (JStr t) = parse_decimal t" "safe_decimal (JNum q) = Some q"
  by (simp_all add: safe_decimal_def)

lemma json_str_simps [simp]: "json_str shown (JStr t) = t"
  by (simp add: json_str_def)

lemma json_truthy_bool [simp]: "json_truthy (JBool b) = b"
  by (simp add: json_truthy_def)

lemma share_loop_canonical:
  assumes "\<forall>e \<in> set es. ae_active e \<longrightarrow> (\<exists>w. ae_share e = Some w \<and> 0 < w \<and> parse_decimal (dec w) = Some w)"
  shows "active_share_loop shown i (map (canonical_entry dec) es) =
    (case find (\<lambda>e. ae_item e = i) (filter ae_active es) of None \<Rightarrow> 0 | Some e \<Rightarrow> share_of_entry e)"
  using assms
proof (induction es)
  case (Cons e es)
  show ?case
  proof (cases "ae_active e \<and> ae_item e = i")
    case True
    with Cons.prems obtain w where "ae_share e = Some w" "0 < w" "parse_decimal (dec w) = Some w" by auto
    with True show ?thesis by (simp add: canonical_entry_def share_of_entry_def)
  next
    case False
    then show ?thesis using Cons by (auto simp: canonical_entry_def)
  qed
qed simp

lemma enabled_config_canonical:
  "ac_enabled cfg \<Longrightarrow> \<exists>m. canonical_config dec cfg = JObj m \<and>
     enabled_config (capital_mode dec docs cfg) = Some m"
  by (simp add: capital_mode_def canonical_config_def enabled_config_def)

lemma compounding_value_inj [simp]: "(compounding_value c = compounding_value c') = (c = c')"
  by (cases c; cases c') simp_all

lemma resolve_canonical:
  assumes "ac_enabled cfg" "ac_initial_capital cfg = Some m" "0 < mv_amount m" "0 \<le> reserve_of cfg"
    and "\<forall>e \<in> set (active_entries cfg). entry_sound refs e"
    and "\<forall>x \<in> plan_numbers cfg. parse_decimal (dec x) = Some x"
  shows "resolve_allocation_execution shown (capital_mode dec docs cfg) i = Some
    \<lparr>ax_initial_capital = mv_amount m, ax_reserve_percent = reserve_of cfg,
     ax_compound = (ac_compounding cfg = Some COMPOUND_PORTFOLIO_EQUITY),
     ax_item_share_percent = plan_share cfg i, ax_currency = Some (currency_value (mv_currency m))\<rparr>"
proof -
  have r: "(case safe_decimal (json_opt (JStr \<circ> dec) (ac_reserve cfg)) of None \<Rightarrow> 0 | Some r \<Rightarrow> r) = reserve_of cfg"
    using assms(6) by (auto simp: reserve_of_def plan_numbers_def split: option.splits)
  have s: "active_share_loop shown i (map (canonical_entry dec) (ac_entries cfg)) = plan_share cfg i"
    unfolding plan_share_def active_entries_def
  proof (rule share_loop_canonical, intro ballI impI)
    fix e assume e: "e \<in> set (ac_entries cfg)" "ae_active e"
    then have "entry_sound refs e" using assms(5) by (simp add: active_entries_def)
    then obtain w where w: "ae_share e = Some w" "0 < w" by (auto simp: entry_sound_def)
    with e have "w \<in> plan_numbers cfg" by (auto simp: plan_numbers_def)
    with assms(6) w show "\<exists>w. ae_share e = Some w \<and> 0 < w \<and> parse_decimal (dec w) = Some w" by blast
  qed
  have m: "parse_decimal (dec (mv_amount m)) = Some (mv_amount m)"
    using assms(2,6) by (simp add: plan_numbers_def)
  have c: "(json_opt (JStr \<circ> compounding_value) (ac_compounding cfg)
      = JStr (compounding_value COMPOUND_PORTFOLIO_EQUITY)) = (ac_compounding cfg = Some COMPOUND_PORTFOLIO_EQUITY)"
    by (cases "ac_compounding cfg") (simp_all del: compounding_value.simps)
  show ?thesis
    using assms(1-4) m r s c
    by (simp add: resolve_allocation_execution_def capital_mode_def canonical_config_def enabled_config_def
        active_item_share_def del: compounding_value.simps)
qed

subsection \<open>Sums of shares\<close>

definition share_grid :: "rat \<Rightarrow> bool" where
  "share_grid x = (0 \<le> x \<and> on_grid 12 x)"

lemma dadd_exact_below:
  assumes "share_grid a" "share_grid x" "a + x \<le> 100"
  shows "dadd a x = a + x"
  using assms unfolding dadd_def share_grid_def by (intro dfix_grid) auto

lemma representable_dadd [simp]: "representable (dadd a x)"
  by (simp add: dadd_def)

lemma dadd_grows: "representable a \<Longrightarrow> 0 \<le> x \<Longrightarrow> a \<le> dadd a x"
  using dfix_mono [of a "a + x"] by (simp add: dadd_def)

lemma foldl_dadd_grows:
  "representable a \<Longrightarrow> \<forall>x \<in> set xs. 0 \<le> x \<Longrightarrow> a \<le> foldl dadd a xs"
proof (induction xs arbitrary: a)
  case (Cons x xs)
  have "a \<le> dadd a x" using Cons.prems by (intro dadd_grows) auto
  also have "\<dots> \<le> foldl dadd (dadd a x) xs" using Cons.prems by (intro Cons.IH) simp_all
  finally show ?case by simp
qed simp

lemma dadd_above:
  assumes "share_grid a" "share_grid x" "100 < a + x"
  shows "100 < dadd a x"
proof -
  let ?b = "100 + 1 / 10 ^ 12 :: rat"
  have "on_grid 12 100" by (rule on_gridI [of _ _ "100 * 10 ^ 12"]) simp
  then have "?b \<le> a + x" using assms by (intro on_grid_step) (auto simp: share_grid_def)
  moreover have "dfix ?b = ?b" by (intro dfix_exact representableI [of _ "100 * 10 ^ 12 + 1" "- 12"]) (simp_all add: power_int_minus)
  ultimately show ?thesis using dfix_mono [of ?b "a + x"] by (simp add: dadd_def)
qed

lemma shares_sum_exact:
  "share_grid a \<Longrightarrow> \<forall>x \<in> set xs. share_grid x \<Longrightarrow> a + sum_list xs \<le> 100 \<Longrightarrow> foldl dadd a xs = a + sum_list xs"
proof (induction xs arbitrary: a)
  case (Cons x xs)
  have "0 \<le> sum_list xs" using Cons.prems(2) by (intro sum_list_nonneg) (auto simp: share_grid_def)
  with Cons.prems have "dadd a x = a + x" by (intro dadd_exact_below) auto
  moreover have "share_grid (a + x)" using Cons.prems by (auto simp: share_grid_def)
  ultimately show ?case using Cons by (simp add: ac_simps)
qed simp

lemma foldl_dadd_bound:
  "share_grid a \<Longrightarrow> a \<le> 100 \<Longrightarrow> \<forall>x \<in> set xs. share_grid x \<Longrightarrow> foldl dadd a xs \<le> 100 \<Longrightarrow> a + sum_list xs \<le> 100"
proof (induction xs arbitrary: a)
  case (Cons x xs)
  show ?case
  proof (cases "a + x \<le> 100")
    case True
    with Cons.prems have "dadd a x = a + x" by (intro dadd_exact_below) auto
    moreover have "share_grid (a + x)" using Cons.prems by (auto simp: share_grid_def)
    ultimately show ?thesis using Cons.IH [of "a + x"] Cons.prems True by (simp add: ac_simps)
  next
    case False
    then have "100 < dadd a x" using Cons.prems by (intro dadd_above) auto
    moreover have "dadd a x \<le> foldl dadd (dadd a x) xs"
      using Cons.prems by (intro foldl_dadd_grows) (auto simp: share_grid_def)
    ultimately show ?thesis using Cons.prems by simp
  qed
qed simp

lemma plan_share_grid:
  assumes "plan_sound cfg refs" "\<forall>e \<in> set (active_entries cfg). on_grid 12 (share_of_entry e)"
  shows "\<forall>e \<in> set (active_entries cfg). share_grid (share_of_entry e)" "share_grid (plan_share cfg i)"
proof -
  show *: "\<forall>e \<in> set (active_entries cfg). share_grid (share_of_entry e)"
    using assms by (auto simp: plan_sound_def entry_sound_def share_grid_def share_of_entry_def)
  show "share_grid (plan_share cfg i)"
    using * by (auto simp: plan_share_def share_grid_def find_Some_iff split: option.splits)
qed

text \<open>Whichever items run, their shares add up to at most the shares of the plan.\<close>

lemma plan_shares_below:
  assumes "plan_sound cfg refs" "\<forall>e \<in> set (active_entries cfg). on_grid 12 (share_of_entry e)" "distinct ids"
  shows "sum_list (map (plan_share cfg) ids) \<le> 100"
proof -
  let ?A = "active_entries cfg"
  have d: "distinct (map ae_item ?A)" and s: "dsum_list (map share_of_entry ?A) \<le> 100"
    using assms(1) by (auto simp: plan_sound_def)
  note g = plan_share_grid [OF assms(1,2)]
  have at: "plan_share cfg (ae_item e) = share_of_entry e" if "e \<in> set ?A" for e
  proof -
    from that obtain f where f: "find (\<lambda>f. ae_item f = ae_item e) ?A = Some f"
      by (cases "find (\<lambda>f. ae_item f = ae_item e) ?A") (auto simp: find_None_iff)
    then have "f \<in> set ?A" "ae_item f = ae_item e" by (auto simp: find_Some_iff)
    with d that have "f = e" by (auto simp: distinct_map inj_on_def)
    with f show ?thesis by (simp add: plan_share_def)
  qed
  have none: "plan_share cfg i = 0" if "i \<notin> ae_item ` set ?A" for i
    using that by (auto simp: plan_share_def find_None_iff find_Some_iff split: option.splits)
  have "sum_list (map (plan_share cfg) ids) = sum (plan_share cfg) (set ids)"
    using assms(3) by (simp add: sum_list_distinct_conv_sum_set)
  also have "\<dots> = sum (plan_share cfg) (set ids \<inter> ae_item ` set ?A)"
    by (rule sum.mono_neutral_right) (auto simp: none)
  also have "\<dots> \<le> sum (plan_share cfg) (ae_item ` set ?A)"
    by (rule sum_mono2) (use g(2) in \<open>auto simp: share_grid_def\<close>)
  also have "\<dots> = sum_list (map (plan_share cfg) (map ae_item ?A))"
    using d by (simp only: sum_list_distinct_conv_sum_set set_map)
  also have "\<dots> = sum_list (map share_of_entry ?A)" using at by (simp add: comp_def cong: map_cong)
  also have "\<dots> \<le> 100"
    using foldl_dadd_bound [of 0 "map share_of_entry ?A"] s g(1) by (auto simp: dsum_list_def share_grid_def)
  finally show ?thesis .
qed

lemma plan_shares_dsum:
  assumes "plan_sound cfg refs" "\<forall>e \<in> set (active_entries cfg). on_grid 12 (share_of_entry e)" "distinct ids"
  shows "dsum_list (map (plan_share cfg) ids) = sum_list (map (plan_share cfg) ids)"
  using shares_sum_exact [of 0 "map (plan_share cfg) ids"] plan_shares_below [OF assms] plan_share_grid [OF assms(1,2)]
  by (auto simp: dsum_list_def share_grid_def)

lemma money_small: "0 \<le> x \<Longrightarrow> x \<le> 10 ^ 20 \<Longrightarrow> money x = Inr (qround 2 x)"
proof -
  assume x: "0 \<le> x" "x \<le> 10 ^ 20"
  have "qround 2 x \<le> qround 2 (10 ^ 20)" using x(2) by (rule qround_mono)
  moreover have "0 \<le> qround 2 x" using qround_mono [OF x(1), of 2] by (simp add: qround_def)
  moreover have "on_grid 2 (10 ^ 20)" by (rule on_gridI [of _ _ "10 ^ 22"]) simp
  ultimately have "\<bar>qround 2 x\<bar> \<le> 10 ^ 20" by simp
  then show ?thesis by (simp add: money_def quantize_Inr_iff)
qed

lemma money_pos: "1 / 100 \<le> x \<Longrightarrow> 0 < qround 2 x"
  using qround_mono [of "1 / 100" x 2] qround_exact [of 2 "1 / 100"] on_gridI [of "1 / 100" 2 1] by simp

lemma cap_small:
  assumes "0 < p0" "p0 \<le> 10 ^ 15" "0 < x" "x \<le> 10 ^ 5"
  shows "is_ok (money (dquo (dmul p0 x) 100))"
proof -
  have "p0 * x \<le> 10 ^ 15 * 10 ^ 5" using assms by (intro mult_mono) auto
  then have "dmul p0 x \<le> 10 ^ 20" "0 \<le> dmul p0 x"
    using dfix_mono [of "p0 * x" "10 ^ 20"] dfix_exact [of "10 ^ 20"] representableI [of "10 ^ 20" "10 ^ 20" 0] assms
    by (simp_all add: dmul_def)
  then have "dquo (dmul p0 x) 100 \<le> 10 ^ 18" "0 \<le> dquo (dmul p0 x) 100"
    using dfix_mono [of "dmul p0 x / 100" "10 ^ 18"] dfix_exact [of "10 ^ 18"] representableI [of "10 ^ 18" "10 ^ 18" 0]
    by (simp_all add: dquo_def)
  then show ?thesis using money_small by (simp add: is_ok_def)
qed

definition plan_execution :: "allocation_config \<Rightarrow> money_v1 \<Rightarrow> string \<Rightarrow> allocation_execution" where
  "plan_execution cfg m i = \<lparr>ax_initial_capital = mv_amount m, ax_reserve_percent = reserve_of cfg,
     ax_compound = (ac_compounding cfg = Some COMPOUND_PORTFOLIO_EQUITY),
     ax_item_share_percent = plan_share cfg i, ax_currency = Some (currency_value (mv_currency m))\<rparr>"

lemma plan_shares_loop:
  "distinct ids \<Longrightarrow> set ids \<inter> fst ` set sh = {} \<Longrightarrow>
     shares_loop (map (\<lambda>i. (i, Some (plan_execution cfg m i))) ids) sh
       = Inr (sh @ map (\<lambda>i. (i, plan_share cfg i)) ids)"
  by (induction ids arbitrary: sh) (auto simp: plan_execution_def dset_fresh)

lemma plan_exposure:
  assumes "ac_enabled cfg" "\<forall>x \<in> plan_numbers cfg. parse_decimal (dec x) = Some x" "plan_sound cfg refs"
    and "\<forall>x. ac_max_exposure cfg = Some x \<longrightarrow> x \<le> 10 ^ 5" "0 < mv_amount m" "mv_amount m \<le> 10 ^ 15"
  shows "\<exists>cap. exposure_notional (plan_execution cfg m i) (resolve_portfolio_rules shown (capital_mode dec docs cfg))
      = Inr cap \<and> (ac_max_exposure cfg \<noteq> None \<longrightarrow> cap \<noteq> None)"
proof (cases "ac_max_exposure cfg")
  case None
  then show ?thesis
    by (auto simp: resolve_portfolio_rules_def capital_mode_def canonical_config_def enabled_config_def assms(1)
        exposure_setting_def exposure_notional_def Let_def)
next
  case (Some x)
  then have x: "0 < x" "x \<le> 10 ^ 5" "parse_decimal (dec x) = Some x"
    using assms(2-4) by (auto simp: plan_sound_def plan_numbers_def)
  from cap_small [OF assms(5,6) x(1,2)] show ?thesis using Some x
    by (auto simp: resolve_portfolio_rules_def capital_mode_def canonical_config_def enabled_config_def assms(1)
        exposure_setting_def exposure_notional_def Let_def plan_execution_def is_ok_iff)
qed

lemma plan_ledger:
  assumes "plan_sound cfg refs" "\<forall>e \<in> set (active_entries cfg). on_grid 12 (share_of_entry e)" "distinct ids"
    and "1 / 100 \<le> x" "x \<le> 10 ^ 15"
  shows "\<exists>l. ledger_for_items x (reserve_of cfg) (map (\<lambda>i. (i, plan_share cfg i)) ids) c = Inr l \<and>
    lg_equity l = qround 2 x"
proof -
  have "0 \<le> reserve_of cfg" using assms(1) by (simp add: plan_sound_def reserve_ok_def)
  moreover have "\<not> (\<exists>p \<in> set (map (\<lambda>i. (i, plan_share cfg i)) ids). snd p < 0)"
    using plan_share_grid(2) [OF assms(1,2)] by (auto simp: share_grid_def not_less)
  moreover have "dsum_list (map (plan_share cfg) ids) \<le> 100"
    using plan_shares_dsum [OF assms(1-3)] plan_shares_below [OF assms(1-3)] by simp
  moreover have "money x = Inr (qround 2 x)" "0 < qround 2 x"
    using money_small [of x] money_pos [of x] assms(4,5) by simp_all
  ultimately show ?thesis
    by (auto simp: ledger_for_items_def build_sleeve_plan_def sleeve_plan_post_init_def ledger_init_def
        Let_def comp_def dquo_def dmul_def not_less)
qed

text \<open>C7. A shared plan the validation lets through funds its run: read back from the frozen snapshot,
  every item that takes part gets the share of its active entry (nothing without one), the shares add up
  to at most 100 percent, and the ledger opens with the whole pool. Asked of the plan: shares of at most
  12 decimal places, a pool between one cent and 10^15, an exposure cap of at most 10^5 percent.\<close>

theorem validated_plan_funds_run:
  assumes "validate_allocation cfg refs = Inr (issues, d)" "\<not> has_blockers issues" "ac_enabled cfg"
    and "\<forall>x \<in> plan_numbers cfg. parse_decimal (dec x) = Some x"
    and "\<forall>e \<in> set (active_entries cfg). on_grid 12 (share_of_entry e)"
    and "ac_initial_capital cfg = Some m" "1 / 100 \<le> mv_amount m" "mv_amount m \<le> 10 ^ 15"
    and "\<forall>x. ac_max_exposure cfg = Some x \<longrightarrow> x \<le> 10 ^ 5"
    and "ids \<noteq> []" "distinct ids"
  shows "\<exists>sc l. shared_clock_capital
      (map (\<lambda>i. (i, resolve_allocation_execution shown (capital_mode dec docs cfg) i)) ids)
      (resolve_portfolio_rules shown (capital_mode dec docs cfg)) = Inr (Inr sc) \<and>
    sc_shares sc = map (\<lambda>i. (i, plan_share cfg i)) ids \<and> sum_list (map (plan_share cfg) ids) \<le> 100 \<and>
    ledger_for_items (sc_pool_initial sc) (sc_reserve_percent sc) (sc_shares sc) (sc_compound sc) = Inr l \<and>
    lg_equity l = qround 2 (mv_amount m) \<and> (ac_max_exposure cfg \<noteq> None \<longrightarrow> sc_max_exposure_notional sc \<noteq> None)"
proof -
  let ?ce = "capital_mode dec docs cfg"
  let ?rules = "resolve_portfolio_rules shown ?ce" and ?ex = "plan_execution cfg m"
  have sound: "plan_sound cfg refs" using validation_blocks [OF assms(1)] assms(2,3) by simp
  then have es: "\<forall>e \<in> set (active_entries cfg). entry_sound refs e" and r: "0 \<le> reserve_of cfg"
    by (auto simp: plan_sound_def reserve_ok_def)
  have pos: "0 < mv_amount m" using assms(7) by simp
  have res: "resolve_allocation_execution shown ?ce i = Some (?ex i)" for i
    unfolding plan_execution_def by (rule resolve_canonical [OF assms(3,6) pos r es assms(4)])
  obtain cap where cap: "exposure_notional (?ex (hd ids)) ?rules = Inr cap"
    "ac_max_exposure cfg \<noteq> None \<longrightarrow> cap \<noteq> None"
    using plan_exposure [OF assms(3,4) sound assms(9) pos assms(8)] by blast
  define sc where "sc = \<lparr>sc_pool_initial = mv_amount m, sc_shares = map (\<lambda>i. (i, plan_share cfg i)) ids,
      sc_reserve_percent = reserve_of cfg, sc_compound = (ac_compounding cfg = Some COMPOUND_PORTFOLIO_EQUITY),
      sc_conflict_policy = (case ?rules of None \<Rightarrow> None | Some r \<Rightarrow> pr_conflict_policy r),
      sc_max_exposure_notional = cap\<rparr>"
  have "shared_clock_capital (map (\<lambda>i. (i, Some (?ex i))) ids) ?rules = Inr (Inr sc)"
    using plan_shares_loop [OF assms(11), of "[]" cfg m] cap(1) assms(10)
    by (cases ids) (simp_all add: shared_clock_capital_def sc_def plan_execution_def del: shares_loop.simps)
  with plan_ledger [OF sound assms(5,11,7,8)] plan_shares_below [OF sound assms(5,11)] cap(2)
  show ?thesis by (auto simp: res sc_def)
qed

section \<open>A concrete plan\<close>

definition demo_plan :: "rat \<Rightarrow> allocation_config" where
  "demo_plan amount = \<lparr>ac_enabled = True, ac_initial_capital = Some \<lparr>mv_amount = amount, mv_currency = USDT\<rparr>,
     ac_compounding = Some COMPOUND_PORTFOLIO_EQUITY, ac_reserve = Some 10, ac_max_exposure = Some 50,
     ac_policy = Some BLOCK_OPPOSITE,
     ac_entries = [\<lparr>ae_item = ''a'', ae_type = Some STRATEGY, ae_active = True, ae_share = Some 60\<rparr>,
       \<lparr>ae_item = ''b'', ae_type = Some STRATEGY, ae_active = True, ae_share = Some 40\<rparr>]\<rparr>"

definition demo_refs :: "string \<Rightarrow> allocation_item_ref option" where
  "demo_refs i = (if i = ''a'' \<or> i = ''b'' then
     Some \<lparr>ir_kind = STRATEGY, ir_available = True, ir_settlement_currency = Some ''usdt''\<rparr> else None)"

definition demo_text :: "rat \<Rightarrow> string" where
  "demo_text x = (if x = 10 then ''10'' else if x = 50 then ''50'' else if x = 60 then ''60.00''
     else if x = 40 then ''4e1'' else ''10000'')"

lemma demo_numbers: "\<forall>x \<in> plan_numbers (demo_plan 10000). parse_decimal (demo_text x) = Some x"
proof -
  have "parse_decimal ''10'' = Some 10" "parse_decimal ''50'' = Some 50" "parse_decimal ''60.00'' = Some 60"
    "parse_decimal ''4e1'' = Some 40" "parse_decimal ''10000'' = Some 10000" by code_simp+
  then show ?thesis by (auto simp: plan_numbers_def demo_plan_def demo_text_def)
qed

lemma demo_plan_active: "active_entries (demo_plan x) =
    [\<lparr>ae_item = ''a'', ae_type = Some STRATEGY, ae_active = True, ae_share = Some 60\<rparr>,
     \<lparr>ae_item = ''b'', ae_type = Some STRATEGY, ae_active = True, ae_share = Some 40\<rparr>]"
  by (simp add: active_entries_def demo_plan_def)

lemma demo_currency: "normalize_currency (Some ''usdt'') = ''USDT''"
  by code_simp

lemma demo_sound: "0 < x \<Longrightarrow> plan_sound (demo_plan x) demo_refs"
  unfolding plan_sound_def demo_plan_active
  by (auto simp: reserve_ok_def reserve_of_def entry_sound_def same_currency_def
      demo_refs_def demo_plan_def demo_currency dsum_list_def share_of_entry_def dec_eval)

lemma demo_derived:
  "is_ok (derive \<lparr>mv_amount = 10000, mv_currency = USDT\<rparr> 10 (active_entries (demo_plan 10000)))"
  "is_ok (derive \<lparr>mv_amount = 1 / 250, mv_currency = USDT\<rparr> 10 (active_entries (demo_plan (1 / 250))))"
  by (simp_all add: derive_def demo_plan_active money_half_up_def dec_eval is_ok_def cong: let_weak_cong)

lemma demo_validated:
  assumes "x = 10000 \<or> x = 1 / 250"
  shows "\<exists>issues d. validate_allocation (demo_plan x) demo_refs = Inr (issues, d) \<and> \<not> has_blockers issues"
proof -
  have pos: "0 < x" using assms by auto
  have e: "ac_enabled (demo_plan x)" "ac_initial_capital (demo_plan x) = Some \<lparr>mv_amount = x, mv_currency = USDT\<rparr>"
    "reserve_of (demo_plan x) = 10"
    by (simp_all add: demo_plan_def reserve_of_def)
  have "is_ok (derive \<lparr>mv_amount = x, mv_currency = USDT\<rparr> 10 (active_entries (demo_plan x)))"
    using assms by (elim disjE) (simp_all only: demo_derived)
  then obtain d where "derive \<lparr>mv_amount = x, mv_currency = USDT\<rparr> (reserve_of (demo_plan x)) (active_entries (demo_plan x)) = Inr d"
    by (auto simp: is_ok_iff e)
  moreover have "capital_ok (demo_plan x)" "reserve_ok (demo_plan x)"
    using pos by (simp_all add: capital_ok_def reserve_ok_def e)
  ultimately obtain issues d' where v: "validate_allocation (demo_plan x) demo_refs = Inr (issues, d')"
    by (cases "entry_loop demo_refs (active_entries (demo_plan x)) [] 0") (auto simp: validate_allocation_def e Let_def)
  with validation_blocks [OF v] demo_sound [OF pos] show ?thesis by auto
qed

theorem validation_blocks_exactly_witness:
  "\<exists>issues d. validate_allocation (demo_plan 10000) demo_refs = Inr (issues, d) \<and>
     (has_blockers issues \<longleftrightarrow> ac_enabled (demo_plan 10000) \<and> \<not> plan_sound (demo_plan 10000) demo_refs)"
  using demo_validated [of 10000] validation_blocks_exactly by blast

theorem validated_plan_funds_run_witness:
  "\<exists>sc l. shared_clock_capital
      (map (\<lambda>i. (i, resolve_allocation_execution (\<lambda>_. []) (capital_mode demo_text [] (demo_plan 10000)) i)) [''b'', ''a''])
      (resolve_portfolio_rules (\<lambda>_. []) (capital_mode demo_text [] (demo_plan 10000))) = Inr (Inr sc) \<and>
    sc_shares sc = [(''b'', 40), (''a'', 60)] \<and>
    ledger_for_items (sc_pool_initial sc) (sc_reserve_percent sc) (sc_shares sc) (sc_compound sc) = Inr l \<and>
    lg_equity l = 10000"
proof -
  obtain issues d where v: "validate_allocation (demo_plan 10000) demo_refs = Inr (issues, d)" "\<not> has_blockers issues"
    using demo_validated [of 10000] by auto
  have g: "\<forall>e \<in> set (active_entries (demo_plan 10000)). on_grid 12 (share_of_entry e)"
    unfolding demo_plan_active by (auto simp: share_of_entry_def intro!: on_gridI [of 60 _ "60 * 10 ^ 12"] on_gridI [of 40 _ "40 * 10 ^ 12"])
  have s: "plan_share (demo_plan 10000) ''b'' = 40" "plan_share (demo_plan 10000) ''a'' = 60"
    by (simp_all add: plan_share_def demo_plan_active share_of_entry_def)
  have "on_grid 2 10000" by (rule on_gridI [of _ _ 1000000]) simp
  then show ?thesis
    using validated_plan_funds_run [OF v _ demo_numbers g, of "\<lparr>mv_amount = 10000, mv_currency = USDT\<rparr>" "[''b'', ''a'']" "\<lambda>_. []" "[]"] s
    by (auto simp: demo_plan_def)
qed

text \<open>A pool of less than half a cent passes the validation, although no ledger can be opened on it:
  the check asks for a positive amount, the ledger for a positive amount of whole cents.\<close>

theorem subcent_pool_cannot_open:
  "\<exists>issues d. validate_allocation (demo_plan (1 / 250)) demo_refs = Inr (issues, d) \<and> \<not> has_blockers issues \<and>
     ledger_for_items (1 / 250) r shares c = Inl InvalidCapitalPlanError"
proof -
  have "money (1 / 250) = Inr 0" by (simp add: money_def dec_eval)
  then have "ledger_for_items (1 / 250) r shares c = Inl InvalidCapitalPlanError"
    by (simp add: ledger_for_items_def build_sleeve_plan_def sleeve_plan_post_init_def)
  with demo_validated [of "1 / 250"] show ?thesis by auto
qed

lemma demo_capital:
  "shared_clock_capital (map (\<lambda>i. (i, resolve_allocation_execution (\<lambda>_. []) (capital_mode demo_text [] (demo_plan 10000)) i)) [''a''])
     None = Inr (Inr \<lparr>sc_pool_initial = 10000, sc_shares = [(''a'', 60)], sc_reserve_percent = 10, sc_compound = True,
       sc_conflict_policy = None, sc_max_exposure_notional = None\<rparr>)"
  by code_simp

theorem item_derives_pool_sleeve_witness:
  "\<exists>a ctx' l. resolve_allocation_execution (\<lambda>_. []) (capital_mode demo_text [] (demo_plan 10000)) ''a'' = Some a \<and>
     with_allocation a demo_run_config = Inr ctx' \<and>
     ledger_for_items 10000 10 [(''a'', 60)] True = Inr l \<and>
     dget (plan_sleeve_capacity (lg_plan l) 9000) ''a'' = Some (sleeve_capital ctx' 9000)"
proof -
  have "is_ok (ledger_for_items 10000 10 [(''a'', 60)] True)"
    by (simp add: ledger_for_items_def build_sleeve_plan_def sleeve_plan_post_init_def sleeve_amounts_def money_def
        dec_eval dsum_list_def is_ok_def cong: let_weak_cong)
  then obtain l where l: "ledger_for_items 10000 10 [(''a'', 60)] True = Inr l" by (auto simp: is_ok_iff)
  with item_derives_pool_sleeve [OF demo_capital, of l "''a''" demo_run_config 9000] show ?thesis by auto
qed

end
