(* ===== verification/Capability.thy ===== *)
theory Capability
  imports Py_Json Lifecycles Identity Idempotency Run_State
begin

text \<open>
  Capabilities (\<^verbatim>\<open>domain/capability\<close>, \<^verbatim>\<open>application/commands/capability.py\<close>): the lifecycle from a
  placeholder to an active capability, the activation gates that a dependency snapshot must show, and
  the one command that moves a capability, with its version check, its key and its event log. The
  digest of a snapshot is not kept apart from the snapshot; the outbox row repeats the event.
\<close>

section \<open>States and gates\<close>

datatype capability_state = CapPlaceholder | CapDesigned | CapInternal | CapShadow | CapLimited
  | CapActive | CapRetired

datatype activation_gate = GateDomain | GateData | GatePolicy | GateUi | GateBackend
  | GateVerification | GateRollback

definition capability_value :: "capability_state \<Rightarrow> string" where
  "capability_value s = (case s of
     CapPlaceholder \<Rightarrow> ''placeholder'' | CapDesigned \<Rightarrow> ''designed'' | CapInternal \<Rightarrow> ''internal''
   | CapShadow \<Rightarrow> ''shadow'' | CapLimited \<Rightarrow> ''limited'' | CapActive \<Rightarrow> ''active''
   | CapRetired \<Rightarrow> ''retired'')"

definition all_capability_states :: "capability_state list" where
  "all_capability_states =
     [CapPlaceholder, CapDesigned, CapInternal, CapShadow, CapLimited, CapActive, CapRetired]"

definition gate_value :: "activation_gate \<Rightarrow> string" where
  "gate_value g = (case g of
     GateDomain \<Rightarrow> ''domain'' | GateData \<Rightarrow> ''data'' | GatePolicy \<Rightarrow> ''policy'' | GateUi \<Rightarrow> ''ui''
   | GateBackend \<Rightarrow> ''backend'' | GateVerification \<Rightarrow> ''verification'' | GateRollback \<Rightarrow> ''rollback'')"

definition activation_gates :: "activation_gate list" where
  "activation_gates =
     [GateDomain, GateData, GatePolicy, GateUi, GateBackend, GateVerification, GateRollback]"

definition operational_states :: "capability_state set" where
  "operational_states = {CapLimited, CapActive}"

definition capability_transitions :: "capability_state \<Rightarrow> capability_state set" where
  "capability_transitions s = (case s of
     CapPlaceholder \<Rightarrow> {CapDesigned}
   | CapDesigned \<Rightarrow> {CapInternal}
   | CapInternal \<Rightarrow> {CapShadow}
   | CapShadow \<Rightarrow> {CapLimited}
   | CapLimited \<Rightarrow> {CapActive, CapShadow, CapRetired}
   | CapActive \<Rightarrow> {CapLimited, CapRetired}
   | CapRetired \<Rightarrow> {})"

definition snapshot_required_targets :: "capability_state set" where
  "snapshot_required_targets = {CapDesigned, CapInternal, CapShadow, CapLimited, CapActive}"

definition required_complete_gates :: "capability_state \<Rightarrow> activation_gate list" where
  "required_complete_gates s = (case s of
     CapLimited \<Rightarrow> filter (\<lambda>g. g \<noteq> GateUi) activation_gates
   | CapActive \<Rightarrow> activation_gates
   | _ \<Rightarrow> [])"

definition parse_capability_state :: "string \<Rightarrow> capability_state res" where
  "parse_capability_state raw =
     (case find (\<lambda>s. capability_value s = raw) all_capability_states of
        None \<Rightarrow> raise CapabilityTransitionRejectedError
      | Some s \<Rightarrow> ok s)"

definition ensure_transition_legal :: "capability_state \<Rightarrow> capability_state \<Rightarrow> unit res" where
  "ensure_transition_legal from_state to_state =
     (if to_state \<notin> capability_transitions from_state then raise CapabilityTransitionRejectedError
      else ok ())"

definition gate_complete :: "json \<Rightarrow> bool" where
  "gate_complete entry = (case entry of
     JBool b \<Rightarrow> b
   | JObj m \<Rightarrow> dget m ''complete'' = Some (JBool True)
   | _ \<Rightarrow> False)"

datatype gate_issue = GateMissing | GateIncomplete

definition snapshot_gates :: "json \<Rightarrow> (string, json) dict" where
  "snapshot_gates snapshot = (case snapshot of
     JObj m \<Rightarrow> (case dget m ''gates'' of Some (JObj gates) \<Rightarrow> gates | _ \<Rightarrow> [])
   | _ \<Rightarrow> [])"

definition gate_issue_of ::
    "(string, json) dict \<Rightarrow> activation_gate list \<Rightarrow> activation_gate \<Rightarrow> (activation_gate \<times> gate_issue) list" where
  "gate_issue_of gates must g =
     (case dget gates (gate_value g) of
        None \<Rightarrow> [(g, GateMissing)]
      | Some entry \<Rightarrow>
          if entry = JNull then [(g, GateMissing)]
          else if g \<in> set must \<and> \<not> gate_complete entry then [(g, GateIncomplete)] else [])"

definition gate_issues :: "json \<Rightarrow> capability_state \<Rightarrow> (activation_gate \<times> gate_issue) list" where
  "gate_issues snapshot to_state =
     (if to_state \<notin> snapshot_required_targets then []
      else concat (map (gate_issue_of (snapshot_gates snapshot) (required_complete_gates to_state))
        activation_gates))"

definition ensure_gates_pass :: "json \<Rightarrow> capability_state \<Rightarrow> unit res" where
  "ensure_gates_pass snapshot to_state =
     (if gate_issues snapshot to_state \<noteq> [] then raise CapabilityDependencyMissingError else ok ())"

definition ensure_operational :: "capability_state \<Rightarrow> unit res" where
  "ensure_operational s = (if s \<notin> operational_states then raise CapabilityNotActiveError else ok ())"

section \<open>The registry and its command\<close>

record capability_row =
  cp_lifecycle_state :: capability_state
  cp_dependency_snapshot :: "json option"
  cp_registry_version :: int
  cp_changed_by :: "string option"
  cp_change_reason :: "string option"
  cp_enabled_at :: "int option"
  cp_retirement_at :: "int option"

record activation_event =
  ev_capability :: string
  ev_from :: capability_state
  ev_to :: capability_state
  ev_actor :: "string option"
  ev_reason :: string
  ev_snapshot :: json
  ev_prior_version :: int
  ev_resulting_version :: int

type_synonym transition_request = "string \<times> string \<times> string \<times> int \<times> json option"

record capability_registry =
  cr_capabilities :: "(string, capability_row) dict"
  cr_events :: "activation_event list"
  cr_keys :: "(transition_request, capability_row) key_table"

definition put_capability_keys ::
    "(transition_request, capability_row) key_table \<Rightarrow> capability_registry \<Rightarrow> capability_registry" where
  "put_capability_keys d s = s\<lparr>cr_keys := d\<rparr>"

text \<open>\<open>" ".join(text.split())\<close>: words separated by runs of white space.\<close>

fun split_words :: "string \<Rightarrow> string \<Rightarrow> string list" where
  "split_words word [] = (if word = [] then [] else [word])"
| "split_words word (c # cs) =
     (if is_space c then (if word = [] then [] else [word]) @ split_words [] cs
      else split_words (word @ [c]) cs)"

fun join_words :: "string list \<Rightarrow> string" where
  "join_words [] = []"
| "join_words [w] = w"
| "join_words (w # ws) = w @ '' '' @ join_words ws"

definition squeeze :: "string \<Rightarrow> string" where
  "squeeze t = join_words (split_words [] t)"

definition max_reason_length :: nat where
  "max_reason_length = 512"

definition stored_snapshot :: "capability_row \<Rightarrow> json" where
  "stored_snapshot cap = (case cp_dependency_snapshot cap of
     None \<Rightarrow> JObj [] | Some j \<Rightarrow> if json_truthy j then j else JObj [])"

definition require_capability :: "string \<Rightarrow> capability_registry \<Rightarrow> capability_row res" where
  "require_capability key s =
     (case dget (cr_capabilities s) key of None \<Rightarrow> raise CapabilityNotFoundError | Some cap \<Rightarrow> ok cap)"

definition require_operational_capability :: "string \<Rightarrow> capability_registry \<Rightarrow> capability_row res" where
  "require_operational_capability key s =
     rbind (require_capability key s) (\<lambda>cap.
     rbind (ensure_operational (cp_lifecycle_state cap)) (\<lambda>_. ok cap))"

definition moved_row ::
    "actor \<Rightarrow> int \<Rightarrow> capability_state \<Rightarrow> string \<Rightarrow> json \<Rightarrow> capability_row \<Rightarrow> capability_row" where
  "moved_row a now target reason snapshot cap =
     cap\<lparr>cp_lifecycle_state := target, cp_dependency_snapshot := Some snapshot,
       cp_registry_version := cp_registry_version cap + 1,
       cp_changed_by := ac_principal_id a, cp_change_reason := Some reason,
       cp_enabled_at := (if target \<in> {CapLimited, CapActive}
         then (case cp_enabled_at cap of None \<Rightarrow> Some now | Some t \<Rightarrow> Some t)
         else cp_enabled_at cap),
       cp_retirement_at := (if target = CapRetired then Some now else cp_retirement_at cap)\<rparr>"

definition moved_event ::
    "actor \<Rightarrow> string \<Rightarrow> capability_state \<Rightarrow> string \<Rightarrow> json \<Rightarrow> int \<Rightarrow> capability_row \<Rightarrow> activation_event" where
  "moved_event a key target reason snapshot expected cap =
     \<lparr>ev_capability = key, ev_from = cp_lifecycle_state cap, ev_to = target,
      ev_actor = ac_principal_id a, ev_reason = reason, ev_snapshot = snapshot,
      ev_prior_version = expected, ev_resulting_version = cp_registry_version cap + 1\<rparr>"

definition transition_operation ::
    "actor \<Rightarrow> int \<Rightarrow> string \<Rightarrow> capability_state \<Rightarrow> string \<Rightarrow> int \<Rightarrow> json option
      \<Rightarrow> (capability_registry, capability_row) command" where
  "transition_operation a now key target reason expected dependency s =
     rbind (require_capability key s) (\<lambda>cap.
     if expected \<noteq> cp_registry_version cap then raise CapabilityStateStaleError
     else
       rbind (ensure_transition_legal (cp_lifecycle_state cap) target) (\<lambda>_.
       let snapshot = (case dependency of Some j \<Rightarrow> j | None \<Rightarrow> stored_snapshot cap) in
       rbind (ensure_gates_pass snapshot target) (\<lambda>_.
       let cap' = moved_row a now target reason snapshot cap;
           event = moved_event a key target reason snapshot expected cap in
       ok (cap', s\<lparr>cr_capabilities := dset key cap' (cr_capabilities s),
         cr_events := cr_events s @ [event]\<rparr>))))"

definition transition_capability ::
    "actor \<Rightarrow> int \<Rightarrow> string \<Rightarrow> string \<Rightarrow> string option \<Rightarrow> int \<Rightarrow> json option \<Rightarrow> string option
      \<Rightarrow> (capability_registry, capability_row) command" where
  "transition_capability a now key to_state reason expected dependency idem s =
     rbind (require_capability_admin a) (\<lambda>_.
     rbind (parse_capability_state to_state) (\<lambda>target.
     let final_reason = squeeze (case reason of None \<Rightarrow> [] | Some t \<Rightarrow> t) in
     if final_reason = [] then raise CapabilityTransitionRejectedError
     else if length final_reason > max_reason_length then raise ValidationError
     else if strip_opt idem = [] then raise ValidationError
     else
       run_idempotent cr_keys put_capability_keys idem (ac_principal_id a)
         (key, to_state, final_reason, expected, dependency)
         (transition_operation a now key target final_reason expected dependency) s))"

interpretation capability_keys: key_store cr_keys put_capability_keys
  by unfold_locales (simp add: put_capability_keys_def)

text \<open>The transition check as a guarded move, so that the lifecycle lemmas apply to it.\<close>

definition move_capability :: "capability_state \<Rightarrow> capability_state \<Rightarrow> capability_state res" where
  "move_capability from_state to_state =
     rbind (ensure_transition_legal from_state to_state) (\<lambda>_. ok to_state)"

interpretation capability: lifecycle move_capability capability_transitions
  by unfold_locales (auto simp: move_capability_def ensure_transition_legal_def)

section \<open>What the log of a capability proves\<close>

definition events_of :: "string \<Rightarrow> capability_registry \<Rightarrow> activation_event list" where
  "events_of key s = filter (\<lambda>e. ev_capability e = key) (cr_events s)"

definition evidenced :: "activation_event \<Rightarrow> bool" where
  "evidenced e \<longleftrightarrow> gate_issues (ev_snapshot e) (ev_to e) = []"

text \<open>
  The log explains the registry: the moves of a capability's events lead from the placeholder to its
  state, each with the evidence its target requires, and its version counts them.
\<close>

definition log_explains :: "capability_registry \<Rightarrow> bool" where
  "log_explains s \<longleftrightarrow> (\<forall>key cap. dget (cr_capabilities s) key = Some cap \<longrightarrow>
     run_moves move_capability CapPlaceholder (map ev_to (events_of key s)) = Inr (cp_lifecycle_state cap) \<and>
     list_all evidenced (events_of key s) \<and>
     cp_registry_version cap = 1 + int (length (events_of key s)))"

lemma log_explains_keys: "log_explains (put_capability_keys d s) = log_explains s"
  by (simp add: log_explains_def put_capability_keys_def events_of_def)

lemma transition_operation_explained:
  assumes "log_explains s" and "transition_operation a now key target reason expected dependency s = Inr (r, s')"
  shows "log_explains s'"
proof -
  obtain cap snapshot where cap: "dget (cr_capabilities s) key = Some cap"
    and legal: "target \<in> capability_transitions (cp_lifecycle_state cap)"
    and gates: "gate_issues snapshot target = []"
    and s'': "s' = s\<lparr>cr_capabilities := dset key (moved_row a now target reason snapshot cap) (cr_capabilities s),
      cr_events := cr_events s @ [moved_event a key target reason snapshot expected cap]\<rparr>"
    using assms(2) by (auto simp: transition_operation_def rbind_Inr_iff require_capability_def
      ensure_transition_legal_def ensure_gates_pass_def Let_def split: option.splits if_splits)
  define event where "event = moved_event a key target reason snapshot expected cap"
  define cap' where "cap' = moved_row a now target reason snapshot cap"
  have s': "cr_capabilities s' = dset key cap' (cr_capabilities s)" "cr_events s' = cr_events s @ [event]"
    and event: "ev_capability event = key" "ev_to event = target" "ev_snapshot event = snapshot"
    and cap': "cp_lifecycle_state cap' = target" "cp_registry_version cap' = cp_registry_version cap + 1"
    by (simp_all add: s'' event_def cap'_def moved_event_def moved_row_def)
  have other: "events_of k s' = (if k = key then events_of key s @ [event] else events_of k s)" for k
    using s' event by (auto simp: events_of_def)
  show ?thesis
    unfolding log_explains_def
  proof (intro allI impI)
    fix k c assume "dget (cr_capabilities s') k = Some c"
    with s' have c: "if k = key then c = cap' else dget (cr_capabilities s) k = Some c"
      by (auto split: if_splits)
    show "run_moves move_capability CapPlaceholder (map ev_to (events_of k s')) = Inr (cp_lifecycle_state c) \<and>
      list_all evidenced (events_of k s') \<and> cp_registry_version c = 1 + int (length (events_of k s'))"
    proof (cases "k = key")
      case True
      have "run_moves move_capability CapPlaceholder (map ev_to (events_of key s)) = Inr (cp_lifecycle_state cap)"
          "list_all evidenced (events_of key s)" "cp_registry_version cap = 1 + int (length (events_of key s))"
        using assms(1) cap unfolding log_explains_def by blast+
      moreover have "move_capability (cp_lifecycle_state cap) target = Inr target"
        using capability.accepts [OF legal] .
      ultimately show ?thesis using True c cap' gates event
        by (simp add: other capability.run_append evidenced_def)
    next
      case False
      with c assms(1) show ?thesis by (simp add: other log_explains_def)
    qed
  qed
qed


lemma transition_explained:
  assumes "log_explains s"
    and "transition_capability a now key to_state reason expected dependency idem s = Inr (r, s')"
  shows "log_explains s'"
proof -
  obtain target final where "run_idempotent cr_keys put_capability_keys idem (ac_principal_id a)
      (key, to_state, final, expected, dependency)
      (transition_operation a now key target final expected dependency) s = Inr (r, s')"
    using assms(2) by (auto simp: transition_capability_def rbind_Inr_iff Let_def split: if_splits)
  note run = this
  have "s' = s \<or> log_explains s'"
    by (rule capability_keys.run_preserves [where P = log_explains, OF log_explains_keys log_explains_keys _ run assms(1)])
      (rule transition_operation_explained)
  then show ?thesis using assms(1) by auto
qed

type_synonym transition_call =
  "actor \<times> int \<times> string \<times> string \<times> string option \<times> int \<times> json option \<times> string option"

fun exec_transition :: "transition_call \<Rightarrow> capability_registry \<Rightarrow> capability_registry" where
  "exec_transition (a, now, key, to_state, reason, expected, dependency, idem) s =
     committed (transition_capability a now key to_state reason expected dependency idem) s"

lemma exec_transition_explained: "log_explains s \<Longrightarrow> log_explains (exec_transition call s)"
proof -
  assume s: "log_explains s"
  obtain a now key to_state reason expected dependency idem where
      call: "call = (a, now, key, to_state, reason, expected, dependency, idem)" by (cases call) auto
  show ?thesis
    by (cases rule: committed_cases [of "transition_capability a now key to_state reason expected dependency idem" s])
      (use s in \<open>auto simp: call dest: transition_explained\<close>)
qed

lemma calls_explained: "log_explains s \<Longrightarrow> log_explains (fold exec_transition calls s)"
  by (induction calls arbitrary: s) (auto intro: exec_transition_explained)

definition gate_shown :: "json \<Rightarrow> activation_gate \<Rightarrow> bool" where
  "gate_shown snapshot g = (case dget (snapshot_gates snapshot) (gate_value g) of
     None \<Rightarrow> False | Some entry \<Rightarrow> gate_complete entry)"

lemma active_gates: "gate_issues snapshot CapActive = [] \<Longrightarrow> list_all (gate_shown snapshot) activation_gates"
  by (auto simp: gate_issues_def snapshot_required_targets_def required_complete_gates_def list_all_iff
    gate_issue_of_def gate_shown_def split: option.splits if_splits)

lemma active_from: "CapActive \<in> capability_transitions c \<Longrightarrow> c = CapLimited"
  by (auto simp: capability_transitions_def split: capability_state.splits)

text \<open>C24. A capability that is active after any sequence of transition commands, by whatever actors,
  has a log of events that led it from the placeholder through every stage before, and the last of
  them pins a snapshot in which all seven activation gates are complete; its version counts the
  events.
\<close>

theorem active_capability_passed_every_gate:
  assumes "log_explains s0"
    and "dget (cr_capabilities (fold exec_transition calls s0)) key = Some cap"
    and "cp_lifecycle_state cap = CapActive"
  shows "\<exists>us e. events_of key (fold exec_transition calls s0) = us @ [e] \<and> ev_to e = CapActive \<and>
    list_all (gate_shown (ev_snapshot e)) activation_gates \<and>
    {CapDesigned, CapInternal, CapShadow, CapLimited} \<subseteq> ev_to ` set us \<and>
    cp_registry_version cap = 2 + int (length us)"
proof -
  let ?es = "events_of key (fold exec_transition calls s0)"
  have run: "run_moves move_capability CapPlaceholder (map ev_to ?es) = Inr CapActive"
    and ev: "list_all evidenced ?es" and version: "cp_registry_version cap = 1 + int (length ?es)"
    using calls_explained [OF assms(1), of calls] assms(2,3) unfolding log_explains_def by fastforce+
  have "map ev_to ?es \<noteq> []" using run by auto
  then obtain us e where es: "?es = us @ [e]" by (metis list.map_disc_iff rev_exhaust)
  have last: "ev_to e = CapActive" using capability.run_last [OF run] es by simp
  have stage: "g \<in> set (map ev_to ?es)"
    if "\<forall>x\<in>before. capability_transitions x \<subseteq> {g} \<union> before" "g \<notin> before" "CapPlaceholder \<in> before"
      "CapActive \<notin> before" for g before
    using capability.gated [of before "{g}", OF that(1) _ run] that(2-4) by auto
  have "{CapDesigned, CapInternal, CapShadow, CapLimited} \<subseteq> set (map ev_to ?es)"
    using stage [of "{CapPlaceholder}" CapDesigned] stage [of "{CapPlaceholder, CapDesigned}" CapInternal]
      stage [of "{CapPlaceholder, CapDesigned, CapInternal}" CapShadow]
      stage [of "{CapPlaceholder, CapDesigned, CapInternal, CapShadow}" CapLimited]
    by (simp add: capability_transitions_def)
  then have "{CapDesigned, CapInternal, CapShadow, CapLimited} \<subseteq> ev_to ` set us"
    using es last by auto
  moreover have "list_all (gate_shown (ev_snapshot e)) activation_gates"
    using ev es last active_gates by (simp add: evidenced_def)
  ultimately show ?thesis using es last version by auto
qed

text \<open>A lifecycle state printed is the state parsed, and nothing else parses: what the command
  accepts as a target is exactly the seven values of the enum.
\<close>

theorem capability_state_roundtrip:
  "parse_capability_state (capability_value st) = ok st \<and>
     (parse_capability_state raw = ok st \<longleftrightarrow> raw = capability_value st) \<and>
     (is_ok (parse_capability_state raw) \<longleftrightarrow> raw \<in> set (map capability_value all_capability_states))"
proof -
  have print: "parse_capability_state (capability_value st) = ok st" for st
    by (cases st) (simp_all add: parse_capability_state_def all_capability_states_def capability_value_def)
  have "raw = capability_value st" if "parse_capability_state raw = ok st"
    using that by (auto simp: parse_capability_state_def find_Some_iff split: option.splits)
  then have "parse_capability_state raw = ok st \<longleftrightarrow> raw = capability_value st"
    using print [of st] by blast
  moreover have "is_ok (parse_capability_state raw) \<longleftrightarrow> raw \<in> set (map capability_value all_capability_states)"
    by (auto simp: parse_capability_state_def find_None_iff find_Some_iff is_ok_iff image_iff
      split: option.splits)
  ultimately show ?thesis using print by simp
qed

section \<open>Witness\<close>

definition capability_admin :: actor where
  "capability_admin = \<lparr>ac_principal_id = Some ''ann'', ac_principal_type = HumanPrincipal,
     ac_role = Some AdminRole, ac_request_id = [], ac_correlation_id = []\<rparr>"

definition full_snapshot :: json where
  "full_snapshot = JObj [(''gates'', JObj (map (\<lambda>g. (gate_value g, JBool True)) activation_gates))]"

definition demo_capabilities :: capability_registry where
  "demo_capabilities = \<lparr>cr_capabilities = [(''live_trade'', \<lparr>cp_lifecycle_state = CapPlaceholder,
     cp_dependency_snapshot = None, cp_registry_version = 1, cp_changed_by = None,
     cp_change_reason = None, cp_enabled_at = None, cp_retirement_at = None\<rparr>)],
     cr_events = [], cr_keys = []\<rparr>"

definition demo_call :: "string \<Rightarrow> int \<Rightarrow> string \<Rightarrow> transition_call" where
  "demo_call to_state version idem = (capability_admin, version, ''live_trade'', to_state,
     Some ''go'', version, Some full_snapshot, Some idem)"

definition demo_calls :: "transition_call list" where
  "demo_calls = [demo_call ''designed'' 1 ''a'', demo_call ''active'' 2 ''b'',
     demo_call ''internal'' 2 ''c'', demo_call ''shadow'' 3 ''d'', demo_call ''limited'' 4 ''e'',
     demo_call ''active'' 5 ''f'']"

lemma demo_explained: "log_explains demo_capabilities"
  by (auto simp: log_explains_def demo_capabilities_def events_of_def)

lemma demo_active: "map_option cp_lifecycle_state
    (dget (cr_capabilities (fold exec_transition demo_calls demo_capabilities)) ''live_trade'') = Some CapActive"
  by code_simp

theorem active_capability_passed_every_gate_witness:
  "\<exists>us e. events_of ''live_trade'' (fold exec_transition demo_calls demo_capabilities) = us @ [e] \<and>
    list_all (gate_shown (ev_snapshot e)) activation_gates"
proof -
  obtain cap where "dget (cr_capabilities (fold exec_transition demo_calls demo_capabilities)) ''live_trade'' = Some cap"
      "cp_lifecycle_state cap = CapActive"
    using demo_active by auto
  from active_capability_passed_every_gate [OF demo_explained this] show ?thesis by blast
qed

end
