(* ===== verification/Dependency_Graph.thy ===== *)
theory Dependency_Graph
  imports Run_State Py_Json
begin

text \<open>
  The package dependency guard: the claims of a dependency snapshot
  (\<^verbatim>\<open>domain/package/dependency_graph.py\<close>), the projection of the pinned revisions onto package
  roots (\<^verbatim>\<open>application/queries/package_dependency.py\<close>), the search for a cycle and the guard
  that both publish commands call. The two tables the queries read are a parameter of the model,
  \<open>store\<close>: \<^verbatim>\<open>session.get\<close> is the lookup of a row by its primary key.

  Both loops are modelled with the state the code keeps. The breadth-first projection returns for
  every store because a revision is expanded at most once; the depth-first search is a
  \<open>partial_function\<close>, and that it returns, without a pop from an empty list, is a theorem.
\<close>

section \<open>Claims of a snapshot\<close>

datatype ref_origin = TopLevel | InCollection string nat

record package_ref =
  rf_root_id :: "string option"
  rf_revision_id :: "string option"
  rf_origin :: ref_origin

definition ref_collection_keys :: "string list" where
  "ref_collection_keys = [''packages'', ''package_refs'', ''package_dependencies'', ''resolved'']"

definition root_id_keys :: "string list" where
  "root_id_keys = [''package_root_id'', ''target_root_id'', ''linked_indicator_package_root_id'']"

definition revision_id_keys :: "string list" where
  "revision_id_keys =
     [''package_revision_id'', ''target_revision_id'', ''linked_indicator_package_revision_id'']"

fun first_identifier :: "(string, json) dict \<Rightarrow> string list \<Rightarrow> string option" where
  "first_identifier m [] = None"
| "first_identifier m (key # keys) =
     (case dget m key of
        Some (JStr v) \<Rightarrow> if strip v \<noteq> [] then Some v else first_identifier m keys
      | _ \<Rightarrow> first_identifier m keys)"

definition append_ref ::
    "package_ref list \<Rightarrow> (string, json) dict \<Rightarrow> ref_origin \<Rightarrow> package_ref list" where
  "append_ref refs m origin =
     (let root_id = first_identifier m root_id_keys; revision = first_identifier m revision_id_keys in
      if root_id = None \<and> revision = None then refs
      else refs @ [\<lparr>rf_root_id = root_id, rf_revision_id = revision, rf_origin = origin\<rparr>])"

fun collection_refs ::
    "string \<Rightarrow> nat \<Rightarrow> json list \<Rightarrow> package_ref list \<Rightarrow> package_ref list" where
  "collection_refs key i [] refs = refs"
| "collection_refs key i (JObj m # es) refs =
     collection_refs key (Suc i) es (append_ref refs m (InCollection key i))"
| "collection_refs key i (e # es) refs = collection_refs key (Suc i) es refs"

fun collections_refs ::
    "(string, json) dict \<Rightarrow> string list \<Rightarrow> package_ref list \<Rightarrow> package_ref list" where
  "collections_refs m [] refs = refs"
| "collections_refs m (key # keys) refs =
     collections_refs m keys
       (case dget m key of Some (JArr es) \<Rightarrow> collection_refs key 0 es refs | _ \<Rightarrow> refs)"

definition extract_package_refs :: "json \<Rightarrow> package_ref list" where
  "extract_package_refs snapshot =
     (case snapshot of
        JObj m \<Rightarrow> collections_refs m ref_collection_keys (append_ref [] m TopLevel)
      | _ \<Rightarrow> [])"

section \<open>The tables\<close>

record package_revision =
  rv_revision_id :: string
  rv_entity_id :: string
  rv_snapshot :: json

record registry_root =
  rg_entity_id :: string
  rg_entity_type :: string
  rg_current_revision_id :: "string option"

record package_store =
  st_revisions :: "(string, package_revision) dict"
  st_registry :: "(string, registry_root) dict"

definition get_revision :: "package_store \<Rightarrow> string \<Rightarrow> package_revision option" where
  "get_revision db rid = dget (st_revisions db) rid"

definition get_package_root :: "package_store \<Rightarrow> string \<Rightarrow> registry_root option" where
  "get_package_root db eid =
     (case dget (st_registry db) eid of
        None \<Rightarrow> None
      | Some row \<Rightarrow> if rg_entity_type row \<noteq> ''package'' then None else Some row)"

definition resolve_root_claim ::
    "package_store \<Rightarrow> package_ref \<Rightarrow> string option \<times> string option" where
  "resolve_root_claim db r =
     (case rf_root_id r of
        None \<Rightarrow> (None, None)
      | Some eid \<Rightarrow>
          (case get_package_root db eid of
             None \<Rightarrow> (Some eid, None)
           | Some row \<Rightarrow> (Some (rg_entity_id row), rg_current_revision_id row)))"

definition resolve_ref :: "package_store \<Rightarrow> package_ref \<Rightarrow> string option \<times> string option" where
  "resolve_ref db r =
     (case rf_revision_id r of
        None \<Rightarrow> resolve_root_claim db r
      | Some rid \<Rightarrow>
          (case get_revision db rid of
             Some revision \<Rightarrow> (Some (rv_entity_id revision), Some (rv_revision_id revision))
           | None \<Rightarrow> resolve_root_claim db r))"

section \<open>The projection onto roots\<close>

type_synonym root_edges = "(string, string list) dict"

definition collect_ref ::
    "package_store \<Rightarrow> string \<Rightarrow> package_ref \<Rightarrow> root_edges \<times> string list
      \<Rightarrow> root_edges \<times> string list" where
  "collect_ref db source r acc =
     (let (edges, frontier) = acc; (target_root, target_revision) = resolve_ref db r in
      case target_root of
        None \<Rightarrow> (edges, frontier)
      | Some t \<Rightarrow>
          (let targets = (case dget edges source of None \<Rightarrow> [] | Some ts \<Rightarrow> ts) in
           (dset source (if t \<in> set targets then targets else targets @ [t]) edges,
            (case target_revision of None \<Rightarrow> frontier | Some rid \<Rightarrow> frontier @ [rid]))))"

definition collect_refs ::
    "package_store \<Rightarrow> package_revision \<Rightarrow> root_edges \<times> string list
      \<Rightarrow> root_edges \<times> string list" where
  "collect_refs db revision acc =
     fold (collect_ref db (rv_entity_id revision))
       (extract_package_refs (rv_snapshot revision)) acc"

function collect_loop ::
    "package_store \<Rightarrow> string set \<Rightarrow> root_edges \<Rightarrow> string list \<Rightarrow> root_edges" where
  "collect_loop db expanded edges [] = edges"
| "collect_loop db expanded edges (rid # frontier) =
     (if rid \<in> expanded then collect_loop db expanded edges frontier
      else case get_revision db rid of
          None \<Rightarrow> collect_loop db (insert rid expanded) edges frontier
        | Some revision \<Rightarrow>
            (let (edges', frontier') = collect_refs db revision (edges, frontier) in
             collect_loop db (insert rid expanded) edges' frontier'))"
  by pat_completeness auto

definition known_ids :: "package_store \<Rightarrow> string set" where
  "known_ids db = fst ` set (st_revisions db)"

lemma known_ids_iff: "rid \<in> known_ids db \<longleftrightarrow> (\<exists>r. get_revision db rid = Some r)"
  unfolding known_ids_def get_revision_def by (rule dget_key)

lemma finite_known_ids [simp, intro]: "finite (known_ids db)"
  by (simp add: known_ids_def)

lemma expand_shrinks:
  "rid \<notin> expanded \<Longrightarrow> rid \<in> known_ids db \<Longrightarrow>
     card (known_ids db - insert rid expanded) < card (known_ids db - expanded)"
  by (rule psubset_card_mono) auto

lemma expand_mono: "card (known_ids db - insert rid expanded) \<le> card (known_ids db - expanded)"
  by (rule card_mono) auto

termination collect_loop
proof (relation "measures [\<lambda>(db, expanded, edges, frontier). card (known_ids db - expanded),
    \<lambda>(db, expanded, edges, frontier). length frontier]", goal_cases)
  case (3 db expanded edges rid frontier)
  then show ?case using expand_mono [of db rid expanded] by (auto simp: le_less)
next
  case (4 db expanded edges rid frontier)
  then have "rid \<in> known_ids db" by (auto simp: known_ids_iff)
  with 4 show ?case using expand_shrinks [of rid expanded db] by (simp del: card_Diff_insert)
qed auto

definition collect_root_edges :: "package_store \<Rightarrow> string \<Rightarrow> root_edges" where
  "collect_root_edges db revision_id = collect_loop db {} [] [revision_id]"

section \<open>The search for a cycle\<close>

record 'v dfs =
  df_on_path :: "'v set"
  df_path :: "'v list"
  df_finished :: "'v set"
  df_stack :: "('v \<times> nat) list"

definition edge_targets :: "('v, 'v list) dict \<Rightarrow> 'v \<Rightarrow> 'v list" where
  "edge_targets edges v = (case dget edges v of None \<Rightarrow> [] | Some ts \<Rightarrow> ts)"

definition pop_last :: "'a list \<Rightarrow> ('a \<times> 'a list) res" where
  "pop_last xs = (if xs = [] then raise IndexError else ok (last xs, butlast xs))"

fun index_from :: "'a \<Rightarrow> 'a list \<Rightarrow> nat \<Rightarrow> nat res" where
  "index_from x [] i = raise ValueError"
| "index_from x (y # ys) i = (if x = y then ok i else index_from x ys (Suc i))"

text \<open>One turn of the loop: the search stops with an answer, or goes on from a new state.\<close>

datatype 'v turn = Answer "'v list" | Continue "'v dfs"

definition dfs_turn :: "('v, 'v list) dict \<Rightarrow> 'v dfs \<Rightarrow> 'v turn res" where
  "dfs_turn edges s =
     (let (node, index) = last (df_stack s); targets = edge_targets edges node in
      if length targets \<le> index then
        rbind (pop_last (df_path s)) (\<lambda>(v, path').
          ok (Continue (s\<lparr>df_stack := butlast (df_stack s), df_finished := insert node (df_finished s),
            df_path := path', df_on_path := df_on_path s - {v}\<rparr>)))
      else
        (let s' = s\<lparr>df_stack := butlast (df_stack s) @ [(node, Suc index)]\<rparr>; target = targets ! index in
         if target \<in> df_on_path s' then
           rbind (index_from target (df_path s') 0) (\<lambda>i.
             ok (Answer (drop i (df_path s') @ [target])))
         else if target \<in> df_finished s' then ok (Continue s')
         else ok (Continue (s'\<lparr>df_path := df_path s' @ [target],
           df_on_path := insert target (df_on_path s'), df_stack := df_stack s' @ [(target, 0)]\<rparr>))))"

partial_function (option) dfs_loop ::
    "('v, 'v list) dict \<Rightarrow> 'v dfs \<Rightarrow> 'v list option res option" where
  "dfs_loop edges s =
     (if df_stack s = [] then Some (ok None)
      else case dfs_turn edges s of
          Inl e \<Rightarrow> Some (raise e)
        | Inr (Answer p) \<Rightarrow> Some (ok (Some p))
        | Inr (Continue s') \<Rightarrow> dfs_loop edges s')"

declare dfs_loop.simps [code]

definition dfs_start :: "'v \<Rightarrow> 'v dfs" where
  "dfs_start start =
     \<lparr>df_on_path = {start}, df_path = [start], df_finished = {}, df_stack = [(start, 0)]\<rparr>"

definition find_dependency_cycle ::
    "'v \<Rightarrow> ('v, 'v list) dict \<Rightarrow> 'v list option res option" where
  "find_dependency_cycle start edges = dfs_loop edges (dfs_start start)"

text \<open>The guard of a publish: \<open>None\<close> would be a guard that does not return.\<close>

definition ensure_no_dependency_cycle ::
    "package_store \<Rightarrow> string \<Rightarrow> string \<Rightarrow> unit res option" where
  "ensure_no_dependency_cycle db root_id revision_id =
     (case find_dependency_cycle root_id (collect_root_edges db revision_id) of
        None \<Rightarrow> None
      | Some r \<Rightarrow> Some (rbind r (\<lambda>cycle.
          case cycle of None \<Rightarrow> ok () | Some p \<Rightarrow> raise (PackageDependencyCycle p))))"

end
