(* ===== verification/Dependency_Cycles.thy ===== *)
theory Dependency_Cycles
  imports Dependency_Graph
begin

text \<open>
  Correctness of the dependency guard of \<open>Dependency_Graph\<close>: the depth-first search returns for
  every graph and finds a cycle exactly when one can be reached, the projection of the pinned
  revisions has exactly the edges the store declares, and a publish passes exactly when the
  projected graph has no cycle.
\<close>

section \<open>The graph of an edge table\<close>

definition edge_rel :: "('v, 'v list) dict \<Rightarrow> ('v \<times> 'v) set" where
  "edge_rel edges = {(a, b). b \<in> set (edge_targets edges a)}"

lemma edge_rel_iff: "(a, b) \<in> edge_rel edges \<longleftrightarrow> b \<in> set (edge_targets edges a)"
  by (simp add: edge_rel_def)

text \<open>A closed walk as the diagnostic of the code reports it: first and last node agree.\<close>

definition is_cycle :: "('v, 'v list) dict \<Rightarrow> 'v list \<Rightarrow> bool" where
  "is_cycle edges p \<longleftrightarrow> 2 \<le> length p \<and> hd p = last p \<and> distinct (butlast p) \<and>
     successively (\<lambda>a b. b \<in> set (edge_targets edges a)) p"

lemma walk_trancl:
  assumes "successively (\<lambda>a b. b \<in> set (edge_targets edges a)) (a # p)" and "p \<noteq> []"
  shows "(a, last p) \<in> (edge_rel edges)\<^sup>+"
  using assms
proof (induction p arbitrary: a)
  case (Cons b p)
  then have ab: "(a, b) \<in> edge_rel edges" by (simp add: edge_rel_iff)
  show ?case
  proof (cases p)
    case Nil
    with ab show ?thesis by auto
  next
    case (Cons c q)
    with Cons.IH [of b] Cons.prems have "(b, last p) \<in> (edge_rel edges)\<^sup>+" by simp
    with ab Cons show ?thesis by (auto intro: trancl_into_trancl2)
  qed
qed simp

lemma walk_rtrancl:
  "successively (\<lambda>a b. b \<in> set (edge_targets edges a)) (a # p) \<Longrightarrow>
     (a, last (a # p)) \<in> (edge_rel edges)\<^sup>*"
  using walk_trancl [of edges a p] by (cases "p = []") auto

lemma cycle_closes: "is_cycle edges p \<Longrightarrow> (hd p, hd p) \<in> (edge_rel edges)\<^sup>+"
  unfolding is_cycle_def using walk_trancl [of edges "hd p" "tl p"] by (cases p) (auto split: if_splits)

text \<open>A set of nodes whose targets stay inside it is left by no walk.\<close>

lemma closed_walk:
  assumes "\<And>v. v \<in> X \<Longrightarrow> set (edge_targets edges v) \<subseteq> X"
    and "(a, b) \<in> (edge_rel edges)\<^sup>*" and "a \<in> X"
  shows "b \<in> X"
  using assms(2, 3) by (induction rule: rtrancl_induct) (use assms(1) in \<open>auto simp: edge_rel_iff\<close>)

section \<open>The invariant of the search\<close>

text \<open>
  \<open>explored edges F st nxt\<close>: the targets a node of the stack has already handed out are finished,
  but for the one that the node above it on the stack came from.
\<close>

fun explored ::
    "('v, 'v list) dict \<Rightarrow> 'v set \<Rightarrow> ('v \<times> nat) list \<Rightarrow> 'v option \<Rightarrow> bool" where
  "explored edges F [] nxt = True"
| "explored edges F ((v, i) # st) nxt =
     ((\<forall>j<i. edge_targets edges v ! j \<in> F \<or>
        (case st of [] \<Rightarrow> nxt | (w, k) # _ \<Rightarrow> Some w) = Some (edge_targets edges v ! j)) \<and>
      i \<le> length (edge_targets edges v) \<and> explored edges F st nxt)"

lemma explored_snoc:
  "explored edges F (st @ [(v, i)]) nxt \<longleftrightarrow>
     explored edges F st (Some v) \<and> i \<le> length (edge_targets edges v) \<and>
     (\<forall>j<i. edge_targets edges v ! j \<in> F \<or> nxt = Some (edge_targets edges v ! j))"
proof (induction st)
  case (Cons p st)
  then show ?case by (cases p; cases st) auto
qed auto

lemma explored_done: "explored edges F st (Some v) \<Longrightarrow> explored edges (insert v F) st None"
proof (induction st)
  case (Cons p st)
  obtain u i where p: "p = (u, i)" by (cases p)
  show ?case
  proof (cases st)
    case Nil
    with Cons p show ?thesis by auto
  next
    case (Cons q st')
    obtain w k where "q = (w, k)" by (cases q)
    with Cons.IH Cons.prems p Cons show ?thesis by auto
  qed
qed simp

definition graph_nodes :: "'v \<Rightarrow> ('v, 'v list) dict \<Rightarrow> 'v set" where
  "graph_nodes start edges = insert start (\<Union> (set ` snd ` set edges))"

lemma finite_graph_nodes [simp, intro]: "finite (graph_nodes start edges)"
  by (auto simp: graph_nodes_def)

lemma target_node: "t \<in> set (edge_targets edges v) \<Longrightarrow> t \<in> graph_nodes start edges"
  unfolding edge_targets_def graph_nodes_def
  by (cases "dget edges v") (fastforce dest: dget_in)+

definition dfs_inv :: "('v, 'v list) dict \<Rightarrow> 'v \<Rightarrow> 'v dfs \<Rightarrow> bool" where
  "dfs_inv edges start s \<longleftrightarrow>
     map fst (df_stack s) = df_path s \<and> distinct (df_path s) \<and> set (df_path s) = df_on_path s \<and>
     df_on_path s \<inter> df_finished s = {} \<and>
     df_on_path s \<union> df_finished s \<subseteq> graph_nodes start edges \<and>
     (if df_path s = [] then start \<in> df_finished s else hd (df_path s) = start) \<and>
     successively (\<lambda>a b. b \<in> set (edge_targets edges a)) (df_path s) \<and>
     explored edges (df_finished s) (df_stack s) None \<and>
     (\<forall>v\<in>df_finished s. set (edge_targets edges v) \<subseteq> df_finished s \<and>
        (v, v) \<notin> (edge_rel edges)\<^sup>+)"

lemma dfs_inv_start: "dfs_inv edges start (dfs_start start)"
  by (simp add: dfs_inv_def dfs_start_def graph_nodes_def)

text \<open>The measure of the loop: unfinished nodes, nodes not yet seen, targets of the top node left.\<close>

definition dfs_measure :: "('v, 'v list) dict \<Rightarrow> 'v \<Rightarrow> ('v dfs \<times> 'v dfs) set" where
  "dfs_measure edges start = measures
     [\<lambda>s. card (graph_nodes start edges - df_finished s),
      \<lambda>s. card (graph_nodes start edges - df_finished s - df_on_path s),
      \<lambda>s. length (edge_targets edges (fst (last (df_stack s)))) - snd (last (df_stack s))]"

lemma wf_dfs_measure: "wf (dfs_measure edges start)"
  by (simp add: dfs_measure_def)

lemma index_from_found: "x \<in> set xs \<Longrightarrow>
  \<exists>k. index_from x xs i = Inr (i + k) \<and> k < length xs \<and> xs ! k = x"
proof (induction xs arbitrary: i)
  case (Cons y ys)
  show ?case
  proof (cases "x = y")
    case True
    then show ?thesis by (intro exI [of _ 0]) simp
  next
    case False
    with Cons obtain k where "index_from x ys (Suc i) = Inr (Suc i + k)" "k < length ys" "ys ! k = x"
      by fastforce
    with False show ?thesis by (intro exI [of _ "Suc k"]) simp
  qed
qed simp


section \<open>One turn of the loop\<close>

lemma dfs_stack_top:
  assumes "dfs_inv edges start s" and "df_stack s \<noteq> []"
  obtains st v i where "df_stack s = st @ [(v, i)]" and "df_path s = map fst st @ [v]"
    and "explored edges (df_finished s) st (Some v)" and "i \<le> length (edge_targets edges v)"
    and "\<forall>j<i. edge_targets edges v ! j \<in> df_finished s"
    and "v \<notin> df_finished s" and "v \<in> graph_nodes start edges"
proof -
  obtain st v i where st: "df_stack s = st @ [(v, i)]"
    using assms(2) by (metis rev_exhaust prod.collapse)
  moreover from st have "df_path s = map fst st @ [v]"
    using assms(1) by (auto simp: dfs_inv_def)
  ultimately show thesis
    using assms(1) that by (auto simp: dfs_inv_def explored_snoc)
qed

lemma dfs_pop:
  assumes inv: "dfs_inv edges start s" and st: "df_stack s = st @ [(v, i)]"
    and path: "df_path s = map fst st @ [v]"
    and len: "length (edge_targets edges v) \<le> i"
    and targets: "i \<le> length (edge_targets edges v)" "\<forall>j<i. edge_targets edges v ! j \<in> df_finished s"
    and "explored edges (df_finished s) st (Some v)"
  shows "\<exists>s'. dfs_turn edges s = Inr (Continue s') \<and> dfs_inv edges start s' \<and>
    df_finished s' = insert v (df_finished s)"
proof -
  let ?s = "s\<lparr>df_stack := st, df_finished := insert v (df_finished s),
    df_path := map fst st, df_on_path := df_on_path s - {v}\<rparr>"
  have sub: "set (edge_targets edges v) \<subseteq> df_finished s"
    using len targets by (auto simp: in_set_conv_nth)
  have new: "v \<notin> df_finished s" using inv path by (auto simp: dfs_inv_def)
  have acyclic: "(v, v) \<notin> (edge_rel edges)\<^sup>+"
  proof
    assume "(v, v) \<in> (edge_rel edges)\<^sup>+"
    then obtain w where "(v, w) \<in> edge_rel edges" "(w, v) \<in> (edge_rel edges)\<^sup>*"
      by (metis tranclD)
    with sub have "v \<in> df_finished s"
      using closed_walk [of "df_finished s" edges w v] inv by (auto simp: dfs_inv_def edge_rel_iff)
    with new show False by simp
  qed
  have walk: "successively (\<lambda>a b. b \<in> set (edge_targets edges a)) (map fst st)"
    using inv path by (auto simp: dfs_inv_def successively_append_iff)
  have ends: "if map fst st = [] then start \<in> insert v (df_finished s) else hd (map fst st) = start"
    using inv path by (cases st) (auto simp: dfs_inv_def)
  have "dfs_inv edges start ?s"
    using assms(1-3) sub acyclic explored_done [of edges "df_finished s" st v] assms(7)
    unfolding dfs_inv_def by (intro conjI) (use walk ends in auto)
  moreover have "dfs_turn edges s = Inr (Continue ?s)"
    using st path len by (simp add: dfs_turn_def pop_last_def)
  ultimately show ?thesis by auto
qed

lemma dfs_answer:
  assumes inv: "dfs_inv edges start s" and st: "df_stack s = st @ [(v, i)]"
    and path: "df_path s = map fst st @ [v]" and len: "i < length (edge_targets edges v)"
    and on: "edge_targets edges v ! i \<in> df_on_path s"
  shows "\<exists>p. dfs_turn edges s = Inr (Answer p) \<and> is_cycle edges p \<and>
    (start, hd p) \<in> (edge_rel edges)\<^sup>*"
proof -
  let ?t = "edge_targets edges v ! i" and ?walk = "successively (\<lambda>a b. b \<in> set (edge_targets edges a))"
  have pinv: "distinct (df_path s)" "?walk (df_path s)" "hd (df_path s) = start" "?t \<in> set (df_path s)"
    using inv on path by (auto simp: dfs_inv_def)
  obtain k where k: "index_from ?t (df_path s) 0 = Inr k" "k < length (df_path s)" "df_path s ! k = ?t"
    using index_from_found [OF pinv(4), of 0] by auto
  let ?p = "drop k (df_path s) @ [?t]"
  have split: "df_path s = take k (df_path s) @ drop k (df_path s)" by simp
  have hd: "hd ?p = ?t" "drop k (df_path s) \<noteq> []" using k by (auto simp: hd_drop_conv_nth)
  have last: "last (drop k (df_path s)) = v" using k path by simp
  have "?walk (drop k (df_path s))"
    using pinv(2) split by (metis successively_append_iff)
  then have "is_cycle edges ?p"
    using pinv k hd last len by (auto simp: is_cycle_def successively_append_iff)
  moreover have "(start, ?t) \<in> (edge_rel edges)\<^sup>*"
  proof -
    have "?walk (take (Suc k) (df_path s))"
      using pinv(2) by (metis append_take_drop_id successively_append_iff)
    moreover have "last (take (Suc k) (df_path s)) = ?t"
      using k by (simp add: take_Suc_conv_app_nth)
    moreover obtain q where "df_path s = start # q"
      using pinv(3, 4) by (metis empty_iff list.collapse list.set(1))
    ultimately show ?thesis using walk_rtrancl [of edges start "take k q"] by simp
  qed
  moreover have "dfs_turn edges s = Inr (Answer ?p)"
    using st len on k by (simp add: dfs_turn_def)
  ultimately show ?thesis using hd by auto
qed

lemma dfs_skip:
  assumes "dfs_inv edges start s" and st: "df_stack s = st @ [(v, i)]"
    and "df_path s = map fst st @ [v]" and len: "i < length (edge_targets edges v)"
    and fin: "edge_targets edges v ! i \<in> df_finished s"
  shows "\<exists>s'. dfs_turn edges s = Inr (Continue s') \<and> dfs_inv edges start s' \<and>
    df_finished s' = df_finished s \<and> df_on_path s' = df_on_path s \<and> df_stack s' = st @ [(v, Suc i)]"
proof -
  let ?s = "s\<lparr>df_stack := st @ [(v, Suc i)]\<rparr>"
  have off: "edge_targets edges v ! i \<notin> df_on_path s"
    using assms(1) fin by (auto simp: dfs_inv_def)
  have "dfs_inv edges start ?s"
    using assms by (auto simp: dfs_inv_def explored_snoc less_Suc_eq)
  moreover have "dfs_turn edges s = Inr (Continue ?s)"
    using st len off fin by (simp add: dfs_turn_def)
  ultimately show ?thesis by auto
qed

lemma dfs_push:
  assumes inv: "dfs_inv edges start s" and st: "df_stack s = st @ [(v, i)]"
    and path: "df_path s = map fst st @ [v]" and len: "i < length (edge_targets edges v)"
    and new: "edge_targets edges v ! i \<notin> df_on_path s" "edge_targets edges v ! i \<notin> df_finished s"
  shows "\<exists>s'. dfs_turn edges s = Inr (Continue s') \<and> dfs_inv edges start s' \<and>
    df_finished s' = df_finished s \<and>
    df_on_path s' = insert (edge_targets edges v ! i) (df_on_path s)"
proof -
  let ?t = "edge_targets edges v ! i"
  let ?s = "s\<lparr>df_stack := (st @ [(v, Suc i)]) @ [(?t, 0)], df_path := df_path s @ [?t],
    df_on_path := insert ?t (df_on_path s)\<rparr>"
  have node: "?t \<in> graph_nodes start edges"
    using len by (intro target_node [of _ _ v]) simp
  have "explored edges (df_finished s) ((st @ [(v, Suc i)]) @ [(?t, 0)]) None"
    using inv st len by (simp only: explored_snoc dfs_inv_def) (auto simp: less_Suc_eq explored_snoc)
  then have "dfs_inv edges start ?s"
    using inv st path len new node by (auto simp: dfs_inv_def successively_append_iff hd_append)
  moreover have "dfs_turn edges s = Inr (Continue ?s)"
    using st len new by (simp add: dfs_turn_def Let_def)
  ultimately show ?thesis by auto
qed


section \<open>The search is total and exact\<close>

lemma dfs_shrinks:
  assumes "dfs_inv edges start s" and "df_stack s \<noteq> []"
  shows "(\<exists>p. dfs_turn edges s = Inr (Answer p) \<and> is_cycle edges p \<and>
      (start, hd p) \<in> (edge_rel edges)\<^sup>*) \<or>
    (\<exists>s'. dfs_turn edges s = Inr (Continue s') \<and> dfs_inv edges start s' \<and>
      (s', s) \<in> dfs_measure edges start)"
proof -
  obtain st v i where st: "df_stack s = st @ [(v, i)]" "df_path s = map fst st @ [v]"
      "explored edges (df_finished s) st (Some v)" "i \<le> length (edge_targets edges v)"
      "\<forall>j<i. edge_targets edges v ! j \<in> df_finished s"
    and new: "v \<notin> df_finished s" "v \<in> graph_nodes start edges"
    using dfs_stack_top [OF assms] .
  let ?N = "graph_nodes start edges" and ?t = "edge_targets edges v ! i"
  consider (pop) "length (edge_targets edges v) \<le> i"
    | (answer) "i < length (edge_targets edges v)" "?t \<in> df_on_path s"
    | (skip) "i < length (edge_targets edges v)" "?t \<notin> df_on_path s" "?t \<in> df_finished s"
    | (push) "i < length (edge_targets edges v)" "?t \<notin> df_on_path s" "?t \<notin> df_finished s"
    by linarith
  then show ?thesis
  proof cases
    case pop
    have "card (?N - insert v (df_finished s)) < card (?N - df_finished s)"
      using new by (intro psubset_card_mono) auto
    with dfs_pop [OF assms(1) st(1,2) pop st(4,5,3)] show ?thesis
      by (auto simp: dfs_measure_def simp del: card_Diff_insert)
  next
    case answer
    with dfs_answer [OF assms(1) st(1,2)] show ?thesis by auto
  next
    case skip
    with dfs_skip [OF assms(1) st(1,2)] st(1) show ?thesis by (auto simp: dfs_measure_def)
  next
    case push
    have "?t \<in> ?N" using push by (intro target_node [of _ _ v]) simp
    then have "card (?N - df_finished s - insert ?t (df_on_path s)) < card (?N - df_finished s - df_on_path s)"
      using push by (intro psubset_card_mono) auto
    with dfs_push [OF assms(1) st(1,2) push] show ?thesis
      by (auto simp: dfs_measure_def simp del: card_Diff_insert)
  qed
qed

lemma dfs_exhausted:
  assumes "dfs_inv edges start s" and "df_stack s = []" and "(start, v) \<in> (edge_rel edges)\<^sup>*"
  shows "(v, v) \<notin> (edge_rel edges)\<^sup>+"
proof -
  have "start \<in> df_finished s" using assms(1,2) by (auto simp: dfs_inv_def)
  then have "v \<in> df_finished s"
    using closed_walk [of "df_finished s", OF _ assms(3)] assms(1) by (auto simp: dfs_inv_def)
  then show ?thesis using assms(1) by (auto simp: dfs_inv_def)
qed

lemma dfs_loop_total: "dfs_inv edges start s \<Longrightarrow>
    (\<exists>p. dfs_loop edges s = Some (ok (Some p)) \<and> is_cycle edges p \<and>
      (start, hd p) \<in> (edge_rel edges)\<^sup>*) \<or>
    (dfs_loop edges s = Some (ok None) \<and>
      (\<forall>v. (start, v) \<in> (edge_rel edges)\<^sup>* \<longrightarrow> (v, v) \<notin> (edge_rel edges)\<^sup>+))"
proof (induction s rule: wf_induct_rule [OF wf_dfs_measure [of edges start]])
  case (1 s)
  show ?case
  proof (cases "df_stack s = []")
    case True
    then show ?thesis using dfs_exhausted [OF 1(2) True] by (simp add: dfs_loop.simps)
  next
    case False
    from dfs_shrinks [OF 1(2) False] show ?thesis
    proof (elim disjE exE conjE)
      fix s' assume s': "dfs_turn edges s = Inr (Continue s')" "dfs_inv edges start s'"
        "(s', s) \<in> dfs_measure edges start"
      with False have "dfs_loop edges s = dfs_loop edges s'" by (simp add: dfs_loop.simps [of edges s])
      with 1(1) [OF s'(3,2)] show ?thesis by simp
    qed (use False in \<open>auto simp: dfs_loop.simps [of edges s]\<close>)
  qed
qed

lemma find_cycle_cases:
  obtains (cycle) p where "find_dependency_cycle start edges = Some (ok (Some p))"
      and "is_cycle edges p" and "(start, hd p) \<in> (edge_rel edges)\<^sup>*"
    | (acyclic) "find_dependency_cycle start edges = Some (ok None)"
      and "\<And>v. (start, v) \<in> (edge_rel edges)\<^sup>* \<Longrightarrow> (v, v) \<notin> (edge_rel edges)\<^sup>+"
  using dfs_loop_total [OF dfs_inv_start [of edges start]]
  unfolding find_dependency_cycle_def by blast

section \<open>The projection is exact\<close>

text \<open>
  The abstract view of a store: the revisions pinned from a revision, and the edges between the
  roots that own them, with no worklist and no table of edges.
\<close>

definition claims :: "package_store \<Rightarrow> string \<Rightarrow> (string \<times> string option) set" where
  "claims db rid = {(t, pin). \<exists>revision r. get_revision db rid = Some revision \<and>
     r \<in> set (extract_package_refs (rv_snapshot revision)) \<and> resolve_ref db r = (Some t, pin)}"

definition pins :: "package_store \<Rightarrow> (string \<times> string) set" where
  "pins db = {(rid, pin). \<exists>t. (t, Some pin) \<in> claims db rid}"

definition root_rel :: "package_store \<Rightarrow> string \<Rightarrow> (string \<times> string) set" where
  "root_rel db start = {(a, b). \<exists>rid revision pin. (start, rid) \<in> (pins db)\<^sup>* \<and>
     get_revision db rid = Some revision \<and> rv_entity_id revision = a \<and> (b, pin) \<in> claims db rid}"


definition contributes :: "package_store \<Rightarrow> string \<Rightarrow> (string \<times> string) set" where
  "contributes db rid = {(a, b). \<exists>revision pin. get_revision db rid = Some revision \<and>
     rv_entity_id revision = a \<and> (b, pin) \<in> claims db rid}"

lemma root_rel_contributes: "root_rel db start = \<Union> (contributes db ` ((pins db)\<^sup>* `` {start}))"
  by (auto simp: root_rel_def contributes_def)

lemma unknown_revision: "get_revision db rid = None \<Longrightarrow>
    contributes db rid = {} \<and> pins db `` {rid} = {}"
  by (auto simp: contributes_def pins_def claims_def)

lemma edge_rel_dset: "edge_rel (dset a ts edges) = {(x, y) \<in> edge_rel edges. x \<noteq> a} \<union> {a} \<times> set ts"
  by (auto simp: edge_rel_def edge_targets_def split: if_splits)

definition lean_edges :: "('v, 'v list) dict \<Rightarrow> bool" where
  "lean_edges edges \<longleftrightarrow> wf_dict edges \<and> (\<forall>a. distinct (edge_targets edges a))"

lemma collect_ref_effect:
  assumes "collect_ref db a r (edges, fr) = (edges', fr')"
  shows "edge_rel edges' = edge_rel edges \<union> {(a, t) | t pin. resolve_ref db r = (Some t, pin)}"
    and "set fr' = set fr \<union> {pin. \<exists>t. resolve_ref db r = (Some t, Some pin)}"
    and "lean_edges edges \<Longrightarrow> lean_edges edges'"
proof -
  obtain t pin where r: "resolve_ref db r = (t, pin)" by fastforce
  let ?ts = "edge_targets edges a"
  have step: "(edges', fr') = (case t of None \<Rightarrow> (edges, fr) | Some t \<Rightarrow>
      (dset a (if t \<in> set ?ts then ?ts else ?ts @ [t]) edges,
       case pin of None \<Rightarrow> fr | Some rid \<Rightarrow> fr @ [rid]))"
    using assms r by (cases t) (simp_all add: collect_ref_def Let_def flip: edge_targets_def)
  have old: "{(x, y) \<in> edge_rel edges. x \<noteq> a} \<union> {a} \<times> set ?ts = edge_rel edges"
    by (auto simp: edge_rel_def)
  show "edge_rel edges' = edge_rel edges \<union> {(a, t) | t pin. resolve_ref db r = (Some t, pin)}"
    using step r old by (cases t) (auto simp: edge_rel_dset)
  show "set fr' = set fr \<union> {pin. \<exists>t. resolve_ref db r = (Some t, Some pin)}"
    using step r by (cases t; cases pin) auto
  show "lean_edges edges \<Longrightarrow> lean_edges edges'"
    using step by (cases t) (auto simp: lean_edges_def edge_targets_def split: if_splits option.splits)
qed

lemma fold_collect_effect:
  assumes "fold (collect_ref db a) rs (edges, fr) = (edges', fr')"
  shows "edge_rel edges' = edge_rel edges \<union>
      {(a, t) | r t pin. r \<in> set rs \<and> resolve_ref db r = (Some t, pin)} \<and>
    set fr' = set fr \<union> {pin. \<exists>r\<in>set rs. \<exists>t. resolve_ref db r = (Some t, Some pin)} \<and>
    (lean_edges edges \<longrightarrow> lean_edges edges')"
  using assms
proof (induction rs arbitrary: edges fr)
  case (Cons r rs)
  obtain edges1 fr1 where one: "collect_ref db a r (edges, fr) = (edges1, fr1)" by fastforce
  with Cons.prems have "fold (collect_ref db a) rs (edges1, fr1) = (edges', fr')" by simp
  from Cons.IH [OF this] collect_ref_effect [OF one] show ?case by auto
qed simp

lemma collect_refs_effect:
  assumes "collect_refs db revision (edges, fr) = (edges', fr')"
    and "get_revision db rid = Some revision"
  shows "edge_rel edges' = edge_rel edges \<union> contributes db rid"
    and "set fr' = set fr \<union> pins db `` {rid}"
    and "lean_edges edges \<Longrightarrow> lean_edges edges'"
  using fold_collect_effect [OF assms(1) [unfolded collect_refs_def]] assms(2)
  by (auto simp: contributes_def pins_def claims_def)

text \<open>
  The worklist: what an expanded revision pins is expanded or waiting, and what it contributes is
  in the table.
\<close>

definition worklist_ok ::
    "package_store \<Rightarrow> string set \<Rightarrow> root_edges \<Rightarrow> string list \<Rightarrow> bool" where
  "worklist_ok db X edges fr \<longleftrightarrow>
     (\<forall>x\<in>X. pins db `` {x} \<subseteq> X \<union> set fr \<and> contributes db x \<subseteq> edge_rel edges)"

lemma worklist_closed:
  assumes "worklist_ok db X edges fr" and "(x, y) \<in> (pins db)\<^sup>*" and "x \<in> X"
  shows "y \<in> X \<or> y \<in> (pins db)\<^sup>* `` set fr"
  using assms(2, 3)
proof (induction rule: rtrancl_induct)
  case (step y z)
  then show ?case using assms(1) by (auto simp: worklist_ok_def intro: rtrancl_into_rtrancl)
qed simp

lemma pins_unfold: "(pins db)\<^sup>* `` {x} = insert x ((pins db)\<^sup>* `` (pins db `` {x}))"
  by (auto elim: converse_rtranclE intro: converse_rtrancl_into_rtrancl)

lemma collect_loop_exact:
  "worklist_ok db X edges fr \<Longrightarrow>
     edge_rel (collect_loop db X edges fr) =
       edge_rel edges \<union> \<Union> (contributes db ` ((pins db)\<^sup>* `` set fr)) \<and>
     (lean_edges edges \<longrightarrow> lean_edges (collect_loop db X edges fr))"
proof (induction db X edges fr rule: collect_loop.induct)
  case (1 db X edges)
  then show ?case by simp
next
  case (2 db X edges rid fr)
  have image: "(pins db)\<^sup>* `` set (rid # fr) = (pins db)\<^sup>* `` {rid} \<union> (pins db)\<^sup>* `` set fr"
    by auto
  have step: "\<Union> (contributes db ` ((pins db)\<^sup>* `` set (rid # fr))) =
      contributes db rid \<union> \<Union> (contributes db ` ((pins db)\<^sup>* `` (set fr \<union> pins db `` {rid})))"
    unfolding image pins_unfold [of db rid] by auto
  consider (seen) "rid \<in> X" | (unknown) "rid \<notin> X" "get_revision db rid = None"
    | (new) revision where "rid \<notin> X" "get_revision db rid = Some revision"
    by (cases "get_revision db rid") auto
  then show ?case
  proof cases
    case seen
    then have rest: "worklist_ok db X edges fr" using "2.prems" by (auto simp: worklist_ok_def)
    have "contributes db y \<subseteq> edge_rel edges \<union> \<Union> (contributes db ` ((pins db)\<^sup>* `` set fr))"
      if "(rid, y) \<in> (pins db)\<^sup>*" for y
      using worklist_closed [OF rest that seen] rest by (auto simp: worklist_ok_def)
    then have "\<Union> (contributes db ` ((pins db)\<^sup>* `` {rid})) \<subseteq>
        edge_rel edges \<union> \<Union> (contributes db ` ((pins db)\<^sup>* `` set fr))"
      by (intro UN_least) simp
    then show ?thesis using "2.IH"(1) [OF seen rest] seen unfolding image UN_Un by auto
  next
    case unknown
    then have "worklist_ok db (insert rid X) edges fr"
      using "2.prems" unknown_revision [OF unknown(2)] by (auto simp: worklist_ok_def)
    with "2.IH"(2) unknown show ?thesis
      using unknown_revision [OF unknown(2)] unfolding step by simp
  next
    case new
    obtain edges' fr' where c: "collect_refs db revision (edges, fr) = (edges', fr')" by fastforce
    note effect = collect_refs_effect [OF c new(2)]
    have "worklist_ok db (insert rid X) edges' fr'"
      using "2.prems" effect(1,2) by (fastforce simp: worklist_ok_def)
    then have "edge_rel (collect_loop db (insert rid X) edges' fr') =
        edge_rel edges' \<union> \<Union> (contributes db ` ((pins db)\<^sup>* `` set fr')) \<and>
        (lean_edges edges' \<longrightarrow> lean_edges (collect_loop db (insert rid X) edges' fr'))"
      using "2.IH"(3) [OF new(1) new(2) c [symmetric]] by simp
    then show ?thesis using new c effect unfolding step by (simp add: Un_assoc Un_commute)
  qed
qed

lemma collected_edges: "edge_rel (collect_root_edges db rid) = root_rel db rid"
  and collected_lean: "lean_edges (collect_root_edges db rid)"
proof -
  have "worklist_ok db {} [] [rid]" "edge_rel ([] :: root_edges) = {}" "lean_edges ([] :: root_edges)"
    by (simp_all add: worklist_ok_def edge_rel_def edge_targets_def lean_edges_def wf_dict_def)
  with collect_loop_exact [of db "{}" "[]" "[rid]"]
  show "edge_rel (collect_root_edges db rid) = root_rel db rid"
    and "lean_edges (collect_root_edges db rid)"
    by (simp_all add: collect_root_edges_def root_rel_contributes)
qed


section \<open>The guard of a publish\<close>

text \<open>
  The integrity of the two tables: a row is stored under its primary key, and the current revision
  of a root belongs to that root.
\<close>

definition store_ok :: "package_store \<Rightarrow> bool" where
  "store_ok db \<longleftrightarrow>
     list_all (\<lambda>(k, revision). rv_revision_id revision = k) (st_revisions db) \<and>
     list_all (\<lambda>(k, row). rg_entity_id row = k \<and>
       (case rg_current_revision_id row of None \<Rightarrow> True | Some c \<Rightarrow>
          (case get_revision db c of None \<Rightarrow> True
           | Some revision \<Rightarrow> rv_entity_id revision = rg_entity_id row))) (st_registry db)"

lemma resolve_root_claim_owner:
  assumes "store_ok db" and "resolve_root_claim db r = (Some t, Some pin)"
    and "get_revision db pin = Some revision"
  shows "rv_entity_id revision = t"
proof -
  from assms(2) obtain eid row where "dget (st_registry db) eid = Some row"
      "rg_entity_id row = t" "rg_current_revision_id row = Some pin"
    by (auto simp: resolve_root_claim_def get_package_root_def split: option.splits if_splits)
  then have "(eid, row) \<in> set (st_registry db)" by (simp add: dget_in)
  with assms(1,3) \<open>rg_entity_id row = t\<close> \<open>rg_current_revision_id row = Some pin\<close> show ?thesis
    by (auto simp: store_ok_def list_all_iff split: option.splits)
qed

lemma resolve_ref_owner:
  assumes "store_ok db" and "resolve_ref db r = (Some t, Some pin)"
    and "get_revision db pin = Some revision"
  shows "rv_entity_id revision = t"
proof -
  consider "resolve_root_claim db r = (Some t, Some pin)"
    | rid revision' where "get_revision db rid = Some revision'" "rv_entity_id revision' = t"
        "rv_revision_id revision' = pin"
    using assms(2) by (auto simp: resolve_ref_def split: option.splits)
  then show ?thesis
  proof cases
    case 1
    with resolve_root_claim_owner assms show ?thesis by blast
  next
    case 2
    then have "(rid, revision') \<in> set (st_revisions db)" by (simp add: get_revision_def dget_in)
    with 2 assms show ?thesis by (auto simp: store_ok_def list_all_iff)
  qed
qed

lemma pinned_roots_reachable:
  assumes "store_ok db" and "get_revision db start = Some first" and "(start, rid) \<in> (pins db)\<^sup>*"
    and "get_revision db rid = Some revision"
  shows "(rv_entity_id first, rv_entity_id revision) \<in> (root_rel db start)\<^sup>*"
  using assms(3, 4)
proof (induction arbitrary: revision rule: rtrancl_induct)
  case base
  then show ?case using assms(2) by simp
next
  case (step y z)
  then obtain t middle r where c: "get_revision db y = Some middle"
      "r \<in> set (extract_package_refs (rv_snapshot middle))" "resolve_ref db r = (Some t, Some z)"
    by (auto simp: pins_def claims_def)
  then have "rv_entity_id revision = t" using resolve_ref_owner assms(1) step.prems by blast
  moreover have "(rv_entity_id middle, t) \<in> root_rel db start"
  proof -
    have "(t, Some z) \<in> claims db y" using c by (auto simp: claims_def)
    with c(1) step.hyps(1) show ?thesis by (auto simp: root_rel_def)
  qed
  ultimately show ?case using step.IH [OF c(1)] by auto
qed

lemma root_cycles_reachable:
  assumes "store_ok db" and "get_revision db start = Some first" and "(a, b) \<in> (root_rel db start)\<^sup>+"
  shows "(rv_entity_id first, a) \<in> (root_rel db start)\<^sup>*"
proof -
  obtain c where "(a, c) \<in> root_rel db start" using assms(3) by (metis tranclD)
  then show ?thesis using pinned_roots_reachable [OF assms(1,2)] by (auto simp: root_rel_def)
qed

text \<open>C26. The search of the dependency graph returns for every graph and never pops an empty list: it
  answers a path exactly when some node reachable from the start depends on itself, and the path it
  answers is a closed walk over distinct nodes that the start reaches.
\<close>

theorem find_dependency_cycle_total:
  "\<exists>answer. find_dependency_cycle start edges = Some (ok answer) \<and>
     (answer \<noteq> None \<longleftrightarrow> (\<exists>v. (start, v) \<in> (edge_rel edges)\<^sup>* \<and> (v, v) \<in> (edge_rel edges)\<^sup>+)) \<and>
     pred_option (\<lambda>p. is_cycle edges p \<and> (start, hd p) \<in> (edge_rel edges)\<^sup>*) answer"
proof (cases rule: find_cycle_cases [of start edges])
  case (cycle p)
  then show ?thesis using cycle_closes [of edges p] by auto
next
  case acyclic
  then show ?thesis by auto
qed

text \<open>The projection of the pinned revisions, with its worklist and its table of lists, returns the
  graph that the store declares: an edge for each package claim of a revision reachable over the
  pins, from the root that owns the revision to the root that the claim resolves to, each target
  listed once.
\<close>

theorem collect_root_edges_exact:
  "edge_rel (collect_root_edges db rid) = root_rel db rid \<and>
     (\<forall>a. distinct (edge_targets (collect_root_edges db rid) a))"
  using collected_edges collected_lean by (simp add: lean_edges_def)

text \<open>C25. On a store whose rows lie under their primary keys and whose current revisions belong to their
  roots the publish guard always returns, and lets a revision of the root through exactly when
  the graph of the roots it pins has no cycle; otherwise it raises the diagnostic with a closed
  walk of that graph.
\<close>

theorem publish_guard_exact:
  assumes "store_ok db" and "get_revision db rid = Some revision"
  shows "\<exists>r. ensure_no_dependency_cycle db (rv_entity_id revision) rid = Some r \<and>
    (is_ok r \<longleftrightarrow> acyclic (root_rel db rid)) \<and>
    (r = ok () \<or> (\<exists>p. r = raise (PackageDependencyCycle p) \<and> 2 \<le> length p \<and> hd p = last p \<and>
       distinct (butlast p) \<and> successively (\<lambda>a b. (a, b) \<in> root_rel db rid) p))"
proof (cases rule: find_cycle_cases [of "rv_entity_id revision" "collect_root_edges db rid"])
  case (cycle p)
  then have "(hd p, hd p) \<in> (root_rel db rid)\<^sup>+" using cycle_closes [OF cycle(2)] by (simp add: collected_edges)
  moreover have "successively (\<lambda>a b. (a, b) \<in> root_rel db rid) p"
    using cycle(2) by (simp add: is_cycle_def flip: collected_edges edge_rel_iff)
  ultimately show ?thesis
    using cycle by (auto simp: ensure_no_dependency_cycle_def is_cycle_def acyclic_def)
next
  case acyclic
  then have "acyclic (root_rel db rid)"
    using root_cycles_reachable [OF assms] by (auto simp: acyclic_def collected_edges)
  with acyclic show ?thesis by (simp add: ensure_no_dependency_cycle_def)
qed

section \<open>Witness\<close>

definition demo_revision :: "string \<Rightarrow> string \<Rightarrow> (string \<times> json) list \<Rightarrow> package_revision" where
  "demo_revision rid eid pairs = \<lparr>rv_revision_id = rid, rv_entity_id = eid, rv_snapshot = JObj pairs\<rparr>"

definition demo_store :: package_store where
  "demo_store = \<lparr>st_revisions =
     [(''a1'', demo_revision ''a1'' ''A''
        [(''packages'', JArr [JObj [(''package_revision_id'', JStr ''b1'')], JNull])]),
      (''b1'', demo_revision ''b1'' ''B'' [(''target_root_id'', JStr ''A'')])],
     st_registry = [(''A'', \<lparr>rg_entity_id = ''A'', rg_entity_type = ''package'',
        rg_current_revision_id = Some ''a1''\<rparr>)]\<rparr>"


lemma demo_store_ok: "store_ok demo_store"
  by (simp add: store_ok_def demo_store_def demo_revision_def get_revision_def)

lemma demo_a1: "get_revision demo_store ''a1'' =
    Some (demo_revision ''a1'' ''A'' [(''packages'', JArr [JObj [(''package_revision_id'', JStr ''b1'')], JNull])])"
  by (simp add: demo_store_def get_revision_def)

lemma demo_guard: "ensure_no_dependency_cycle demo_store ''A'' ''a1'' =
    Some (raise (PackageDependencyCycle [''A'', ''B'', ''A'']))"
  by code_simp

theorem publish_guard_exact_witness:
  "\<not> acyclic (root_rel demo_store ''a1'') \<and>
     ensure_no_dependency_cycle demo_store ''A'' ''a1'' =
       Some (raise (PackageDependencyCycle [''A'', ''B'', ''A'']))"
  using publish_guard_exact [OF demo_store_ok demo_a1]
  by (simp add: demo_revision_def demo_guard)

end
