(* ===== verification/Step_Logic.thy ===== *)
theory Step_Logic
  imports Py_Prelude
begin

text \<open>
  Two judgements on calls that mutate a state. \<open>upholds I m C\<close>: from a state with the invariant \<open>I\<close>
  the call ends in one, also when it raises, and what it returns satisfies \<open>C\<close>. \<open>steps v t m C\<close>: when
  the call succeeds in a state whose view \<open>v\<close> is \<open>t\<close>, the returned value and the new view satisfy \<open>C\<close>.
  Their rules follow the structure of the code.
\<close>

section \<open>Invariants with results\<close>

definition upholds :: "('s \<Rightarrow> bool) \<Rightarrow> ('s, 'a) st \<Rightarrow> ('a \<Rightarrow> bool) \<Rightarrow> bool" where
  "upholds I m C \<longleftrightarrow> (\<forall>s. I s \<longrightarrow> I (snd (m s)) \<and> (\<forall>x. fst (m s) = Inr x \<longrightarrow> C x))"

lemma upholdsD: "upholds I m C \<Longrightarrow> I s \<Longrightarrow> I (snd (m s))"
  by (simp add: upholds_def)

lemma upholds_keeps: "keeps I m \<Longrightarrow> upholds I m (\<lambda>_. True)"
  by (simp add: upholds_def keeps_def)

lemma keeps_upholds: "upholds I m C \<Longrightarrow> keeps I m"
  by (simp add: upholds_def keeps_def)

lemma upholds_weaken: "upholds I m D \<Longrightarrow> (\<And>x. D x \<Longrightarrow> C x) \<Longrightarrow> upholds I m C"
  by (simp add: upholds_def)

lemma upholds_bind: "upholds I m D \<Longrightarrow> (\<And>x. D x \<Longrightarrow> upholds I (f x) C) \<Longrightarrow> upholds I (sbind m f) C"
  unfolding upholds_def sbind_def by (auto split: prod.splits sum.splits)

lemma upholds_get: "(\<And>s. I s \<Longrightarrow> upholds I (f s) C) \<Longrightarrow> upholds I (sbind sget f) C"
  by (simp add: upholds_def sbind_run st_run)

lemma upholds_lift: "(\<And>x. r = Inr x \<Longrightarrow> upholds I (f x) C) \<Longrightarrow> upholds I (sbind (slift r) f) C"
  by (auto simp: upholds_def sbind_run st_run split: sum.splits)

lemma upholds_ret: "C x \<Longrightarrow> upholds I (sret x) C"
  by (simp add: upholds_def st_run)

lemma upholds_throw: "upholds I (sthrow e) C"
  by (simp add: upholds_def st_run)

lemma upholds_mod: "(\<And>s. I s \<Longrightarrow> I (f s)) \<Longrightarrow> C () \<Longrightarrow> upholds I (smod f) C"
  by (simp add: upholds_def st_run)

lemma upholds_if: "(b \<Longrightarrow> upholds I m C) \<Longrightarrow> (\<not> b \<Longrightarrow> upholds I n C) \<Longrightarrow> upholds I (if b then m else n) C"
  by simp

lemma upholds_option:
  "(x = None \<Longrightarrow> upholds I m C) \<Longrightarrow> (\<And>y. x = Some y \<Longrightarrow> upholds I (f y) C) \<Longrightarrow>
   upholds I (case x of None \<Rightarrow> m | Some y \<Rightarrow> f y) C"
  by (simp split: option.split)

lemma upholds_prod:
  "(\<And>x y. p = (x, y) \<Longrightarrow> upholds I (f x y) C) \<Longrightarrow> upholds I (case p of (x, y) \<Rightarrow> f x y) C"
  by (simp split: prod.split)

lemmas upholds_rules = upholds_get upholds_lift upholds_ret upholds_throw upholds_if upholds_option upholds_prod

section \<open>Views\<close>

definition steps :: "('s \<Rightarrow> 't) \<Rightarrow> 't \<Rightarrow> ('s, 'a) st \<Rightarrow> ('a \<Rightarrow> 't \<Rightarrow> bool) \<Rightarrow> bool" where
  "steps v t m C \<longleftrightarrow> (\<forall>s x s'. v s = t \<longrightarrow> m s = (Inr x, s') \<longrightarrow> C x (v s'))"

definition unseen :: "('s \<Rightarrow> 't) \<Rightarrow> ('s, 'a) st \<Rightarrow> bool" where
  "unseen v m \<longleftrightarrow> (\<forall>s. v (snd (m s)) = v s)"

lemma stepsD: "steps v (v s) m C \<Longrightarrow> m s = (Inr x, s') \<Longrightarrow> C x (v s')"
  by (simp add: steps_def)

lemma steps_bind: "steps v t m D \<Longrightarrow> (\<And>x u. D x u \<Longrightarrow> steps v u (f x) C) \<Longrightarrow> steps v t (sbind m f) C"
  by (auto simp: steps_def sbind_ok_iff)

lemma steps_bind_eq:
  "steps v t m (\<lambda>_ u. u = t') \<Longrightarrow> (\<And>x. steps v t' (f x) C) \<Longrightarrow> steps v t (sbind m f) C"
  by (erule steps_bind) simp

lemma steps_skip: "unseen v m \<Longrightarrow> (\<And>x. steps v t (f x) C) \<Longrightarrow> steps v t (sbind m f) C"
  by (auto simp: steps_def sbind_ok_iff unseen_def) (metis snd_conv)

lemma steps_last: "unseen v m \<Longrightarrow> (\<And>x. C x t) \<Longrightarrow> steps v t m C"
  by (auto simp: steps_def unseen_def) (metis snd_conv)

lemma steps_get: "(\<And>s. v s = t \<Longrightarrow> steps v t (f s) C) \<Longrightarrow> steps v t (sbind sget f) C"
  by (simp add: steps_def sbind_run st_run)

lemma steps_lift: "(\<And>x. r = Inr x \<Longrightarrow> steps v t (f x) C) \<Longrightarrow> steps v t (sbind (slift r) f) C"
  by (auto simp: steps_def sbind_ok_iff st_run split: sum.splits)

lemma steps_ret: "C x t \<Longrightarrow> steps v t (sret x) C"
  by (simp add: steps_def st_run)

lemma steps_throw: "steps v t (sthrow e) C"
  by (simp add: steps_def st_run)

lemma steps_mod: "(\<And>s. v s = t \<Longrightarrow> C () (v (f s))) \<Longrightarrow> steps v t (smod f) C"
  by (simp add: steps_def st_run)

lemma steps_if: "(b \<Longrightarrow> steps v t m C) \<Longrightarrow> (\<not> b \<Longrightarrow> steps v t n C) \<Longrightarrow> steps v t (if b then m else n) C"
  by simp

lemma steps_option:
  "(x = None \<Longrightarrow> steps v t m C) \<Longrightarrow> (\<And>y. x = Some y \<Longrightarrow> steps v t (f y) C) \<Longrightarrow>
   steps v t (case x of None \<Rightarrow> m | Some y \<Rightarrow> f y) C"
  by (simp split: option.split)

lemma steps_prod:
  "(\<And>x y. p = (x, y) \<Longrightarrow> steps v t (f x y) C) \<Longrightarrow> steps v t (case p of (x, y) \<Rightarrow> f x y) C"
  by (simp split: prod.split)

lemma steps_weaken: "steps v t m D \<Longrightarrow> (\<And>x u. D x u \<Longrightarrow> C x u) \<Longrightarrow> steps v t m C"
  by (simp add: steps_def)

lemmas steps_rules = steps_get steps_lift steps_ret steps_throw steps_if steps_option steps_prod

lemma unseen_bind: "unseen v m \<Longrightarrow> (\<And>x. unseen v (f x)) \<Longrightarrow> unseen v (sbind m f)"
  by (auto simp: unseen_def sbind_def split: prod.splits sum.splits) (metis snd_conv)+

lemma unseen_mod: "(\<And>s. v (f s) = v s) \<Longrightarrow> unseen v (smod f)"
  by (simp add: unseen_def st_run)

lemma unseen_basic: "unseen v sget" "unseen v (slift r)" "unseen v (sret x)" "unseen v (sthrow e)"
  by (simp_all add: unseen_def st_run)

lemma unseen_if: "(b \<Longrightarrow> unseen v m) \<Longrightarrow> (\<not> b \<Longrightarrow> unseen v n) \<Longrightarrow> unseen v (if b then m else n)"
  by simp

lemma unseen_option:
  "unseen v m \<Longrightarrow> (\<And>y. unseen v (f y)) \<Longrightarrow> unseen v (case x of None \<Rightarrow> m | Some y \<Rightarrow> f y)"
  by (simp split: option.split)

lemma unseen_prod: "(\<And>x y. unseen v (f x y)) \<Longrightarrow> unseen v (case p of (x, y) \<Rightarrow> f x y)"
  by (simp split: prod.split)

lemmas unseen_rules = unseen_bind unseen_mod unseen_basic unseen_if unseen_option unseen_prod

end
