(* ===== verification/Stepper_State.thy ===== *)
theory Stepper_State
  imports Booking Rules Scaling Fills Sizing
begin

text \<open>
  The state of one item's bar by bar replay (\<^verbatim>\<open>domain/backtest/engine.py\<close>, the variables that
  \<open>_build_stepper\<close> closes over) and its small operations. The configuration sections the other
  sub-systems do not read are in \<open>stepper_config\<close>. The indicator evaluators are an argument: a record of
  functions over a state \<open>'v\<close> that one bar updates and the signals are read from. Time stamps and
  calendar dates are read by the functions in \<open>stepper_env\<close>. The counters of the run's ledger are kept
  by name. The snapshot of the entry blocks that an entry event carries is a value of the plan.
\<close>

section \<open>Configuration\<close>

datatype order_validity = CurrentCandleOnly | OneCandle | TwoCandles | ThreeCandles | FourCandles | UntilCancelled

fun validity_bars :: "order_validity \<Rightarrow> nat option" where
  "validity_bars CurrentCandleOnly = Some 1"
| "validity_bars OneCandle = Some 1"
| "validity_bars TwoCandles = Some 2"
| "validity_bars ThreeCandles = Some 3"
| "validity_bars FourCandles = Some 4"
| "validity_bars UntilCancelled = None"

datatype unfilled_policy = CancelOrder | KeepUntilValidityEnds | RePriceNextCandle | ConvertToMarketOrder

datatype stacking_policy = AllowStacking | ReplaceExisting | ScaleExisting | IgnoreStacking

datatype hedge_policy = AllowHedge | CloseExisting | IgnoreHedge

datatype stop_exit_conflict = StopHasPriority | ExitHasPriority | RecordBothReasons | FirstTriggerWinsConflict

datatype same_candle_policy = UseIntrabarData | ExitFirst | StopFirst | IgnoreTrade | ConservativeRule

datatype direction_mode = LongOnly | ShortOnly | LongAndShort

definition direction_flags :: "direction_mode \<Rightarrow> bool \<times> bool" where
  "direction_flags mode = (mode \<in> {LongOnly, LongAndShort}, mode \<in> {ShortOnly, LongAndShort})"

record conflict_handling =
  ch_exit_on_opposite :: bool
  ch_stacking :: stacking_policy
  ch_hedge :: hedge_policy
  ch_stop_exit :: stop_exit_conflict
  ch_same_candle :: same_candle_policy

definition conflict_handling_is_modelled :: "conflict_handling \<Rightarrow> bool" where
  "conflict_handling_is_modelled c = (if ch_exit_on_opposite c then True else ch_hedge c \<noteq> AllowHedge)"

datatype restriction_rule = AnyRestriction | AllRestrictions | MinNOfM

text \<open>A parsed restriction filter; a calendar date is the number of its day.\<close>

datatype restriction_spec =
    DateBlackout string "(int \<times> int) list"
  | MaxDailyLoss string rat
  | ConsecutiveLoss string nat

datatype strength_mode = NoAdjustment | VolatilityAdjusted | TrendAdjusted | DivergenceAdjusted

definition signal_strength_is_modelled :: "strength_mode \<Rightarrow> bool" where
  "signal_strength_is_modelled m = (m \<in> {NoAdjustment, VolatilityAdjusted})"

record price_distance_scaling =
  pds_retracement_distance :: rat
  pds_layers :: nat

subsection \<open>Their texts\<close>

fun direction_mode_value :: "direction_mode \<Rightarrow> string" where
  "direction_mode_value LongOnly = ''long''"
| "direction_mode_value ShortOnly = ''short''"
| "direction_mode_value LongAndShort = ''long_and_short''"

fun validity_value :: "order_validity \<Rightarrow> string" where
  "validity_value CurrentCandleOnly = ''current_candle_only''"
| "validity_value OneCandle = ''1_candle''"
| "validity_value TwoCandles = ''2_candles''"
| "validity_value ThreeCandles = ''3_candles''"
| "validity_value FourCandles = ''4_candles''"
| "validity_value UntilCancelled = ''until_cancelled''"

fun unfilled_value :: "unfilled_policy \<Rightarrow> string" where
  "unfilled_value CancelOrder = ''cancel_order''"
| "unfilled_value KeepUntilValidityEnds = ''keep_until_validity_ends''"
| "unfilled_value RePriceNextCandle = ''re_price_next_candle''"
| "unfilled_value ConvertToMarketOrder = ''convert_to_market_order''"

fun stacking_value :: "stacking_policy \<Rightarrow> string" where
  "stacking_value AllowStacking = ''allow_stacking''"
| "stacking_value ReplaceExisting = ''replace_existing''"
| "stacking_value ScaleExisting = ''scale_existing''"
| "stacking_value IgnoreStacking = ''ignore''"

fun hedge_value :: "hedge_policy \<Rightarrow> string" where
  "hedge_value AllowHedge = ''allow_hedge''"
| "hedge_value CloseExisting = ''close_existing''"
| "hedge_value IgnoreHedge = ''ignore''"

fun stop_exit_value :: "stop_exit_conflict \<Rightarrow> string" where
  "stop_exit_value StopHasPriority = ''stop_has_priority''"
| "stop_exit_value ExitHasPriority = ''exit_has_priority''"
| "stop_exit_value RecordBothReasons = ''record_both_reasons''"
| "stop_exit_value FirstTriggerWinsConflict = ''first_trigger_wins''"

fun same_candle_value :: "same_candle_policy \<Rightarrow> string" where
  "same_candle_value UseIntrabarData = ''use_intrabar_data_if_available''"
| "same_candle_value ExitFirst = ''exit_first''"
| "same_candle_value StopFirst = ''stop_first''"
| "same_candle_value IgnoreTrade = ''ignore_trade''"
| "same_candle_value ConservativeRule = ''conservative_rule''"

fun restriction_rule_value :: "restriction_rule \<Rightarrow> string" where
  "restriction_rule_value AnyRestriction = ''any''"
| "restriction_rule_value AllRestrictions = ''all''"
| "restriction_rule_value MinNOfM = ''min_n_of_m''"

fun restriction_entry :: "restriction_spec \<Rightarrow> detail" where
  "restriction_entry (DateBlackout i _) =
     DDict [(''filter_id'', DText i), (''filter_type'', DText ''date_blackout_filter'')]"
| "restriction_entry (MaxDailyLoss i _) =
     DDict [(''filter_id'', DText i), (''filter_type'', DText ''max_daily_loss_filter'')]"
| "restriction_entry (ConsecutiveLoss i _) =
     DDict [(''filter_id'', DText i), (''filter_type'', DText ''consecutive_loss_filter'')]"

fun strength_mode_value :: "strength_mode \<Rightarrow> string" where
  "strength_mode_value NoAdjustment = ''no_adjustment''"
| "strength_mode_value VolatilityAdjusted = ''volatility_adjusted''"
| "strength_mode_value TrendAdjusted = ''trend_adjusted''"
| "strength_mode_value DivergenceAdjusted = ''divergence_adjusted''"

fun timing_value :: "fill_timing \<Rightarrow> string" where
  "timing_value NextCandleOpen = ''next_candle_open''"
| "timing_value CurrentCandleClose = ''current_candle_close''"
| "timing_value NextCandleClose = ''next_candle_close''"
| "timing_value IntrabarTouch = ''intrabar_touch''"
| "timing_value LimitFillSimulation = ''limit_fill_simulation''"
| "timing_value StopLimitPrioritySimulation = ''stop_limit_priority_simulation''"
| "timing_value MarketFillSimulation = ''market_fill_simulation''"

fun order_type_value :: "order_type \<Rightarrow> string" where
  "order_type_value MarketOrder = ''market_order''"
| "order_type_value LimitOrder = ''limit_order''"
| "order_type_value StopOrder = ''stop_order''"
| "order_type_value StopLimitOrder = ''stop_limit_order''"
| "order_type_value SimulationOnly = ''simulation_only''"

fun price_rule_value :: "price_rule \<Rightarrow> string" where
  "price_rule_value EntrySignalPrice = ''entry_signal_price''"
| "price_rule_value BestBidAsk = ''best_bid_ask''"
| "price_rule_value SignalPriceMinusOffset = ''signal_price_minus_offset''"
| "price_rule_value SignalPricePlusOffset = ''signal_price_plus_offset''"

fun partial_policy_value :: "partial_fill_policy \<Rightarrow> string" where
  "partial_policy_value PartialNotAllowed = ''not_allowed''"
| "partial_policy_value PartialAllowed = ''allowed''"
| "partial_policy_value Minimum50Percent = ''minimum_50_percent''"
| "partial_policy_value FillRemainingAsMarket = ''fill_remaining_as_market''"
| "partial_policy_value CancelRemaining = ''cancel_remaining''"

fun requirement_value :: "stop_trigger_requirement \<Rightarrow> string" where
  "requirement_value AnyActive = ''any_active''"
| "requirement_value AllActive = ''all_active''"

fun resolution_value :: "stop_conflict_resolution \<Rightarrow> string" where
  "resolution_value FirstTriggerWins = ''first_trigger_wins''"
| "resolution_value MostConservative = ''most_conservative''"
| "resolution_value PriorityOrder = ''priority_order''"
| "resolution_value RecordAllExecuteHighest = ''record_all_execute_highest''"

definition opt_int :: "nat option \<Rightarrow> detail" where
  "opt_int n = (case n of None \<Rightarrow> DNone | Some x \<Rightarrow> DInt (int x))"

definition opt_dec :: "rat option \<Rightarrow> detail" where
  "opt_dec r = (case r of None \<Rightarrow> DNone | Some x \<Rightarrow> DDec x)"

definition opt_text :: "string option \<Rightarrow> detail" where
  "opt_text t = (case t of None \<Rightarrow> DNone | Some x \<Rightarrow> DText x)"

subsection \<open>The configuration of a run\<close>

record stepper_config =
  sx_direction_mode :: direction_mode
  sx_conflict :: conflict_handling
  sx_restriction_rule :: restriction_rule
  sx_restriction_min :: nat
  sx_restrictions :: "restriction_spec list"
  sx_restrictions_ok :: bool
  sx_validity :: order_validity
  sx_unfilled :: unfilled_policy
  sx_strength_mode :: strength_mode
  sx_price_scaling :: "price_distance_scaling option"
  sx_add_size :: add_size_basis

text \<open>The resolved indicator plan: its evaluators after the bars seen so far are a value of \<open>'v\<close>.\<close>

record 'v indicator_plan =
  ip_has_entry :: bool
  ip_update :: "bar \<Rightarrow> 'v \<Rightarrow> 'v"
  ip_entry :: "'v \<Rightarrow> string option"
  ip_exit :: "'v \<Rightarrow> bool"
  ip_scale :: "'v \<Rightarrow> string option"
  ip_stop_signals :: "'v \<Rightarrow> (string, string) dict"
  ip_exit_on_opposite :: bool
  ip_rule_snapshot :: "'v \<Rightarrow> detail"
  ip_stop_ids :: "string list"

record 'v stepper_env =
  se_ctx :: run_config
  se_extra :: stepper_config
  se_initial_capital :: rat
  se_rules :: "portfolio_rules option"
  se_fixture :: bool
  se_cap_amount :: "rat option"
  se_timeframe :: "string option"
  se_plan :: "'v indicator_plan option"
  se_funding :: "funding_schedule option"
  se_has_ticks :: bool
  se_parse :: parser
  se_clock :: "string \<Rightarrow> int option"
  se_epoch_ms :: "string \<Rightarrow> int option"
  se_date :: "string \<Rightarrow> int option"
  se_iso :: "int \<Rightarrow> string"

section \<open>Orders and the state\<close>

record pending_fill =
  pd_entry :: bool
  pd_at_open :: bool
  pd_target :: nat
  pd_direction :: string
  pd_reason :: string
  pd_strength :: rat

record working_limit =
  wl_direction :: string
  wl_limit_price :: rat
  wl_offset :: rat
  wl_price_rule :: price_rule
  wl_unfilled :: unfilled_policy
  wl_expires :: "nat option"
  wl_strength :: rat
  wl_remaining :: "rat option"
  wl_for_position :: "nat option"
  wl_placed :: "nat option"

text \<open>The fields of the limit leg of a stop order are set together or not at all.\<close>

record limit_leg =
  ll_price :: rat
  ll_offset :: rat
  ll_rule :: price_rule
  ll_unfilled :: unfilled_policy
  ll_validity :: "nat option"

record working_stop =
  ws_direction :: string
  ws_trigger_price :: rat
  ws_limit :: "limit_leg option"
  ws_strength :: rat

record 'v stepper =
  st_led :: run_ledger
  st_counts :: "string \<Rightarrow> nat"
  st_funding_paid :: rat
  st_evidence_missing :: bool
  st_bars_seen :: nat
  st_first_ts :: string
  st_last_bar :: "bar option"
  st_position :: "position option"
  st_position_seq :: nat
  st_pending :: "pending_fill option"
  st_limit :: "working_limit option"
  st_stop :: "working_stop option"
  st_exit_touch :: "(rat \<times> nat) option"
  st_funding_idx :: nat
  st_cursor :: "tick_cursor option"
  st_signals :: 'v
  st_window :: "bar list"
  st_bar_ticks :: "tick list"
  st_trades_before :: nat
  st_bar_date :: "int option"
  st_current_day :: "int option"
  st_entry_signal :: "string option"
  st_exit_hit :: bool
  st_scale_signal :: "string option"
  st_prev_entry_signal :: "string option"
  st_prev_scale_signal :: "string option"
  st_sizing_equity :: "rat option"

section \<open>Small operations\<close>

definition on_led :: "(run_ledger, 'a) st \<Rightarrow> ('v stepper, 'a) st" where
  "on_led m s = (let (r, l) = m (st_led s) in (r, s\<lparr>st_led := l\<rparr>))"

text \<open>A call on the books and the held position; without one the code fails on the attribute of \<open>None\<close>.\<close>

definition on_held :: "(run_books, 'a) st \<Rightarrow> ('v stepper, 'a) st" where
  "on_held m s = (case st_position s of
     None \<Rightarrow> (raise (Error_Class ''AttributeError''), s)
   | Some p \<Rightarrow> (let (r, (l, p')) = m (st_led s, p) in (r, s\<lparr>st_led := l, st_position := Some p'\<rparr>)))"

definition bump :: "string \<Rightarrow> ('v stepper, unit) st" where
  "bump k = smod (\<lambda>s. s\<lparr>st_counts := (st_counts s)(k := st_counts s k + 1)\<rparr>)"

definition emit :: "string \<Rightarrow> string \<Rightarrow> string option \<Rightarrow> (string, detail) dict \<Rightarrow> ('v stepper, unit) st" where
  "emit event_type event_time direction det = smod (\<lambda>s.
     s\<lparr>st_led := emit_event event_type event_time direction (int (st_bars_seen s)) det (st_led s)\<rparr>)"

definition set_block_reason :: "string \<Rightarrow> ('v stepper, unit) st" where
  "set_block_reason r = smod (\<lambda>s. s\<lparr>st_led := (st_led s)\<lparr>rl_portfolio_block_reason := Some r\<rparr>\<rparr>)"

abbreviation set_position :: "position option \<Rightarrow> ('v stepper, unit) st" where
  "set_position p \<equiv> smod (\<lambda>s. s\<lparr>st_position := p\<rparr>)"

abbreviation set_pending :: "pending_fill option \<Rightarrow> ('v stepper, unit) st" where
  "set_pending p \<equiv> smod (\<lambda>s. s\<lparr>st_pending := p\<rparr>)"

abbreviation set_limit :: "working_limit option \<Rightarrow> ('v stepper, unit) st" where
  "set_limit w \<equiv> smod (\<lambda>s. s\<lparr>st_limit := w\<rparr>)"

abbreviation set_stop :: "working_stop option \<Rightarrow> ('v stepper, unit) st" where
  "set_stop w \<equiv> smod (\<lambda>s. s\<lparr>st_stop := w\<rparr>)"

abbreviation set_exit_touch :: "(rat \<times> nat) option \<Rightarrow> ('v stepper, unit) st" where
  "set_exit_touch t \<equiv> smod (\<lambda>s. s\<lparr>st_exit_touch := t\<rparr>)"

abbreviation config_of :: "'v stepper_env \<Rightarrow> strategy_config" where
  "config_of E \<equiv> rc_config (se_ctx E)"

abbreviation costs_of :: "'v stepper_env \<Rightarrow> fill_costs" where
  "costs_of E \<equiv> rc_fill_costs (se_ctx E)"

abbreviation conflict_of :: "'v stepper_env \<Rightarrow> conflict_handling" where
  "conflict_of E \<equiv> sx_conflict (se_extra E)"

section \<open>Derived settings\<close>

definition plan_active :: "'v stepper_env \<Rightarrow> bool" where
  "plan_active E = (case se_plan E of None \<Rightarrow> False | Some pl \<Rightarrow> ip_has_entry pl)"

definition conflict_gate_on :: "portfolio_rules option \<Rightarrow> bool" where
  "conflict_gate_on rules = (case rules of None \<Rightarrow> False
     | Some r \<Rightarrow> (let token = upper (strip_opt (pr_conflict_policy r)) in
         token \<noteq> [] \<and> token \<noteq> ''KEEP_SEPARATE''))"

definition portfolio_cap_amount :: "portfolio_rules option \<Rightarrow> rat \<Rightarrow> rat option res" where
  "portfolio_cap_amount rules capital = (case rules of None \<Rightarrow> ok None
     | Some r \<Rightarrow>
         if pr_exposure_percent_invalid r then ok (Some 0)
         else (case pr_max_total_exposure_percent r of None \<Rightarrow> ok None
           | Some pct \<Rightarrow> rbind (quantize 2 (dquo (dmul capital pct) 100)) (\<lambda>x. ok (Some x))))"

definition entry_sched :: "'v stepper_env \<Rightarrow> fill_schedule" where
  "entry_sched E = fill_schedule_of (em_entry_timing (cf_execution (config_of E)))"

definition exit_sched :: "'v stepper_env \<Rightarrow> fill_schedule" where
  "exit_sched E = fill_schedule_of (em_exit_timing (cf_execution (config_of E)))"

definition order_ok :: "'v stepper_env \<Rightarrow> bool" where
  "order_ok E = order_execution_is_modelled (config_of E)"

definition order_is_limit :: "'v stepper_env \<Rightarrow> bool" where
  "order_is_limit E = (oc_type (cf_order_config (config_of E)) = LimitOrder \<and> order_ok E)"

definition order_is_stop :: "'v stepper_env \<Rightarrow> bool" where
  "order_is_stop E = (oc_type (cf_order_config (config_of E)) \<in> {StopOrder, StopLimitOrder} \<and> order_ok E)"

definition tick_entry_authority :: "'v stepper_env \<Rightarrow> bool" where
  "tick_entry_authority E = (em_entry_timing (cf_execution (config_of E)) \<in> set tick_entry_timings)"

definition stop_limit_sim :: "'v stepper_env \<Rightarrow> bool" where
  "stop_limit_sim E = (em_exit_timing (cf_execution (config_of E)) = StopLimitPrioritySimulation)"

definition partial_policy :: "'v stepper_env \<Rightarrow> partial_fill_policy" where
  "partial_policy E = (case oc_limit (cf_order_config (config_of E)) of
     None \<Rightarrow> PartialNotAllowed
   | Some l \<Rightarrow> if oc_type (cf_order_config (config_of E)) \<in> set limit_backed_order_types
       then lo_partial_fill_policy l else PartialNotAllowed)"

definition partial_active :: "'v stepper_env \<Rightarrow> bool" where
  "partial_active E = (partial_policy E \<noteq> PartialNotAllowed \<and> order_ok E)"

definition close_fraction :: "'v stepper_env \<Rightarrow> rat" where
  "close_fraction E = (let x = cf_position_exit_logic (config_of E) in
     if pe_partial_aftermath x = CloseAll then 1
     else if partial_close_is_modelled (config_of E) then dquo (pe_close_percentage x) 100 else 1)"

definition entry_gates_ok :: "'v stepper_env \<Rightarrow> bool" where
  "entry_gates_ok E \<longleftrightarrow> execution_timing_is_modelled (config_of E) \<and> order_ok E \<and>
     partial_close_is_modelled (config_of E) \<and> scaling_is_modelled (config_of E) \<and>
     sx_restrictions_ok (se_extra E) \<and> conflict_handling_is_modelled (conflict_of E)"

definition size_gates_ok :: "'v stepper_env \<Rightarrow> bool" where
  "size_gates_ok E \<longleftrightarrow> rc_capability_ok (se_ctx E) \<and> rc_sizing_ok (se_ctx E) \<and>
     rc_leverage_ok (se_ctx E) \<and> rc_strength_ok (se_ctx E)"

definition strength_active :: "'v stepper_env \<Rightarrow> bool" where
  "strength_active E = (rc_strength_ok (se_ctx E) \<and> sx_strength_mode (se_extra E) = VolatilityAdjusted)"

section \<open>Signal strength and restrictions\<close>

definition breakout_window :: nat where
  "breakout_window = 20"

fun mean_relative_range_loop :: "bar list \<Rightarrow> rat \<Rightarrow> rat option" where
  "mean_relative_range_loop [] acc = Some acc"
| "mean_relative_range_loop (b # bs) acc =
     (if br_close b \<le> 0 then None
      else mean_relative_range_loop bs (dadd acc (dquo (dsub (br_high b) (br_low b)) (br_close b))))"

definition mean_relative_range :: "bar list \<Rightarrow> rat" where
  "mean_relative_range bs = (case mean_relative_range_loop bs 0 of
     None \<Rightarrow> 0 | Some t \<Rightarrow> dquo t (of_nat (length bs)))"

definition volatility_strength :: "bar list \<Rightarrow> rat res" where
  "volatility_strength history =
     (if length history < breakout_window then ok 1
      else let recent = drop (length history - breakout_window) history;
               long_vol = mean_relative_range recent;
               short_vol = mean_relative_range (drop (length recent - 5) recent) in
        if long_vol \<le> 0 \<or> short_vol \<le> 0 then ok 1
        else rbind (quantize 4 (dquo long_vol short_vol)) (\<lambda>r. ok (min (max r (1 / 2)) 2)))"

definition strength_value :: "'v stepper_env \<Rightarrow> bar \<Rightarrow> 'v stepper \<Rightarrow> rat res" where
  "strength_value E b s = (if \<not> strength_active E then ok 1 else volatility_strength (st_window s @ [b]))"

definition signal_strength :: "'v stepper_env \<Rightarrow> bar \<Rightarrow> ('v stepper, rat) st" where
  "signal_strength E b = sbind sget (\<lambda>s.
     sbind (slift (strength_value E b s)) (\<lambda>m.
     sbind (if m \<noteq> 1 then bump ''strength_adjustments'' else sret ()) (\<lambda>_. sret m)))"

text \<open>The restriction filters that are active at this bar; an unreadable date is in every blackout.\<close>

definition restriction_hit :: "'v stepper_env \<Rightarrow> 'v stepper \<Rightarrow> restriction_spec \<Rightarrow> bool" where
  "restriction_hit E s spec = (case spec of
     DateBlackout i ranges \<Rightarrow> (case st_bar_date s of
         None \<Rightarrow> True | Some d \<Rightarrow> (\<exists>(a, b) \<in> set ranges. a \<le> d \<and> d \<le> b))
   | MaxDailyLoss i limit \<Rightarrow>
       rl_day_realized (st_led s) \<le> dneg (dquo (dmul (se_initial_capital E) limit) 100)
   | ConsecutiveLoss i n \<Rightarrow> rl_loss_streak (st_led s) \<ge> n)"

definition active_restrictions :: "'v stepper_env \<Rightarrow> 'v stepper \<Rightarrow> restriction_spec list" where
  "active_restrictions E s = filter (restriction_hit E s) (sx_restrictions (se_extra E))"

definition restrictions_block :: "'v stepper_env \<Rightarrow> restriction_spec list \<Rightarrow> bool" where
  "restrictions_block E active =
     (if sx_restrictions (se_extra E) = [] then False
      else case sx_restriction_rule (se_extra E) of
        AllRestrictions \<Rightarrow> length active = length (sx_restrictions (se_extra E))
      | MinNOfM \<Rightarrow> length active \<ge> sx_restriction_min (se_extra E)
      | AnyRestriction \<Rightarrow> active \<noteq> [])"

section \<open>What an entry event records\<close>

definition entry_rule_snapshot :: "'v stepper_env \<Rightarrow> 'v stepper \<Rightarrow> string \<Rightarrow> detail" where
  "entry_rule_snapshot E s want = (case se_plan E of
     Some pl \<Rightarrow> if ip_has_entry pl then ip_rule_snapshot pl (st_signals s)
       else DDict [(''mode'', DText ''breakout_proxy''), (''window'', DInt (int breakout_window)),
                   (''direction'', DText want)]
   | None \<Rightarrow> DDict [(''mode'', DText ''breakout_proxy''), (''window'', DInt (int breakout_window)),
                   (''direction'', DText want)])"

definition strength_detail :: "'v stepper_env \<Rightarrow> rat \<Rightarrow> (string, detail) dict" where
  "strength_detail E multiplier = (if strength_active E
     then [(''signal_strength'', DDict [(''mode'', DText (strength_mode_value (sx_strength_mode (se_extra E)))),
             (''multiplier'', DDec multiplier)])]
     else [])"

end
