(* ===== verification/Stepper.thy ===== *)
theory Stepper
  imports Stepper_State
begin

text \<open>
  The operations of one item's bar by bar replay (\<^verbatim>\<open>domain/backtest/engine.py\<close>, the functions inside
  \<open>_build_stepper\<close>) in the order of the code: closing and opening a position, the resting orders, the
  phases of a bar, the end of the data and \<open>run_engine\<close>.
\<close>

section \<open>Closing\<close>

definition close_held :: "'v stepper_env \<Rightarrow> string \<Rightarrow> rat \<Rightarrow> string \<Rightarrow> rat \<Rightarrow> ('v stepper, bool) st" where
  "close_held E exit_time price_raw reason fraction = sbind sget (\<lambda>s.
     on_held (close_run_position (costs_of E) exit_time price_raw reason (int (st_bars_seen s)) fraction))"

definition held_aftermath :: "'v stepper_env \<Rightarrow> rat \<Rightarrow> ('v stepper, unit) st" where
  "held_aftermath E price_raw =
     sbind (on_held (\<lambda>(led, p).
       (let (r, p') = apply_partial_aftermath price_raw (pe_partial_aftermath (cf_position_exit_logic (config_of E)))
              (fc_half_spread (costs_of E)) (fc_slippage (costs_of E)) p in (r, (led, p'))))) (\<lambda>locked.
     if locked then bump ''lock_in_locks'' else sret ())"

text \<open>The exit signal's close: the whole position, or its fraction with the remainder's protection.\<close>

definition close_signal :: "'v stepper_env \<Rightarrow> string \<Rightarrow> rat \<Rightarrow> string \<Rightarrow> ('v stepper, unit) st" where
  "close_signal E exit_time price_raw reason =
     sbind (close_held E exit_time price_raw reason (close_fraction E)) (\<lambda>full.
     if full then set_position None else held_aftermath E price_raw)"

definition close_all :: "'v stepper_env \<Rightarrow> string \<Rightarrow> rat \<Rightarrow> string \<Rightarrow> ('v stepper, unit) st" where
  "close_all E exit_time price_raw reason =
     sbind (close_held E exit_time price_raw reason 1) (\<lambda>_. set_position None)"

section \<open>Opening\<close>

definition entry_planned_size :: "'v stepper_env \<Rightarrow> string \<Rightarrow> rat \<Rightarrow> rat \<Rightarrow> ('v stepper, rat) st" where
  "entry_planned_size E direction fill_raw strength = sbind sget (\<lambda>s.
     slift (planned_size (se_parse E) (se_ctx E) (st_led s) direction fill_raw strength (st_sizing_equity s)))"

text \<open>The instant the rules are asked about; only computed when there are rules.\<close>

definition rules_instant :: "'v stepper_env \<Rightarrow> bar \<Rightarrow> int option" where
  "rules_instant E b = (if se_rules E = None then None else se_epoch_ms E (br_timestamp b))"

definition conflict_gate :: "'v stepper_env \<Rightarrow> string \<Rightarrow> bar \<Rightarrow> ('v stepper, bool) st" where
  "conflict_gate E direction b = (case se_rules E of
     None \<Rightarrow> sret False
   | Some rules \<Rightarrow> if conflict_gate_on (Some rules)
       then on_led (conflicts_with_prior rules direction (rules_instant E b)) else sret False)"

definition portfolio_headroom :: "'v stepper_env \<Rightarrow> bar \<Rightarrow> ('v stepper, rat option) st" where
  "portfolio_headroom E b = (case (se_rules E, se_cap_amount E) of
     (Some rules, Some cap) \<Rightarrow>
       sbind (on_led (prior_exposure_at rules (rules_instant E b))) (\<lambda>x. sret (Some (dsub cap x)))
   | _ \<Rightarrow> sret None)"

definition exposure_gate :: "'v stepper_env \<Rightarrow> bar \<Rightarrow> rat \<Rightarrow> rat \<Rightarrow> ('v stepper, rat option) st" where
  "exposure_gate E b entry_eff sz =
     sbind (portfolio_headroom E b) (\<lambda>room. case room of
       None \<Rightarrow> sret (Some sz)
     | Some headroom \<Rightarrow>
         sbind (slift (if headroom > 0 \<and> entry_eff > 0 then quantize 8 (dquo headroom entry_eff) else ok 0)) (\<lambda>allowed.
         if sz > allowed then
           (if allowed \<le> 0 then
              sbind (bump ''portfolio_exposure_blocked_entries'') (\<lambda>_.
              sbind (set_block_reason ''portfolio_max_total_exposure'') (\<lambda>_. sret None))
            else sbind (bump ''portfolio_exposure_clamped_entries'') (\<lambda>_. sret (Some allowed)))
         else sret (Some sz)))"

definition fresh_position ::
    "'v stepper_env \<Rightarrow> nat \<Rightarrow> nat \<Rightarrow> string \<Rightarrow> bar \<Rightarrow> rat \<Rightarrow> rat \<Rightarrow> rat \<Rightarrow> rat \<Rightarrow> position" where
  "fresh_position E seq bar_seq direction b fill_raw entry_eff sz notional =
     \<lparr>ps_position_seq = seq, ps_entry_bar_seq = int bar_seq, ps_direction = direction,
      ps_entry_time = br_timestamp b, ps_entry_price = entry_eff, ps_size = sz,
      ps_pct_stop = pct_stop_level (config_of E) (direction = ''long'') entry_eff,
      ps_abs_stop = abs_stop_level (config_of E), ps_trail_pct = trail_pct (config_of E),
      ps_trail_anchor = fill_raw, ps_entry_notional = notional,
      ps_trail_lock_in_pct = trail_lock_in_pct (config_of E), ps_initial_size = sz,
      ps_layers_filled = 0, ps_scale_reference = fill_raw,
      ps_scale_layer_bucket = layer_bucket (se_epoch_ms E (br_timestamp b))
        (layer_timeframe (config_of E) 0 (se_timeframe E)),
      ps_peak_notional = notional\<rparr>"

definition size_zero_reason :: string where
  "size_zero_reason = ''size_resolved_to_zero''"

definition open_position_run ::
    "'v stepper_env \<Rightarrow> string \<Rightarrow> bar \<Rightarrow> rat \<Rightarrow> rat \<Rightarrow> rat option \<Rightarrow> ('v stepper, position option) st" where
  "open_position_run E direction b fill_raw strength size_override =
     (if \<not> size_gates_ok E then sret None
      else sbind (conflict_gate E direction b) (\<lambda>conflict.
        if conflict then
          sbind (bump ''portfolio_conflict_blocked_entries'') (\<lambda>_.
          sbind (set_block_reason ''portfolio_conflict_blocked'') (\<lambda>_. sret None))
        else
          sbind (slift (effective_fill fill_raw (direction = ''long'')
              (fc_half_spread (costs_of E)) (fc_slippage (costs_of E)))) (\<lambda>entry_eff.
          sbind (entry_planned_size E direction fill_raw strength) (\<lambda>planned.
          if planned \<le> 0 then
            sbind (if rc_alloc_on (se_ctx E) then sret () else set_block_reason size_zero_reason) (\<lambda>_. sret None)
          else
            sbind (exposure_gate E b entry_eff planned) (\<lambda>granted. case granted of
              None \<Rightarrow> sret None
            | Some g \<Rightarrow>
                (let sz = (case size_override of None \<Rightarrow> g | Some x \<Rightarrow> min g x) in
                 sbind (smod (\<lambda>s. s\<lparr>st_position_seq := st_position_seq s + 1\<rparr>)) (\<lambda>_.
                 sbind (slift (quantize 2 (dmul entry_eff sz))) (\<lambda>notional.
                 sbind sget (\<lambda>s.
                 sret (Some (fresh_position E (st_position_seq s) (st_bars_seen s) direction b fill_raw
                   entry_eff sz notional)))))))))))"

text \<open>\<open>led.equity = (led.equity - f).quantize(_MONEY)\<close>\<close>

definition deduct :: "rat \<Rightarrow> ('v stepper, unit) st" where
  "deduct f = sbind sget (\<lambda>s.
     sbind (slift (quantize 2 (dsub (rl_equity (st_led s)) f))) (\<lambda>e.
     smod (\<lambda>s. s\<lparr>st_led := (st_led s)\<lparr>rl_equity := e\<rparr>\<rparr>)))"

definition charge_entry :: "'v stepper_env \<Rightarrow> position \<Rightarrow> ('v stepper, unit) st" where
  "charge_entry E p = (if fc_commission (costs_of E) > 0
     then sbind (slift (fee (costs_of E) (ps_entry_notional p))) deduct else sret ())"

definition open_filled ::
    "'v stepper_env \<Rightarrow> string \<Rightarrow> bar \<Rightarrow> bool \<Rightarrow> (string, detail) dict \<Rightarrow> position \<Rightarrow> ('v stepper, unit) st" where
  "open_filled E direction b deferred extra p =
     sbind (charge_entry E p) (\<lambda>_.
     sbind (emit ''entry_fill'' (br_timestamp b) (Some direction)
       ([(''position_seq'', DInt (int (ps_position_seq p))), (''fill_price'', DDec (ps_entry_price p)),
         (''size'', DDec (ps_size p)), (''entry_notional'', DDec (ps_entry_notional p)),
         (''timing'', DText (timing_value (em_entry_timing (cf_execution (config_of E))))),
         (''order_type'', DText (order_type_value (oc_type (cf_order_config (config_of E))))),
         (''deferred'', DBool deferred)] @ extra)) (\<lambda>_.
     set_position (Some p)))"

definition open_blocked :: "'v stepper_env \<Rightarrow> string \<Rightarrow> bar \<Rightarrow> bool \<Rightarrow> ('v stepper, unit) st" where
  "open_blocked E direction b deferred =
     sbind (on_led (blocked_reason (se_ctx E))) (\<lambda>reason.
     sbind (emit ''entry_blocked'' (br_timestamp b) (Some direction)
       [(''reason'', DText reason), (''deferred'', DBool deferred)]) (\<lambda>_.
     set_position None))"

text \<open>
  \<open>_do_open\<close>: the entry's commission leaves the equity at once, the outcome is recorded, and the caller
  assigns the position. Every caller assigns it, so the assignment is part of the operation here.
\<close>

definition do_open ::
    "'v stepper_env \<Rightarrow> string \<Rightarrow> bar \<Rightarrow> rat \<Rightarrow> bool \<Rightarrow> rat \<Rightarrow> rat option \<Rightarrow> (string, detail) dict
     \<Rightarrow> ('v stepper, unit) st" where
  "do_open E direction b fill_raw deferred strength size_override extra =
     sbind (open_position_run E direction b fill_raw strength size_override) (\<lambda>opened. case opened of
       None \<Rightarrow> open_blocked E direction b deferred
     | Some p \<Rightarrow> open_filled E direction b deferred extra p)"

section \<open>Resting orders\<close>

abbreviation mark_evidence_missing :: "('v stepper, unit) st" where
  "mark_evidence_missing \<equiv> smod (\<lambda>s. s\<lparr>st_evidence_missing := True\<rparr>)"

abbreviation bump_partial_fills :: "('v stepper, unit) st" where
  "bump_partial_fills \<equiv> smod (\<lambda>s. s\<lparr>st_led := (st_led s)\<lparr>rl_partial_fills := rl_partial_fills (st_led s) + 1\<rparr>\<rparr>)"

abbreviation swhen :: "bool \<Rightarrow> ('s, unit) st \<Rightarrow> ('s, unit) st" where
  "swhen c m \<equiv> (if c then m else sret ())"

definition limit_cancel_detail :: "string \<Rightarrow> working_limit \<Rightarrow> (string, detail) dict" where
  "limit_cancel_detail reason wl =
     [(''reason'', DText reason), (''unfilled_policy'', DText (unfilled_value (wl_unfilled wl))),
      (''limit_price'', DDec (wl_limit_price wl))] @
     (case wl_remaining wl of None \<Rightarrow> [] | Some r \<Rightarrow> [(''remaining_size'', DDec r)])"

definition absorb_held :: "'v stepper_env \<Rightarrow> bar \<Rightarrow> rat \<Rightarrow> rat \<Rightarrow> string \<Rightarrow> ('v stepper, unit) st" where
  "absorb_held E b price_raw add_size action = sbind sget (\<lambda>s.
     on_held (absorb_remainder (costs_of E) b price_raw add_size action (int (st_bars_seen s))
       (partial_policy_value (partial_policy E))))"

text \<open>What happens to the part of a resting order the prints did not fill.\<close>

definition dispose_remainder ::
    "'v stepper_env \<Rightarrow> working_limit \<Rightarrow> bar \<Rightarrow> rat \<Rightarrow> partial_fill_decision \<Rightarrow> ('v stepper, unit) st" where
  "dispose_remainder E wl b planned d = sbind sget (\<lambda>s. case st_position s of
     None \<Rightarrow> set_limit None
   | Some p \<Rightarrow>
       (let det = (\<lambda>action. [(''position_seq'', DInt (int (ps_position_seq p))),
              (''policy'', DText (partial_policy_value (partial_policy E))), (''planned_size'', DDec planned),
              (''filled_size'', DDec (pf_filled_size d)), (''remaining_size'', DDec (pf_remainder d)),
              (''limit_price'', DDec (wl_limit_price wl)), (''action'', DText action)]);
            tell = (\<lambda>action. emit ''partial_fill'' (br_timestamp b) (Some (wl_direction wl)) (det action)) in
        sbind bump_partial_fills (\<lambda>_.
        if partial_policy E = CancelRemaining then
          sbind (set_limit None) (\<lambda>_. tell ''remainder_cancelled'')
        else if partial_policy E = FillRemainingAsMarket then
          sbind (tell ''remainder_market_filled'') (\<lambda>_.
          sbind (absorb_held E b (br_close b) (pf_remainder d) ''market_remainder'') (\<lambda>_. set_limit None))
        else
          sbind (smod (\<lambda>s. s\<lparr>st_limit := map_option (\<lambda>w. w\<lparr>wl_remaining := Some (pf_remainder d),
              wl_for_position := Some (ps_position_seq p), wl_placed := Some (st_bars_seen s)\<rparr>) (st_limit s)\<rparr>)) (\<lambda>_.
          tell ''remainder_resting''))))"

definition fill_resting_limit ::
    "'v stepper_env \<Rightarrow> working_limit \<Rightarrow> bar \<Rightarrow> tick list \<Rightarrow> bool \<Rightarrow> ('v stepper, unit) st" where
  "fill_resting_limit E wl b prints armed_same_bar =
     (let extra = (if prints \<noteq> [] then [(''tick_resolved'', DBool True)] else []) @
            (if armed_same_bar then [(''same_bar_stop_limit'', DBool True)] else []) in
      sbind (entry_planned_size E (wl_direction wl) (wl_limit_price wl) (wl_strength wl)) (\<lambda>planned.
      let d = decide_partial_fill planned prints (partial_active E) (partial_policy E) in
      sbind (swhen (pf_evidence_missing d) mark_evidence_missing) (\<lambda>_.
      if pf_outcome d = ''full'' then
        sbind (bump ''limit_orders_filled'') (\<lambda>_.
        sbind (swhen (prints \<noteq> []) (bump ''tick_resolved_entry_fills'')) (\<lambda>_.
        sbind (swhen armed_same_bar (bump ''same_bar_stop_limit_fills'')) (\<lambda>_.
        sbind (do_open E (wl_direction wl) b (wl_limit_price wl) True (wl_strength wl) None extra) (\<lambda>_.
        set_limit None))))
      else if pf_outcome d = ''rejected_below_minimum'' then
        sbind bump_partial_fills (\<lambda>_.
        emit ''partial_fill'' (br_timestamp b) (Some (wl_direction wl))
          [(''policy'', DText (partial_policy_value (partial_policy E))),
           (''action'', DText ''rejected_below_minimum''), (''planned_size'', DDec planned),
           (''available_size'', DDec (pf_filled_size d)), (''limit_price'', DDec (wl_limit_price wl))])
      else
        sbind (bump ''limit_orders_filled'') (\<lambda>_.
        sbind (bump ''tick_resolved_entry_fills'') (\<lambda>_.
        sbind (swhen armed_same_bar (bump ''same_bar_stop_limit_fills'')) (\<lambda>_.
        sbind (do_open E (wl_direction wl) b (wl_limit_price wl) True (wl_strength wl)
            (Some (pf_filled_size d)) (extra @ [(''partial_fill'', DBool True)])) (\<lambda>_.
        dispose_remainder E wl b planned d)))))))"

definition limit_expired :: "working_limit \<Rightarrow> nat \<Rightarrow> bool" where
  "limit_expired wl bars = (case wl_expires wl of None \<Rightarrow> False | Some e \<Rightarrow> bars \<ge> e)"

definition cancel_limit :: "string \<Rightarrow> string \<Rightarrow> working_limit \<Rightarrow> ('v stepper, unit) st" where
  "cancel_limit event_time reason wl =
     sbind (bump ''limit_orders_cancelled'') (\<lambda>_.
     sbind (emit ''limit_order_cancelled'' event_time (Some (wl_direction wl)) (limit_cancel_detail reason wl)) (\<lambda>_.
     set_limit None))"

definition reprice_limit :: "bar \<Rightarrow> ('v stepper, unit) st" where
  "reprice_limit b = smod (\<lambda>s. s\<lparr>st_limit := map_option (\<lambda>w.
     w\<lparr>wl_limit_price := limit_price (wl_price_rule w) (br_close b) (wl_offset w)\<rparr>) (st_limit s)\<rparr>)"

section \<open>Fills at the open\<close>

text \<open>A fill deferred to this bar, at its open or at its close.\<close>

definition fill_pending :: "'v stepper_env \<Rightarrow> bar \<Rightarrow> bool \<Rightarrow> ('v stepper, unit) st" where
  "fill_pending E b at_open = sbind sget (\<lambda>s. case st_pending s of
     None \<Rightarrow> sret ()
   | Some p \<Rightarrow>
       (if pd_target p \<noteq> st_bars_seen s \<or> pd_at_open p \<noteq> at_open then sret ()
        else (let price = (if at_open then br_open b else br_close b) in
          sbind (if pd_entry p \<and> st_position s = None then
              sbind (bump ''deferred_entry_fills'') (\<lambda>_. do_open E (pd_direction p) b price True (pd_strength p) None [])
            else if \<not> pd_entry p \<and> st_position s \<noteq> None then
              sbind (bump ''deferred_exit_fills'') (\<lambda>_. close_signal E (br_timestamp b) price (pd_reason p))
            else sret ()) (\<lambda>_. set_pending None))))"

text \<open>A whole resting limit order: touched, expired or priced anew.\<close>

definition limit_touch :: "'v stepper_env \<Rightarrow> bar \<Rightarrow> ('v stepper, unit) st" where
  "limit_touch E b = sbind sget (\<lambda>s. case st_limit s of
     None \<Rightarrow> sret ()
   | Some wl \<Rightarrow>
       if wl_remaining wl \<noteq> None \<or> st_position s \<noteq> None then sret ()
       else (let (touched, prints) = limit_touch_evidence (wl_limit_price wl) (wl_direction wl) b
                (st_bar_ticks s) (tick_entry_authority E) in
         sbind (swhen touched (fill_resting_limit E wl b prints False)) (\<lambda>_.
         sbind sget (\<lambda>s'. if st_limit s' = None \<or> st_position s' \<noteq> None then sret ()
           else if limit_expired wl (st_bars_seen s') then
             (if wl_unfilled wl = ConvertToMarketOrder then
                sbind (bump ''limit_orders_filled'') (\<lambda>_.
                sbind (do_open E (wl_direction wl) b (br_close b) True (wl_strength wl) None []) (\<lambda>_. set_limit None))
              else cancel_limit (br_timestamp b) ''validity_expired'' wl)
           else swhen (wl_unfilled wl = RePriceNextCandle) (reprice_limit b)))))"

text \<open>The resting remainder of a partly filled order tops its own position up.\<close>

definition top_up_remainder ::
    "'v stepper_env \<Rightarrow> bar \<Rightarrow> working_limit \<Rightarrow> rat \<Rightarrow> tick list \<Rightarrow> ('v stepper, rat) st" where
  "top_up_remainder E b wl remaining prints =
     (let sized = filter (\<lambda>t. tk_size t \<noteq> None) prints;
          top_up = (if sized \<noteq> [] then min remaining (dsum_list (List.map_filter tk_size sized)) else remaining) in
      sbind (swhen (prints \<noteq> [] \<and> sized = []) mark_evidence_missing) (\<lambda>_.
      if top_up > 0 then
        sbind (absorb_held E b (wl_limit_price wl) top_up ''remainder_touch'') (\<lambda>_.
        (let left = dsub remaining top_up in
         sbind (if left \<le> 0 then set_limit None
           else smod (\<lambda>s. s\<lparr>st_limit := map_option (\<lambda>w. w\<lparr>wl_remaining := Some left,
              wl_placed := Some (st_bars_seen s)\<rparr>) (st_limit s)\<rparr>)) (\<lambda>_. sret left)))
      else sret remaining))"

definition limit_remainder :: "'v stepper_env \<Rightarrow> bar \<Rightarrow> ('v stepper, unit) st" where
  "limit_remainder E b = sbind sget (\<lambda>s. case st_limit s of
     None \<Rightarrow> sret ()
   | Some wl \<Rightarrow> (case wl_remaining wl of
       None \<Rightarrow> sret ()
     | Some remaining \<Rightarrow>
         if (case st_position s of None \<Rightarrow> True | Some p \<Rightarrow> Some (ps_position_seq p) \<noteq> wl_for_position wl)
         then cancel_limit (br_timestamp b) ''position_closed'' wl
         else if (case wl_placed wl of None \<Rightarrow> True | Some q \<Rightarrow> st_bars_seen s \<le> q) then sret ()
         else (let (touched, prints) = limit_touch_evidence (wl_limit_price wl) (wl_direction wl) b
                  (st_bar_ticks s) (tick_entry_authority E) in
           sbind (if touched then top_up_remainder E b wl remaining prints else sret remaining) (\<lambda>left.
           sbind sget (\<lambda>s'. case st_limit s' of
             None \<Rightarrow> sret ()
           | Some wl' \<Rightarrow>
               if limit_expired wl' (st_bars_seen s') then
                 (if wl_unfilled wl' = ConvertToMarketOrder then
                    sbind (absorb_held E b (br_close b) left ''remainder_validity_market'') (\<lambda>_. set_limit None)
                  else cancel_limit (br_timestamp b) ''partial_remainder_expired'' wl')
               else swhen (wl_unfilled wl' = RePriceNextCandle) (reprice_limit b))))))"

text \<open>A stop order arms its limit leg, or fills at the gap adjusted trigger.\<close>

definition arm_limit_leg :: "'v stepper_env \<Rightarrow> bar \<Rightarrow> working_stop \<Rightarrow> limit_leg \<Rightarrow> ('v stepper, unit) st" where
  "arm_limit_leg E b ws leg = sbind sget (\<lambda>s.
     let armed = \<lparr>wl_direction = ws_direction ws, wl_limit_price = ll_price leg, wl_offset = ll_offset leg,
            wl_price_rule = ll_rule leg, wl_unfilled = ll_unfilled leg,
            wl_expires = map_option (\<lambda>n. st_bars_seen s + n) (ll_validity leg), wl_strength = ws_strength ws,
            wl_remaining = None, wl_for_position = None, wl_placed = None\<rparr> in
     sbind (set_limit (Some armed)) (\<lambda>_.
     sbind (bump ''limit_orders_placed'') (\<lambda>_.
     sbind (emit ''stop_order_triggered'' (br_timestamp b) (Some (ws_direction ws))
       [(''trigger_price'', DDec (ws_trigger_price ws)),
        (''order_type'', DText (order_type_value (oc_type (cf_order_config (config_of E))))),
        (''limit_price'', DDec (ll_price leg))]) (\<lambda>_.
     sbind (emit ''limit_order_placed'' (br_timestamp b) (Some (ws_direction ws))
       [(''limit_price'', DDec (ll_price leg)), (''price_rule'', DText (price_rule_value (ll_rule leg))),
        (''unfilled_policy'', DText (unfilled_value (ll_unfilled leg))),
        (''expires_bar_seq'', opt_int (wl_expires armed)), (''armed_by'', DText ''stop_order_triggered'')]) (\<lambda>_.
     if \<not> stop_limit_sim E \<or> st_bar_ticks s = [] then sret ()
     else (case first_trigger_index (st_bar_ticks s) (ws_trigger_price ws) (ws_direction ws = ''long'') of
         None \<Rightarrow> sret ()
       | Some i \<Rightarrow>
           (let after = touching_ticks (drop (i + 1) (st_bar_ticks s)) (ll_price leg) (ws_direction ws = ''long'') in
            swhen (after \<noteq> []) (fill_resting_limit E armed b after True))))))))"

definition stop_trigger :: "'v stepper_env \<Rightarrow> bar \<Rightarrow> ('v stepper, unit) st" where
  "stop_trigger E b = sbind sget (\<lambda>s. case st_stop s of
     None \<Rightarrow> sret ()
   | Some ws \<Rightarrow>
       if st_position s \<noteq> None then sret ()
       else if \<not> (if ws_direction ws = ''long'' then br_high b \<ge> ws_trigger_price ws
                  else br_low b \<le> ws_trigger_price ws) then sret ()
       else sbind (bump ''stop_orders_triggered'') (\<lambda>_.
         sbind (case ws_limit ws of
             None \<Rightarrow>
               (let price = (if ws_direction ws = ''long'' then max (ws_trigger_price ws) (br_open b)
                             else min (ws_trigger_price ws) (br_open b)) in
                sbind (emit ''stop_order_triggered'' (br_timestamp b) (Some (ws_direction ws))
                  [(''trigger_price'', DDec (ws_trigger_price ws)),
                   (''order_type'', DText (order_type_value (oc_type (cf_order_config (config_of E))))),
                   (''fill_price'', DDec price)]) (\<lambda>_.
                do_open E (ws_direction ws) b price True (ws_strength ws) None []))
           | Some leg \<Rightarrow> arm_limit_leg E b ws leg) (\<lambda>_. set_stop None)))"

definition phase_open_fills :: "'v stepper_env \<Rightarrow> bar \<Rightarrow> ('v stepper, unit) st" where
  "phase_open_fills E b =
     sbind (fill_pending E b True) (\<lambda>_.
     sbind (limit_touch E b) (\<lambda>_.
     sbind (limit_remainder E b) (\<lambda>_. stop_trigger E b)))"

section \<open>Admitting a bar\<close>

definition roll_day :: "'v stepper_env \<Rightarrow> bar \<Rightarrow> ('v stepper, unit) st" where
  "roll_day E b = smod (\<lambda>s.
     if sx_restrictions (se_extra E) = [] then s\<lparr>st_bar_date := None\<rparr>
     else (case se_date E (br_timestamp b) of
         None \<Rightarrow> s\<lparr>st_bar_date := None\<rparr>
       | Some d \<Rightarrow> if st_current_day s = Some d then s\<lparr>st_bar_date := Some d\<rparr>
           else s\<lparr>st_bar_date := Some d, st_current_day := Some d,
                 st_led := (st_led s)\<lparr>rl_day_realized := 0\<rparr>\<rparr>))"

definition read_signals :: "'v stepper_env \<Rightarrow> bar \<Rightarrow> ('v stepper, unit) st" where
  "read_signals E b = smod (\<lambda>s. case se_plan E of
     None \<Rightarrow> s\<lparr>st_entry_signal := None, st_exit_hit := False\<rparr>
   | Some pl \<Rightarrow> (let v = ip_update pl b (st_signals s) in
       s\<lparr>st_signals := v, st_entry_signal := (if ip_has_entry pl then ip_entry pl v else None),
         st_exit_hit := (ip_has_entry pl \<and> ip_exit pl v), st_scale_signal := ip_scale pl v\<rparr>))"

definition flat_collision :: "'v stepper_env \<Rightarrow> bar \<Rightarrow> ('v stepper, unit) st" where
  "flat_collision E b = sbind sget (\<lambda>s.
     if st_position s = None \<and> st_entry_signal s \<noteq> None \<and> st_exit_hit s then
       (let admits = (ch_same_candle (conflict_of E) = ExitFirst) in
        sbind (emit ''entry_exit_collision'' (br_timestamp b) (st_entry_signal s)
          [(''policy'', DText (same_candle_value (ch_same_candle (conflict_of E)))),
           (''resolution'', DText (if admits then ''flat_exit_noop_then_entry'' else ''ambiguous_entry_suppressed'')),
           (''intrabar_order_available'', DBool False)]) (\<lambda>_.
        if admits then sret ()
        else sbind (bump ''suppressed_entries'') (\<lambda>_. smod (\<lambda>s. s\<lparr>st_entry_signal := None\<rparr>))))
     else sret ())"

definition read_bar_ticks :: "'v stepper_env \<Rightarrow> bar \<Rightarrow> ('v stepper, unit) st" where
  "read_bar_ticks E b = sbind sget (\<lambda>s. case st_cursor s of
     None \<Rightarrow> smod (\<lambda>s. s\<lparr>st_bar_ticks := []\<rparr>)
   | Some c \<Rightarrow> (let (ticks, c') = for_bar (se_clock E) (se_parse E) (br_timestamp b) c in
       sbind (smod (\<lambda>s. s\<lparr>st_bar_ticks := ticks, st_cursor := Some c'\<rparr>)) (\<lambda>_.
       swhen (ticks \<noteq> []) (bump ''tick_bars''))))"

definition phase_admit :: "'v stepper_env \<Rightarrow> bar \<Rightarrow> ('v stepper, unit) st" where
  "phase_admit E b =
     sbind (smod (\<lambda>s. s\<lparr>st_bars_seen := st_bars_seen s + 1,
        st_first_ts := (if st_first_ts s = [] then br_timestamp b else st_first_ts s), st_last_bar := Some b\<rparr>)) (\<lambda>_.
     sbind (read_bar_ticks E b) (\<lambda>_.
     sbind (smod (\<lambda>s. s\<lparr>st_trades_before := length (rl_trades (st_led s))\<rparr>)) (\<lambda>_.
     sbind (roll_day E b) (\<lambda>_.
     sbind (read_signals E b) (\<lambda>_. flat_collision E b)))))"

section \<open>Carry\<close>

record carry_plan =
  cp_next_index :: nat
  cp_charges :: "funding_charge list"

definition compute_carry :: "'v stepper_env \<Rightarrow> bar \<Rightarrow> 'v stepper \<Rightarrow> carry_plan option res" where
  "compute_carry E b s = (case se_funding E of
     None \<Rightarrow> ok None
   | Some f \<Rightarrow>
       if fs_records f = [] then ok None
       else rbind (resolve_funding_decision_time (se_clock E) (br_timestamp b)) (\<lambda>t.
         rbind (due_funding_charges (fs_records f) (st_funding_idx s) t (fs_has_instrument_mapping f)
             (map_option ps_direction (st_position s))
             (case st_position s of None \<Rightarrow> 0 | Some p \<Rightarrow> ps_entry_notional p)) (\<lambda>(i, charges).
           ok (Some \<lparr>cp_next_index = i, cp_charges = charges\<rparr>))))"

definition charge_funding :: "rat \<Rightarrow> ('v stepper, unit) st" where
  "charge_funding amount = sbind sget (\<lambda>s.
     sbind (slift (quantize 2 (dsub (rl_equity (st_led s)) amount))) (\<lambda>e.
     smod (\<lambda>s. s\<lparr>st_led := (st_led s)\<lparr>rl_equity := e, rl_peak := max (rl_peak (st_led s)) e\<rparr>,
                  st_funding_paid := dadd (st_funding_paid s) amount\<rparr>)))"

fun book_charges :: "'v stepper_env \<Rightarrow> bar \<Rightarrow> position \<Rightarrow> funding_charge list \<Rightarrow> ('v stepper, unit) st" where
  "book_charges E b p [] = sret ()"
| "book_charges E b p (c # cs) =
     sbind (if fg_amount c \<noteq> 0 then charge_funding (fg_amount c) else sret ()) (\<lambda>_.
     sbind (bump ''funding_charges'') (\<lambda>_.
     sbind (emit ''funding_charge'' (br_timestamp b) (Some (ps_direction p))
       [(''position_seq'', DInt (int (ps_position_seq p))), (''rate'', DDec (fr_rate (fg_record c))),
        (''charge'', DDec (fg_amount c)), (''available_at'', DText (se_iso E (fr_available_at (fg_record c)))),
        (''event_at'', DText (se_iso E (fr_event_at (fg_record c)))),
        (''source_revision_id'', opt_text (map_option fs_source_revision_id (se_funding E)))]) (\<lambda>_.
     book_charges E b p cs)))"

definition book_carry :: "'v stepper_env \<Rightarrow> bar \<Rightarrow> carry_plan \<Rightarrow> ('v stepper, unit) st" where
  "book_carry E b plan =
     sbind (smod (\<lambda>s. s\<lparr>st_funding_idx := cp_next_index plan\<rparr>)) (\<lambda>_.
     sbind sget (\<lambda>s. case st_position s of
       None \<Rightarrow> sret () | Some p \<Rightarrow> book_charges E b p (cp_charges plan)))"

definition phase_carry :: "'v stepper_env \<Rightarrow> bar \<Rightarrow> ('v stepper, unit) st" where
  "phase_carry E b = sbind sget (\<lambda>s. sbind (slift (compute_carry E b s)) (\<lambda>plan.
     case plan of None \<Rightarrow> sret () | Some p \<Rightarrow> book_carry E b p))"

section \<open>A held position\<close>

datatype held_decision =
    StopExitCollision stop_outcome bool
  | StopHit stop_outcome
  | TouchExit rat bool
  | ExitNow
  | HoldOn

definition opposite :: "string \<Rightarrow> string" where
  "opposite d = (if d = ''long'' then ''short'' else ''long'')"

definition plan_exit :: "'v indicator_plan \<Rightarrow> position \<Rightarrow> string option \<Rightarrow> bool \<Rightarrow> bool" where
  "plan_exit pl p entry_signal exit_hit =
     (if exit_hit then True
      else entry_signal \<noteq> None \<and> entry_signal \<noteq> Some (ps_direction p) \<and> ip_exit_on_opposite pl)"

definition exit_proxy :: "position \<Rightarrow> bar \<Rightarrow> bar list \<Rightarrow> bool" where
  "exit_proxy p b window =
     (if length window < breakout_window then False
      else if ps_direction p = ''long'' then br_close b < Min (br_low ` set window)
      else br_close b > Max (br_high ` set window))"

definition move_anchor :: "bar \<Rightarrow> position \<Rightarrow> position" where
  "move_anchor b p = (if ps_direction p = ''long'' then p\<lparr>ps_trail_anchor := max (ps_trail_anchor p) (br_high b)\<rparr>
     else p\<lparr>ps_trail_anchor := min (ps_trail_anchor p) (br_low b)\<rparr>)"

definition logic_keys :: "'v stepper_env \<Rightarrow> string list" where
  "logic_keys E = (case se_plan E of None \<Rightarrow> [] | Some pl \<Rightarrow> map (\<lambda>i. ''logic:'' @ i) (ip_stop_ids pl))"

definition logic_triggered :: "'v stepper_env \<Rightarrow> 'v stepper \<Rightarrow> string \<Rightarrow> string list" where
  "logic_triggered E s direction = (case se_plan E of
     None \<Rightarrow> []
   | Some pl \<Rightarrow> map (\<lambda>(i, _). ''logic:'' @ i)
       (filter (\<lambda>(_, d). d = opposite direction) (ip_stop_signals pl (st_signals s))))"

definition decide_held :: "'v stepper_env \<Rightarrow> bar \<Rightarrow> position \<Rightarrow> 'v stepper \<Rightarrow> held_decision" where
  "decide_held E b p s =
     (let stop = resolve_stop (config_of E) p b (logic_keys E) (logic_triggered E s (ps_direction p)) (st_bar_ticks s);
          exit_wanted = (st_pending s = None \<and> st_exit_touch s = None \<and>
            (if plan_active E then plan_exit (the (se_plan E)) p (st_entry_signal s) (st_exit_hit s)
             else exit_proxy p b (st_window s))) in
      case stop of
        Some outcome \<Rightarrow>
          if exit_wanted \<and> exit_sched E = Immediate
          then StopExitCollision outcome (ch_stop_exit (conflict_of E) = ExitHasPriority)
          else StopHit outcome
      | None \<Rightarrow>
          (case st_exit_touch s of
             Some (level, placed) \<Rightarrow>
               if st_bars_seen s > placed then
                 TouchExit level
                   (if st_bar_ticks s \<noteq> [] then touching_ticks (st_bar_ticks s) level (\<not> is_long p) \<noteq> []
                    else if is_long p then br_high b \<ge> level else br_low b \<le> level)
               else if exit_wanted then ExitNow else HoldOn
           | None \<Rightarrow> if exit_wanted then ExitNow else HoldOn))"

definition evaluate_held :: "'v stepper_env \<Rightarrow> bar \<Rightarrow> ('v stepper, held_decision option) st" where
  "evaluate_held E b = sbind sget (\<lambda>s. case st_position s of
     None \<Rightarrow> sret None
   | Some p \<Rightarrow> sbind (set_position (Some (move_anchor b p))) (\<lambda>_. sbind sget (\<lambda>s'.
       sret (Some (decide_held E b (move_anchor b p) s')))))"

definition is_logic_key :: "string \<Rightarrow> bool" where
  "is_logic_key k = (take 6 k = ''logic:'')"

text \<open>The requirement and the resolution of the stops, with the code's defaults.\<close>

definition stop_requirement :: "'v stepper_env \<Rightarrow> stop_trigger_requirement" where
  "stop_requirement E = (case cf_protection (config_of E) of
     None \<Rightarrow> AnyActive | Some l \<Rightarrow> pl_stop_trigger_requirement l)"

definition stop_resolution :: "'v stepper_env \<Rightarrow> stop_conflict_resolution" where
  "stop_resolution E = (case cf_protection (config_of E) of
     None \<Rightarrow> MostConservative | Some l \<Rightarrow> pl_stop_conflict_resolution l)"

definition emit_stop_resolution :: "'v stepper_env \<Rightarrow> stop_outcome \<Rightarrow> string \<Rightarrow> string \<Rightarrow> ('v stepper, unit) st" where
  "emit_stop_resolution E out event_time direction =
     sbind (swhen (\<exists>k \<in> set (sto_triggered out). is_logic_key k) (bump ''logic_stop_triggers'')) (\<lambda>_.
     sbind (swhen (sto_tick_resolved out) (bump ''tick_first_trigger_resolutions'')) (\<lambda>_.
     sbind (swhen (gap_adjusted out) (bump ''gap_adjusted_stops'')) (\<lambda>_.
     if length (sto_triggered out) > 1 \<or> sto_approximated_first out \<or> sto_tick_resolved out \<or> gap_adjusted out
        \<or> is_logic_key (sto_executed_key out) then
       sbind (slift (if gap_adjusted out
          then rbind (quantize 2 (sto_trigger_price out)) (\<lambda>t. rbind (quantize 2 (sto_price out)) (\<lambda>x.
            ok [(''trigger_price'', DDec t), (''executed_price'', DDec x), (''gap_adjusted'', DBool True)]))
          else ok [])) (\<lambda>gap.
       smod (\<lambda>s. s\<lparr>st_led := (st_led s)\<lparr>rl_signal_events := rl_signal_events (st_led s) @
         [\<lparr>ev_seq = length (rl_signal_events (st_led s)), ev_event_time = event_time,
           ev_event_type = ''stop_resolution'', ev_direction = Some direction,
           ev_detail = [(''executed'', DText (sto_executed_key out)),
             (''triggered'', DList (map DText (sto_triggered out))),
             (''requirement'', DText (requirement_value (stop_requirement E))),
             (''resolution'', DText (resolution_value (stop_resolution E))),
             (''first_trigger_approximated'', DBool (sto_approximated_first out))] @
             (if sto_tick_resolved out then [(''first_trigger_tick_resolved'', DBool True)] else []) @ gap\<rparr>]\<rparr>\<rparr>))
     else sret ())))"

definition close_on_stop :: "'v stepper_env \<Rightarrow> bar \<Rightarrow> position \<Rightarrow> stop_outcome \<Rightarrow> ('v stepper, unit) st" where
  "close_on_stop E b p out =
     sbind (close_held E (br_timestamp b) (sto_price out) ''stop_loss'' 1) (\<lambda>_.
     sbind (emit_stop_resolution E out (br_timestamp b) (ps_direction p)) (\<lambda>_. set_position None))"

definition exit_scheduled :: "'v stepper_env \<Rightarrow> bar \<Rightarrow> position \<Rightarrow> (string, detail) dict \<Rightarrow> ('v stepper, unit) st" where
  "exit_scheduled E b p extra = emit ''exit_scheduled'' (br_timestamp b) (Some (ps_direction p))
     ([(''position_seq'', DInt (int (ps_position_seq p))), (''reason'', DText ''exit_signal''),
       (''timing'', DText (timing_value (em_exit_timing (cf_execution (config_of E)))))] @ extra)"

definition apply_held :: "'v stepper_env \<Rightarrow> bar \<Rightarrow> held_decision \<Rightarrow> ('v stepper, unit) st" where
  "apply_held E b decision = sbind sget (\<lambda>s. case st_position s of
     None \<Rightarrow> sthrow AssertionError
   | Some p \<Rightarrow> (case decision of
       StopExitCollision out exit_first \<Rightarrow>
         sbind (bump ''stop_exit_collisions'') (\<lambda>_.
         sbind (emit ''stop_exit_collision'' (br_timestamp b) (Some (ps_direction p))
           [(''position_seq'', DInt (int (ps_position_seq p))),
            (''executed'', DText (if exit_first then ''exit_signal'' else ''stop_loss'')),
            (''also_triggered'', DText (if exit_first then ''stop_loss'' else ''exit_signal'')),
            (''policy'', DText (stop_exit_value (ch_stop_exit (conflict_of E))))]) (\<lambda>_.
         if ch_stop_exit (conflict_of E) = ExitHasPriority
         then close_all E (br_timestamp b) (br_close b) ''exit_signal''
         else close_on_stop E b p out))
     | StopHit out \<Rightarrow> sbind (close_on_stop E b p out) (\<lambda>_. set_pending None)
     | TouchExit level touched \<Rightarrow>
         if touched then
           sbind (bump ''touch_exit_fills'') (\<lambda>_.
           sbind (close_signal E (br_timestamp b) level ''exit_signal'') (\<lambda>_. set_exit_touch None))
         else sret ()
     | ExitNow \<Rightarrow> (case exit_sched E of
           Immediate \<Rightarrow> close_signal E (br_timestamp b) (br_close b) ''exit_signal''
         | Touch \<Rightarrow>
             sbind (exit_scheduled E b p [(''touch_level'', DDec (br_close b))]) (\<lambda>_.
             set_exit_touch (Some (br_close b, st_bars_seen s)))
         | sched \<Rightarrow>
             sbind (exit_scheduled E b p [(''target_bar_seq'', DInt (int (st_bars_seen s + 1)))]) (\<lambda>_.
             set_pending (Some \<lparr>pd_entry = False, pd_at_open = (sched = NextOpen), pd_target = st_bars_seen s + 1,
               pd_direction = [], pd_reason = ''exit_signal'', pd_strength = 1\<rparr>)))
     | HoldOn \<Rightarrow> sret ()))"

definition phase_held :: "'v stepper_env \<Rightarrow> bar \<Rightarrow> ('v stepper, bool) st" where
  "phase_held E b = sbind (evaluate_held E b) (\<lambda>d. case d of
     None \<Rightarrow> sret False | Some decision \<Rightarrow> sbind (apply_held E b decision) (\<lambda>_. sret True))"

section \<open>A fresh entry\<close>

record ledger_effect =
  le_counter :: string
  le_event :: string
  le_direction :: "string option"
  le_detail :: "(string, detail) dict"

record entry_decision =
  ed_want :: "string option"
  ed_strength :: rat
  ed_effects :: "ledger_effect list"
  ed_detail :: "(string, detail) dict"

definition filtered_entry :: "string \<Rightarrow> string \<Rightarrow> (string, detail) dict \<Rightarrow> ledger_effect" where
  "filtered_entry counter direction det = \<lparr>le_counter = counter, le_event = ''filtered_no_entry'',
     le_direction = Some direction, le_detail = det\<rparr>"

text \<open>The direction the signal wants, or the effect of a direction the strategy does not trade.\<close>

definition wanted_direction :: "'v stepper_env \<Rightarrow> bar \<Rightarrow> 'v stepper \<Rightarrow> string option \<times> ledger_effect list" where
  "wanted_direction E b s =
     (let (long_ok, short_ok) = direction_flags (sx_direction_mode (se_extra E));
          refuse = (\<lambda>d. (None, [filtered_entry ''suppressed_entries'' d
            [(''reason'', DText ''direction_restriction''),
             (''direction_mode'', DText (direction_mode_value (sx_direction_mode (se_extra E))))]])) in
      if plan_active E then
          (case st_entry_signal s of
             None \<Rightarrow> (None, [])
           | Some d \<Rightarrow> if (d = ''long'' \<and> \<not> long_ok) \<or> (d = ''short'' \<and> \<not> short_ok) then refuse d
               else (Some d, []))
      else
          if length (st_window s) \<noteq> breakout_window then (None, [])
          else (let want_long = br_close b > Max (br_high ` set (st_window s));
                    want_short = br_close b < Min (br_low ` set (st_window s)) in
            if (want_long \<and> \<not> long_ok) \<or> (want_short \<and> \<not> short_ok)
            then refuse (if want_long then ''long'' else ''short'')
            else if want_long \<or> want_short then (Some (if want_long then ''long'' else ''short''), [])
            else (None, [])))"

definition evaluate_entry :: "'v stepper_env \<Rightarrow> bar \<Rightarrow> 'v stepper \<Rightarrow> entry_decision option res" where
  "evaluate_entry E b s =
     (if \<not> (entry_gates_ok E \<and> st_pending s = None \<and> st_limit s = None \<and> st_stop s = None) then ok None
      else (let (want, effects) = wanted_direction E b s in
        case want of
          None \<Rightarrow> ok (Some \<lparr>ed_want = None, ed_strength = 1, ed_effects = effects, ed_detail = []\<rparr>)
        | Some d \<Rightarrow>
            if sx_restrictions (se_extra E) \<noteq> [] \<and> restrictions_block E (active_restrictions E s)
            then ok (Some \<lparr>ed_want = None, ed_strength = 1, ed_effects = effects @
              [filtered_entry ''entries_blocked_by_restriction'' d
                [(''reason'', DText ''restriction_blocked''),
                 (''rule'', DText (restriction_rule_value (sx_restriction_rule (se_extra E)))),
                 (''active_filters'', DList (map restriction_entry (active_restrictions E s))),
                 (''context'', DText ''flat_entry'')]], ed_detail = []\<rparr>)
            else rbind (strength_value E b s) (\<lambda>m.
              ok (Some \<lparr>ed_want = Some d, ed_strength = m, ed_effects = effects @
                (if m \<noteq> 1 then [\<lparr>le_counter = ''strength_adjustments'', le_event = [], le_direction = None,
                                  le_detail = []\<rparr>] else []),
                ed_detail = (''rule'', entry_rule_snapshot E s d) # strength_detail E m\<rparr>))))"

fun book_effects :: "bar \<Rightarrow> ledger_effect list \<Rightarrow> ('v stepper, unit) st" where
  "book_effects b [] = sret ()"
| "book_effects b (e # es) =
     (if le_counter e \<notin> {''suppressed_entries'', ''entries_blocked_by_restriction'', ''strength_adjustments''}
      then sthrow AssertionError
      else sbind (bump (le_counter e)) (\<lambda>_.
        sbind (swhen (le_event e \<noteq> []) (emit (le_event e) (br_timestamp b) (le_direction e) (le_detail e))) (\<lambda>_.
        book_effects b es)))"

definition place_limit :: "'v stepper_env \<Rightarrow> bar \<Rightarrow> string \<Rightarrow> rat \<Rightarrow> ('v stepper, unit) st" where
  "place_limit E b want strength = (case oc_limit (cf_order_config (config_of E)) of
     None \<Rightarrow> sthrow AssertionError
   | Some l \<Rightarrow>
       (let offset = or_zero (lo_price_offset l); level = limit_price (lo_price_rule l) (br_close b) offset in
        sbind sget (\<lambda>s.
        sbind (set_limit (Some \<lparr>wl_direction = want, wl_limit_price = level, wl_offset = offset,
           wl_price_rule = lo_price_rule l, wl_unfilled = sx_unfilled (se_extra E),
           wl_expires = map_option (\<lambda>n. st_bars_seen s + n) (validity_bars (sx_validity (se_extra E))),
           wl_strength = strength, wl_remaining = None, wl_for_position = None, wl_placed = None\<rparr>)) (\<lambda>_.
        sbind (bump ''limit_orders_placed'') (\<lambda>_.
        emit ''limit_order_placed'' (br_timestamp b) (Some want)
          [(''limit_price'', DDec level), (''price_rule'', DText (price_rule_value (lo_price_rule l))),
           (''validity'', DText (validity_value (sx_validity (se_extra E)))),
           (''unfilled_policy'', DText (unfilled_value (sx_unfilled (se_extra E)))),
           (''expires_bar_seq'', opt_int
             (map_option (\<lambda>n. st_bars_seen s + n) (validity_bars (sx_validity (se_extra E)))))])))))"

definition place_stop :: "'v stepper_env \<Rightarrow> bar \<Rightarrow> string \<Rightarrow> rat \<Rightarrow> ('v stepper, unit) st" where
  "place_stop E b want strength = (case oc_stop (cf_order_config (config_of E)) of
     None \<Rightarrow> sthrow AssertionError
   | Some stop \<Rightarrow>
       (let trigger = limit_price (so_activation_rule stop) (br_close b) (or_zero (so_trigger_offset stop));
            leg = map_option (\<lambda>l. \<lparr>ll_price = limit_price (lo_price_rule l) (br_close b) (or_zero (lo_price_offset l)),
              ll_offset = or_zero (lo_price_offset l), ll_rule = lo_price_rule l,
              ll_unfilled = sx_unfilled (se_extra E), ll_validity = validity_bars (sx_validity (se_extra E))\<rparr>)
              (oc_limit (cf_order_config (config_of E))) in
        sbind (set_stop (Some \<lparr>ws_direction = want, ws_trigger_price = trigger, ws_limit = leg,
          ws_strength = strength\<rparr>)) (\<lambda>_.
        sbind (bump ''stop_orders_placed'') (\<lambda>_.
        emit ''stop_order_placed'' (br_timestamp b) (Some want)
          ([(''trigger_price'', DDec trigger),
            (''activation_rule'', DText (price_rule_value (so_activation_rule stop))),
            (''order_type'', DText (order_type_value (oc_type (cf_order_config (config_of E)))))] @
           (case leg of None \<Rightarrow> [] | Some l \<Rightarrow> [(''limit_price'', DDec (ll_price l)),
              (''validity'', DText (validity_value (sx_validity (se_extra E)))),
              (''unfilled_policy'', DText (unfilled_value (sx_unfilled (se_extra E))))]))))))"

definition place_touch :: "'v stepper_env \<Rightarrow> bar \<Rightarrow> string \<Rightarrow> rat \<Rightarrow> ('v stepper, unit) st" where
  "place_touch E b want strength =
     sbind (set_limit (Some \<lparr>wl_direction = want, wl_limit_price = br_close b, wl_offset = 0,
       wl_price_rule = EntrySignalPrice, wl_unfilled = KeepUntilValidityEnds, wl_expires = None,
       wl_strength = strength, wl_remaining = None, wl_for_position = None, wl_placed = None\<rparr>)) (\<lambda>_.
     sbind (bump ''touch_orders_placed'') (\<lambda>_.
     emit ''limit_order_placed'' (br_timestamp b) (Some want)
       [(''limit_price'', DDec (br_close b)), (''price_rule'', DText ''entry_signal_price''),
        (''mode'', DText ''intrabar_touch''), (''unfilled_policy'', DText ''keep_until_validity_ends''),
        (''expires_bar_seq'', DNone)]))"

definition schedule_entry :: "'v stepper_env \<Rightarrow> bar \<Rightarrow> string \<Rightarrow> rat \<Rightarrow> ('v stepper, unit) st" where
  "schedule_entry E b want strength = sbind sget (\<lambda>s.
     sbind (emit ''entry_scheduled'' (br_timestamp b) (Some want)
       [(''timing'', DText (timing_value (em_entry_timing (cf_execution (config_of E))))),
        (''target_bar_seq'', DInt (int (st_bars_seen s + 1)))]) (\<lambda>_.
     set_pending (Some \<lparr>pd_entry = True, pd_at_open = (entry_sched E = NextOpen), pd_target = st_bars_seen s + 1,
       pd_direction = want, pd_reason = [], pd_strength = strength\<rparr>)))"

definition place_entry ::
    "'v stepper_env \<Rightarrow> bar \<Rightarrow> entry_decision \<Rightarrow> rat option \<Rightarrow> ('v stepper, unit) st" where
  "place_entry E b decision size_override =
     sbind (book_effects b (ed_effects decision)) (\<lambda>_.
     case ed_want decision of
       None \<Rightarrow> sret ()
     | Some want \<Rightarrow>
         sbind (emit ''entry_signal'' (br_timestamp b) (Some want) (ed_detail decision)) (\<lambda>_.
         if order_is_limit E then place_limit E b want (ed_strength decision)
         else if order_is_stop E then place_stop E b want (ed_strength decision)
         else if entry_sched E = Touch then place_touch E b want (ed_strength decision)
         else if entry_sched E = Immediate
         then do_open E want b (br_close b) False (ed_strength decision) size_override []
         else schedule_entry E b want (ed_strength decision)))"

text \<open>The equity to size against holds for this call only, also when it raises.\<close>

definition apply_entry ::
    "'v stepper_env \<Rightarrow> bar \<Rightarrow> entry_decision \<Rightarrow> rat option \<Rightarrow> rat option \<Rightarrow> ('v stepper, unit) st" where
  "apply_entry E b decision equity size_override s =
     (let (r, s') = place_entry E b decision size_override (s\<lparr>st_sizing_equity := equity\<rparr>) in
      (r, s'\<lparr>st_sizing_equity := None\<rparr>))"

definition phase_entry :: "'v stepper_env \<Rightarrow> bar \<Rightarrow> rat option \<Rightarrow> ('v stepper, unit) st" where
  "phase_entry E b equity = sbind sget (\<lambda>s. sbind (slift (evaluate_entry E b s)) (\<lambda>d.
     case d of None \<Rightarrow> sret () | Some decision \<Rightarrow> apply_entry E b decision equity None))"

section \<open>The tail of a bar\<close>

definition ignore_signal :: "bar \<Rightarrow> string \<Rightarrow> (string, detail) dict \<Rightarrow> ('v stepper, unit) st" where
  "ignore_signal b direction det =
     sbind (bump ''conflict_signals_ignored'') (\<lambda>_.
     emit ''filtered_no_entry'' (br_timestamp b) (Some direction) det)"

text \<open>The money an added tranche may still take, and the average entry price it leads to.\<close>

definition item_capital :: "'v stepper_env \<Rightarrow> 'v stepper \<Rightarrow> rat" where
  "item_capital E s = (if rc_alloc_on (se_ctx E) then sleeve_capital (se_ctx E) (rl_equity (st_led s))
     else rl_equity (st_led s))"

definition add_to_position :: "rat \<Rightarrow> rat \<Rightarrow> rat \<Rightarrow> position \<Rightarrow> ('v stepper, position) st" where
  "add_to_position eff add_size new_size p =
     sbind (slift (rbind (ddiv (dadd (dmul (ps_entry_price p) (ps_size p)) (dmul eff add_size)) new_size)
       (quantize 2))) (\<lambda>basis.
     let p1 = p\<lparr>ps_entry_price := basis, ps_size := new_size\<rparr> in
     sbind (set_position (Some p1)) (\<lambda>_.
     sbind (slift (quantize 2 (dmul basis new_size))) (\<lambda>notional.
     let p2 = p1\<lparr>ps_entry_notional := notional, ps_peak_notional := max (ps_peak_notional p1) notional\<rparr> in
     sbind (set_position (Some p2)) (\<lambda>_. sret p2))))"

definition charge_fee :: "'v stepper_env \<Rightarrow> rat \<Rightarrow> ('v stepper, unit) st" where
  "charge_fee E notional =
     sbind (slift (fee (costs_of E) notional)) (\<lambda>f. if f > 0 then deduct f else sret ())"

definition stack_tranche :: "'v stepper_env \<Rightarrow> 'v stepper \<Rightarrow> rat \<Rightarrow> rat \<Rightarrow> rat res" where
  "stack_tranche E s eff strength =
     (if rc_alloc_on (se_ctx E) then
        rbind (position_size (se_parse E) (config_of E) eff (item_capital E s) strength) (\<lambda>x.
          cap_to_sleeve x (item_capital E s) eff)
      else position_size (se_parse E) (config_of E) eff (item_capital E s) strength)"

definition stack_own_refusal ::
    "'v stepper_env \<Rightarrow> 'v stepper \<Rightarrow> position \<Rightarrow> rat \<Rightarrow> rat \<Rightarrow> rat \<Rightarrow> (string \<times> rat option) option res" where
  "stack_own_refusal E s p eff tranche stacked =
     rbind (max_position_size_cap (config_of E) eff (item_capital E s)) (\<lambda>cap.
     if tranche \<le> 0 then ok (Some (''stack_size_not_positive'', None))
     else if cap \<noteq> None \<and> stacked > the cap then ok (Some (''position_size_limit'', cap))
     else if rc_alloc_on (se_ctx E) then
       (let remaining = dsub (item_capital E s) (ps_entry_notional p) in
        if dmul eff tranche > remaining
        then rbind (quantize 2 (max remaining 0)) (\<lambda>q. ok (Some (''sleeve_capacity'', Some q))) else ok None)
     else ok None)"

definition stack_refusal ::
    "'v stepper_env \<Rightarrow> bar \<Rightarrow> position \<Rightarrow> rat \<Rightarrow> rat \<Rightarrow> rat \<Rightarrow> ('v stepper, (string \<times> rat option) option) st" where
  "stack_refusal E b p eff tranche stacked = sbind sget (\<lambda>s.
     sbind (slift (stack_own_refusal E s p eff tranche stacked)) (\<lambda>own. case own of
       Some r \<Rightarrow> sret (Some r)
     | None \<Rightarrow> sbind (portfolio_headroom E b) (\<lambda>room. case room of
           None \<Rightarrow> sret None
         | Some x \<Rightarrow> (let headroom = dsub x (ps_entry_notional p) in
             if dmul eff tranche > headroom
             then sbind (slift (quantize 2 (max headroom 0))) (\<lambda>q.
                    sret (Some (''portfolio_max_total_exposure'', Some q)))
             else sret None))))"

definition stack_position :: "'v stepper_env \<Rightarrow> bar \<Rightarrow> position \<Rightarrow> ('v stepper, unit) st" where
  "stack_position E b p =
     sbind (slift (effective_fill (br_close b) (is_long p) (fc_half_spread (costs_of E)) (fc_slippage (costs_of E)))) (\<lambda>eff.
     sbind (signal_strength E b) (\<lambda>strength.
     sbind sget (\<lambda>s.
     sbind (slift (stack_tranche E s eff strength)) (\<lambda>tranche.
     let stacked = dadd (ps_size p) tranche;
         policy = (''policy'', DText (stacking_value (ch_stacking (conflict_of E)))) in
     sbind (stack_refusal E b p eff tranche stacked) (\<lambda>refusal. case refusal of
       Some (reason, cap) \<Rightarrow>
         sbind (bump ''stack_entries_rejected'') (\<lambda>_.
         emit ''stack_entry_rejected'' (br_timestamp b) (Some (ps_direction p))
           [(''position_seq'', DInt (int (ps_position_seq p))), (''reason'', DText reason), (''cap'', opt_dec cap),
            (''candidate_size'', DDec tranche), policy])
     | None \<Rightarrow>
         sbind (add_to_position eff tranche stacked p) (\<lambda>p'.
         sbind (bump ''stack_entries_added'') (\<lambda>_.
         sbind (charge_fee E (dmul eff tranche)) (\<lambda>_.
         emit ''stack_entry_added'' (br_timestamp b) (Some (ps_direction p))
           [(''position_seq'', DInt (int (ps_position_seq p))), (''fill_price'', DDec eff),
            (''stack_size'', DDec tranche), (''new_size'', DDec stacked),
            (''entry_basis'', DDec (ps_entry_price p')), (''exposure'', DDec (ps_entry_notional p')),
            policy]))))))))"

definition replace_position :: "'v stepper_env \<Rightarrow> bar \<Rightarrow> string \<Rightarrow> position \<Rightarrow> ('v stepper, unit) st" where
  "replace_position E b direction p =
     sbind (bump ''positions_replaced'') (\<lambda>_.
     sbind (signal_strength E b) (\<lambda>strength.
     sbind sget (\<lambda>s.
     sbind (emit ''entry_signal'' (br_timestamp b) (Some direction)
       ([(''rule'', entry_rule_snapshot E s direction), (''conflict'', DText ''replace_existing''),
         (''replaced_position_seq'', DInt (int (ps_position_seq p)))] @ strength_detail E strength)) (\<lambda>_.
     sbind (close_all E (br_timestamp b) (br_close b) ''replaced_by_signal'') (\<lambda>_.
     do_open E direction b (br_close b) False strength None [])))))"

definition scaling_active :: "'v stepper_env \<Rightarrow> bool" where
  "scaling_active E = (case cf_scaling_logic (config_of E) of None \<Rightarrow> False
     | Some g \<Rightarrow> sg_enabled g \<and> scaling_is_modelled (config_of E))"

definition same_direction_signal ::
    "'v stepper_env \<Rightarrow> bar \<Rightarrow> string \<Rightarrow> position \<Rightarrow> ('v stepper, unit) st" where
  "same_direction_signal E b direction p =
     (let policy = (''policy'', DText (stacking_value (ch_stacking (conflict_of E))));
          seq = (''position_seq'', DInt (int (ps_position_seq p))) in
      case ch_stacking (conflict_of E) of
        IgnoreStacking \<Rightarrow> ignore_signal b direction [(''reason'', DText ''stacking_ignored''), policy, seq]
      | ScaleExisting \<Rightarrow> ignore_signal b direction
          [(''reason'', DText ''stacking_scale_only''), policy, (''scaling_enabled'', DBool (scaling_active E)), seq]
      | _ \<Rightarrow> sbind sget (\<lambda>s.
          let active = (if sx_restrictions (se_extra E) = [] then [] else active_restrictions E s) in
          if restrictions_block E active then
            sbind (bump ''entries_blocked_by_restriction'') (\<lambda>_.
            emit ''filtered_no_entry'' (br_timestamp b) (Some direction)
              [(''reason'', DText ''restriction_blocked''),
               (''rule'', DText (restriction_rule_value (sx_restriction_rule (se_extra E)))),
               (''active_filters'', DList (map restriction_entry active)),
               (''context'', DText ''conflict_entry'')])
          else if ch_stacking (conflict_of E) = ReplaceExisting then replace_position E b direction p
          else stack_position E b p))"

definition opposite_signal ::
    "'v stepper_env \<Rightarrow> bar \<Rightarrow> string \<Rightarrow> position \<Rightarrow> ('v stepper, unit) st" where
  "opposite_signal E b direction p = (case ch_hedge (conflict_of E) of
     CloseExisting \<Rightarrow>
       sbind (bump ''opposite_signal_closes'') (\<lambda>_. close_all E (br_timestamp b) (br_close b) ''opposite_signal'')
   | IgnoreHedge \<Rightarrow> ignore_signal b direction [(''reason'', DText ''hedge_ignored''),
       (''policy'', DText (hedge_value (ch_hedge (conflict_of E)))), (''position_seq'', DInt (int (ps_position_seq p)))]
   | AllowHedge \<Rightarrow> sret ())"

definition conflict_signal :: "'v stepper_env \<Rightarrow> bar \<Rightarrow> ('v stepper, unit) st" where
  "conflict_signal E b = sbind sget (\<lambda>s. case (st_position s, st_entry_signal s) of
     (Some p, Some d) \<Rightarrow>
       if ps_entry_bar_seq p \<noteq> int (st_bars_seen s) \<and> plan_active E \<and> st_pending s = None
          \<and> length (rl_trades (st_led s)) = st_trades_before s \<and> Some d \<noteq> st_prev_entry_signal s
       then (if d = ps_direction p then same_direction_signal E b d p else opposite_signal E b d p)
       else sret ()
   | _ \<Rightarrow> sret ())"

subsection \<open>The scale ladder\<close>

definition scale_logic_mode :: "'v stepper_env \<Rightarrow> bool" where
  "scale_logic_mode E = (case cf_scaling_logic (config_of E) of None \<Rightarrow> False
     | Some g \<Rightarrow> scaling_active E \<and> sg_method g = Some LogicBasedScaling)"

text \<open>\<open>x if x else y\<close> of a layer count: zero means no bound yet.\<close>

definition bounded_layers :: "int \<Rightarrow> int \<Rightarrow> int" where
  "bounded_layers n m = (if n \<noteq> 0 then min n m else m)"

definition scale_max_layers :: "'v stepper_env \<Rightarrow> int" where
  "scale_max_layers E = (case cf_scaling_logic (config_of E) of
     None \<Rightarrow> 0
   | Some g \<Rightarrow>
       if \<not> scaling_active E \<or> (sx_price_scaling (se_extra E) = None \<and> \<not> scale_logic_mode E) then 0
       else (let limit = Option.bind (sg_scaling_limits g) sl_max_scaling_layers;
                 n0 = (case sx_price_scaling (se_extra E) of
                     Some d \<Rightarrow> int (pds_layers d) | None \<Rightarrow> (case limit of None \<Rightarrow> 0 | Some m \<Rightarrow> m));
                 n1 = (case limit of None \<Rightarrow> n0 | Some m \<Rightarrow> min n0 m);
                 n2 = (if sg_timeframe_mode g = CustomSequence \<and> has_custom_sequence g
                   then bounded_layers n1 (int (length (the (sg_custom_timeframe_sequence g)))) else n1) in
         if sg_timeframe_mode g = IncreasingByLayer
         then bounded_layers n2 (int (increasing_ladder_depth (se_timeframe E))) else n2))"

definition scale_distance :: "'v stepper_env \<Rightarrow> rat" where
  "scale_distance E = (if scaling_active E
     then (case sx_price_scaling (se_extra E) of None \<Rightarrow> 0 | Some d \<Rightarrow> pds_retracement_distance d) else 0)"

definition next_layer_tf :: "'v stepper_env \<Rightarrow> position \<Rightarrow> string option" where
  "next_layer_tf E p = (if scale_logic_mode E
     then layer_timeframe (config_of E) (ps_layers_filled p) (se_timeframe E) else None)"

definition scale_fires :: "'v stepper_env \<Rightarrow> bar \<Rightarrow> position \<Rightarrow> 'v stepper \<Rightarrow> bool" where
  "scale_fires E b p s =
     (let tf = next_layer_tf E p;
          bucket = layer_bucket (se_epoch_ms E (br_timestamp b)) tf;
          ready = (tf = None \<or> (bucket \<noteq> None \<and> bucket \<noteq> ps_scale_layer_bucket p)) in
      if scale_logic_mode E
      then ready \<and> st_scale_signal s = Some (ps_direction p) \<and> st_prev_scale_signal s \<noteq> Some (ps_direction p)
      else scale_threshold_crossed (ps_scale_reference p) (scale_distance E) (br_close b) (is_long p))"

definition layer_bucket_of :: "'v stepper_env \<Rightarrow> bar \<Rightarrow> nat \<Rightarrow> int option" where
  "layer_bucket_of E b n =
     layer_bucket (se_epoch_ms E (br_timestamp b)) (layer_timeframe (config_of E) n (se_timeframe E))"

definition scale_refusal ::
    "'v stepper_env \<Rightarrow> bar \<Rightarrow> position \<Rightarrow> rat \<Rightarrow> rat \<Rightarrow> rat \<Rightarrow> ('v stepper, string option \<times> rat option) st" where
  "scale_refusal E b p eff layer scaled = sbind sget (\<lambda>s.
     sbind (slift (max_position_size_cap (config_of E) eff (item_capital E s))) (\<lambda>cap.
     sbind (portfolio_headroom E b) (\<lambda>room.
     slift (resolve_scale_rejection layer (dmul eff layer) scaled
        (Option.bind (Option.bind (cf_scaling_logic (config_of E)) sg_scaling_limits) sl_max_total_position_size)
        cap
        (if rc_alloc_on (se_ctx E) then Some (dsub (item_capital E s) (ps_entry_notional p)) else None)
        (map_option (\<lambda>x. dsub x (ps_entry_notional p)) room)))))"

definition scale_layer :: "'v stepper_env \<Rightarrow> bar \<Rightarrow> position \<Rightarrow> ('v stepper, unit) st" where
  "scale_layer E b p0 =
     (let p = p0\<lparr>ps_scale_reference := br_close b,
                 ps_scale_layer_bucket := layer_bucket (se_epoch_ms E (br_timestamp b)) (next_layer_tf E p0)\<rparr> in
      sbind (set_position (Some p)) (\<lambda>_.
      sbind (slift (resolve_scale_layer_size (sx_add_size (se_extra E))
          (or_zero (Option.bind (cf_scaling_logic (config_of E)) sg_add_size_value))
          (ps_initial_size p) (ps_size p))) (\<lambda>layer.
      sbind (slift (effective_fill (br_close b) (is_long p) (fc_half_spread (costs_of E)) (fc_slippage (costs_of E)))) (\<lambda>eff.
      let scaled = dadd (ps_size p) layer in
      sbind (scale_refusal E b p eff layer scaled) (\<lambda>(refusal, cap). case refusal of
        Some reason \<Rightarrow>
          sbind (bump ''scale_layers_rejected'') (\<lambda>_.
          emit ''scale_layer_rejected'' (br_timestamp b) (Some (ps_direction p))
            [(''position_seq'', DInt (int (ps_position_seq p))), (''reason'', DText reason), (''cap'', opt_dec cap),
             (''reference'', DDec (ps_scale_reference p0)), (''candidate_size'', DDec layer),
             (''layers_filled'', DInt (int (ps_layers_filled p)))])
      | None \<Rightarrow>
          sbind (add_to_position eff layer scaled p) (\<lambda>p'.
          sbind (set_position (Some (p'\<lparr>ps_layers_filled := ps_layers_filled p' + 1,
            ps_scale_layer_bucket := layer_bucket_of E b (ps_layers_filled p' + 1)\<rparr>))) (\<lambda>_.
          sbind (bump ''scale_layers_added'') (\<lambda>_.
          sbind (charge_fee E (dmul eff layer)) (\<lambda>_.
          emit ''scale_layer_added'' (br_timestamp b) (Some (ps_direction p))
            [(''position_seq'', DInt (int (ps_position_seq p))), (''layer_seq'', DInt (int (ps_layers_filled p' + 1))),
             (''reference'', DDec (ps_scale_reference p0)), (''fill_price'', DDec eff), (''layer_size'', DDec layer),
             (''new_size'', DDec scaled), (''entry_basis'', DDec (ps_entry_price p')),
             (''exposure'', DDec (ps_entry_notional p')),
             (''method'', DText (if scale_logic_mode E then ''logic_based_scaling'' else ''price_distance_scaling'')),
             (''layer_timeframe'', opt_text (next_layer_tf E p0))])))))))))"

definition scale_ladder :: "'v stepper_env \<Rightarrow> bar \<Rightarrow> ('v stepper, unit) st" where
  "scale_ladder E b = sbind sget (\<lambda>s. case st_position s of
     None \<Rightarrow> sret ()
   | Some p \<Rightarrow>
       if scaling_active E \<and> st_pending s = None \<and> length (rl_trades (st_led s)) = st_trades_before s
          \<and> int (ps_layers_filled p) < scale_max_layers E \<and> scale_fires E b p s
       then scale_layer E b p else sret ())"

definition end_bar :: "bar \<Rightarrow> ('v stepper, unit) st" where
  "end_bar b = smod (\<lambda>s. s\<lparr>st_prev_entry_signal := st_entry_signal s, st_prev_scale_signal := st_scale_signal s,
     st_exit_touch := (if st_position s = None then None else st_exit_touch s),
     st_window := (let w = st_window s @ [b] in drop (length w - breakout_window) w)\<rparr>)"

definition phase_tail :: "'v stepper_env \<Rightarrow> bar \<Rightarrow> ('v stepper, unit) st" where
  "phase_tail E b =
     sbind (fill_pending E b False) (\<lambda>_.
     sbind (conflict_signal E b) (\<lambda>_.
     sbind (scale_ladder E b) (\<lambda>_. end_bar b)))"

section \<open>The replay\<close>

definition step_bar :: "'v stepper_env \<Rightarrow> bar \<Rightarrow> ('v stepper, unit) st" where
  "step_bar E b =
     sbind (phase_admit E b) (\<lambda>_.
     sbind (phase_carry E b) (\<lambda>_.
     sbind (phase_open_fills E b) (\<lambda>_.
     sbind (phase_held E b) (\<lambda>held.
     sbind (if held then sret () else phase_entry E b None) (\<lambda>_. phase_tail E b)))))"

definition finalize_limit :: "bar \<Rightarrow> ('v stepper, unit) st" where
  "finalize_limit b = sbind sget (\<lambda>s. case st_limit s of
     None \<Rightarrow> sret ()
   | Some wl \<Rightarrow> cancel_limit (br_timestamp b) ''end_of_data'' (wl\<lparr>wl_remaining := None\<rparr>))"

definition finalize_stop :: "'v stepper_env \<Rightarrow> bar \<Rightarrow> ('v stepper, unit) st" where
  "finalize_stop E b = sbind sget (\<lambda>s. case st_stop s of
     None \<Rightarrow> sret ()
   | Some ws \<Rightarrow>
       sbind (bump ''stop_orders_cancelled'') (\<lambda>_.
       sbind (emit ''stop_order_cancelled'' (br_timestamp b) (Some (ws_direction ws))
         [(''reason'', DText ''end_of_data''), (''trigger_price'', DDec (ws_trigger_price ws)),
          (''order_type'', DText (order_type_value (oc_type (cf_order_config (config_of E)))))]) (\<lambda>_.
       set_stop None)))"

definition finalize_position :: "'v stepper_env \<Rightarrow> bar \<Rightarrow> ('v stepper, unit) st" where
  "finalize_position E b = sbind sget (\<lambda>s. if st_position s = None then sret ()
     else close_all E (br_timestamp b) (br_close b) ''end_of_data'')"

definition finalize_run :: "'v stepper_env \<Rightarrow> ('v stepper, unit) st" where
  "finalize_run E = sbind sget (\<lambda>s. case st_last_bar s of
     None \<Rightarrow> sret ()
   | Some b \<Rightarrow> sbind (finalize_limit b) (\<lambda>_. sbind (finalize_stop E b) (\<lambda>_. finalize_position E b)))"

fun step_rows :: "'v stepper_env \<Rightarrow> raw_bar list \<Rightarrow> ('v stepper, unit) st" where
  "step_rows E [] = sret ()"
| "step_rows E (r # rs) = (case normalize_bar (se_parse E) r of
     None \<Rightarrow> step_rows E rs
   | Some b \<Rightarrow> sbind (step_bar E b) (\<lambda>_. step_rows E rs))"

definition stepper_start :: "'v stepper_env \<Rightarrow> 'v \<Rightarrow> tick_cursor option \<Rightarrow> 'v stepper" where
  "stepper_start E v cursor = \<lparr>st_led = (fresh_run_ledger (se_initial_capital E))
       \<lparr>rl_equity_points := [\<lparr>re_seq = 0, re_timestamp = [], re_equity = se_initial_capital E,
          re_drawdown = 0, re_exposure = 0\<rparr>]\<rparr>,
     st_counts = (\<lambda>_. 0), st_funding_paid = 0, st_evidence_missing = False, st_bars_seen = 0, st_first_ts = [],
     st_last_bar = None, st_position = None, st_position_seq = 0, st_pending = None, st_limit = None,
     st_stop = None, st_exit_touch = None, st_funding_idx = 0, st_cursor = cursor, st_signals = v,
     st_window = [], st_bar_ticks = [], st_trades_before = 0, st_bar_date = None, st_current_day = None,
     st_entry_signal = None, st_exit_hit = False, st_scale_signal = None, st_prev_entry_signal = None,
     st_prev_scale_signal = None, st_sizing_equity = None\<rparr>"

text \<open>
  \<open>_build_stepper\<close> without a plan that has a computable entry block only builds the breakout
  fixture, on request; the cap of the portfolio rules is computed once.
\<close>

definition build_stepper :: "'v stepper_env \<Rightarrow> 'v stepper_env res" where
  "build_stepper E = rbind (portfolio_cap_amount (se_rules E) (se_initial_capital E)) (\<lambda>cap.
     if \<not> plan_active E \<and> \<not> se_fixture E then raise (Error_Class ''UnresolvedStrategyError'')
     else ok (E\<lparr>se_cap_amount := cap\<rparr>))"

definition run_engine ::
    "'v stepper_env \<Rightarrow> 'v \<Rightarrow> tick_cursor option \<Rightarrow> raw_bar list list \<Rightarrow> unit res \<times> 'v stepper" where
  "run_engine E v cursor batches =
     sbind (slift (build_stepper E)) (\<lambda>E'.
     sbind (step_rows E' (concat batches)) (\<lambda>_. finalize_run E')) (stepper_start E v cursor)"

end
