(* ===== verification/Stepper_Books.thy ===== *)
theory Stepper_Books
  imports Stepper Step_Logic "HOL-Library.Sublist"
begin

text \<open>
  What a replay keeps, also when it raises: the books stay well formed, the journals only grow, and
  whatever is held, resting or booked has a direction that the configuration admits.
\<close>

section \<open>The books\<close>

text \<open>The flags and the block reason of a ledger are not part of the books.\<close>

definition core :: "run_ledger \<Rightarrow> run_ledger" where
  "core l = l\<lparr>rl_portfolio_symbol_unknown_gate := False, rl_portfolio_time_unparseable_gate := False,
     rl_portfolio_block_reason := None\<rparr>"

definition extends :: "run_ledger \<Rightarrow> run_ledger \<Rightarrow> bool" where
  "extends l0 l \<longleftrightarrow> prefix (rl_trades l0) (rl_trades l) \<and> prefix (rl_equity_points l0) (rl_equity_points l) \<and>
     prefix (rl_position_intervals l0) (rl_position_intervals l) \<and>
     prefix (rl_signal_events l0) (rl_signal_events l) \<and> prefix (rl_filtered_events l0) (rl_filtered_events l)"

definition sound :: "(string \<Rightarrow> bool) \<Rightarrow> run_ledger \<Rightarrow> run_ledger \<Rightarrow> bool" where
  "sound D l0 l \<longleftrightarrow> run_ok [0] l \<and> extends l0 l \<and> list_all (\<lambda>t. D (tr_direction t)) (rl_trades l)"

lemma sound_core [simp]: "sound D l0 (core l) = sound D l0 l"
  by (simp add: sound_def core_def run_ok_def extends_def)

lemma core_reads [simp]:
  "sound D l0 (l\<lparr>rl_portfolio_symbol_unknown_gate := a\<rparr>) = sound D l0 l"
  "sound D l0 (l\<lparr>rl_portfolio_time_unparseable_gate := a\<rparr>) = sound D l0 l"
  "sound D l0 (l\<lparr>rl_portfolio_block_reason := r\<rparr>) = sound D l0 l"
  "sound D l0 (l\<lparr>rl_partial_fills := n\<rparr>) = sound D l0 l"
  "sound D l0 (l\<lparr>rl_day_realized := x\<rparr>) = sound D l0 l"
  by (simp_all add: sound_def run_ok_def extends_def)

lemma extends_refl [simp]: "extends l l"
  by (simp add: extends_def)

lemma prefix_snocI: "prefix xs ys \<Longrightarrow> prefix xs (ys @ zs)"
  by (rule prefix_prefix)

lemma sound_emit: "sound D l0 l \<Longrightarrow> sound D l0 (emit_event ty tm d b det l)"
  by (simp add: sound_def emit_event_ok booking_reads) (simp add: extends_def emit_event_def prefix_snocI)

lemma sound_signal_event:
  "sound D l0 l \<Longrightarrow> ev_seq e = length (rl_signal_events l) \<Longrightarrow>
   sound D l0 (l\<lparr>rl_signal_events := rl_signal_events l @ [e]\<rparr>)"
  by (simp add: sound_def run_ok_def extends_def prefix_snocI)

lemma sound_fee:
  "sound D l0 l \<Longrightarrow> quantize 2 (dsub (rl_equity l) f) = Inr e \<Longrightarrow> 0 \<le> f \<Longrightarrow> sound D l0 (l\<lparr>rl_equity := e\<rparr>)"
  using fee_deduction [of "[0]" l f e] by (simp add: sound_def extends_def)

lemma sound_equity:
  "sound D l0 l \<Longrightarrow> quantize 2 x = Inr e \<Longrightarrow> sound D l0 (l\<lparr>rl_equity := e, rl_peak := max (rl_peak l) e\<rparr>)"
  using run_ok_equity [of "[0]" l x e] by (simp add: sound_def extends_def)

lemma sound_record:
  "sound D l0 l \<Longrightarrow> 0 \<le> dd \<Longrightarrow> D (ps_direction p) \<Longrightarrow>
   sound D l0 (record_trade p t x pnl r full dd ex (record_result pnl r l))"
  using record_ok [of "[0]" l dd p t x pnl r full ex]
  by (simp add: sound_def extends_def record_trade_def record_result_def Let_def prefix_snocI)

definition book_sound :: "(string \<Rightarrow> bool) \<Rightarrow> run_ledger \<Rightarrow> run_books \<Rightarrow> bool" where
  "book_sound D l0 b \<longleftrightarrow> sound D l0 (fst b) \<and> D (ps_direction (snd b))"

lemma book_mod_led:
  "(\<And>l. sound D l0 l \<Longrightarrow> sound D l0 (f l)) \<Longrightarrow> upholds (book_sound D l0) (mod_led f) (\<lambda>_. True)"
  by (auto simp: upholds_def st_simps book_sound_def)

lemma book_mod_pos:
  "(\<And>p. ps_direction (f p) = ps_direction p) \<Longrightarrow> upholds (book_sound D l0) (mod_pos f) (\<lambda>_. True)"
  by (auto simp: upholds_def st_simps book_sound_def)

lemma close_drawdown: "quantize 2 (dsub (max pk e) e) = Inr d \<Longrightarrow> 0 \<le> d"
  by (erule quantize_nonneg) (simp add: dsub_def)

lemma close_sound: "upholds (book_sound D l0) (close_run_position costs t x r b f) (\<lambda>_. True)"
  unfolding close_run_position_def Let_def
  by (intro upholds_rules upholds_bind [where D = "\<lambda>_. True"] book_mod_led book_mod_pos)
    (auto simp: book_sound_def intro: sound_equity sound_record sound_emit close_drawdown)

lemma absorb_sound: "upholds (book_sound D l0) (absorb_remainder costs b x n act seq pol) (\<lambda>_. True)"
  unfolding upholds_def
proof (intro allI impI conjI TrueI)
  fix s
  assume "book_sound D l0 s"
  then obtain l p where s: "s = (l, p)" and ok: "sound D l0 l" "D (ps_direction p)"
    by (cases s) (simp add: book_sound_def)
  show "book_sound D l0 (snd (absorb_remainder costs b x n act seq pol s))"
    using ok sound_fee [OF ok(1)]
    by (auto simp: s absorb_remainder_def st_simps Let_def book_sound_def intro!: sound_emit split: sum.split)
qed

section \<open>The state of the replay\<close>

text \<open>The directions a fresh entry may take, and those a position may have.\<close>

definition admitted :: "'v stepper_env \<Rightarrow> string \<Rightarrow> bool" where
  "admitted E d \<longleftrightarrow> entry_gates_ok E \<and> (let (long_ok, short_ok) = direction_flags (sx_direction_mode (se_extra E)) in
     (d = ''long'' \<longrightarrow> long_ok) \<and> (d = ''short'' \<longrightarrow> short_ok))"

definition traded :: "'v stepper_env \<Rightarrow> string \<Rightarrow> bool" where
  "traded E d \<longleftrightarrow> admitted E d \<and> size_gates_ok E"

definition steady :: "'v stepper_env \<Rightarrow> run_ledger \<Rightarrow> 'v stepper \<Rightarrow> bool" where
  "steady E l0 s \<longleftrightarrow> sound (traded E) l0 (st_led s) \<and>
     pred_option (\<lambda>p. traded E (ps_direction p)) (st_position s) \<and>
     pred_option (\<lambda>o1. pd_entry o1 \<longrightarrow> admitted E (pd_direction o1)) (st_pending s) \<and>
     pred_option (\<lambda>w. admitted E (wl_direction w)) (st_limit s) \<and>
     pred_option (\<lambda>w. admitted E (ws_direction w)) (st_stop s)"

lemma upholds_bind_any:
  "upholds I m (\<lambda>_. True) \<Longrightarrow> (\<And>x. upholds I (f x) C) \<Longrightarrow> upholds I (sbind m f) C"
  by (rule upholds_bind)

lemma up_mod:
  "(\<And>s. steady E l0 s \<Longrightarrow> steady E l0 (f s)) \<Longrightarrow> upholds (steady E l0) (smod f) (\<lambda>_. True)"
  by (rule upholds_mod) simp_all

lemma up_bump: "upholds (steady E l0) (bump k) (\<lambda>_. True)"
  unfolding bump_def by (rule up_mod) (simp add: steady_def)

lemma up_emit: "upholds (steady E l0) (emit ty tm d det) (\<lambda>_. True)"
  unfolding emit_def by (rule up_mod) (simp add: steady_def sound_emit)

lemma up_block: "upholds (steady E l0) (set_block_reason r) (\<lambda>_. True)"
  unfolding set_block_reason_def by (rule up_mod) (simp add: steady_def)

lemma up_on_led:
  "upholds (sound (traded E) l0) m C \<Longrightarrow> upholds (steady E l0) (on_led m) C"
  by (auto simp: upholds_def on_led_def steady_def Let_def split: prod.splits)

lemma up_on_held:
  "upholds (book_sound (traded E) l0) m C \<Longrightarrow> upholds (steady E l0) (on_held m) C"
  unfolding upholds_def on_held_def steady_def book_sound_def Let_def
  by (auto split: prod.splits option.splits) (metis fst_conv snd_conv prod.exhaust_sel)+

lemma up_swhen: "upholds I m (\<lambda>_. True) \<Longrightarrow> upholds I (swhen c m) (\<lambda>_. True)"
  by (simp add: upholds_ret)

lemmas up_rules = upholds_rules upholds_bind_any up_bump up_emit up_block up_mod

text \<open>The queries of the portfolio rules raise flags only.\<close>

lemma conflicts_sound: "upholds (sound D l0) (conflicts_with_prior rules d t) (\<lambda>_. True)"
proof -
  have "upholds (sound D l0) (conflict_loop own d t ivs) (\<lambda>_. True)" for own ivs
    by (induction own d t ivs rule: conflict_loop.induct)
      (auto simp: Let_def intro!: upholds_ret upholds_bind_any upholds_mod)
  then show ?thesis by (simp add: conflicts_with_prior_def)
qed

lemma exposure_sound: "upholds (sound D l0) (prior_exposure_at rules t) (\<lambda>_. True)"
  unfolding prior_exposure_at_def by (auto intro!: upholds_ret upholds_bind_any upholds_mod)

lemma blocked_reason_sound: "upholds (sound D l0) (blocked_reason c) (\<lambda>_. True)"
  unfolding blocked_reason_def by (intro upholds_rules upholds_bind_any upholds_mod) simp_all

lemma aftermath_sound:
  "upholds (book_sound D l0) (\<lambda>(led, p). let (r, p') = apply_partial_aftermath x a h sl p in (r, (led, p'))) (\<lambda>_. True)"
proof -
  have "ps_direction (snd (apply_partial_aftermath x a h sl p)) = ps_direction p" for p
    by (auto simp: apply_partial_aftermath_def st_simps Let_def split: sum.splits option.splits partial_aftermath.splits)
  then show ?thesis by (auto simp: upholds_def book_sound_def Let_def split: prod.splits) (metis snd_conv)+
qed

section \<open>Closing and opening\<close>

lemma close_held_up: "upholds (steady E l0) (close_held E t x r f) (\<lambda>_. True)"
  unfolding close_held_def by (intro upholds_get up_on_held close_sound)

lemma held_aftermath_up: "upholds (steady E l0) (held_aftermath E x) (\<lambda>_. True)"
  unfolding held_aftermath_def
  by (intro upholds_bind_any [OF up_on_held [OF aftermath_sound]] up_rules) simp_all

lemma close_all_up: "upholds (steady E l0) (close_all E t x r) (\<lambda>_. True)"
  unfolding close_all_def by (intro upholds_bind_any [OF close_held_up] up_mod) (simp add: steady_def)

lemma close_signal_up: "upholds (steady E l0) (close_signal E t x r) (\<lambda>_. True)"
  unfolding close_signal_def
  by (intro upholds_bind_any [OF close_held_up] up_rules held_aftermath_up) (simp add: steady_def)

lemma headroom_up: "upholds (steady E l0) (portfolio_headroom E b) (\<lambda>_. True)"
  unfolding portfolio_headroom_def
  by (auto split: option.splits intro!: upholds_ret upholds_bind_any up_on_led exposure_sound)

lemma exposure_gate_up: "upholds (steady E l0) (exposure_gate E b e sz) (\<lambda>_. True)"
  unfolding exposure_gate_def by (intro upholds_bind_any [OF headroom_up] up_rules) simp_all

lemma conflict_gate_up: "upholds (steady E l0) (conflict_gate E d b) (\<lambda>_. True)"
  unfolding conflict_gate_def by (auto split: option.splits intro!: upholds_ret up_on_led conflicts_sound)

lemma planned_up: "upholds (steady E l0) (entry_planned_size E d x m) (\<lambda>_. True)"
  unfolding entry_planned_size_def by (rule upholds_get) (simp add: upholds_def st_run)

lemma open_position_up:
  "upholds (steady E l0) (open_position_run E d b x m ov)
     (pred_option (\<lambda>p. ps_direction p = d \<and> size_gates_ok E))"
  unfolding open_position_run_def Let_def
  by (intro upholds_if upholds_bind_any [OF conflict_gate_up] upholds_bind_any [OF planned_up]
      upholds_bind_any [OF exposure_gate_up] up_rules)
    (simp_all add: steady_def fresh_position_def)

lemma deduct_up: "0 \<le> f \<Longrightarrow> upholds (steady E l0) (deduct f) (\<lambda>_. True)"
  by (auto simp: upholds_def deduct_def st_simps steady_def sound_fee split: sum.splits)

lemma charge_entry_up: "upholds (steady E l0) (charge_entry E p) (\<lambda>_. True)"
  unfolding charge_entry_def by (intro upholds_rules deduct_up) (auto dest: fee_nonneg)

lemma open_filled_up:
  "traded E (ps_direction p) \<Longrightarrow> upholds (steady E l0) (open_filled E d b deferred extra p) (\<lambda>_. True)"
  unfolding open_filled_def
  by (intro upholds_bind_any [OF charge_entry_up] up_rules) (simp add: steady_def)

lemma open_blocked_up: "upholds (steady E l0) (open_blocked E d b deferred) (\<lambda>_. True)"
  unfolding open_blocked_def
  by (intro upholds_bind_any [OF up_on_led [OF blocked_reason_sound]] up_rules) (simp add: steady_def)

lemma do_open_up:
  "admitted E d \<Longrightarrow> upholds (steady E l0) (do_open E d b x deferred m ov extra) (\<lambda>_. True)"
  unfolding do_open_def
  by (intro upholds_bind [OF open_position_up] upholds_option open_filled_up open_blocked_up)
    (simp add: traded_def)

section \<open>Resting orders\<close>

lemma absorb_held_up: "upholds (steady E l0) (absorb_held E b x n act) (\<lambda>_. True)"
  unfolding absorb_held_def by (intro upholds_get up_on_held absorb_sound)

lemmas steady_simps = steady_def option.pred_map o_def

lemma dispose_remainder_up: "upholds (steady E l0) (dispose_remainder E wl b planned d) (\<lambda>_. True)"
  unfolding dispose_remainder_def Let_def
  by (intro up_rules absorb_held_up) (simp_all add: steady_simps)

lemma fill_resting_limit_up:
  "admitted E (wl_direction wl) \<Longrightarrow> upholds (steady E l0) (fill_resting_limit E wl b prints armed) (\<lambda>_. True)"
  unfolding fill_resting_limit_def Let_def
  by (intro upholds_bind_any [OF planned_up] up_rules do_open_up dispose_remainder_up) (simp_all add: steady_simps)

lemma cancel_limit_up: "upholds (steady E l0) (cancel_limit t r wl) (\<lambda>_. True)"
  unfolding cancel_limit_def by (intro up_rules) (simp add: steady_simps)

lemma reprice_limit_up: "upholds (steady E l0) (reprice_limit b) (\<lambda>_. True)"
  unfolding reprice_limit_def by (intro up_rules) (simp add: steady_simps)

lemma fill_pending_up: "upholds (steady E l0) (fill_pending E b at_open) (\<lambda>_. True)"
  unfolding fill_pending_def Let_def
  by (intro up_rules do_open_up close_signal_up) (auto simp: steady_simps)

lemma limit_touch_up: "upholds (steady E l0) (limit_touch E b) (\<lambda>_. True)"
  unfolding limit_touch_def Let_def
  by (intro up_rules do_open_up cancel_limit_up reprice_limit_up fill_resting_limit_up) (auto simp: steady_simps)

lemma top_up_remainder_up: "upholds (steady E l0) (top_up_remainder E b wl r prints) (\<lambda>_. True)"
  unfolding top_up_remainder_def Let_def
  by (intro up_rules absorb_held_up) (simp_all add: steady_simps)

lemma limit_remainder_up: "upholds (steady E l0) (limit_remainder E b) (\<lambda>_. True)"
  unfolding limit_remainder_def Let_def
  by (intro up_rules absorb_held_up cancel_limit_up reprice_limit_up top_up_remainder_up) (simp_all add: steady_simps)

lemma arm_limit_leg_up:
  "admitted E (ws_direction ws) \<Longrightarrow> upholds (steady E l0) (arm_limit_leg E b ws leg) (\<lambda>_. True)"
  unfolding arm_limit_leg_def Let_def
  by (intro up_rules fill_resting_limit_up) (simp_all add: steady_simps)

lemma stop_trigger_up: "upholds (steady E l0) (stop_trigger E b) (\<lambda>_. True)"
  unfolding stop_trigger_def Let_def
  by (intro up_rules arm_limit_leg_up do_open_up) (auto simp: steady_simps)

lemma phase_open_fills_up: "upholds (steady E l0) (phase_open_fills E b) (\<lambda>_. True)"
  unfolding phase_open_fills_def
  by (intro up_rules fill_pending_up limit_touch_up limit_remainder_up stop_trigger_up)

section \<open>The phases of a bar\<close>

lemma roll_day_up: "upholds (steady E l0) (roll_day E b) (\<lambda>_. True)"
  unfolding roll_day_def by (intro up_mod) (simp add: steady_def split: option.split)

lemma read_signals_up: "upholds (steady E l0) (read_signals E b) (\<lambda>_. True)"
  unfolding read_signals_def by (intro up_mod) (simp add: steady_def Let_def split: option.split)

lemma flat_collision_up: "upholds (steady E l0) (flat_collision E b) (\<lambda>_. True)"
  unfolding flat_collision_def Let_def by (intro up_rules) (simp_all add: steady_def)

lemma read_bar_ticks_up: "upholds (steady E l0) (read_bar_ticks E b) (\<lambda>_. True)"
  unfolding read_bar_ticks_def Let_def by (intro up_rules) (simp_all add: steady_def)

lemma phase_admit_up: "upholds (steady E l0) (phase_admit E b) (\<lambda>_. True)"
  unfolding phase_admit_def
  by (intro up_rules roll_day_up read_signals_up flat_collision_up read_bar_ticks_up) (simp_all add: steady_def)

lemma charge_funding_up: "upholds (steady E l0) (charge_funding x) (\<lambda>_. True)"
  by (auto simp: upholds_def charge_funding_def st_simps steady_def sound_equity split: sum.splits)

lemma book_charges_up: "upholds (steady E l0) (book_charges E b p cs) (\<lambda>_. True)"
proof (induction cs)
  case Nil
  show ?case by (simp add: upholds_ret)
next
  case (Cons c cs)
  show ?case unfolding book_charges.simps by (intro up_rules charge_funding_up Cons.IH) simp_all
qed

lemma book_carry_up: "upholds (steady E l0) (book_carry E b plan) (\<lambda>_. True)"
  unfolding book_carry_def by (intro up_rules book_charges_up) (simp_all add: steady_def)

lemma phase_carry_up: "upholds (steady E l0) (phase_carry E b) (\<lambda>_. True)"
  unfolding phase_carry_def by (intro up_rules book_carry_up) simp_all

lemma move_anchor_direction [simp]: "ps_direction (move_anchor b p) = ps_direction p"
  by (simp add: move_anchor_def)

lemma evaluate_held_up: "upholds (steady E l0) (evaluate_held E b) (\<lambda>_. True)"
  unfolding evaluate_held_def by (intro up_rules) (simp_all add: steady_def)

lemma emit_stop_resolution_up: "upholds (steady E l0) (emit_stop_resolution E out t d) (\<lambda>_. True)"
  unfolding emit_stop_resolution_def by (intro up_rules) (simp_all add: steady_def sound_signal_event)

lemma close_on_stop_up: "upholds (steady E l0) (close_on_stop E b p out) (\<lambda>_. True)"
  unfolding close_on_stop_def
  by (intro upholds_bind_any [OF close_held_up] upholds_bind_any [OF emit_stop_resolution_up] up_mod)
    (simp add: steady_def)

lemma exit_scheduled_up: "upholds (steady E l0) (exit_scheduled E b p x) (\<lambda>_. True)"
  unfolding exit_scheduled_def by (rule up_emit)

lemma upholds_sched:
  "upholds I a C \<Longrightarrow> upholds I b C \<Longrightarrow> upholds I c C \<Longrightarrow> upholds I d C \<Longrightarrow>
   upholds I (case f of Immediate \<Rightarrow> a | NextOpen \<Rightarrow> b | NextClose \<Rightarrow> c | Touch \<Rightarrow> d) C"
  by (cases f) simp_all

lemma upholds_decision:
  "(\<And>x y. upholds I (a x y) C) \<Longrightarrow> (\<And>x. upholds I (b x) C) \<Longrightarrow> (\<And>x y. upholds I (c x y) C) \<Longrightarrow>
   upholds I d C \<Longrightarrow> upholds I e C \<Longrightarrow>
   upholds I (case dec of StopExitCollision x y \<Rightarrow> a x y | StopHit x \<Rightarrow> b x | TouchExit x y \<Rightarrow> c x y
     | ExitNow \<Rightarrow> d | HoldOn \<Rightarrow> e) C"
  by (cases dec) simp_all

lemma apply_held_up: "upholds (steady E l0) (apply_held E b decision) (\<lambda>_. True)"
  unfolding apply_held_def
  by (intro up_rules upholds_decision upholds_sched close_all_up close_on_stop_up close_signal_up exit_scheduled_up)
    (simp_all add: steady_def)

lemma phase_held_up: "upholds (steady E l0) (phase_held E b) (\<lambda>_. True)"
  unfolding phase_held_def
  by (intro up_rules upholds_bind_any [OF evaluate_held_up] upholds_bind_any [OF apply_held_up]) simp_all

section \<open>Entries\<close>

lemma wanted_admitted:
  "entry_gates_ok E \<Longrightarrow> wanted_direction E b s = (Some d, effects) \<Longrightarrow> admitted E d"
  by (cases "st_entry_signal s")
    (auto simp: wanted_direction_def admitted_def Let_def split: prod.splits if_splits)

lemma evaluate_entry_admits:
  assumes "evaluate_entry E b s = Inr (Some dec)"
  shows "pred_option (admitted E) (ed_want dec)"
proof (cases "ed_want dec")
  case (Some d)
  obtain w es where w: "wanted_direction E b s = (w, es)" by (cases "wanted_direction E b s")
  from assms Some have "entry_gates_ok E \<and> w = Some d"
    by (auto simp: evaluate_entry_def rbind_Inr_iff Let_def w split: if_splits option.splits)
  then show ?thesis using wanted_admitted w Some by auto
qed simp

lemma book_effects_up: "upholds (steady E l0) (book_effects b es) (\<lambda>_. True)"
proof (induction es)
  case Nil
  show ?case by (simp add: upholds_ret)
next
  case (Cons e es)
  show ?case unfolding book_effects.simps by (intro up_rules Cons.IH) simp_all
qed

lemma placing_up:
  assumes "admitted E want"
  shows "upholds (steady E l0) (place_limit E b want m) (\<lambda>_. True)"
    "upholds (steady E l0) (place_stop E b want m) (\<lambda>_. True)"
    "upholds (steady E l0) (place_touch E b want m) (\<lambda>_. True)"
    "upholds (steady E l0) (schedule_entry E b want m) (\<lambda>_. True)"
  unfolding place_limit_def place_stop_def place_touch_def schedule_entry_def Let_def
  by (intro up_rules; simp add: steady_def assms)+

lemma place_entry_up:
  assumes "pred_option (admitted E) (ed_want dec)"
  shows "upholds (steady E l0) (place_entry E b dec ov) (\<lambda>_. True)"
  unfolding place_entry_def
  by (intro upholds_bind_any [OF book_effects_up] up_rules placing_up do_open_up) (use assms in simp_all)

lemma apply_entry_up:
  assumes "pred_option (admitted E) (ed_want dec)"
  shows "upholds (steady E l0) (apply_entry E b dec eq ov) (\<lambda>_. True)"
proof -
  have *: "steady E l0 (s\<lparr>st_sizing_equity := x\<rparr>) = steady E l0 s" for s x by (simp add: steady_def)
  show ?thesis
    using upholdsD [OF place_entry_up [OF assms, of l0 b ov]] *
    unfolding upholds_def apply_entry_def Let_def by (auto split: prod.splits) (metis snd_conv)
qed

lemma phase_entry_up: "upholds (steady E l0) (phase_entry E b eq) (\<lambda>_. True)"
  unfolding phase_entry_def by (intro up_rules apply_entry_up) (auto dest: evaluate_entry_admits)

section \<open>The tail\<close>

lemma signal_strength_up: "upholds (steady E l0) (signal_strength E b) (\<lambda>_. True)"
  unfolding signal_strength_def by (intro up_rules) simp_all

lemma ignore_signal_up: "upholds (steady E l0) (ignore_signal b d det) (\<lambda>_. True)"
  unfolding ignore_signal_def by (intro up_rules)

lemma charge_fee_up: "upholds (steady E l0) (charge_fee E n) (\<lambda>_. True)"
  unfolding charge_fee_def by (intro up_rules deduct_up) (auto dest: fee_nonneg)

lemma add_to_position_up:
  assumes "traded E (ps_direction p)"
  shows "upholds (steady E l0) (add_to_position eff n m p) (\<lambda>q. ps_direction q = ps_direction p)"
  unfolding add_to_position_def Let_def
  by (intro up_rules) (simp_all add: steady_def assms)

lemma stack_refusal_up: "upholds (steady E l0) (stack_refusal E b p eff n m) (\<lambda>_. True)"
  unfolding stack_refusal_def Let_def
  by (intro upholds_rules upholds_bind_any [OF headroom_up]) simp_all

lemma stack_position_up:
  assumes "traded E (ps_direction p)"
  shows "upholds (steady E l0) (stack_position E b p) (\<lambda>_. True)"
  unfolding stack_position_def Let_def
  by (intro upholds_bind_any [OF signal_strength_up] upholds_bind_any [OF stack_refusal_up]
      upholds_bind [OF add_to_position_up [OF assms]] upholds_bind_any [OF charge_fee_up] up_rules)

lemma replace_position_up:
  assumes "admitted E d"
  shows "upholds (steady E l0) (replace_position E b d p) (\<lambda>_. True)"
  unfolding replace_position_def
  by (intro upholds_bind_any [OF signal_strength_up] upholds_bind_any [OF close_all_up] up_rules
      do_open_up [OF assms])

lemma upholds_stacking:
  "upholds I a C \<Longrightarrow> upholds I b C \<Longrightarrow> upholds I c C \<Longrightarrow> upholds I d C \<Longrightarrow>
   upholds I (case k of AllowStacking \<Rightarrow> a | ReplaceExisting \<Rightarrow> b | ScaleExisting \<Rightarrow> c | IgnoreStacking \<Rightarrow> d) C"
  by (cases k) simp_all

lemma same_direction_up:
  assumes "traded E (ps_direction p)" "d = ps_direction p"
  shows "upholds (steady E l0) (same_direction_signal E b d p) (\<lambda>_. True)"
  unfolding same_direction_signal_def Let_def
  by (intro upholds_stacking up_rules ignore_signal_up replace_position_up stack_position_up)
    (use assms in \<open>simp_all add: traded_def\<close>)

lemma opposite_signal_up: "upholds (steady E l0) (opposite_signal E b d p) (\<lambda>_. True)"
  unfolding opposite_signal_def
  by (cases "ch_hedge (conflict_of E)")
    (auto intro!: upholds_ret upholds_bind_any up_bump close_all_up ignore_signal_up)

lemma conflict_signal_up: "upholds (steady E l0) (conflict_signal E b) (\<lambda>_. True)"
  unfolding conflict_signal_def
  by (intro up_rules same_direction_up opposite_signal_up) (simp_all add: steady_def)

lemma scale_refusal_up: "upholds (steady E l0) (scale_refusal E b p eff n m) (\<lambda>_. True)"
  unfolding scale_refusal_def
  by (intro upholds_rules upholds_bind_any [OF headroom_up]) (simp add: upholds_def st_run)

lemma scale_layer_up:
  assumes "traded E (ps_direction p)"
  shows "upholds (steady E l0) (scale_layer E b p) (\<lambda>_. True)"
  unfolding scale_layer_def Let_def
  by (intro upholds_bind_any [OF scale_refusal_up] upholds_bind [OF add_to_position_up]
      upholds_bind_any [OF charge_fee_up] up_rules) (simp_all add: steady_def assms)

lemma scale_ladder_up: "upholds (steady E l0) (scale_ladder E b) (\<lambda>_. True)"
  unfolding scale_ladder_def by (intro up_rules scale_layer_up) (simp_all add: steady_def)

lemma end_bar_up: "upholds (steady E l0) (end_bar b) (\<lambda>_. True)"
  unfolding end_bar_def by (intro up_mod) (simp add: steady_def)

lemma phase_tail_up: "upholds (steady E l0) (phase_tail E b) (\<lambda>_. True)"
  unfolding phase_tail_def
  by (intro upholds_bind_any [OF fill_pending_up] upholds_bind_any [OF conflict_signal_up]
      upholds_bind_any [OF scale_ladder_up] end_bar_up)

section \<open>The replay\<close>

lemma step_bar_up: "upholds (steady E l0) (step_bar E b) (\<lambda>_. True)"
  unfolding step_bar_def
  by (intro upholds_bind_any [OF phase_admit_up] upholds_bind_any [OF phase_carry_up]
      upholds_bind_any [OF phase_open_fills_up] upholds_bind_any [OF phase_held_up]
      upholds_bind_any [OF phase_tail_up] upholds_bind_any phase_tail_up upholds_if phase_entry_up upholds_ret) simp_all

lemma step_rows_up: "upholds (steady E l0) (step_rows E rows) (\<lambda>_. True)"
proof (induction rows)
  case Nil
  show ?case by (simp add: upholds_ret)
next
  case (Cons r rows)
  show ?case unfolding step_rows.simps by (intro upholds_option Cons.IH upholds_bind_any [OF step_bar_up])
qed

lemma finalize_run_up: "upholds (steady E l0) (finalize_run E) (\<lambda>_. True)"
  unfolding finalize_run_def finalize_limit_def finalize_stop_def finalize_position_def
  by (intro upholds_bind_any up_rules cancel_limit_up close_all_up) (simp_all add: steady_def)

end
