(* ===== verification/Stepper_Positions.thy ===== *)
theory Stepper_Positions
  imports Stepper Step_Logic
begin

text \<open>
  Which calls of a replay open and close positions. The view \<open>track\<close> is the number of the held position,
  how many positions were opened and how many intervals were recorded; every phase leads from a settled
  view to a settled one.
\<close>

definition track :: "'v stepper \<Rightarrow> nat option \<times> nat \<times> nat" where
  "track s = (map_option ps_position_seq (st_position s), st_position_seq s,
     length (rl_position_intervals (st_led s)))"

definition settled :: "nat option \<times> nat \<times> nat \<Rightarrow> bool" where
  "settled t = (case t of (q, n, i) \<Rightarrow> (q = None \<and> n = i) \<or> (q = Some n \<and> n = i + 1))"

section \<open>Calls that leave the view alone\<close>

lemma quiet_mod: "(\<And>s. track (f s) = track s) \<Longrightarrow> unseen track (smod f)"
  by (rule unseen_mod)

lemma emit_intervals [simp]: "rl_position_intervals (emit_event a b c d e l) = rl_position_intervals l"
  by (simp add: emit_event_def)

lemma quiet_bump: "unseen track (bump k)"
  unfolding bump_def by (rule quiet_mod) (simp add: track_def)

lemma quiet_emit: "unseen track (emit ty t d det)"
  unfolding emit_def by (rule quiet_mod) (simp add: track_def)

lemma quiet_block: "unseen track (set_block_reason r)"
  unfolding set_block_reason_def by (rule quiet_mod) (simp add: track_def)

lemma quiet_on_led: "unseen rl_position_intervals m \<Longrightarrow> unseen track (on_led m)"
  by (auto simp: unseen_def on_led_def track_def Let_def split: prod.splits) (metis snd_conv)

lemma quiet_on_held:
  "unseen (\<lambda>b. (rl_position_intervals (fst b), ps_position_seq (snd b))) m \<Longrightarrow> unseen track (on_held m)"
  by (auto simp: unseen_def on_held_def track_def Let_def split: prod.splits option.splits) (metis fst_conv snd_conv)+

lemmas quiet_rules = unseen_bind quiet_bump quiet_emit quiet_block unseen_basic unseen_if unseen_option
  unseen_prod quiet_mod

lemma conflicts_quiet: "unseen rl_position_intervals (conflicts_with_prior rules d t)"
proof -
  have "unseen rl_position_intervals (conflict_loop own d t ivs)" for own ivs
    by (induction own d t ivs rule: conflict_loop.induct)
      (auto simp: Let_def intro!: unseen_basic unseen_bind unseen_mod)
  then show ?thesis by (simp add: conflicts_with_prior_def)
qed

lemma exposure_quiet: "unseen rl_position_intervals (prior_exposure_at rules t)"
  unfolding prior_exposure_at_def by (auto intro!: unseen_basic unseen_bind unseen_mod)

lemma blocked_reason_quiet: "unseen rl_position_intervals (blocked_reason c)"
  unfolding blocked_reason_def by (intro unseen_rules) simp_all

lemma aftermath_quiet:
  "unseen (\<lambda>b. (rl_position_intervals (fst b), ps_position_seq (snd b)))
     (\<lambda>(led, p). let (r, p') = apply_partial_aftermath x a h sl p in (r, (led, p')))"
proof -
  have "ps_position_seq (snd (apply_partial_aftermath x a h sl p)) = ps_position_seq p" for p
    by (auto simp: apply_partial_aftermath_def st_simps Let_def split: sum.splits option.splits partial_aftermath.splits)
  then show ?thesis by (auto simp: unseen_def Let_def split: prod.splits) (metis snd_conv)+
qed

lemma absorb_quiet:
  "unseen (\<lambda>b. (rl_position_intervals (fst b), ps_position_seq (snd b))) (absorb_remainder costs b x n act seq pol)"
  unfolding absorb_remainder_def Let_def
  by (intro unseen_rules) (simp_all add: st_simps unseen_def)

lemma headroom_quiet: "unseen track (portfolio_headroom E b)"
  unfolding portfolio_headroom_def
  by (auto split: option.splits intro!: unseen_basic unseen_bind quiet_on_led exposure_quiet)

lemma exposure_gate_quiet: "unseen track (exposure_gate E b e sz)"
  unfolding exposure_gate_def by (intro quiet_rules headroom_quiet) 

lemma conflict_gate_quiet: "unseen track (conflict_gate E d b)"
  unfolding conflict_gate_def by (auto split: option.splits intro!: unseen_basic quiet_on_led conflicts_quiet)

lemma planned_quiet: "unseen track (entry_planned_size E d x m)"
  unfolding entry_planned_size_def by (intro quiet_rules)

lemma deduct_quiet: "unseen track (deduct f)"
  unfolding deduct_def by (intro quiet_rules) (simp add: track_def)

lemma charge_entry_quiet: "unseen track (charge_entry E p)"
  unfolding charge_entry_def by (intro quiet_rules deduct_quiet)

lemma held_aftermath_quiet: "unseen track (held_aftermath E x)"
  unfolding held_aftermath_def by (intro quiet_rules quiet_on_held [OF aftermath_quiet])

lemma absorb_held_quiet: "unseen track (absorb_held E b x n act)"
  unfolding absorb_held_def by (intro quiet_rules quiet_on_held [OF absorb_quiet])

section \<open>Closing and opening\<close>

lemma close_run_intervals:
  assumes "close_run_position costs t x r b f (l, p) = (Inr full, (l', p'))"
  shows "full = (1 \<le> f)" "ps_position_seq p' = ps_position_seq p"
    "length (rl_position_intervals l') = length (rl_position_intervals l) + (if 1 \<le> f then 1 else 0)"
proof -
  have rr: "rl_position_intervals (record_result y z l) = rl_position_intervals l" for y z l
    by (simp add: record_result_def Let_def)
  have rt: "length (rl_position_intervals (record_trade p t y x z fl d e l))
      = length (rl_position_intervals l) + (if fl then 1 else 0)" for p t y x z fl d e l
    by (simp add: record_trade_def Let_def)
  have "full = (1 \<le> f) \<and> ps_position_seq p' = ps_position_seq p \<and>
    length (rl_position_intervals l') = length (rl_position_intervals l) + (if 1 \<le> f then 1 else 0)"
    using assms
    by (cases "1 \<le> f") (auto simp: close_run_position_def st_simps Let_def rr rt split: sum.splits)
  then show "full = (1 \<le> f)" "ps_position_seq p' = ps_position_seq p"
    "length (rl_position_intervals l') = length (rl_position_intervals l) + (if 1 \<le> f then 1 else 0)"
    by simp_all
qed

lemma close_held_steps:
  "steps track (Some k, n, i) (close_held E t x r f)
     (\<lambda>full u. full = (1 \<le> f) \<and> u = (Some k, n, if 1 \<le> f then i + 1 else i))"
  unfolding steps_def
proof (intro allI impI)
  fix s full s'
  assume v: "track s = (Some k, n, i)" and c: "close_held E t x r f s = (Inr full, s')"
  obtain p where p: "st_position s = Some p" "ps_position_seq p = k" "st_position_seq s = n"
    "length (rl_position_intervals (st_led s)) = i"
    using v by (auto simp: track_def)
  obtain r' l' p' where e: "close_run_position (costs_of E) t x r (int (st_bars_seen s)) f (st_led s, p) = (r', (l', p'))"
    by (metis prod.exhaust)
  have r: "r' = Inr full" "s' = s\<lparr>st_led := l', st_position := Some p'\<rparr>"
    using c p(1) e by (auto simp: close_held_def st_simps on_held_def)
  have "close_run_position (costs_of E) t x r (int (st_bars_seen s)) f (st_led s, p) = (Inr full, (l', p'))"
    using e r by simp
  note close_run_intervals [OF this]
  then show "full = (1 \<le> f) \<and> track s' = (Some k, n, if 1 \<le> f then i + 1 else i)"
    using p r by (simp add: track_def)
qed

lemma close_all_steps:
  assumes "settled t" "fst t \<noteq> None"
  shows "steps track t (close_all E ts x r) (\<lambda>_ u. settled u \<and> fst u = None)"
proof -
  obtain k n i where t: "t = (Some k, n, i)" "k = n" "n = i + 1"
    using assms by (cases t) (auto simp: settled_def)
  show ?thesis unfolding close_all_def t(1)
    by (rule steps_bind [OF close_held_steps], rule steps_mod) (use t in \<open>auto simp: track_def settled_def\<close>)
qed

lemma close_signal_steps:
  assumes "settled t" "fst t \<noteq> None"
  shows "steps track t (close_signal E ts x r) (\<lambda>_. settled)"
proof -
  obtain k n i where t: "t = (Some k, n, i)" "k = n" "n = i + 1"
    using assms by (cases t) (auto simp: settled_def)
  show ?thesis unfolding close_signal_def t(1)
  proof (rule steps_bind [OF close_held_steps], rule steps_if)
    fix full u
    assume "full = (1 \<le> close_fraction E) \<and> u = (Some k, n, if 1 \<le> close_fraction E then i + 1 else i)"
    then show "full \<Longrightarrow> steps track u (set_position None) (\<lambda>_. settled)"
      and "\<not> full \<Longrightarrow> steps track u (held_aftermath E x) (\<lambda>_. settled)"
      using t by (auto intro!: steps_mod steps_last [OF held_aftermath_quiet] simp: track_def settled_def)
  qed
qed

lemma open_position_steps:
  "steps track (None, n, i) (open_position_run E d b x m ov)
     (\<lambda>r u. pred_option (\<lambda>p. ps_position_seq p = n + 1) r \<and> u = (None, if r = None then n else n + 1, i))"
  unfolding open_position_run_def Let_def
  by (intro steps_if steps_skip [OF conflict_gate_quiet] steps_skip [OF quiet_bump] steps_skip [OF quiet_block]
      steps_skip [OF planned_quiet] steps_skip [OF exposure_gate_quiet] steps_rules steps_skip [OF unseen_if]
      unseen_basic quiet_block
      steps_bind [where m = "smod f" and D = "\<lambda>_ u. u = (None, n + 1, i)" for f] steps_mod)
    (auto simp: fresh_position_def track_def)

lemma do_open_steps:
  assumes "settled t" "fst t = None"
  shows "steps track t (do_open E d b x deferred m ov extra) (\<lambda>_. settled)"
proof -
  obtain n where t: "t = (None, n, n)" using assms by (cases t) (auto simp: settled_def)
  show ?thesis unfolding do_open_def t
  proof (rule steps_bind [OF open_position_steps], rule steps_option)
    fix r :: "position option" and u :: "nat option \<times> nat \<times> nat"
    assume "pred_option (\<lambda>p. ps_position_seq p = n + 1) r \<and> u = (None, if r = None then n else n + 1, n)"
    then show "r = None \<Longrightarrow> steps track u (open_blocked E d b deferred) (\<lambda>_. settled)"
      and "\<And>p. r = Some p \<Longrightarrow> steps track u (open_filled E d b deferred extra p) (\<lambda>_. settled)"
      unfolding open_blocked_def open_filled_def
      by (intro steps_skip [OF quiet_on_led [OF blocked_reason_quiet]] steps_skip [OF quiet_emit]
          steps_skip [OF charge_entry_quiet] steps_mod; auto simp: track_def settled_def)+
  qed
qed

section \<open>Resting orders\<close>

lemma flat_view: "track s = t \<Longrightarrow> st_position s = None \<Longrightarrow> fst t = None"
  by (auto simp: track_def)

lemma held_view: "track s = t \<Longrightarrow> st_position s = Some p \<Longrightarrow> fst t = Some (ps_position_seq p)"
  by (auto simp: track_def)

lemma quiet_orders:
  "unseen track (set_limit w)" "unseen track (set_stop x)" "unseen track (set_pending y)"
  "unseen track (set_exit_touch z)" "unseen track mark_evidence_missing" "unseen track bump_partial_fills"
  by (auto intro!: quiet_mod simp: track_def)

lemma dispose_remainder_quiet: "unseen track (dispose_remainder E wl b planned d)"
  unfolding dispose_remainder_def Let_def
  by (intro quiet_rules quiet_orders absorb_held_quiet) (simp add: track_def)

lemma cancel_limit_quiet: "unseen track (cancel_limit t r wl)"
  unfolding cancel_limit_def by (intro quiet_rules quiet_orders) (simp add: track_def)

lemma reprice_limit_quiet: "unseen track (reprice_limit b)"
  unfolding reprice_limit_def by (intro quiet_mod) (simp add: track_def)

lemma fill_resting_limit_steps:
  assumes "settled t" "fst t = None"
  shows "steps track t (fill_resting_limit E wl b prints armed) (\<lambda>_. settled)"
  unfolding fill_resting_limit_def Let_def
  by (intro steps_bind [OF do_open_steps [OF assms]] steps_if steps_skip [OF quiet_bump] steps_skip [OF planned_quiet]
      steps_skip [OF unseen_if] quiet_bump quiet_orders unseen_basic steps_skip [OF quiet_orders(6)]
      steps_last [OF dispose_remainder_quiet] steps_last [OF quiet_emit] steps_last [OF quiet_orders(1)])
    (use assms in simp_all)

lemma fill_pending_steps:
  assumes "settled t"
  shows "steps track t (fill_pending E b at_open) (\<lambda>_. settled)"
  unfolding fill_pending_def Let_def
  by (intro steps_get steps_option steps_if steps_ret steps_bind [where D = "\<lambda>_. settled"]
      steps_skip [OF quiet_bump] do_open_steps close_signal_steps steps_last [OF quiet_orders(3)])
    (use assms in \<open>auto simp: track_def\<close>)

lemma limit_touch_steps:
  assumes "settled t"
  shows "steps track t (limit_touch E b) (\<lambda>_. settled)"
  unfolding limit_touch_def Let_def
  by (intro steps_get steps_option steps_if steps_prod steps_ret steps_skip [OF quiet_bump]
      steps_bind [where D = "\<lambda>_. settled"] do_open_steps fill_resting_limit_steps steps_last [OF quiet_orders(1)]
      steps_last [OF cancel_limit_quiet] steps_last [OF reprice_limit_quiet])
    (use assms in \<open>auto simp: track_def\<close>)

lemma top_up_remainder_quiet: "unseen track (top_up_remainder E b wl r prints)"
  unfolding top_up_remainder_def Let_def
  by (intro quiet_rules quiet_orders absorb_held_quiet) (simp_all add: track_def)

lemma limit_remainder_quiet: "unseen track (limit_remainder E b)"
  unfolding limit_remainder_def Let_def
  by (intro quiet_rules quiet_orders absorb_held_quiet cancel_limit_quiet reprice_limit_quiet top_up_remainder_quiet)
    (simp_all add: track_def)

lemma arm_limit_leg_steps:
  assumes "settled t" "fst t = None"
  shows "steps track t (arm_limit_leg E b ws leg) (\<lambda>_. settled)"
  unfolding arm_limit_leg_def Let_def
  by (intro steps_get steps_option steps_if steps_ret steps_skip [OF quiet_bump] steps_skip [OF quiet_emit]
      steps_skip [OF quiet_orders(1)] fill_resting_limit_steps)
    (use assms in simp_all)

lemma stop_trigger_steps:
  assumes "settled t"
  shows "steps track t (stop_trigger E b) (\<lambda>_. settled)"
  unfolding stop_trigger_def Let_def
  by (intro steps_get steps_option steps_if steps_ret steps_skip [OF quiet_bump] steps_skip [OF quiet_emit]
      steps_bind [where D = "\<lambda>_. settled"] do_open_steps arm_limit_leg_steps steps_last [OF quiet_orders(2)])
    (use assms in \<open>auto simp: track_def\<close>)

lemma phase_open_fills_steps:
  "settled t \<Longrightarrow> steps track t (phase_open_fills E b) (\<lambda>_. settled)"
  unfolding phase_open_fills_def
  by (intro steps_bind [OF fill_pending_steps] steps_bind [OF limit_touch_steps] steps_skip [OF limit_remainder_quiet]
      stop_trigger_steps)

section \<open>The phases of a bar\<close>

lemma phase_admit_quiet: "unseen track (phase_admit E b)"
  unfolding phase_admit_def read_bar_ticks_def roll_day_def read_signals_def flat_collision_def Let_def
  by (intro quiet_rules) (simp_all add: track_def split: option.splits)

lemma charge_funding_quiet: "unseen track (charge_funding x)"
  unfolding charge_funding_def by (intro quiet_rules) (simp add: track_def)

lemma book_charges_quiet: "unseen track (book_charges E b p cs)"
proof (induction cs)
  case Nil
  show ?case by (simp add: unseen_basic)
next
  case (Cons c cs)
  show ?case unfolding book_charges.simps by (intro quiet_rules charge_funding_quiet Cons.IH)
qed

lemma phase_carry_quiet: "unseen track (phase_carry E b)"
  unfolding phase_carry_def book_carry_def by (intro quiet_rules book_charges_quiet) (simp add: track_def)

lemma move_anchor_seq [simp]: "ps_position_seq (move_anchor b p) = ps_position_seq p"
  by (simp add: move_anchor_def)

lemma evaluate_held_steps:
  "steps track t (evaluate_held E b) (\<lambda>d u. u = t \<and> (d = None \<longleftrightarrow> fst t = None))"
  unfolding evaluate_held_def
  by (intro steps_rules steps_bind [where D = "\<lambda>_ u. u = t"] steps_mod) (auto simp: track_def)

lemma emit_stop_resolution_quiet: "unseen track (emit_stop_resolution E out ts d)"
  unfolding emit_stop_resolution_def by (intro quiet_rules) (simp add: track_def)

lemma close_on_stop_steps:
  assumes "settled t" "fst t \<noteq> None"
  shows "steps track t (close_on_stop E b p out) (\<lambda>_ u. settled u)"
proof -
  obtain k n i where t: "t = (Some k, n, i)" "k = n" "n = i + 1"
    using assms by (cases t) (auto simp: settled_def)
  show ?thesis unfolding close_on_stop_def t(1)
    by (rule steps_bind [OF close_held_steps], rule steps_skip [OF emit_stop_resolution_quiet], rule steps_mod)
      (use t in \<open>auto simp: track_def settled_def\<close>)
qed

lemma exit_scheduled_quiet: "unseen track (exit_scheduled E b p x)"
  unfolding exit_scheduled_def by (rule quiet_emit)

lemma steps_sched:
  "steps v t a C \<Longrightarrow> steps v t b C \<Longrightarrow> steps v t c C \<Longrightarrow> steps v t d C \<Longrightarrow>
   steps v t (case f of Immediate \<Rightarrow> a | NextOpen \<Rightarrow> b | NextClose \<Rightarrow> c | Touch \<Rightarrow> d) C"
  by (cases f) simp_all

lemma steps_decision:
  "(\<And>x y. steps v t (a x y) C) \<Longrightarrow> (\<And>x. steps v t (b x) C) \<Longrightarrow> (\<And>x y. steps v t (c x y) C) \<Longrightarrow>
   steps v t d C \<Longrightarrow> steps v t e C \<Longrightarrow>
   steps v t (case dec of StopExitCollision x y \<Rightarrow> a x y | StopHit x \<Rightarrow> b x | TouchExit x y \<Rightarrow> c x y
     | ExitNow \<Rightarrow> d | HoldOn \<Rightarrow> e) C"
  by (cases dec) simp_all

lemma apply_held_steps:
  assumes "settled t"
  shows "steps track t (apply_held E b decision) (\<lambda>_. settled)"
  unfolding apply_held_def
  by (intro steps_get steps_option steps_throw steps_decision steps_sched steps_if steps_ret steps_skip [OF quiet_bump]
      steps_skip [OF quiet_emit] steps_skip [OF exit_scheduled_quiet] close_on_stop_steps close_signal_steps
      steps_weaken [OF close_all_steps] steps_bind [where D = "\<lambda>_. settled"] steps_last [OF quiet_orders(3)]
      steps_last [OF quiet_orders(4)])
    (use assms in \<open>auto simp: track_def\<close>)

lemma phase_held_steps:
  assumes "settled t"
  shows "steps track t (phase_held E b) (\<lambda>held u. settled u \<and> (held \<or> fst u = None))"
  unfolding phase_held_def
proof (rule steps_bind [OF evaluate_held_steps], rule steps_option)
  fix d u
  assume u: "u = t \<and> (d = None \<longleftrightarrow> fst t = None)"
  show "d = None \<Longrightarrow> steps track u (sret False) (\<lambda>held u. settled u \<and> (held \<or> fst u = None))"
    using u assms by (intro steps_ret) auto
  show "steps track u (sbind (apply_held E b dec) (\<lambda>_. sret True)) (\<lambda>held u. settled u \<and> (held \<or> fst u = None))"
    for dec
    using u assms by (auto intro!: steps_bind [OF apply_held_steps] steps_ret)
qed

lemma book_effects_quiet: "unseen track (book_effects b es)"
proof (induction es)
  case Nil
  show ?case by (simp add: unseen_basic)
next
  case (Cons e es)
  show ?case unfolding book_effects.simps by (intro quiet_rules Cons.IH)
qed

lemma placing_quiet:
  "unseen track (place_limit E b want m)" "unseen track (place_stop E b want m)"
  "unseen track (place_touch E b want m)" "unseen track (schedule_entry E b want m)"
  unfolding place_limit_def place_stop_def place_touch_def schedule_entry_def Let_def
  by (intro quiet_rules; simp add: track_def)+

lemma place_entry_steps:
  assumes "settled t" "fst t = None"
  shows "steps track t (place_entry E b dec ov) (\<lambda>_. settled)"
  unfolding place_entry_def
  by (intro steps_skip [OF book_effects_quiet] steps_option steps_if steps_ret steps_skip [OF quiet_emit]
      do_open_steps steps_last [OF placing_quiet(1)] steps_last [OF placing_quiet(2)]
      steps_last [OF placing_quiet(3)] steps_last [OF placing_quiet(4)])
    (use assms in simp_all)

lemma apply_entry_steps:
  assumes "settled t" "fst t = None"
  shows "steps track t (apply_entry E b dec eq ov) (\<lambda>_. settled)"
proof -
  have "track (s\<lparr>st_sizing_equity := x\<rparr>) = track s" for s :: "'a stepper" and x by (simp add: track_def)
  then show ?thesis
    using place_entry_steps [OF assms, of E b dec ov] unfolding steps_def apply_entry_def Let_def
    by (auto split: prod.splits)
qed

lemma phase_entry_steps:
  assumes "settled t" "fst t = None"
  shows "steps track t (phase_entry E b eq) (\<lambda>_. settled)"
  unfolding phase_entry_def by (intro steps_rules apply_entry_steps) (use assms in simp_all)

section \<open>The tail\<close>

lemma signal_strength_quiet: "unseen track (signal_strength E b)"
  unfolding signal_strength_def by (intro quiet_rules)

lemma ignore_signal_quiet: "unseen track (ignore_signal b d det)"
  unfolding ignore_signal_def by (intro quiet_rules)

lemma charge_fee_quiet: "unseen track (charge_fee E n)"
  unfolding charge_fee_def by (intro quiet_rules deduct_quiet)

lemma add_to_position_steps:
  assumes "fst t = Some (ps_position_seq p)"
  shows "steps track t (add_to_position eff n m p) (\<lambda>q u. u = t \<and> ps_position_seq q = ps_position_seq p)"
  unfolding add_to_position_def Let_def
  by (intro steps_lift steps_bind [where D = "\<lambda>_ u. u = t"] steps_mod steps_ret) (use assms in \<open>auto simp: track_def intro!: steps_lift steps_bind [where D = "\<lambda>_ u. u = t"] steps_mod steps_ret\<close>)

lemma stack_refusal_quiet: "unseen track (stack_refusal E b p eff n m)"
  unfolding stack_refusal_def Let_def by (intro quiet_rules headroom_quiet)

lemma scale_refusal_quiet: "unseen track (scale_refusal E b p eff n m)"
  unfolding scale_refusal_def Let_def by (intro quiet_rules headroom_quiet)

lemma stack_position_steps:
  assumes "fst t = Some (ps_position_seq p)"
  shows "steps track t (stack_position E b p) (\<lambda>_ u. u = t)"
  unfolding stack_position_def Let_def
  by (intro steps_rules steps_skip [OF signal_strength_quiet] steps_skip [OF stack_refusal_quiet]
      steps_bind [OF add_to_position_steps] steps_skip [OF charge_fee_quiet] steps_skip [OF quiet_bump]
      steps_last [OF quiet_emit]) (use assms in simp_all)

lemma replace_position_steps:
  assumes "settled t" "fst t \<noteq> None"
  shows "steps track t (replace_position E b d p) (\<lambda>_. settled)"
  unfolding replace_position_def
  by (intro steps_skip [OF quiet_bump] steps_skip [OF signal_strength_quiet] steps_get steps_skip [OF quiet_emit]
      steps_bind [OF close_all_steps] do_open_steps) (use assms in simp_all)

lemma steps_stacking:
  "steps v t a C \<Longrightarrow> steps v t b C \<Longrightarrow> steps v t c C \<Longrightarrow> steps v t d C \<Longrightarrow>
   steps v t (case k of AllowStacking \<Rightarrow> a | ReplaceExisting \<Rightarrow> b | ScaleExisting \<Rightarrow> c | IgnoreStacking \<Rightarrow> d) C"
  by (cases k) simp_all

lemma same_direction_steps:
  assumes "settled t" "fst t = Some (ps_position_seq p)"
  shows "steps track t (same_direction_signal E b d p) (\<lambda>_. settled)"
  unfolding same_direction_signal_def Let_def
  by (intro steps_stacking steps_get steps_if steps_skip [OF quiet_bump] steps_last [OF quiet_emit]
      steps_last [OF ignore_signal_quiet] replace_position_steps steps_weaken [OF stack_position_steps])
    (use assms in simp_all)

lemma opposite_signal_steps:
  assumes "settled t" "fst t \<noteq> None"
  shows "steps track t (opposite_signal E b d p) (\<lambda>_. settled)"
  unfolding opposite_signal_def
  by (cases "ch_hedge (conflict_of E)")
    (use assms in \<open>auto intro!: steps_ret steps_skip [OF quiet_bump] steps_weaken [OF close_all_steps]
       steps_last [OF ignore_signal_quiet]\<close>)

lemma conflict_signal_steps:
  assumes "settled t"
  shows "steps track t (conflict_signal E b) (\<lambda>_. settled)"
  unfolding conflict_signal_def
  by (intro steps_rules same_direction_steps opposite_signal_steps) (use assms in \<open>auto simp: track_def\<close>)

lemma scale_layer_steps:
  assumes "fst t = Some (ps_position_seq p)"
  shows "steps track t (scale_layer E b p) (\<lambda>_ u. u = t)"
  unfolding scale_layer_def Let_def
  by (intro steps_rules steps_bind [OF add_to_position_steps] steps_skip [OF scale_refusal_quiet]
      steps_skip [OF charge_fee_quiet] steps_skip [OF quiet_bump] steps_last [OF quiet_emit]
      steps_bind [where m = "set_position q" and D = "\<lambda>_ u. u = t" for q] steps_mod)
    (use assms in \<open>auto simp: track_def\<close>)

lemma scale_ladder_steps:
  assumes "settled t"
  shows "steps track t (scale_ladder E b) (\<lambda>_. settled)"
  unfolding scale_ladder_def
  by (intro steps_rules steps_weaken [OF scale_layer_steps]) (use assms in \<open>auto simp: track_def\<close>)

lemma end_bar_quiet: "unseen track (end_bar b)"
  unfolding end_bar_def by (intro quiet_mod) (simp add: track_def)

lemma phase_tail_steps: "settled t \<Longrightarrow> steps track t (phase_tail E b) (\<lambda>_. settled)"
  unfolding phase_tail_def
  by (intro steps_bind [OF fill_pending_steps] steps_bind [OF conflict_signal_steps] steps_bind [OF scale_ladder_steps]
      steps_last [OF end_bar_quiet])

section \<open>The replay\<close>

lemma step_bar_steps:
  assumes "settled t"
  shows "steps track t (step_bar E b) (\<lambda>_. settled)"
  unfolding step_bar_def
  by (intro steps_skip [OF phase_admit_quiet] steps_skip [OF phase_carry_quiet]
      steps_bind [OF phase_open_fills_steps [OF assms]] steps_bind [OF phase_held_steps]
      steps_bind [where D = "\<lambda>_. settled"] steps_if steps_ret phase_entry_steps phase_tail_steps) auto

lemma step_rows_steps:
  "settled t \<Longrightarrow> steps track t (step_rows E rows) (\<lambda>_. settled)"
proof (induction rows arbitrary: t)
  case Nil
  then show ?case by (simp add: steps_ret)
next
  case (Cons r rows)
  then show ?case unfolding step_rows.simps by (intro steps_option steps_bind [OF step_bar_steps]) simp_all
qed

text \<open>The end of the data clears the orders and the position.\<close>

text \<open>What is left at the end: the last bar, and whether an order or a position remains.\<close>

definition remains :: "'v stepper \<Rightarrow> bar option \<times> bool \<times> bool \<times> bool" where
  "remains s = (st_last_bar s, st_limit s \<noteq> None, st_stop s \<noteq> None, st_position s \<noteq> None)"

lemma remains_quiet: "unseen remains (bump k)" "unseen remains (emit ty tm d det)"
  by (auto simp: unseen_def bump_def emit_def st_run remains_def)

lemma remains_cancel: "steps remains (l, x, y, z) (cancel_limit t r wl) (\<lambda>_ u. u = (l, False, y, z))"
  unfolding cancel_limit_def
  by (intro steps_skip [OF remains_quiet(1)] steps_skip [OF remains_quiet(2)] steps_mod) (auto simp: remains_def)

lemma remains_close: "steps remains (l, x, y, z) (close_all E t pr r) (\<lambda>_ u. u = (l, x, y, False))"
proof -
  have "steps remains (l, x, y, z) (close_held E t pr r f) (\<lambda>_ u. \<exists>w. u = (l, x, y, w))" for f
    by (auto simp: steps_def close_held_def on_held_def st_simps remains_def Let_def split: option.splits prod.splits)
  then show ?thesis unfolding close_all_def by (rule steps_bind, intro steps_mod) (auto simp: remains_def)
qed

lemma finalize_run_clears:
  "steps remains (l, x, y, z) (finalize_run E)
     (\<lambda>_ u. if l = None then u = (l, x, y, z) else u = (l, False, False, False))"
proof -
  have lim: "steps remains (l, x, y, z) (finalize_limit b) (\<lambda>_ u. u = (l, False, y, z))" for b
    unfolding finalize_limit_def
    by (intro steps_rules remains_cancel) (simp add: remains_def)
  have stop: "steps remains (l, x, y, z) (finalize_stop E b) (\<lambda>_ u. u = (l, x, False, z))" for b x
    unfolding finalize_stop_def
    by (intro steps_rules steps_skip [OF remains_quiet(1)] steps_skip [OF remains_quiet(2)] steps_mod)
      (auto simp: remains_def)
  have pos: "steps remains (l, x, y, z) (finalize_position E b) (\<lambda>_ u. u = (l, x, y, False))" for b x y
    unfolding finalize_position_def by (intro steps_rules remains_close) (auto simp: remains_def)
  show ?thesis unfolding finalize_run_def
    by (intro steps_get steps_option steps_ret steps_bind_eq [OF lim] steps_bind_eq [OF stop] steps_weaken [OF pos])
      (auto simp: remains_def)
qed

lemma finalize_run_steps:
  assumes "settled t"
  shows "steps track t (finalize_run E) (\<lambda>_. settled)"
proof -
  have "unseen track (finalize_limit b)" for b
    unfolding finalize_limit_def by (intro quiet_rules cancel_limit_quiet)
  moreover have "unseen track (finalize_stop E b)" for b
    unfolding finalize_stop_def by (intro quiet_rules quiet_orders)
  moreover have "steps track t (finalize_position E b) (\<lambda>_. settled)" for b
    unfolding finalize_position_def
    by (intro steps_rules steps_weaken [OF close_all_steps]) (use assms in \<open>auto simp: track_def\<close>)
  ultimately show ?thesis unfolding finalize_run_def
    by (intro steps_get steps_option steps_ret steps_skip) (use assms in auto)
qed

end
