(* ===== verification/Stepper_Demo.thy ===== *)
theory Stepper_Demo
  imports Stepper
begin

text \<open>
  A concrete replay: a strategy whose only signal is to buy, filled at the close of the signal's bar and
  without costs, on one bar. It opens a position and the end of the data closes it.
\<close>

definition replay_plan :: "unit indicator_plan" where
  "replay_plan = \<lparr>ip_has_entry = True, ip_update = (\<lambda>_ v. v), ip_entry = (\<lambda>_. Some ''long''),
     ip_exit = (\<lambda>_. False), ip_scale = (\<lambda>_. None), ip_stop_signals = (\<lambda>_. []), ip_exit_on_opposite = True,
     ip_rule_snapshot = (\<lambda>_. DNone), ip_stop_ids = []\<rparr>"

definition replay_config :: strategy_config where
  "replay_config = demo_config\<lparr>cf_execution := \<lparr>em_entry_timing = CurrentCandleClose, em_exit_timing = CurrentCandleClose\<rparr>\<rparr>"

definition replay_settings :: stepper_config where
  "replay_settings = \<lparr>sx_direction_mode = LongOnly, sx_conflict = \<lparr>ch_exit_on_opposite = True,
       ch_stacking = IgnoreStacking, ch_hedge = IgnoreHedge, ch_stop_exit = StopHasPriority,
       ch_same_candle = UseIntrabarData\<rparr>,
     sx_restriction_rule = AnyRestriction, sx_restriction_min = 1, sx_restrictions = [], sx_restrictions_ok = True,
     sx_validity = OneCandle, sx_unfilled = CancelOrder, sx_strength_mode = NoAdjustment,
     sx_price_scaling = None, sx_add_size = FixedAmount\<rparr>"

definition replay_env :: "unit stepper_env" where
  "replay_env = \<lparr>se_ctx = demo_run_config\<lparr>rc_config := replay_config, rc_alloc_on := False\<rparr>,
     se_extra = replay_settings, se_initial_capital = 1000, se_rules = None, se_fixture = False,
     se_cap_amount = None, se_timeframe = None, se_plan = Some replay_plan, se_funding = None,
     se_has_ticks = False, se_parse = (\<lambda>_. None), se_clock = (\<lambda>_. None), se_epoch_ms = (\<lambda>_. None),
     se_date = (\<lambda>_. None), se_iso = (\<lambda>_. [])\<rparr>"

definition replay_row :: "string \<Rightarrow> rat \<Rightarrow> raw_bar" where
  "replay_row t x = \<lparr>rb_timestamp = Some t, rb_open = Some (PyDec x), rb_high = Some (PyDec x),
     rb_low = Some (PyDec x), rb_close = Some (PyDec x), rb_volume = None\<rparr>"

lemma replay_gates:
  "entry_gates_ok replay_env" "size_gates_ok replay_env" "plan_active replay_env" "\<not> strength_active replay_env"
  "entry_sched replay_env = Immediate" "\<not> order_is_limit replay_env" "\<not> order_is_stop replay_env"
  "\<not> scaling_active replay_env"
  by code_simp+

lemma replay_reads:
  "se_rules replay_env = None" "se_plan replay_env = Some replay_plan" "se_funding replay_env = None"
  "sx_restrictions (se_extra replay_env) = []" "rc_fill_costs (se_ctx replay_env) = demo_fill_costs"
  by (simp_all add: replay_env_def replay_settings_def demo_run_config_def demo_fill_costs_def)


definition replay_bar :: "string \<Rightarrow> rat \<Rightarrow> bar" where
  "replay_bar t x = \<lparr>br_timestamp = t, br_open = x, br_high = x, br_low = x, br_close = x, br_volume = 0\<rparr>"

lemma replay_bar_reads [simp]: "br_close (replay_bar t x) = x" "br_open (replay_bar t x) = x"
  "br_high (replay_bar t x) = x" "br_low (replay_bar t x) = x" "br_timestamp (replay_bar t x) = t"
  by (simp_all add: replay_bar_def)

lemma replay_direction: "sx_direction_mode (se_extra replay_env) = LongOnly"
  by (simp add: replay_env_def replay_settings_def)

lemma replay_normalizes: "normalize_bar (se_parse replay_env) (replay_row t x) = Some (replay_bar t x)"
  by (simp add: normalize_bar_def replay_row_def replay_bar_def dec_field_def dec_value_def volume_value_def)

lemma replay_planned: "rl_equity l = 1000 \<Longrightarrow> planned_size (se_parse replay_env) (se_ctx replay_env) l d 100 1 None = Inr 5"
  by (simp add: replay_env_def replay_config_def sizing_eval cong: let_weak_cong)

lemma replay_admit: "phase_admit replay_env (replay_bar t x) s = (Inr (), s\<lparr>st_bars_seen := st_bars_seen s + 1, st_first_ts := (if st_first_ts s = [] then t else st_first_ts s), st_last_bar := Some (replay_bar t x),
  st_bar_ticks := [], st_trades_before := length (rl_trades (st_led s)), st_bar_date := None, st_entry_signal := Some ''long'', st_exit_hit := False, st_scale_signal := None\<rparr>)" if "st_cursor s = None"
  using that
  by (simp add: phase_admit_def read_bar_ticks_def roll_day_def read_signals_def flat_collision_def st_simps replay_reads replay_plan_def replay_bar_def)


lemma replay_fill: "effective_fill 100 True (fc_half_spread demo_fill_costs) (fc_slippage demo_fill_costs) = Inr 100"
  "quantize 2 (dmul 100 5) = Inr 500" "\<not> 0 < fc_commission demo_fill_costs" "quantize 8 500 = Inr 500"
  by (simp_all add: demo_fill_costs_def effective_fill_def dec_eval)

lemma replay_carry: "phase_carry replay_env b s = (Inr (), s)"
  by (simp add: phase_carry_def compute_carry_def replay_reads st_simps)

lemma replay_open_fills: "st_pending s = None \<Longrightarrow> st_limit s = None \<Longrightarrow> st_stop s = None \<Longrightarrow>
  phase_open_fills replay_env b s = (Inr (), s)"
  by (simp add: phase_open_fills_def fill_pending_def limit_touch_def limit_remainder_def stop_trigger_def st_simps)

lemma replay_flat_held: "st_position s = None \<Longrightarrow> phase_held replay_env b s = (Inr False, s)"
  by (simp add: phase_held_def evaluate_held_def st_simps)

lemma replay_headroom: "portfolio_headroom replay_env b s = (Inr None, s)"
  by (simp add: portfolio_headroom_def replay_reads st_simps)

lemma replay_open: "rl_equity (st_led s) = 1000 \<Longrightarrow> st_sizing_equity s = None \<Longrightarrow>
  open_position_run replay_env ''long'' (replay_bar t 100) 100 1 None s
   = (Inr (Some (fresh_position replay_env (st_position_seq s + 1) (st_bars_seen s) ''long'' (replay_bar t 100) 100 100 5 500)),
      s\<lparr>st_position_seq := st_position_seq s + 1\<rparr>)"
  by (simp add: open_position_run_def conflict_gate_def exposure_gate_def replay_headroom entry_planned_size_def replay_gates replay_reads
    replay_planned replay_fill st_simps Let_def)

definition fresh_flat :: "unit stepper \<Rightarrow> bool" where
  "fresh_flat s \<longleftrightarrow> st_position s = None \<and> st_pending s = None \<and> st_limit s = None \<and> st_stop s = None \<and>
     st_cursor s = None \<and> st_sizing_equity s = None \<and> st_position_seq s = 0 \<and> rl_equity (st_led s) = 1000 \<and>
     rl_peak (st_led s) = 1000"

definition holding :: "bar \<Rightarrow> unit stepper \<Rightarrow> bool" where
  "holding b s \<longleftrightarrow> st_position s = Some (fresh_position replay_env 1 (st_bars_seen s) ''long'' b 100 100 5 500) \<and>
     st_pending s = None \<and> st_limit s = None \<and> st_stop s = None \<and> st_position_seq s = 1 \<and>
     rl_equity (st_led s) = 1000 \<and> rl_peak (st_led s) = 1000"

lemma replay_entry:
  assumes "fresh_flat s" "st_entry_signal s = Some ''long''"
  shows "\<exists>s'. phase_entry replay_env (replay_bar t 100) None s = (Inr (), s') \<and> holding (replay_bar t 100) s' \<and>
    st_last_bar s' = st_last_bar s"
  using assms
  by (simp add: fresh_flat_def holding_def phase_entry_def evaluate_entry_def replay_gates wanted_direction_def
    direction_flags_def strength_value_def strength_detail_def
    replay_reads apply_entry_def place_entry_def emit_def bump_def do_open_def replay_open st_simps Let_def open_filled_def
    charge_entry_def replay_fill booking_reads replay_direction)

lemma replay_tail:
  assumes "holding b s"
  shows "\<exists>s'. phase_tail replay_env b s = (Inr (), s') \<and> holding b s' \<and> st_last_bar s' = st_last_bar s"
  using assms
  by (auto simp: holding_def phase_tail_def fill_pending_def conflict_signal_def scale_ladder_def end_bar_def st_simps
    replay_gates fresh_position_def split: option.splits)

lemma replay_one_bar:
  assumes "fresh_flat s"
  shows "\<exists>s'. step_bar replay_env (replay_bar t 100) s = (Inr (), s') \<and> holding (replay_bar t 100) s' \<and>
    st_last_bar s' = Some (replay_bar t 100)"
proof -
  obtain s1 where a: "phase_admit replay_env (replay_bar t 100) s = (Inr (), s1)" "fresh_flat s1"
    "st_entry_signal s1 = Some ''long''" "st_last_bar s1 = Some (replay_bar t 100)"
    using assms replay_admit [of s t 100] by (simp add: fresh_flat_def)
  obtain s2 where e: "phase_entry replay_env (replay_bar t 100) None s1 = (Inr (), s2)" "holding (replay_bar t 100) s2"
    "st_last_bar s2 = Some (replay_bar t 100)" using replay_entry [OF a(2,3), of t] a(4) by auto
  obtain s3 where "phase_tail replay_env (replay_bar t 100) s2 = (Inr (), s3)" "holding (replay_bar t 100) s3"
    "st_last_bar s3 = Some (replay_bar t 100)" using replay_tail [OF e(2)] e(3) by auto
  then show ?thesis using a e(1)
    by (simp add: step_bar_def st_simps replay_carry replay_open_fills replay_flat_held fresh_flat_def)
qed

lemma replay_close:
  "effective_fill 100 False 0 0 = Inr 100" "fee demo_fill_costs (dmul 100 5) = Inr 0"
  "quantize 2 (dsub (dmul (dmul (dsub 100 100) 5) 1) 0) = Inr 0"
  "quantize 2 (dadd 1000 0) = Inr 1000" "quantize 2 (dsub 1000 1000) = Inr 0"
  "quantize 2 (dmul 100 5) = Inr 500" "exposure_of 500 1000 = Inr 50"
  by (simp_all add: demo_fill_costs_def effective_fill_def fee_def exposure_of_def dec_eval)

lemma replay_end:
  assumes "holding b s" "st_last_bar s = Some (replay_bar t 100)"
  shows "\<exists>s'. finalize_run replay_env s = (Inr (), s') \<and> st_last_bar s' = Some (replay_bar t 100) \<and> st_position_seq s' = 1"
  using assms
  by (simp add: holding_def finalize_run_def finalize_limit_def finalize_stop_def finalize_position_def close_all_def
    close_held_def on_held_def st_simps close_run_position_def fresh_position_def is_long_def replay_reads
    demo_costs_reads replay_close Let_def booking_reads)

lemma replay_run: "\<exists>s. run_engine replay_env () None [[replay_row ''t1'' 100]] = (Inr (), s) \<and>
  st_last_bar s = Some (replay_bar ''t1'' 100) \<and> st_position_seq s = 1"
proof -
  have build: "build_stepper replay_env = Inr replay_env"
    by (simp add: build_stepper_def portfolio_cap_amount_def replay_gates replay_reads) (simp add: replay_env_def)
  have "fresh_flat (stepper_start replay_env () None)"
    by (simp add: fresh_flat_def stepper_start_def fresh_run_ledger_def replay_env_def)
  from replay_one_bar [OF this, of "''t1''"] replay_end show ?thesis
    by (fastforce simp: run_engine_def build st_simps replay_normalizes)
qed

end
