(* ===== verification/Stepper_Safety.thy ===== *)
theory Stepper_Safety
  imports Stepper_Books Stepper_Positions Stepper_Demo
begin

text \<open>
  The properties of a whole replay (\<^verbatim>\<open>run_engine\<close>): its books, its history, what it may trade, and that
  every position it opens is closed.
\<close>

section \<open>Books, history and directions\<close>

lemma step_rows_append:
  "step_rows E (xs @ ys) s = sbind (step_rows E xs) (\<lambda>_. step_rows E ys) s"
  by (induction xs arbitrary: s) (auto simp: st_simps split: option.splits prod.splits sum.splits)

lemma start_steady:
  assumes "cents (se_initial_capital E)" "\<bar>se_initial_capital E\<bar> < 10 ^ 26"
  shows "steady E' (st_led (stepper_start E v c)) (stepper_start E v c)"
  using assms by (simp add: steady_def sound_def stepper_start_def run_ok_def fresh_run_ledger_def)

lemma run_engine_steady:
  assumes "cents (se_initial_capital E)" "\<bar>se_initial_capital E\<bar> < 10 ^ 26"
  shows "\<exists>E'. se_extra E' = se_extra E \<and> se_ctx E' = se_ctx E \<and>
    steady E' (st_led (stepper_start E v c)) (snd (run_engine E v c batches))"
proof (cases "build_stepper E")
  case (Inl e)
  then show ?thesis using start_steady [OF assms] by (auto simp: run_engine_def st_simps)
next
  case (Inr E')
  then have "se_extra E' = se_extra E" "se_ctx E' = se_ctx E"
    by (auto simp: build_stepper_def rbind_Inr_iff split: if_splits)
  moreover have "upholds (steady E' l0) (sbind (step_rows E' rows) (\<lambda>_. finalize_run E')) (\<lambda>_. True)" for l0 rows
    by (intro upholds_bind_any step_rows_up finalize_run_up)
  ultimately show ?thesis using Inr upholdsD start_steady [OF assms]
    by (fastforce simp: run_engine_def st_simps)
qed

lemma gates_extra:
  assumes "se_extra E' = se_extra E" "se_ctx E' = se_ctx E"
  shows "traded E' = traded E"
  using assms
  by (simp add: fun_eq_iff traded_def admitted_def entry_gates_ok_def size_gates_ok_def order_ok_def)

text \<open>C12. However a replay ends, also when one of its bars raises, its books are well formed: the trades
  are numbered from 1, each with an equity point after the initial one, the winners are the trades
  with a positive result, every closed position left one interval and every other trade is a partial
  close, no drawdown is negative, both journals are numbered from 0 and the equity never exceeds the
  peak.\<close>

theorem replay_books_well_formed:
  assumes "cents (se_initial_capital E)" "\<bar>se_initial_capital E\<bar> < 10 ^ 26"
  shows "let l = st_led (snd (run_engine E v c batches)) in
    map tr_seq (rl_trades l) = [1..<1 + length (rl_trades l)] \<and>
    map re_seq (rl_equity_points l) = 0 # map tr_seq (rl_trades l) \<and>
    rl_winners l = length (filter (\<lambda>t. tr_pnl t > 0) (rl_trades l)) \<and>
    length (rl_position_intervals l) + rl_partial_closes l = length (rl_trades l) \<and>
    list_all (\<lambda>q. 0 \<le> re_drawdown q) (rl_equity_points l) \<and>
    map ev_seq (rl_signal_events l) = [0..<length (rl_signal_events l)] \<and>
    map ev_seq (rl_filtered_events l) = [0..<length (rl_filtered_events l)] \<and>
    rl_equity l \<le> rl_peak l"
  using run_engine_steady [OF assms, of v c batches]
  by (auto simp: steady_def sound_def run_ok_def numbered_def Let_def list_all_iff)

text \<open>C11. A replay trades only what its configuration admits: when one of the entry or sizing gates is
  down it books no trade at all, and otherwise every trade has a direction that the strategy's mode
  allows, whichever order, replacement or deferred fill opened it, also when the replay raises.\<close>

theorem replay_trades_only_admitted:
  assumes "cents (se_initial_capital E)" "\<bar>se_initial_capital E\<bar> < 10 ^ 26"
  shows "let l = st_led (snd (run_engine E v c batches)); (long_ok, short_ok) = direction_flags (sx_direction_mode (se_extra E)) in
    (\<not> entry_gates_ok E \<or> \<not> size_gates_ok E \<longrightarrow> rl_trades l = []) \<and>
    list_all (\<lambda>t. (tr_direction t = ''long'' \<longrightarrow> long_ok) \<and> (tr_direction t = ''short'' \<longrightarrow> short_ok)) (rl_trades l)"
proof -
  obtain E' where "se_extra E' = se_extra E" "se_ctx E' = se_ctx E"
    and "steady E' (st_led (stepper_start E v c)) (snd (run_engine E v c batches))"
    using run_engine_steady [OF assms] by blast
  then have "list_all (\<lambda>t. traded E (tr_direction t)) (rl_trades (st_led (snd (run_engine E v c batches))))"
    using gates_extra [of E' E] by (simp add: steady_def sound_def)
  then show ?thesis
    by (cases "rl_trades (st_led (snd (run_engine E v c batches)))")
      (auto simp: Let_def traded_def admitted_def list_all_iff split: prod.splits)
qed

text \<open>C13. A later bar never rewrites what the replay booked before it: whatever bars follow, and
  whether or not one of them raises, the trades, the equity points, the position intervals and both
  journals after the first bars are a prefix of those after all of them.\<close>

theorem replay_never_rewrites_history:
  assumes "cents (se_initial_capital E)" "\<bar>se_initial_capital E\<bar> < 10 ^ 26"
  shows "let early = st_led (snd (step_rows E xs (stepper_start E v c)));
      late = st_led (snd (step_rows E (xs @ ys) (stepper_start E v c))) in
    prefix (rl_trades early) (rl_trades late) \<and> prefix (rl_equity_points early) (rl_equity_points late) \<and>
    prefix (rl_position_intervals early) (rl_position_intervals late) \<and>
    prefix (rl_signal_events early) (rl_signal_events late) \<and>
    prefix (rl_filtered_events early) (rl_filtered_events late)"
proof (cases "step_rows E xs (stepper_start E v c)")
  case (Pair r s)
  have "steady E (st_led (stepper_start E v c)) s"
    using upholdsD [OF step_rows_up start_steady [OF assms], of E v c xs] Pair by simp
  then have "steady E (st_led s) s" by (simp add: steady_def sound_def)
  then have "steady E (st_led s) (snd (step_rows E ys s))" by (rule upholdsD [OF step_rows_up])
  then show ?thesis
    by (cases r) (simp_all add: step_rows_append st_simps Pair Let_def steady_def sound_def extends_def)
qed

section \<open>Positions\<close>

text \<open>C10. When a replay that has seen a bar succeeds, nothing is left behind: no position, no resting limit
  and no stop order remain, and every position it opened was closed in full exactly once, so there are
  as many recorded intervals as positions.\<close>

theorem replay_closes_every_position:
  assumes "run_engine E v c batches = (Inr (), s)" "st_last_bar s \<noteq> None"
  shows "st_position s = None \<and> st_limit s = None \<and> st_stop s = None \<and>
    length (rl_position_intervals (st_led s)) = st_position_seq s"
proof -
  obtain E' s1 where rows: "step_rows E' (concat batches) (stepper_start E v c) = (Inr (), s1)"
    and fin: "finalize_run E' s1 = (Inr (), s)"
    using assms(1) by (auto simp: run_engine_def sbind_ok_iff st_run)
  have "settled (track (stepper_start E v c))"
    by (simp add: settled_def track_def stepper_start_def fresh_run_ledger_def)
  then have "settled (track s1)" using stepsD [OF step_rows_steps rows] by simp
  then have "settled (track s)" using stepsD [OF finalize_run_steps fin] by simp
  moreover obtain l x y z where r: "remains s1 = (l, x, y, z)" by (metis prod.exhaust)
  have "if l = None then remains s = (l, x, y, z) else remains s = (l, False, False, False)"
    using stepsD [OF finalize_run_clears [of l x y z E', folded r] fin] r by simp
  then have "remains s = (st_last_bar s, False, False, False)"
    using assms(2) by (auto simp: remains_def split: if_splits)
  ultimately show ?thesis by (auto simp: remains_def settled_def track_def)
qed

text \<open>Describing a held bar is repeatable: it moves nothing but the trail anchor of the position, and a
  second description of the same bar gives the same decision and changes nothing more, so a pool may
  describe a bar and refuse what it hears.\<close>

theorem describing_a_bar_is_idempotent:
  "let (r, s') = evaluate_held E b s in
    evaluate_held E b s' = (r, s') \<and>
    s' = s\<lparr>st_position := map_option (\<lambda>p. p\<lparr>ps_trail_anchor := ps_trail_anchor (move_anchor b p)\<rparr>) (st_position s)\<rparr>"
proof (cases "st_position s")
  case None
  then show ?thesis by (simp add: evaluate_held_def st_simps)
next
  case (Some p)
  have "move_anchor b (move_anchor b p) = move_anchor b p" by (simp add: move_anchor_def max_def min_def)
  moreover have "p\<lparr>ps_trail_anchor := ps_trail_anchor (move_anchor b p)\<rparr> = move_anchor b p"
    by (simp add: move_anchor_def)
  ultimately show ?thesis using Some by (simp add: evaluate_held_def st_simps Let_def)
qed

section \<open>Concrete instances\<close>

lemma replay_capital: "cents (se_initial_capital replay_env)" "\<bar>se_initial_capital replay_env\<bar> < 10 ^ 26"
  by (auto simp: replay_env_def intro!: on_gridI [of _ _ 100000])

theorem replay_books_well_formed_witness:
  "\<exists>s. run_engine replay_env () None [[replay_row ''t1'' 100]] = (Inr (), s) \<and>
     map re_seq (rl_equity_points (st_led s)) = 0 # map tr_seq (rl_trades (st_led s)) \<and>
     rl_equity (st_led s) \<le> rl_peak (st_led s)"
  using replay_books_well_formed [OF replay_capital, of "()" None "[[replay_row ''t1'' 100]]"] replay_run
  by (auto simp: Let_def)

theorem replay_trades_only_admitted_witness:
  "list_all (\<lambda>t. tr_direction t \<noteq> ''short'')
     (rl_trades (st_led (snd (run_engine replay_env () None [[replay_row ''t1'' 100]]))))"
  using replay_trades_only_admitted [OF replay_capital, of "()" None "[[replay_row ''t1'' 100]]"]
  by (auto simp: Let_def replay_direction direction_flags_def list_all_iff)

theorem replay_never_rewrites_history_witness:
  "prefix (rl_trades (st_led (snd (step_rows replay_env [replay_row ''t1'' 100] (stepper_start replay_env () None)))))
     (rl_trades (st_led (snd (step_rows replay_env [replay_row ''t1'' 100, replay_row ''t2'' 90]
       (stepper_start replay_env () None)))))"
  using replay_never_rewrites_history [OF replay_capital, of "[replay_row ''t1'' 100]" "()" None
    "[replay_row ''t2'' 90]"]
  by (simp add: Let_def)

theorem replay_closes_every_position_witness:
  "\<exists>s. run_engine replay_env () None [[replay_row ''t1'' 100]] = (Inr (), s) \<and> st_position s = None \<and>
     length (rl_position_intervals (st_led s)) = 1"
proof -
  obtain s where run: "run_engine replay_env () None [[replay_row ''t1'' 100]] = (Inr (), s)"
    and last: "st_last_bar s \<noteq> None" and seq: "st_position_seq s = 1"
    using replay_run by auto
  from replay_closes_every_position [OF run last] run seq show ?thesis by simp
qed

end
