(* ===== verification/Engine_Participant.thy ===== *)
theory Engine_Participant
  imports Stepper Portfolio_Engine
begin

text \<open>
  A strategy item of a shared run (\<^verbatim>\<open>domain/backtest/participant.py\<close>, the shapes of
  \<^verbatim>\<open>domain/backtest/execution/shared_shapes.py\<close>): the hooks the phase loop calls, over the item's own
  stepper. Every item has a slot with its stepper, its current bar and the entry it described; the world
  of the participants is the map from item ids to slots. The evidence of an intent is the detail of the
  entry, turned into the values of an intent by the parameter \<open>render\<close>.
\<close>

section \<open>Which strategies may share a pool\<close>

definition immediate_order_types :: "order_type list" where
  "immediate_order_types = [MarketOrder, SimulationOnly]"

datatype shared_shape_kind = DeferredFill | ScalingShape

record shared_shape_violation =
  sv_kind :: shared_shape_kind
  sv_field_path :: string

definition unsupported_shared_shapes :: "strategy_config \<Rightarrow> shared_shape_violation list" where
  "unsupported_shared_shapes cfg =
     (if fill_schedule_of (em_entry_timing (cf_execution cfg)) \<noteq> Immediate
      then [\<lparr>sv_kind = DeferredFill, sv_field_path = ''data.execution.entry_timing''\<rparr>] else []) @
     (if fill_schedule_of (em_exit_timing (cf_execution cfg)) \<noteq> Immediate
      then [\<lparr>sv_kind = DeferredFill, sv_field_path = ''data.execution.exit_timing''\<rparr>] else []) @
     (if oc_type (cf_order_config cfg) \<notin> set immediate_order_types
      then [\<lparr>sv_kind = DeferredFill, sv_field_path = ''data.order_config.type''\<rparr>] else []) @
     (case cf_scaling_logic cfg of None \<Rightarrow> []
      | Some g \<Rightarrow> if sg_enabled g then [\<lparr>sv_kind = ScalingShape, sv_field_path = ''scaling_logic.enabled''\<rparr>] else [])"

definition executing_stacking_policies :: "stacking_policy list" where
  "executing_stacking_policies = [AllowStacking, ReplaceExisting]"

text \<open>What each line rejects: no allocation, rules of its own, no plan, partial closes, stacking, a gate
  that is down, closing on the opposite signal, and the shapes above.\<close>

definition unsupported_shapes :: "'v stepper_env \<Rightarrow> bool list" where
  "unsupported_shapes E =
     [\<not> rc_alloc_on (se_ctx E), se_rules E \<noteq> None, \<not> plan_active E,
      pe_close_percentage (cf_position_exit_logic (config_of E)) \<noteq> 100 \<and>
        pe_partial_aftermath (cf_position_exit_logic (config_of E)) \<noteq> CloseAll,
      ch_stacking (conflict_of E) \<in> set executing_stacking_policies,
      \<not> size_gates_ok E, ch_hedge (conflict_of E) = CloseExisting]
     @ map (\<lambda>_. True) (unsupported_shared_shapes (config_of E))"

section \<open>The slot of an item\<close>

record 'v slot =
  pv_stepper :: "'v stepper"
  pv_current :: "bar option"
  pv_pending :: "entry_decision option"
  pv_pending_equity :: "rat option"

type_synonym 'v slots = "string \<Rightarrow> 'v slot"

definition on_slot :: "string \<Rightarrow> ('v slot, 'a) st \<Rightarrow> ('v slots, 'a) st" where
  "on_slot i m w = (let (r, s) = m (w i) in (r, w(i := s)))"

definition on_stepper :: "('v stepper, 'a) st \<Rightarrow> ('v slot, 'a) st" where
  "on_stepper m s = (let (r, t) = m (pv_stepper s) in (r, s\<lparr>pv_stepper := t\<rparr>))"

definition held_by :: "'v slot \<Rightarrow> position option" where
  "held_by s = st_position (pv_stepper s)"

definition bar_for :: "item_tick_view \<Rightarrow> ('v slot, bar) st" where
  "bar_for view = sbind sget (\<lambda>s. case pv_current s of
     None \<Rightarrow> sthrow ParticipantDivergenceError
   | Some b \<Rightarrow>
       if tv_bars view = [] \<or> br_timestamp b \<noteq> br_timestamp (last (tv_bars view))
       then sthrow ParticipantDivergenceError else sret b)"

definition measured :: "('v stepper, unit) st \<Rightarrow> ('v slot, rat \<times> nat) st" where
  "measured book = sbind sget (\<lambda>s.
     let equity = rl_equity (st_led (pv_stepper s)); rows = length (rl_trades (st_led (pv_stepper s))) in
     sbind (on_stepper book) (\<lambda>_. sbind sget (\<lambda>s'.
     sret (dsub equity (rl_equity (st_led (pv_stepper s'))),
           length (rl_trades (st_led (pv_stepper s'))) - rows))))"

text \<open>One full close is one mandatory event; a full close leaves the size of the position as it was.\<close>

definition closed_by :: "'v stepper_env \<Rightarrow> ('v stepper, unit) st \<Rightarrow> ('v slot, mandatory_exit option) st" where
  "closed_by E book = sbind sget (\<lambda>s.
     sbind (measured book) (\<lambda>(outflow, rows). case held_by s of
       None \<Rightarrow> sret None
     | Some h \<Rightarrow>
         if rows = 0 then sret None
         else sbind sget (\<lambda>s'.
           if rows > 1 \<or> held_by s' \<noteq> None then sthrow ParticipantDivergenceError
           else (let t = last (rl_trades (st_led (pv_stepper s'))) in
             sbind (slift (fee (costs_of E) (dmul (tr_exit_price t) (ps_size h)))) (\<lambda>commission.
             sret (Some \<lparr>me_decision = \<lparr>dn_kind = Exit, dn_reason = tr_exit_reason t,
                 dn_direction = Some (ps_direction h), dn_evidence = []\<rparr>,
               me_units = ps_size h, me_gross_pnl = dadd (dneg outflow) commission,
               me_commission = commission\<rparr>))))))"

section \<open>The hooks\<close>

fun admit_bars :: "'v stepper_env \<Rightarrow> bar list \<Rightarrow> ('v stepper, unit) st" where
  "admit_bars E [] = sret ()"
| "admit_bars E (b # bs) = sbind (phase_admit E b) (\<lambda>_. admit_bars E bs)"

definition item_carry :: "'v stepper_env \<Rightarrow> item_tick_view \<Rightarrow> ('v slot, carry_charges option) st" where
  "item_carry E view =
     sbind (on_stepper (admit_bars E (tv_bars view))) (\<lambda>_.
     if tv_bars view = [] then sthrow (Error_Class ''IndexError'')
     else (let b = last (tv_bars view) in
       sbind (smod (\<lambda>s. s\<lparr>pv_current := Some b, pv_pending := None, pv_pending_equity := None\<rparr>)) (\<lambda>_.
       sbind sget (\<lambda>s.
       sbind (slift (compute_carry E b (pv_stepper s))) (\<lambda>plan. case plan of
         None \<Rightarrow> sret None
       | Some p \<Rightarrow>
           sbind (measured (Stepper.book_carry E b p)) (\<lambda>(paid, _).
           if held_by s = None \<or> paid = 0 then sret None
           else sret (Some \<lparr>cc_funding = paid, cc_fee = 0, cc_other_cost = 0\<rparr>)))))))"

definition item_mandatory_exit ::
    "'v stepper_env \<Rightarrow> item_tick_view \<Rightarrow> open_position \<Rightarrow> ('v slot, mandatory_exit option) st" where
  "item_mandatory_exit E view held =
     sbind (bar_for view) (\<lambda>b.
     sbind (on_stepper (evaluate_held E b)) (\<lambda>decision. case decision of
       None \<Rightarrow> sret None
     | Some d \<Rightarrow> closed_by E (apply_held E b d)))"

definition item_entry ::
    "((string, detail) dict \<Rightarrow> (string, intent_value) dict) \<Rightarrow> 'v stepper_env \<Rightarrow> item_identity \<Rightarrow> item_tick_view
     \<Rightarrow> portfolio_snapshot \<Rightarrow> open_position option \<Rightarrow> ('v slot, item_intent option) st" where
  "item_entry render E ident view snapshot held =
     (case dget (sn_sleeve_capacity snapshot) (id_item_id ident) of
        None \<Rightarrow> sthrow KeyError
      | Some capacity \<Rightarrow>
          (let derived = sleeve_capital (se_ctx E) (sn_equity snapshot) in
           if derived \<noteq> capacity then sthrow ParticipantDivergenceError
           else sbind sget (\<lambda>s.
             if held \<noteq> None \<or> held_by s \<noteq> None then sret None
             else
               sbind (bar_for view) (\<lambda>b.
               sbind (slift (evaluate_entry E b (pv_stepper s))) (\<lambda>decision. case decision of
                 None \<Rightarrow> sret None
               | Some plan \<Rightarrow>
                   (case ed_want plan of
                      None \<Rightarrow>
                        sbind (on_stepper (apply_entry E b plan (Some (sn_equity snapshot)) None)) (\<lambda>_. sret None)
                    | Some want \<Rightarrow>
                        sbind (smod (\<lambda>s. s\<lparr>pv_pending := Some plan, pv_pending_equity := Some (sn_equity snapshot)\<rparr>)) (\<lambda>_.
                        sbind (slift (form_intent (se_parse E) ident view snapshot
                          \<lparr>dn_kind = EntryIntent, dn_reason = ''entry_signal'', dn_direction = Some want,
                           dn_evidence = render (ed_detail plan)\<rparr>
                          (Some (EntrySizing \<lparr>es_config = config_of E, es_fill_costs = costs_of E, es_base = derived,
                             es_base_source = AllocationSleeve, es_strength = ed_strength plan\<rparr>)))) (\<lambda>intent.
                        sret (Some intent)))))))))"

definition item_settle ::
    "'v stepper_env \<Rightarrow> item_tick_view \<Rightarrow> arbitration_decision \<Rightarrow> ('v slot, unit) st" where
  "item_settle E view granted = sbind sget (\<lambda>s.
     sbind (smod (\<lambda>s. s\<lparr>pv_pending := None, pv_pending_equity := None\<rparr>)) (\<lambda>_.
     case pv_pending s of
       None \<Rightarrow> sthrow ParticipantDivergenceError
     | Some plan \<Rightarrow>
         sbind (bar_for view) (\<lambda>b.
         sbind (on_stepper (apply_entry E b plan (pv_pending_equity s) (Some (ad_granted_units granted)))) (\<lambda>_.
         sbind sget (\<lambda>s'. case held_by s' of
           None \<Rightarrow> sthrow ParticipantDivergenceError
         | Some p \<Rightarrow>
             if Some (ps_direction p) \<noteq> ad_direction granted \<or> ps_size p \<noteq> ad_granted_units granted
             then sthrow ParticipantDivergenceError else sret ())))))"

definition item_finalize :: "'v stepper_env \<Rightarrow> item_tick_view \<Rightarrow> ('v slot, mandatory_exit option) st" where
  "item_finalize E view = closed_by E (finalize_run E)"

text \<open>\<open>build_engine_participant\<close> and the checks of \<open>__post_init__\<close>.\<close>

definition engine_hooks ::
    "((string, detail) dict \<Rightarrow> (string, intent_value) dict) \<Rightarrow> 'v stepper_env \<Rightarrow> item_identity \<Rightarrow> item_bar_stream
     \<Rightarrow> string option \<Rightarrow> 'v slots participant" where
  "engine_hooks render E ident stream instrument = (let i = id_item_id ident in
     \<lparr>pt_identity = ident, pt_stream = stream, pt_instrument_id = instrument,
      pt_carry = (\<lambda>view. on_slot i (item_carry E view)),
      pt_mandatory_exit = (\<lambda>view held. on_slot i (item_mandatory_exit E view held)),
      pt_entry = (\<lambda>view snapshot held. on_slot i (item_entry render E ident view snapshot held)),
      pt_settle = (\<lambda>view granted. on_slot i (item_settle E view granted)),
      pt_finalize = (\<lambda>view. on_slot i (item_finalize E view))\<rparr>)"

definition build_engine_participant ::
    "((string, detail) dict \<Rightarrow> (string, intent_value) dict) \<Rightarrow> 'v stepper_env \<Rightarrow> item_identity
     \<Rightarrow> raw_bar list list \<Rightarrow> string option \<Rightarrow> 'v slots participant res" where
  "build_engine_participant render E ident batches instrument =
     (if True \<in> set (unsupported_shapes E) then raise UnsupportedStrategyShapeError
      else ok (engine_hooks render E ident
        \<lparr>bs_item_id = id_item_id ident, bs_pin_ordinal = id_pin_ordinal ident, bs_batches = batches\<rparr> instrument))"

end
