(* ===== verification/Shared_Agreement.thy ===== *)
theory Shared_Agreement
  imports Engine_Participant Portfolio_Safety Stepper_Positions
begin

text \<open>
  On a shared run the pool and the item keep the same position twice: the pool to charge its capital, the
  item to decide with. The theory shows that the two never part: after every committed tick each item
  holds what the pool holds for it.
\<close>

section \<open>What is held, and how many trades were booked\<close>

definition stance :: "position option \<Rightarrow> (string \<times> rat) option" where
  "stance p = map_option (\<lambda>q. (ps_direction q, ps_size q)) p"

lemma stance_simps [simp]: "stance None = None" "stance (Some p) = Some (ps_direction p, ps_size p)"
  by (simp_all add: stance_def)

lemma stance_None_iff [simp]: "stance p = None \<longleftrightarrow> p = None"
  by (simp add: stance_def)

definition lot :: "'v stepper \<Rightarrow> (string \<times> rat) option \<times> nat" where
  "lot s = (stance (st_position s), length (rl_trades (st_led s)))"

lemma emit_trades [simp]: "rl_trades (emit_event a b c d e l) = rl_trades l"
  by (simp add: emit_event_def)

lemma lot_basic: "unseen lot (bump k)" "unseen lot (emit ty t d det)" "unseen lot (set_block_reason r)"
  "unseen lot (set_pending y)" "unseen lot (set_exit_touch z)"
  unfolding bump_def emit_def set_block_reason_def by (auto intro!: unseen_mod simp: lot_def)

lemmas lot_rules = unseen_bind lot_basic unseen_basic unseen_if unseen_option unseen_prod unseen_mod

lemma admit_lot: "unseen lot (phase_admit E b)"
  unfolding phase_admit_def read_bar_ticks_def roll_day_def read_signals_def flat_collision_def Let_def
  by (intro lot_rules) (simp_all add: lot_def split: option.splits)

lemma admit_bars_lot: "unseen lot (admit_bars E bs)"
  by (induction bs) (auto intro!: lot_rules admit_lot)

lemma book_charges_lot: "unseen lot (book_charges E b p cs)"
proof (induction cs)
  case Nil
  show ?case by (simp add: unseen_basic)
next
  case (Cons c cs)
  show ?case unfolding book_charges.simps charge_funding_def
    by (intro lot_rules Cons.IH) (simp_all add: lot_def)
qed

lemma book_carry_lot: "unseen lot (Stepper.book_carry E b p)"
  unfolding Stepper.book_carry_def by (intro lot_rules book_charges_lot) (simp add: lot_def)

lemma book_effects_lot: "unseen lot (book_effects b es)"
proof (induction es)
  case Nil
  show ?case by (simp add: unseen_basic)
next
  case (Cons e es)
  show ?case unfolding book_effects.simps by (intro lot_rules Cons.IH)
qed

lemma apply_effects_lot:
  assumes "ed_want plan = None"
  shows "unseen lot (apply_entry E b plan eq ov)"
proof -
  have "unseen lot (place_entry E b plan ov)"
    unfolding place_entry_def assms by (simp, intro lot_rules book_effects_lot)
  then have "lot (snd (place_entry E b plan ov s)) = lot s" for s by (simp add: unseen_def)
  then show ?thesis by (simp add: unseen_def apply_entry_def case_prod_beta lot_def)
qed

lemma evaluate_held_lot: "steps lot t (evaluate_held E b) (\<lambda>d u. u = t)"
  unfolding evaluate_held_def
  by (intro steps_rules steps_bind [where D = "\<lambda>_ u. u = t"] steps_mod) (auto simp: lot_def move_anchor_def)

section \<open>A close books a trade\<close>

lemma close_run_trades:
  assumes "close_run_position costs t x r b f (l, p) = (Inr full, (l', p'))"
  shows "length (rl_trades l') = length (rl_trades l) + 1"
proof -
  have "rl_trades (record_result y z l) = rl_trades l" for y z l
    by (simp add: record_result_def Let_def)
  moreover have "length (rl_trades (record_trade p t y x z fl d e l)) = length (rl_trades l) + 1" for p t y x z fl d e l
    by (simp add: record_trade_def Let_def)
  ultimately show ?thesis using assms
    by (cases "1 \<le> f") (auto simp: close_run_position_def st_simps Let_def split: sum.splits)
qed

definition trades :: "'v stepper \<Rightarrow> nat" where
  "trades s = length (rl_trades (st_led s))"

lemma close_held_trades: "steps trades n (close_held E t x r f) (\<lambda>_ m. m = n + 1)"
  by (auto simp: steps_def close_held_def on_held_def st_simps trades_def Let_def
      dest!: close_run_trades split: option.splits prod.splits)

lemma trades_basic: "unseen trades (bump k)" "unseen trades (emit ty t d det)" "unseen trades (set_pending y)"
  "unseen trades (set_exit_touch z)" "unseen trades (Stepper_State.set_position p)"
  unfolding bump_def emit_def by (auto intro!: unseen_mod simp: trades_def)

lemma held_aftermath_trades: "unseen trades (held_aftermath E x)"
  unfolding held_aftermath_def
  by (intro unseen_bind unseen_if trades_basic unseen_basic)
    (auto simp: unseen_def on_held_def trades_def Let_def split: option.splits prod.splits)

lemma stop_resolution_trades: "unseen trades (emit_stop_resolution E out ts d)"
  unfolding emit_stop_resolution_def
  by (intro unseen_bind unseen_if unseen_mod trades_basic unseen_basic) (simp add: trades_def)

lemma closes_trade:
  "steps trades n (close_signal E t x r) (\<lambda>_ m. m = n + 1)"
  "steps trades n (close_all E t x r) (\<lambda>_ m. m = n + 1)"
  "steps trades n (close_on_stop E b p out) (\<lambda>_ m. m = n + 1)"
  unfolding close_signal_def close_all_def close_on_stop_def
  by (auto intro!: steps_bind_eq [OF close_held_trades] steps_bind [OF close_held_trades] steps_if
      steps_last [OF trades_basic(5)] steps_last [OF held_aftermath_trades] steps_skip [OF stop_resolution_trades])

text \<open>An event of a held position leaves what is held alone, or books a trade.\<close>

abbreviation still_or_traded :: "(string \<times> rat) option \<times> nat \<Rightarrow> (string \<times> rat) option \<times> nat \<Rightarrow> bool" where
  "still_or_traded t u \<equiv> u = t \<or> snd t < snd u"

lemma steps_trades_lot:
  assumes "steps trades (snd t) m (\<lambda>_ n. n = snd t + 1)"
  shows "steps lot t m (\<lambda>_ u. snd t < snd u)"
  unfolding steps_def
proof (intro allI impI)
  have snd_lot: "snd (lot s) = trades s" for s :: "'a stepper" by (simp add: lot_def trades_def)
  fix s x s'
  assume "lot s = t" and m: "m s = (Inr x, s')"
  then have "trades s = snd t" using snd_lot by metis
  with assms m have "trades s' = snd t + 1" unfolding steps_def by blast
  then show "snd t < snd (lot s')" by (simp add: snd_lot)
qed

lemma traded_then:
  assumes "unseen trades m"
  shows "snd t < snd u \<Longrightarrow> steps lot u m (\<lambda>_. still_or_traded t)"
proof -
  have "trades s' = trades s" if "m s = (Inr x, s')" for s x s'
    using assms that by (metis unseen_def snd_conv)
  then show "snd t < snd u \<Longrightarrow> steps lot u m (\<lambda>_. still_or_traded t)"
    by (auto simp: steps_def lot_def trades_def)
qed

lemmas close_lot = closes_trade [THEN steps_trades_lot]

lemma apply_held_lot: "steps lot t (apply_held E b decision) (\<lambda>_. still_or_traded t)"
  unfolding apply_held_def exit_scheduled_def
  by (intro steps_get steps_option steps_throw steps_decision steps_sched steps_if steps_ret
      steps_skip [OF lot_basic(1)] steps_skip [OF lot_basic(2)]
      steps_bind [OF close_lot(1)] steps_bind [OF close_lot(3)] steps_weaken [OF close_lot(1)]
      steps_weaken [OF close_lot(2)] steps_weaken [OF close_lot(3)]
      steps_last [OF lot_basic(4)] steps_last [OF lot_basic(5)] traded_then trades_basic) auto

section \<open>What the hooks do to the position of their item\<close>

definition item_stance :: "'v slot \<Rightarrow> (string \<times> rat) option" where
  "item_stance s = stance (held_by s)"

lemma item_stance_fields [simp]:
  "item_stance (s\<lparr>pv_current := b\<rparr>) = item_stance s" "item_stance (s\<lparr>pv_pending := d\<rparr>) = item_stance s"
  "item_stance (s\<lparr>pv_pending_equity := e\<rparr>) = item_stance s"
  by (simp_all add: item_stance_def held_by_def)

lemma on_stepper_ok:
  "on_stepper m s = (Inr x, s') \<longleftrightarrow> (\<exists>t. m (pv_stepper s) = (Inr x, t) \<and> s' = s\<lparr>pv_stepper := t\<rparr>)"
  by (auto simp: on_stepper_def Let_def split: prod.splits)

lemma lot_stance: "fst (lot (pv_stepper s)) = item_stance s"
  by (simp add: lot_def item_stance_def held_by_def)

lemma on_stepper_still:
  assumes "on_stepper m s = (Inr x, s')" "unseen lot m"
  shows "item_stance s' = item_stance s"
proof -
  obtain t where t: "m (pv_stepper s) = (Inr x, t)" "s' = s\<lparr>pv_stepper := t\<rparr>"
    using assms(1) by (auto simp: on_stepper_ok)
  then have "lot t = lot (pv_stepper s)" using assms(2) unfolding unseen_def by (metis snd_conv)
  with t(2) show ?thesis using lot_stance [of s] lot_stance [of s'] by simp
qed

lemma measured_ok:
  assumes "measured m s = (Inr (paid, rows), s')"
  shows "on_stepper m s = (Inr (), s')"
    "rows = trades (pv_stepper s') - trades (pv_stepper s)"
  using assms by (auto simp: measured_def sbind_ok_iff Let_def trades_def)

lemma measured_still: "measured m s = (Inr r, s') \<Longrightarrow> unseen lot m \<Longrightarrow> item_stance s' = item_stance s"
  by (cases r) (auto dest: measured_ok intro: on_stepper_still)

lemma item_carry_still: "item_carry E v s = (Inr ch, s') \<Longrightarrow> item_stance s' = item_stance s"
  by (auto simp: item_carry_def sbind_ok_iff Let_def dest!: on_stepper_still [OF _ admit_bars_lot]
      measured_still [OF _ book_carry_lot] split: option.splits if_splits prod.splits)

lemma bar_for_ok: "bar_for v s = (Inr b, s') \<Longrightarrow> s' = s"
  by (auto simp: bar_for_def sbind_ok_iff split: option.splits if_splits)

text \<open>An event that is reported has closed the position; one that is not has left it alone.\<close>

lemma closed_by_stance:
  assumes "closed_by E m s = (Inr r, s')" "\<And>t. steps lot t m (\<lambda>_. still_or_traded t)" "item_stance s \<noteq> None"
  shows "item_stance s' = (if r = None then item_stance s else None)"
proof -
  obtain paid rows s1 where run: "measured m s = (Inr (paid, rows), s1)"
    and rest: "(if rows = 0 then r = None \<and> s' = s1 else r \<noteq> None \<and> s' = s1 \<and> held_by s1 = None)"
    using assms(1,3) by (auto simp: closed_by_def item_stance_def sbind_ok_iff Let_def split: option.splits if_splits prod.splits)
  note m = measured_ok [OF run]
  obtain t where t: "m (pv_stepper s) = (Inr (), t)" "s1 = s\<lparr>pv_stepper := t\<rparr>"
    using m(1) by (auto simp: on_stepper_ok)
  have still: "still_or_traded (lot (pv_stepper s)) (lot t)" by (rule stepsD [OF assms(2) t(1)])
  show ?thesis
  proof (cases "rows = 0")
    case True
    with m(2) t have "\<not> snd (lot (pv_stepper s)) < snd (lot t)" by (simp add: lot_def trades_def)
    with still have "lot t = lot (pv_stepper s)" by simp
    with True rest t(2) show ?thesis using lot_stance [of s] lot_stance [of s1] by simp
  next
    case False
    with rest show ?thesis by (auto simp: item_stance_def)
  qed
qed

lemma item_exit_stance:
  assumes "item_mandatory_exit E v h s = (Inr r, s')"
  shows "item_stance s' = (if r = None then item_stance s else None)"
proof -
  obtain b d s1 where ev: "on_stepper (evaluate_held E b) s = (Inr d, s1)"
    and rest: "(case d of None \<Rightarrow> sret None | Some x \<Rightarrow> closed_by E (apply_held E b x)) s1 = (Inr r, s')"
    using assms by (auto simp: item_mandatory_exit_def sbind_ok_iff dest!: bar_for_ok)
  obtain t where t: "evaluate_held E b (pv_stepper s) = (Inr d, t)" "s1 = s\<lparr>pv_stepper := t\<rparr>"
    using ev by (auto simp: on_stepper_ok)
  have "lot t = lot (pv_stepper s)" by (rule stepsD [OF evaluate_held_lot t(1)])
  then have same: "item_stance s1 = item_stance s" using lot_stance [of s] lot_stance [of s1] t(2) by simp
  show ?thesis
  proof (cases d)
    case None
    with rest same show ?thesis by simp
  next
    case (Some x)
    have "item_stance s \<noteq> None" using t(1) Some
      by (auto simp: evaluate_held_def sbind_ok_iff held_by_def item_stance_def split: option.splits)
    then have "item_stance s1 \<noteq> None" using same by simp
    with closed_by_stance [OF _ apply_held_lot this] rest Some same show ?thesis by simp
  qed
qed

lemma on_stepper_unseen: "unseen lot m \<Longrightarrow> unseen item_stance (on_stepper m)"
  unfolding unseen_def on_stepper_def case_prod_beta Let_def
  by (simp flip: lot_stance)

lemma item_entry_still:
  assumes "item_entry render E ident v sn h s = (Inr x, s')"
  shows "item_stance s' = item_stance s"
proof -
  have "unseen item_stance (bar_for v)" unfolding bar_for_def by (intro lot_rules)
  then have "steps item_stance t (item_entry render E ident v sn h) (\<lambda>_ u. u = t)" for t
    unfolding item_entry_def Let_def
    by (intro steps_option steps_throw steps_if steps_get steps_ret steps_lift
        steps_skip [where m = "bar_for v"] steps_skip [OF on_stepper_unseen [OF apply_effects_lot]]
        steps_skip [where m = "smod f" for f] unseen_mod) simp_all
  then show ?thesis using assms by (rule stepsD)
qed

lemma item_settle_stance:
  assumes "item_settle E v d s = (Inr u, s')"
  shows "item_stance s' = Some (text_or_empty (ad_direction d), ad_granted_units d)"
  using assms
  by (auto simp: item_settle_def sbind_ok_iff item_stance_def held_by_def text_or_empty_def
      dest!: bar_for_ok split: option.splits if_splits)

section \<open>Pool and items\<close>

definition pool_stance :: "ledger \<Rightarrow> string \<Rightarrow> (string \<times> rat) option" where
  "pool_stance l i = map_option (\<lambda>p. (op_direction p, op_size p)) (dget (lg_positions l) i)"

definition in_step :: "'v slots run_context \<Rightarrow> bool" where
  "in_step c \<longleftrightarrow> (\<forall>i. pool_stance (rc_ledger c) i = item_stance (rc_world c i))"

definition engine_items :: "'v slots run_setup \<Rightarrow> bool" where
  "engine_items su \<longleftrightarrow> (\<forall>i p. dget (su_by_item su) i = Some p \<longrightarrow>
     (\<exists>render E ident batches instrument.
        build_engine_participant render E ident batches instrument = Inr p \<and> id_item_id ident = i))"

lemma on_slot_ok: "on_slot i m w = (Inr x, w') \<longleftrightarrow> (\<exists>s. m (w i) = (Inr x, s) \<and> w' = w(i := s))"
  by (auto simp: on_slot_def Let_def split: prod.splits)

lemma engine_hook:
  assumes "engine_items su" "dget (su_by_item su) i = Some p"
  obtains render E ident where
    "pt_carry p = (\<lambda>v. on_slot i (item_carry E v))"
    "pt_mandatory_exit p = (\<lambda>v h. on_slot i (item_mandatory_exit E v h))"
    "pt_entry p = (\<lambda>v sn h. on_slot i (item_entry render E ident v sn h))"
    "pt_settle p = (\<lambda>v d. on_slot i (item_settle E v d))"
  using assms
  by (fastforce simp: engine_items_def build_engine_participant_def engine_hooks_def Let_def split: if_splits)

lemma hook_stance:
  assumes "engine_items su" "dget (su_by_item su) i = Some p"
  shows "pt_carry p v w = (Inr ch, w') \<Longrightarrow> item_stance (w' k) = item_stance (w k)"
    "pt_mandatory_exit p v h w = (Inr r, w') \<Longrightarrow>
       item_stance (w' k) = (if k = i \<and> r \<noteq> None then None else item_stance (w k))"
    "pt_entry p v sn ho w = (Inr x, w') \<Longrightarrow> item_stance (w' k) = item_stance (w k)"
    "pt_settle p v d w = (Inr u, w') \<Longrightarrow>
       item_stance (w' k) = (if k = i then Some (text_or_empty (ad_direction d), ad_granted_units d)
         else item_stance (w k))"
  by (rule engine_hook [OF assms],
      auto simp: on_slot_ok dest: item_carry_still item_exit_stance item_entry_still item_settle_stance)+

lemma still_positions:
  "book_cost bl i a l = (Inr x, l') \<Longrightarrow> lg_positions l' = lg_positions l"
  "publish_snapshot H t l = (Inr s, l') \<Longrightarrow> lg_positions l' = lg_positions l"
  "begin_apply t l = (Inr u, l') \<Longrightarrow> lg_positions l' = lg_positions l"
  "commit_tick t l = (Inr pt, l') \<Longrightarrow> lg_positions l' = lg_positions l"
  by (auto simp: book_cost_run writer_runs publish_snapshot_run begin_apply_run Let_def split: if_splits sum.splits option.splits)

lemma carry_positions:
  "Portfolio_Engine.book_carry i ch c = (Inr u, c') \<Longrightarrow>
    lg_positions (rc_ledger c') = lg_positions (rc_ledger c) \<and> rc_world c' = rc_world c"
  by (auto simp: Portfolio_Engine.book_carry_def call_ok void_ok book_cost_simps dest!: still_positions(1) split: option.splits if_splits)

lemma set_position_stance:
  "Portfolio_Ledger.set_position i d z pr l = (Inr p, l') \<Longrightarrow> pool_stance l' k = (if k = i then Some (d, z) else pool_stance l k)"
  by (auto simp: set_position_run pool_stance_def open_position_post_init_def rbind_Inr_iff Let_def split: if_splits sum.splits)

lemma phase_1_in_step:
  fixes su :: "'v slots run_setup"
  assumes "engine_items su"
  shows "phase_1_carry su vs stamp c = (Inr x, c') \<Longrightarrow> in_step c \<Longrightarrow> in_step c'"
proof (induction vs arbitrary: stamp c)
  case (Cons v vs)
  show ?case
  proof (cases "is_decision v")
    case True
    with Cons.prems(1) obtain p :: "'v slots participant" and ch w c2 st where
      known: "dget (su_by_item su) (tv_item_id v) = Some p"
      and hook: "pt_carry p v (rc_world c) = (Inr ch, w)"
      and carry: "Portfolio_Engine.book_carry (tv_item_id v) ch (c\<lparr>rc_world := w\<rparr>) = (Inr (), c2)"
      and rest: "phase_1_carry su vs st c2 = (Inr x, c')"
      by (simp add: call_ok) blast
    have "in_step c2"
      using carry_positions [OF carry] Cons.prems(2) hook_stance(1) [OF assms known hook]
      by (simp add: in_step_def pool_stance_def)
    with Cons.IH [OF rest] show ?thesis .
  qed (use Cons in simp)
qed simp

lemma close_and_book_stance:
  assumes "close_and_book i x c = (Inr b, c')"
  shows "pool_stance (rc_ledger c') k = (if k = i then None else pool_stance (rc_ledger c) k)"
    "rc_world c' = rc_world c"
  using assms
  by (auto simp: close_and_book_def call_ok pool_stance_def dest!: close_position_gone book_trade_keeps_positions)

lemma exit_of_in_step:
  fixes su :: "'v slots run_setup"
  assumes "engine_items su" "exit_of su v c = (Inr e, c')" "in_step c"
  shows "in_step c'"
proof (cases "is_decision v \<and> dget (lg_positions (rc_ledger c)) (tv_item_id v) \<noteq> None")
  case False
  with assms(2,3) show ?thesis by (cases "is_decision v") (simp_all add: exit_of_def call_ok)
next
  case True
  then obtain h where h: "dget (lg_positions (rc_ledger c)) (tv_item_id v) = Some h" by auto
  from True assms(2) h obtain p :: "'v slots participant" and event w where
    known: "dget (su_by_item su) (tv_item_id v) = Some p"
    and hook: "pt_mandatory_exit p v h (rc_world c) = (Inr event, w)"
    and rest: "case event of None \<Rightarrow> c' = c\<lparr>rc_world := w\<rparr>
      | Some x \<Rightarrow> \<exists>b. close_and_book (tv_item_id v) x (c\<lparr>rc_world := w\<rparr>) = (Inr b, c')"
    by (auto simp: exit_of_def call_ok split: option.splits)
  note s = hook_stance(2) [OF assms(1) known hook]
  show ?thesis
  proof (cases event)
    case None
    with rest s assms(3) show ?thesis by (simp add: in_step_def)
  next
    case (Some x)
    with rest obtain b where "close_and_book (tv_item_id v) x (c\<lparr>rc_world := w\<rparr>) = (Inr b, c')" by auto
    note close_and_book_stance [OF this]
    with Some s assms(3) show ?thesis by (simp add: in_step_def)
  qed
qed

lemma phase_3_in_step:
  fixes su :: "'v slots run_setup"
  assumes "engine_items su"
  shows "phase_3_mandatory su vs c = (Inr r, c') \<Longrightarrow> in_step c \<Longrightarrow> in_step c'"
  by (induction vs arbitrary: c r)
    (auto simp: sbind_ok_iff dest: exit_of_in_step [OF assms] split: prod.splits)

lemma intent_of_in_step:
  fixes su :: "'v slots run_setup"
  assumes "engine_items su" "intent_of su s v c = (Inr e, c')" "in_step c"
  shows "in_step c'"
proof (cases "is_decision v")
  case False
  with assms(2,3) show ?thesis by (simp add: intent_of_def)
next
  case True
  with assms(2) obtain p :: "'v slots participant" and w wanted where
    known: "dget (su_by_item su) (tv_item_id v) = Some p"
    and hook: "pt_entry p v s (dget (lg_positions (rc_ledger c)) (tv_item_id v)) (rc_world c) = (Inr wanted, w)"
    and rest: "(case wanted of None \<Rightarrow> sret None | Some x \<Rightarrow>
        sbind (slift (validated_intent x v s)) (\<lambda>y.
        sbind (if is_actionable x
          then sbind (slift (entry_price x)) (\<lambda>price.
            smod (\<lambda>c. c\<lparr>rc_prices := dset (tv_item_id v) price (rc_prices c)\<rparr>))
          else sret ()) (\<lambda>_. sret (Some y)))) (c\<lparr>rc_world := w\<rparr>) = (Inr e, c')"
    by (simp add: intent_of_def call_ok) blast
  from rest have "rc_ledger c' = rc_ledger c \<and> rc_world c' = w"
    by (cases wanted) (auto simp: sbind_ok_iff split: if_splits)
  with hook_stance(3) [OF assms(1) known hook] assms(3) show ?thesis by (simp add: in_step_def)
qed

lemma phase_4_in_step:
  fixes su :: "'v slots run_setup"
  assumes "engine_items su"
  shows "phase_4_intents su s vs c = (Inr r, c') \<Longrightarrow> in_step c \<Longrightarrow> in_step c'"
  by (induction vs arbitrary: c r) (auto simp: sbind_ok_iff dest: intent_of_in_step [OF assms])

lemma apply_decision_in_step:
  fixes su :: "'v slots run_setup"
  assumes "engine_items su" "apply_decision su views d c = (Inr u, c')" "in_step c"
  shows "in_step c'"
proof (cases "is_granted d")
  case False
  with assms(2,3) show ?thesis by (simp add: apply_decision_def)
next
  case True
  with assms(2) obtain price pos l v w and p :: "'v slots participant" where
    set: "Portfolio_Ledger.set_position (ad_item_id d) (text_or_empty (ad_direction d)) (ad_granted_units d) price
      (rc_ledger c) = (Inr pos, l)"
    and known: "dget (su_by_item su) (ad_item_id d) = Some p"
    and hook: "pt_settle p v d (rc_world c) = (Inr (), w)"
    and c': "rc_ledger c' = l" "rc_world c' = w"
    by (auto simp: apply_decision_def call_ok split: if_splits)
  show ?thesis
    using set_position_stance [OF set] hook_stance(4) [OF assms(1) known hook] assms(3)
    by (simp add: in_step_def c')
qed

lemma apply_decisions_in_step:
  fixes su :: "'v slots run_setup"
  assumes "engine_items su"
  shows "apply_decisions su views ds c = (Inr u, c') \<Longrightarrow> in_step c \<Longrightarrow> in_step c'"
  by (induction ds arbitrary: c) (auto simp: sbind_ok_iff dest: apply_decision_in_step [OF assms])

lemma run_tick_in_step:
  fixes su :: "'v slots run_setup"
  assumes "engine_items su" "run_tick su k c = (Inr t, c')" "in_step c"
  shows "in_step c'"
  using assms(2)
proof (cases rule: run_tickE)
  case (1 c1 c2 c3 c4 c5 l3 l6 stamp)
  have "in_step c2" by (rule phase_3_in_step [OF assms(1) 1(2) phase_1_in_step [OF assms(1) 1(1) assms(3)]])
  then have "in_step c3" using still_positions(2) [OF 1(3)] by (simp add: 1(4) in_step_def pool_stance_def)
  then have c4: "in_step c4" by (rule phase_4_in_step [OF assms(1) 1(6)])
  from 1(8) obtain l where started: "begin_apply (ct_t_ms k) (rc_ledger c4) = (Inr (), l)"
    and opens: "apply_decisions su (foldl (\<lambda>d v. dset (tv_item_id v) v d) [] (ct_views k))
      (rp_decisions (pk_report t)) (c4\<lparr>rc_ledger := l\<rparr>) = (Inr (), c5)"
    by (auto simp: phase_7_apply_def call_ok)
  have "in_step (c4\<lparr>rc_ledger := l\<rparr>)"
    using c4 still_positions(3) [OF started] by (simp add: in_step_def pool_stance_def)
  then have "in_step c5" by (rule apply_decisions_in_step [OF assms(1) opens])
  then show ?thesis using still_positions(4) [OF 1(9)] by (simp add: 1(10) in_step_def pool_stance_def)
qed

lemma ticks_run_in_step:
  assumes "engine_items su"
  shows "ticks_run su ks c ts c' \<Longrightarrow> in_step c \<Longrightarrow> in_step c'"
proof (induction ks arbitrary: c ts)
  case Nil
  then show ?case by (cases ts) auto
next
  case (Cons k ks)
  then obtain t ts1 c1 where "run_tick su k c = (Inr t, c1)" "ticks_run su ks c1 ts1 c'" by (cases ts) auto
  with Cons show ?case by (blast intro: run_tick_in_step [OF assms(1)])
qed

text \<open>C5. On a shared run of engine participants the pool and the items never part: if at the start each item
  holds the direction and the size that the pool holds for it, nothing in particular, then it does so after
  every sequence of committed ticks, whatever was charged, closed, sized down by the arbitration or opened
  in between; a participant that would part from the pool raises.\<close>

theorem pool_and_items_agree:
  assumes "engine_items su" "ticks_run su ks c ts c'" "in_step c"
  shows "in_step c'"
  using assms by (rule ticks_run_in_step)

end
