(* ===== verification/Shared_Grants.thy ===== *)
theory Shared_Grants
  imports Shared_Agreement
begin

text \<open>
  What the arbitration grants an engine participant, the participant can book: the size it computes again
  at the settlement is never below the grant, so its comparison with the pool never fails.
\<close>

section \<open>What a decision of a report was resolved from\<close>

definition resolved_from :: "ledger \<Rightarrow> portfolio_snapshot \<Rightarrow> item_intent \<Rightarrow> arbitration_decision \<Rightarrow> bool" where
  "resolved_from l s x d \<longleftrightarrow> ad_item_id d = it_item_id x \<and> ad_direction d = it_direction x \<and>
     (is_admitted d \<longrightarrow> 0 < ad_granted_units d \<and> ad_granted_units d \<le> it_desired_size x \<and> 0 < price_of x \<and>
        is_ok (money (dmul (ad_granted_units d) (price_of x))) \<and>
        (\<exists>sleeve. remaining_sleeve_capacity s (it_item_id x) = Inr sleeve \<and>
           allows (price_of x) sleeve (ad_granted_units d)))"

lemma capacity_resolved:
  assumes "decide_capacity l s (snd px) c mp me = Inr (d, k)"
  shows "resolved_from l s (snd px) (capacity_result rule px c (d, k))"
proof (cases "cd_outcome d = Rejected")
  case True
  then show ?thesis
    by (simp add: resolved_from_def capacity_result_def decision_base_def is_admitted_def capacity_outcome_of_def)
next
  case False
  from assms False obtain me' where r: "resolve_capacity l (it_item_id (snd px)) s (it_desired_size (snd px))
      (price_of (snd px)) mp me' = Inr d"
    by (auto simp: decide_capacity_def rbind_Inr_iff Let_def split: if_splits)
  have "cd_is_admitted d" using False by (simp add: cd_is_admitted_def)
  with r obtain sleeve where "remaining_sleeve_capacity s (it_item_id (snd px)) = Inr sleeve"
    "allows (price_of (snd px)) sleeve (cd_granted_units d)"
    by (rule resolve_capacity_admitted)
  with decide_capacity_admitted [OF assms False] show ?thesis
    by (simp add: resolved_from_def capacity_result_def decision_base_def is_ok_def)
qed

lemma admit_resolves:
  assumes "admit l s rule mps me ps out c = Inr (out', c')" "distinct (map pitem ps)" "px \<in> set ps"
  shows "\<exists>d. dget out' (pitem px) = Some d \<and> resolved_from l s (snd px) d"
  using assms
proof (induction l s rule mps me ps out c rule: admit.induct)
  case (1 l s rule mps me out c)
  then show ?case by simp
next
  case (2 l s rule mps me py ps out c)
  from "2.prems"(1) obtain d k
    where dk: "decide_capacity l s (snd py) c (dget mps (pitem py)) me = Inr (d, k)"
    and rest: "admit l s rule mps me ps (dset (pitem py) (capacity_result rule py c (d, k)) out)
      (if cd_is_admitted d then dadd c (cd_granted_notional d) else c) = Inr (out', c')"
    by (rule admit_Cons)
  show ?case
  proof (cases "px = py")
    case True
    have "pitem py \<notin> pitem ` set ps" using "2.prems"(2) by auto
    from admit_other [OF rest this] show ?thesis using True capacity_resolved [OF dk] by simp
  next
    case False
    then show ?thesis using "2.IH" [of "(d, k)", unfolded fst_conv, OF rest] "2.prems" by auto
  qed
qed

lemma report_resolved:
  assumes "arbitrate H l s xs pr policy mps me = Inr r" "d \<in> set (rp_decisions r)" "is_admitted d"
  shows "\<exists>x \<in> set xs. resolved_from l s x d"
  using assms(1)
proof (cases rule: arbitrate_Inr)
  case (1 rule pairs out kept out')
  note p = pairs_items [OF 1(2)]
  from assms(2) 1(5) obtain px where px: "px \<in> set pairs" "d = the (dget out' (pitem px))" by auto
  show ?thesis
  proof (cases "px \<in> set kept")
    case True
    have "subseq kept pairs" using screen_kept [of l pr rule pairs "[]" "[]"] 1(3) by simp
    then have "distinct (map pitem kept)" using p(2) subseq_facts by blast
    from admit_resolves [OF 1(4) this True] px(2) p(4) [OF px(1)] show ?thesis by auto
  next
    case False
    from decision_cases [OF p(2) 1(3,4) px(1)] obtain d' where "dget out' (pitem px) = Some d'"
      "turned_away px d'" using False by blast
    with px(2) assms(3) show ?thesis by (auto simp: turned_away_def)
  qed
qed

section \<open>The size at the settlement\<close>

lemma quantize_mono: "quantize k x = Inr a \<Longrightarrow> quantize k y = Inr b \<Longrightarrow> x \<le> y \<Longrightarrow> a \<le> b"
  by (auto simp: quantize_Inr_iff intro: qround_mono)

text \<open>The sleeve caps the size at least where the headroom capped the grant; with no position the headroom
  is the whole sleeve.\<close>

lemma cap_covers_grant:
  assumes "allows price (max 0 (dsub sleeve 0)) g" "0 < g" "dfix sleeve = sleeve" "0 < price" "g \<le> desired"
  shows "\<exists>z. cap_to_sleeve desired sleeve price = Inr z \<and> g \<le> z"
proof -
  have h: "max 0 (dsub sleeve 0) = max 0 sleeve" by (simp add: dsub_def assms(3))
  from assms(1,2,4) obtain u where u: "0 < sleeve" "quantize 8 (dfix (sleeve / price)) = Inr u" "g \<le> u"
    by (auto simp: h allows_def cap_units_def ddiv_def split: if_splits)
  then show ?thesis using assms(4,5) by (simp add: cap_to_sleeve_def dquo_def)
qed

definition engine_shape :: "'v stepper_env \<Rightarrow> bool" where
  "engine_shape E \<longleftrightarrow> rc_alloc_on (se_ctx E) \<and> se_rules E = None \<and> size_gates_ok E \<and>
     entry_sched E = Immediate \<and> \<not> order_is_limit E \<and> \<not> order_is_stop E"

lemma supported_shape: "True \<notin> set (unsupported_shapes E) \<Longrightarrow> engine_shape E"
  by (auto simp: engine_shape_def unsupported_shapes_def unsupported_shared_shapes_def immediate_order_types_def
      entry_sched_def order_is_limit_def order_is_stop_def split: if_splits)

text \<open>What an entry left in the slot, and the intent it was formed into.\<close>

definition described :: "'v stepper_env \<Rightarrow> bar \<Rightarrow> item_intent \<Rightarrow> 'v slot \<Rightarrow> bool" where
  "described E b x s \<longleftrightarrow> (\<exists>plan want eq eff. pv_pending s = Some plan \<and> pv_pending_equity s = Some eq \<and>
     pv_current s = Some b \<and> ed_want plan = Some want \<and> it_direction x = Some want \<and>
     list_all (\<lambda>e. le_counter e \<in> {''suppressed_entries'', ''entries_blocked_by_restriction'', ''strength_adjustments''})
       (ed_effects plan) \<and>
     effective_fill (br_close b) (want = ''long'') (fc_half_spread (costs_of E)) (fc_slippage (costs_of E)) = Inr eff \<and>
     price_of x = eff \<and>
     position_size (se_parse E) (config_of E) eff (sleeve_capital (se_ctx E) eq) (ed_strength plan)
       = Inr (it_desired_size x))"

lemma book_effects_runs:
  "list_all (\<lambda>e. le_counter e \<in> {''suppressed_entries'', ''entries_blocked_by_restriction'', ''strength_adjustments''}) es \<Longrightarrow>
    \<exists>s'. book_effects b es s = (Inr (), s') \<and> st_sizing_equity s' = st_sizing_equity s"
proof (induction es arbitrary: s)
  case Nil
  then show ?case by (simp add: st_simps)
next
  case (Cons e es)
  have "\<exists>s1. sbind (bump (le_counter e)) (\<lambda>_. swhen (le_event e \<noteq> [])
      (emit (le_event e) (br_timestamp b) (le_direction e) (le_detail e))) s = (Inr (), s1) \<and>
      st_sizing_equity s1 = st_sizing_equity s"
    by (auto simp: bump_def emit_def st_simps)
  with Cons show ?case by (fastforce simp: bump_def emit_def st_simps)
qed

text \<open>Opening with the granted size: the position has it, or the commission cannot be charged.\<close>

definition opens_with :: "string \<Rightarrow> rat \<Rightarrow> 'v stepper_env \<Rightarrow> (exc + unit) \<times> 'v stepper \<Rightarrow> bool" where
  "opens_with want g E out \<longleftrightarrow>
     (fst out = Inr () \<and> stance (st_position (snd out)) = Some (want, g)) \<or>
     (fst out = Inl InvalidOperation \<and> 0 < fc_commission (costs_of E))"

lemma charge_entry_runs:
  "(\<exists>s'. charge_entry E p s = (Inr (), s')) \<or>
   (fst (charge_entry E p s) = Inl InvalidOperation \<and> 0 < fc_commission (costs_of E))"
  by (auto simp: charge_entry_def deduct_def st_simps fee_def quantize_def split: sum.splits)

lemma granted_open:
  assumes "engine_shape E" "st_sizing_equity s = Some eq"
    and "effective_fill raw (want = ''long'') (fc_half_spread (costs_of E)) (fc_slippage (costs_of E)) = Inr eff"
    and "position_size (se_parse E) (config_of E) eff (sleeve_capital (se_ctx E) eq) m = Inr desired"
    and "cap_to_sleeve desired (sleeve_capital (se_ctx E) eq) eff = Inr z" "0 < g" "g \<le> z"
    and "quantize 2 (dmul eff g) = Inr n"
  shows "opens_with want g E (do_open E want b raw False m (Some g) [] s)"
proof -
  have planned: "planned_size (se_parse E) (se_ctx E) l want raw m (Some eq) = Inr z" for l
    using assms(1,3-5) by (simp add: planned_size_def engine_shape_def)
  obtain p s1 where p: "open_position_run E want b raw m (Some g) s = (Inr (Some p), s1)"
    "ps_direction p = want" "ps_size p = g"
    using assms(1,2,3,6-8)
    by (simp add: open_position_run_def engine_shape_def conflict_gate_def st_simps entry_planned_size_def planned
        exposure_gate_def portfolio_headroom_def fresh_position_def min_def Let_def)
  show ?thesis
    using charge_entry_runs [of E p s1] p
    by (auto simp: opens_with_def do_open_def open_filled_def emit_def st_simps split: sum.splits prod.splits)
qed

lemma granted_entry:
  assumes "engine_shape E" "ed_want plan = Some want"
    and "list_all (\<lambda>e. le_counter e \<in> {''suppressed_entries'', ''entries_blocked_by_restriction'', ''strength_adjustments''})
       (ed_effects plan)"
    and "effective_fill (br_close b) (want = ''long'') (fc_half_spread (costs_of E)) (fc_slippage (costs_of E)) = Inr eff"
    and "position_size (se_parse E) (config_of E) eff (sleeve_capital (se_ctx E) eq) (ed_strength plan) = Inr desired"
    and "cap_to_sleeve desired (sleeve_capital (se_ctx E) eq) eff = Inr z" "0 < g" "g \<le> z"
    and "quantize 2 (dmul eff g) = Inr n"
  shows "opens_with want g E (apply_entry E b plan (Some eq) (Some g) s)"
proof -
  let ?s = "s\<lparr>st_sizing_equity := Some eq\<rparr>"
  obtain s1 where s1: "book_effects b (ed_effects plan) ?s = (Inr (), s1)" "st_sizing_equity s1 = Some eq"
    using book_effects_runs [OF assms(3), of b ?s] by auto
  let ?s2 = "s1\<lparr>st_led := emit_event ''entry_signal'' (br_timestamp b) (Some want) (int (st_bars_seen s1)) (ed_detail plan) (st_led s1)\<rparr>"
  have "place_entry E b plan (Some g) ?s = do_open E want b (br_close b) False (ed_strength plan) (Some g) [] ?s2"
    using assms(1,2) s1(1) by (simp add: place_entry_def engine_shape_def emit_def st_simps)
  moreover have "opens_with want g E (do_open E want b (br_close b) False (ed_strength plan) (Some g) [] ?s2)"
    by (rule granted_open [OF assms(1) _ assms(4-9)]) (simp add: s1(2))
  ultimately show ?thesis by (simp add: apply_entry_def opens_with_def case_prod_beta)
qed

lemma settle_runs:
  assumes "engine_shape E" "described E b x s" "tv_bars v \<noteq> []" "b = last (tv_bars v)"
    and "ad_direction d = it_direction x" "0 < ad_granted_units d" "ad_granted_units d \<le> it_desired_size x"
    and "\<And>eq. pv_pending_equity s = Some eq \<Longrightarrow>
      allows (price_of x) (max 0 (dsub (sleeve_capital (se_ctx E) eq) 0)) (ad_granted_units d)"
    and "0 < price_of x" "is_ok (money (dmul (ad_granted_units d) (price_of x)))"
  shows "fst (item_settle E v d s) = Inr () \<or>
    (fst (item_settle E v d s) = Inl InvalidOperation \<and> 0 < fc_commission (costs_of E))"
proof -
  obtain plan want eq eff where s: "pv_pending s = Some plan" "pv_pending_equity s = Some eq" "pv_current s = Some b"
    and w: "ed_want plan = Some want" "it_direction x = Some want"
    and fx: "list_all (\<lambda>e. le_counter e \<in> {''suppressed_entries'', ''entries_blocked_by_restriction'', ''strength_adjustments''})
       (ed_effects plan)"
    and eff: "effective_fill (br_close b) (want = ''long'') (fc_half_spread (costs_of E)) (fc_slippage (costs_of E)) = Inr eff"
      "price_of x = eff"
    and sz: "position_size (se_parse E) (config_of E) eff (sleeve_capital (se_ctx E) eq) (ed_strength plan)
       = Inr (it_desired_size x)"
    using assms(2) by (auto simp: described_def)
  let ?g = "ad_granted_units d" and ?s = "s\<lparr>pv_pending := None, pv_pending_equity := None\<rparr>"
  have "dfix (sleeve_capital (se_ctx E) eq) = sleeve_capital (se_ctx E) eq"
    by (simp add: sleeve_capital_def dquo_def Let_def)
  from cap_covers_grant [OF assms(8) [OF s(2)] assms(6) this assms(9,7)] obtain z where
    z: "cap_to_sleeve (it_desired_size x) (sleeve_capital (se_ctx E) eq) eff = Inr z" "?g \<le> z" by (auto simp: eff(2))
  from assms(10) obtain n where "quantize 2 (dmul eff ?g) = Inr n"
    by (auto simp: is_ok_iff money_def eff(2) dmul_def mult.commute)
  from granted_entry [OF assms(1) w(1) fx eff(1) sz z(1) assms(6) z(2) this, of "pv_stepper ?s"]
  have out: "opens_with want ?g E (apply_entry E b plan (Some eq) (Some ?g) (pv_stepper s))" by simp
  have "bar_for v ?s = (Inr b, ?s)" using s assms(3,4) by (simp add: bar_for_def st_simps)
  with out s w assms(5) show ?thesis
    by (cases "apply_entry E b plan (Some eq) (Some ?g) (pv_stepper s)")
      (auto simp: item_settle_def st_simps on_stepper_def opens_with_def held_by_def stance_def)
qed

section \<open>What an entry describes\<close>

lemma entry_effects:
  assumes "evaluate_entry E b s = Inr (Some plan)"
  shows "list_all (\<lambda>e. le_counter e \<in> {''suppressed_entries'', ''entries_blocked_by_restriction'', ''strength_adjustments''})
       (ed_effects plan)"
proof -
  have "list_all (\<lambda>e. le_counter e = ''suppressed_entries'') (snd (wanted_direction E b s))"
    by (simp add: wanted_direction_def filtered_entry_def Let_def split: option.split prod.split)
  then have "list_all (\<lambda>e. le_counter e \<in> {''suppressed_entries'', ''entries_blocked_by_restriction'', ''strength_adjustments''})
       (snd (wanted_direction E b s))" by (auto simp: list_all_iff)
  then show ?thesis using assms
    by (auto simp: evaluate_entry_def filtered_entry_def rbind_Inr_iff Let_def split: if_splits option.splits prod.splits)
qed

lemma item_entry_describes:
  assumes "item_entry render E ident v sn h s = (Inr (Some x), s')" "pv_current s = Some (last (tv_bars v))"
  shows "described E (last (tv_bars v)) x s' \<and> tv_bars v \<noteq> [] \<and> it_item_id x = id_item_id ident \<and>
    pv_pending_equity s' = Some (sn_equity sn) \<and>
    dget (sn_sleeve_capacity sn) (id_item_id ident) = Some (sleeve_capital (se_ctx E) (sn_equity sn))"
proof -
  obtain b plan want where bar: "bar_for v s = (Inr b, s)"
    and ev: "evaluate_entry E b (pv_stepper s) = Inr (Some plan)" "ed_want plan = Some want"
    and cap: "dget (sn_sleeve_capacity sn) (id_item_id ident) = Some (sleeve_capital (se_ctx E) (sn_equity sn))"
    and s': "s' = s\<lparr>pv_pending := Some plan, pv_pending_equity := Some (sn_equity sn)\<rparr>"
    and form: "form_intent (se_parse E) ident v sn \<lparr>dn_kind = EntryIntent, dn_reason = ''entry_signal'',
        dn_direction = Some want, dn_evidence = render (ed_detail plan)\<rparr>
      (Some (EntrySizing \<lparr>es_config = config_of E, es_fill_costs = costs_of E,
        es_base = sleeve_capital (se_ctx E) (sn_equity sn), es_base_source = AllocationSleeve,
        es_strength = ed_strength plan\<rparr>)) = Inr x"
  proof -
    obtain capacity where capacity: "dget (sn_sleeve_capacity sn) (id_item_id ident) = Some capacity"
      using assms(1) by (cases "dget (sn_sleeve_capacity sn) (id_item_id ident)") (simp_all add: item_entry_def)
    from assms(1) capacity obtain b decision where
      bar: "bar_for v s = (Inr b, s)" and ev: "evaluate_entry E b (pv_stepper s) = Inr decision"
      and cap: "capacity = sleeve_capital (se_ctx E) (sn_equity sn)"
      and rest: "(case decision of
           None \<Rightarrow> sret None
         | Some plan \<Rightarrow> (case ed_want plan of
              None \<Rightarrow> sbind (on_stepper (apply_entry E b plan (Some (sn_equity sn)) None)) (\<lambda>_. sret None)
            | Some want \<Rightarrow>
                sbind (smod (\<lambda>s. s\<lparr>pv_pending := Some plan, pv_pending_equity := Some (sn_equity sn)\<rparr>)) (\<lambda>_.
                sbind (slift (form_intent (se_parse E) ident v sn
                  \<lparr>dn_kind = EntryIntent, dn_reason = ''entry_signal'', dn_direction = Some want,
                   dn_evidence = render (ed_detail plan)\<rparr>
                  (Some (EntrySizing \<lparr>es_config = config_of E, es_fill_costs = costs_of E,
                     es_base = sleeve_capital (se_ctx E) (sn_equity sn), es_base_source = AllocationSleeve,
                     es_strength = ed_strength plan\<rparr>)))) (\<lambda>intent. sret (Some intent))))) s
         = (Inr (Some x), s')"
      by (auto simp: item_entry_def sbind_ok_iff Let_def split: if_splits dest: bar_for_ok)
    from rest obtain plan where plan: "decision = Some plan" by (cases decision) auto
    from rest plan obtain want where want: "ed_want plan = Some want" by (cases "ed_want plan") (auto simp: sbind_ok_iff)
    show thesis
      using rest plan want bar ev capacity cap by (intro that [of b plan want]) (auto simp: sbind_ok_iff)
  qed
  have b: "b = last (tv_bars v)" "tv_bars v \<noteq> []"
    using bar assms(2) by (auto simp: bar_for_def sbind_ok_iff split: option.splits if_splits)
  note build = build_intent_fields [OF form_intent_fields(1) [OF form]]
  have price: "fst (price_for v) = Some (br_close b)" using b by (simp add: price_for_def)
  have "entry_size (se_parse E) (Some want) (Some (br_close b)) \<lparr>es_config = config_of E, es_fill_costs = costs_of E,
      es_base = sleeve_capital (se_ctx E) (sn_equity sn), es_base_source = AllocationSleeve,
      es_strength = ed_strength plan\<rparr> = Inr (it_desired_size x, it_effective_price x)"
    using build(9) by (simp add: price sized_def mandatory_kinds_def)
  then show ?thesis
    using entry_effects [OF ev(1)] ev(2) s' b cap build(1,6) assms(2)
    by (auto simp: described_def entry_size_def rbind_Inr_iff price_of_def it_item_id_def eq_commute [of "Some _" "it_effective_price x"]
        split: if_splits)
qed

text \<open>C6. Whatever the arbitration grants to an entry of an engine participant, the participant books in
  full: with the intent formed at the bar the tick was carried to, and the snapshot and the report of that
  tick, its settlement leaves it with the direction and the units of the decision; the only failure left is
  that the commission of the fill cannot be represented. In particular the comparison with the pool at the
  end of the settlement never fails.\<close>

theorem granted_entries_are_booked:
  assumes "build_engine_participant render E ident batches instrument = Inr p"
    and "publish_snapshot H t l0 = (Inr sn, l)" "dget (lg_positions l0) (id_item_id ident) = None"
    and "pv_current s = Some (last (tv_bars v))"
    and "pt_entry p v sn None w = (Inr (Some x), w')" "w (id_item_id ident) = s"
    and "arbitrate Hr l sn xs pr policy mps me = Inr r" "x \<in> set xs"
    and "d \<in> set (rp_decisions r)" "ad_item_id d = id_item_id ident" "is_granted d"
  shows "(\<exists>w2. pt_settle p v d w' = (Inr (), w2) \<and>
       item_stance (w2 (id_item_id ident)) = Some (text_or_empty (ad_direction d), ad_granted_units d)) \<or>
    fst (pt_settle p v d w') = Inl InvalidOperation \<and> 0 < fc_commission (costs_of E)"
proof -
  let ?i = "id_item_id ident" and ?b = "last (tv_bars v)"
  from assms(1) have shape: "engine_shape E"
    and p: "pt_entry p = (\<lambda>v sn h. on_slot ?i (item_entry render E ident v sn h))"
      "pt_settle p = (\<lambda>v d. on_slot ?i (item_settle E v d))"
    by (auto simp: build_engine_participant_def engine_hooks_def Let_def supported_shape split: if_splits)
  from assms(5,6) obtain s' where e: "item_entry render E ident v sn None s = (Inr (Some x), s')" "w' ?i = s'"
    by (auto simp: p(1) on_slot_ok)
  note x = item_entry_describes [OF e(1) assms(4)]
  have adm: "is_admitted d" "0 < ad_granted_units d" using assms(11) by (simp_all add: is_granted_def)
  from report_resolved [OF assms(7,9) adm(1)] obtain y where y: "y \<in> set xs" "resolved_from l sn y d" by blast
  have "distinct (map it_item_id xs)" using assms(7) by (rule arbitrate_Inr) (simp add: validate_iff)
  then have "y = x" using y assms(8,10) x by (auto simp: distinct_map inj_on_def resolved_from_def)
  with y(2) adm obtain sleeve where g: "ad_direction d = it_direction x" "ad_granted_units d \<le> it_desired_size x"
    "0 < price_of x" "is_ok (money (dmul (ad_granted_units d) (price_of x)))"
    "remaining_sleeve_capacity sn ?i = Inr sleeve" "allows (price_of x) sleeve (ad_granted_units d)"
    using x by (auto simp: resolved_from_def)
  have "dget (sn_deployed_notional sn) ?i = Some n \<Longrightarrow> n = 0" for n
    using assms(2,3) build_snapshot_fields(5)
    by (fastforce simp: publish_snapshot_run deployed_notional_def split: sum.splits dest!: dget_in)
  with g(5) x have "sleeve = max 0 (dsub (sleeve_capital (se_ctx E) (sn_equity sn)) 0)"
    by (auto simp: remaining_sleeve_capacity_def split: option.splits)
  with g x have all: "\<And>eq. pv_pending_equity s' = Some eq \<Longrightarrow>
      allows (price_of x) (max 0 (dsub (sleeve_capital (se_ctx E) eq) 0)) (ad_granted_units d)" by simp
  have run: "fst (item_settle E v d s') = Inr () \<or>
      (fst (item_settle E v d s') = Inl InvalidOperation \<and> 0 < fc_commission (costs_of E))"
    by (rule settle_runs [OF shape conjunct1 [OF x] _ refl g(1) adm(2) g(2) all g(3,4)]) (use x in simp)
  obtain out s2 where o2: "item_settle E v d s' = (out, s2)" by fastforce
  show ?thesis
    using run o2 e(2) item_settle_stance [of E v d s' _ s2]
    by (auto simp: p(2) on_slot_def)
qed

end
