(* ===== verification/Shared_Finish.thy ===== *)
theory Shared_Finish
  imports Shared_Agreement
begin

text \<open>
  The end of the data on a shared run of engine participants. An item that holds a position has seen a
  bar, so its final close does close it and reports the event; an item that is flat reports nothing, and
  the pool holds nothing for it either.
\<close>

section \<open>A stepper that has seen a bar\<close>

definition seen_bar :: "'v stepper \<Rightarrow> bool" where
  "seen_bar s \<longleftrightarrow> st_last_bar s \<noteq> None"

lemma seen_mod: "(\<And>s. st_last_bar (f s) = st_last_bar s) \<Longrightarrow> unseen seen_bar (smod f)"
  by (simp add: unseen_def st_run seen_bar_def)

lemma seen_basic: "unseen seen_bar (bump k)" "unseen seen_bar (emit ty t d det)" "unseen seen_bar (set_block_reason r)"
  unfolding bump_def emit_def set_block_reason_def by (rule seen_mod, simp)+

lemma seen_on: "unseen seen_bar (on_led m)" "unseen seen_bar (on_held n)"
  by (auto simp: unseen_def on_led_def on_held_def seen_bar_def Let_def split: option.splits prod.splits)

lemmas seen_rules = unseen_bind seen_basic seen_on unseen_basic unseen_if unseen_option unseen_prod seen_mod

lemma seen_closes: "unseen seen_bar (close_held E t x r f)" "unseen seen_bar (held_aftermath E x)"
  "unseen seen_bar (close_signal E t x r)" "unseen seen_bar (close_all E t x r)"
  "unseen seen_bar (emit_stop_resolution E out t d)" "unseen seen_bar (close_on_stop E b p out)"
  unfolding close_held_def held_aftermath_def close_signal_def close_all_def emit_stop_resolution_def close_on_stop_def
  by (intro seen_rules; simp)+

lemma unseen_held:
  "(\<And>x y. unseen v (a x y)) \<Longrightarrow> (\<And>x. unseen v (b x)) \<Longrightarrow> (\<And>x y. unseen v (c x y)) \<Longrightarrow> unseen v d \<Longrightarrow>
   unseen v e \<Longrightarrow> unseen v (case dec of StopExitCollision x y \<Rightarrow> a x y | StopHit x \<Rightarrow> b x
     | TouchExit x y \<Rightarrow> c x y | ExitNow \<Rightarrow> d | HoldOn \<Rightarrow> e)"
  "unseen v k \<Longrightarrow> unseen v l \<Longrightarrow> unseen v m \<Longrightarrow> unseen v n \<Longrightarrow>
   unseen v (case f of Immediate \<Rightarrow> k | NextOpen \<Rightarrow> l | NextClose \<Rightarrow> m | Touch \<Rightarrow> n)"
  by (cases dec, simp_all) (cases f, simp_all)

lemma seen_apply_held: "unseen seen_bar (apply_held E b decision)"
  unfolding apply_held_def exit_scheduled_def by (intro unseen_held seen_rules seen_closes; simp)

lemma seen_evaluate_held: "unseen seen_bar (evaluate_held E b)"
  unfolding evaluate_held_def by (intro seen_rules; simp)

lemma seen_gates: "unseen seen_bar (entry_planned_size E d x m)" "unseen seen_bar (conflict_gate E d b)"
  "unseen seen_bar (exposure_gate E b e z)" "unseen seen_bar (charge_entry E p)"
  unfolding entry_planned_size_def conflict_gate_def exposure_gate_def portfolio_headroom_def charge_entry_def deduct_def
  by (intro seen_rules; simp)+

lemma seen_open: "unseen seen_bar (do_open E d b x deferred m ov ex)"
  unfolding do_open_def open_position_run_def open_filled_def open_blocked_def Let_def
  by (intro seen_rules seen_gates; simp)

lemma seen_book_effects: "unseen seen_bar (book_effects b es)"
proof (induction es)
  case Nil
  show ?case by (simp add: unseen_basic)
next
  case (Cons e es)
  show ?case unfolding book_effects.simps by (intro seen_rules Cons.IH)
qed

lemma seen_place_entry: "unseen seen_bar (place_entry E b plan ov)"
  unfolding place_entry_def place_limit_def place_stop_def place_touch_def schedule_entry_def Let_def
  by (intro seen_rules seen_book_effects seen_open; simp)

lemma seen_apply_entry: "unseen seen_bar (apply_entry E b plan eq ov)"
proof -
  have "seen_bar (snd (place_entry E b plan ov s)) = seen_bar s" for s
    using seen_place_entry [of E b plan ov] by (simp add: unseen_def)
  then show ?thesis by (simp add: unseen_def apply_entry_def case_prod_beta seen_bar_def)
qed

lemma seen_book_carry: "unseen seen_bar (Stepper.book_carry E b p)"
proof -
  have "unseen seen_bar (book_charges E b q cs)" for q cs
  proof (induction cs)
    case Nil
    show ?case by (simp add: unseen_basic)
  next
    case (Cons c cs)
    show ?case unfolding book_charges.simps charge_funding_def by (intro seen_rules Cons.IH; simp)
  qed
  then show ?thesis unfolding Stepper.book_carry_def by (intro seen_rules; simp)
qed

lemma seen_finalize: "unseen seen_bar (finalize_run E)"
  unfolding finalize_run_def finalize_limit_def finalize_stop_def finalize_position_def cancel_limit_def
  by (intro seen_rules seen_closes; simp)

lemma admit_sees: "steps seen_bar t (phase_admit E b) (\<lambda>_ u. u = True)"
proof -
  have "unseen seen_bar (read_bar_ticks E b)" "unseen seen_bar (roll_day E b)" "unseen seen_bar (read_signals E b)"
    "unseen seen_bar (flat_collision E b)"
    unfolding read_bar_ticks_def roll_day_def read_signals_def flat_collision_def Let_def
    by (intro seen_rules; simp split: option.splits)+
  then show ?thesis unfolding phase_admit_def
    by (intro steps_bind_eq [OF steps_mod] steps_skip [where m = "read_bar_ticks E b"] steps_skip [where m = "roll_day E b"]
        steps_skip [where m = "read_signals E b"] steps_skip [where m = "smod f" for f] steps_last seen_mod)
      (simp_all add: seen_bar_def)
qed

lemma admit_bars_sees: "steps seen_bar t (admit_bars E bs) (\<lambda>_ u. u = (t \<or> bs \<noteq> []))"
proof (induction bs arbitrary: t)
  case Nil
  show ?case by (simp add: steps_ret)
next
  case (Cons b bs)
  show ?case unfolding admit_bars.simps by (rule steps_bind_eq [OF admit_sees]) (use Cons.IH [of True] in simp)
qed

text \<open>The final close of a stepper: what it leaves alone, or a trade.\<close>

lemma finalize_lot: "steps lot t (finalize_run E) (\<lambda>_. still_or_traded t)"
proof -
  have orders: "unseen lot (finalize_limit b)" "unseen lot (finalize_stop E b)" for b
    unfolding finalize_limit_def finalize_stop_def cancel_limit_def by (intro lot_rules; simp add: lot_def)+
  show ?thesis unfolding finalize_run_def finalize_position_def
    by (intro steps_get steps_option steps_ret steps_if steps_skip [OF orders(1)] steps_skip [OF orders(2)]
        steps_weaken [OF close_lot(2)]; simp)
qed

section \<open>What every hook keeps, a tick keeps\<close>

abbreviation kept :: "('w \<Rightarrow> bool) \<Rightarrow> ('w run_context, 'a) st \<Rightarrow> bool" where
  "kept P m \<equiv> steps (\<lambda>c. P (rc_world c)) True m (\<lambda>_ u. u = True)"

abbreviation stays :: "('s \<Rightarrow> bool) \<Rightarrow> ('s, 'a) st \<Rightarrow> bool" where
  "stays P m \<equiv> steps P True m (\<lambda>_ u. u = True)"

definition hooks_keep :: "('w \<Rightarrow> bool) \<Rightarrow> 'w run_setup \<Rightarrow> bool" where
  "hooks_keep P su \<longleftrightarrow> (\<forall>i p v. dget (su_by_item su) i = Some p \<longrightarrow>
     stays P (pt_carry p v) \<and> (\<forall>h. stays P (pt_mandatory_exit p v h)) \<and>
     (\<forall>s h. stays P (pt_entry p v s h)) \<and> (\<forall>d. stays P (pt_settle p v d)))"

lemma kept_world: "stays P m \<Longrightarrow> kept P (on_world m)"
  by (auto simp: steps_def on_world_def split: prod.splits)

lemma kept_ledger: "unseen (\<lambda>c. P (rc_world c)) (on_ledger m)"
  by (auto simp: unseen_def on_ledger_def split: prod.splits)

lemma kept_booking: "unseen (\<lambda>c. P (rc_world c)) (Portfolio_Engine.book_carry i ch)"
  "unseen (\<lambda>c. P (rc_world c)) (held_position i)" "unseen (\<lambda>c. P (rc_world c)) (close_and_book i x)"
  unfolding Portfolio_Engine.book_carry_def held_position_def close_and_book_def
  by (intro unseen_option unseen_bind unseen_if unseen_basic kept_ledger)+

lemma phase_1_kept:
  assumes hooks: "hooks_keep P su"
  shows "kept P (phase_1_carry su vs stamp)"
proof (induction vs arbitrary: stamp)
  case Nil
  show ?case by (simp add: steps_ret)
next
  case (Cons v vs)
  show ?case unfolding phase_1_carry.simps
    by (intro steps_if Cons.IH steps_lift steps_bind_eq [OF kept_world] steps_skip [OF kept_booking(1)])
      (use hooks in \<open>simp_all add: hooks_keep_def dict_item_ok\<close>)
qed

lemma exit_of_kept:
  assumes hooks: "hooks_keep P su"
  shows "kept P (exit_of su v)"
  unfolding exit_of_def
  by (intro steps_if steps_lift steps_ret steps_option steps_bind_eq [OF kept_world] steps_skip [OF kept_booking(2)]
      steps_skip [OF kept_booking(3)])
    (use hooks in \<open>simp_all add: hooks_keep_def dict_item_ok\<close>)

lemma phase_3_kept:
  assumes hooks: "hooks_keep P su"
  shows "kept P (phase_3_mandatory su vs)"
proof (induction vs)
  case Nil
  show ?case by (simp add: steps_ret)
next
  case (Cons v vs)
  show ?case unfolding phase_3_mandatory.simps
    by (intro steps_bind_eq [OF exit_of_kept [OF hooks]] steps_bind_eq [OF Cons.IH] steps_prod steps_ret) simp
qed

lemma intent_of_kept:
  assumes hooks: "hooks_keep P su"
  shows "kept P (intent_of su s v)"
  unfolding intent_of_def
  by (intro steps_if steps_lift steps_ret steps_option steps_bind_eq [OF kept_world] steps_skip [OF kept_booking(2)]
      steps_skip [where m = "if b then m else n" for b m n] unseen_if unseen_bind unseen_basic unseen_mod)
    (use hooks in \<open>simp_all add: hooks_keep_def dict_item_ok\<close>)

lemma phase_4_kept:
  assumes hooks: "hooks_keep P su"
  shows "kept P (phase_4_intents su s vs)"
proof (induction vs)
  case Nil
  show ?case by (simp add: steps_ret)
next
  case (Cons v vs)
  show ?case unfolding phase_4_intents.simps
    by (intro steps_bind_eq [OF intent_of_kept [OF hooks]] steps_bind_eq [OF Cons.IH] steps_ret) simp
qed

lemma apply_decision_kept:
  assumes hooks: "hooks_keep P su"
  shows "kept P (apply_decision su views d)"
proof -
  have price: "unseen (\<lambda>c. P (rc_world c)) (sbind sget (\<lambda>c. slift (dict_item (rc_prices c) i)))" for i
    by (intro unseen_bind unseen_basic)
  show ?thesis unfolding apply_decision_def
    by (intro steps_if steps_lift steps_ret steps_throw steps_skip [OF price] steps_skip [OF kept_ledger] kept_world)
      (use hooks in \<open>simp_all add: hooks_keep_def dict_item_ok\<close>)
qed

lemma apply_decisions_kept:
  assumes hooks: "hooks_keep P su"
  shows "kept P (apply_decisions su views ds)"
proof (induction ds)
  case Nil
  show ?case by (simp add: steps_ret)
next
  case (Cons d ds)
  show ?case unfolding apply_decisions.simps by (intro steps_bind_eq [OF apply_decision_kept [OF hooks]] Cons.IH)
qed

lemma run_tick_kept:
  assumes hooks: "hooks_keep P su"
  shows "kept P (run_tick su k)"
proof -
  have pure: "unseen (\<lambda>c. P (rc_world c)) (arbitrate_tick su s xs)"
    "unseen (\<lambda>c. P (rc_world c)) (sbind sget (\<lambda>c. slift (valuation (rc_ledger c) t ms)))" for s xs t ms
    unfolding arbitrate_tick_def by (intro unseen_bind unseen_basic)+
  have clear: "unseen (\<lambda>c. P (rc_world c)) (smod (\<lambda>c. c\<lparr>rc_prices := []\<rparr>))" by (simp add: unseen_mod)
  have seven: "kept P (phase_7_apply su k r)" for r
    unfolding phase_7_apply_def by (intro steps_skip [OF kept_ledger] apply_decisions_kept [OF hooks])
  show ?thesis unfolding run_tick_def
    by (intro steps_bind_eq [OF phase_1_kept [OF hooks]] steps_bind_eq [OF phase_3_kept [OF hooks]] steps_prod steps_skip [OF kept_ledger]
        steps_skip [OF pure(1)] steps_skip [OF pure(2)] steps_skip [OF clear] steps_bind_eq [OF phase_4_kept [OF hooks]]
        steps_bind_eq [OF seven] steps_ret) simp
qed

lemma ticks_run_kept:
  assumes hooks: "hooks_keep P su"
  shows "ticks_run su ks c ts c' \<Longrightarrow> P (rc_world c) \<Longrightarrow> P (rc_world c')"
proof (induction ks arbitrary: c ts)
  case Nil
  then show ?case by (cases ts) auto
next
  case (Cons k ks)
  then obtain t ts1 c1 where one: "run_tick su k c = (Inr t, c1)" and rest: "ticks_run su ks c1 ts1 c'"
    by (cases ts) auto
  have "P (rc_world c1)" using run_tick_kept [OF hooks] one Cons.prems(2) unfolding steps_def by blast
  with Cons.IH [OF rest] show ?case .
qed

section \<open>The slots\<close>

definition dated :: "'v slot \<Rightarrow> bool" where
  "dated s \<longleftrightarrow> (pv_current s \<noteq> None \<or> item_stance s \<noteq> None \<longrightarrow> seen_bar (pv_stepper s))"

definition all_dated :: "'v slots \<Rightarrow> bool" where
  "all_dated w \<longleftrightarrow> (\<forall>i. dated (w i))"

definition dial :: "'v slot \<Rightarrow> bool \<times> bool" where
  "dial s = (pv_current s \<noteq> None, seen_bar (pv_stepper s))"

lemma on_slot_dated: "stays dated m \<Longrightarrow> stays all_dated (on_slot i m)"
  unfolding steps_def all_dated_def on_slot_ok by (auto, metis)

lemma dial_on_stepper: "unseen seen_bar m \<Longrightarrow> unseen dial (on_stepper m)"
  by (simp add: unseen_def on_stepper_def dial_def Let_def case_prod_beta)

lemma dial_bar_for: "unseen dial (bar_for v)"
  unfolding bar_for_def by (intro unseen_bind unseen_basic unseen_option unseen_if)

lemma dial_pending: "unseen dial (smod (\<lambda>s. s\<lparr>pv_pending := x, pv_pending_equity := y\<rparr>))"
  by (simp add: unseen_def st_run dial_def)

lemmas dial_parts = dial_bar_for dial_pending

lemma dial_closed_by: "unseen seen_bar m \<Longrightarrow> unseen dial (closed_by E m)"
  unfolding closed_by_def measured_def Let_def
  by (intro unseen_bind unseen_basic unseen_if unseen_option unseen_prod dial_on_stepper)

lemma stays_dated:
  assumes "unseen dial m"
    and "\<And>s x s'. m s = (Inr x, s') \<Longrightarrow> item_stance s' \<noteq> None \<Longrightarrow> item_stance s \<noteq> None \<or> pv_current s \<noteq> None"
  shows "stays dated m"
proof -
  have "dated s'" if "dated s" "m s = (Inr x, s')" for s x s'
  proof -
    have "dial s' = dial s" using assms(1) that(2) unfolding unseen_def by (metis snd_conv)
    with that assms(2) [OF that(2)] show ?thesis unfolding dated_def dial_def by auto
  qed
  then show ?thesis by (auto simp: steps_def)
qed

lemma exit_dated: "stays dated (item_mandatory_exit E v h)"
proof (rule stays_dated)
  show "unseen dial (item_mandatory_exit E v h)" unfolding item_mandatory_exit_def
    by (intro unseen_bind unseen_option unseen_basic dial_parts dial_on_stepper dial_closed_by seen_evaluate_held
        seen_apply_held)
qed (auto dest!: item_exit_stance split: if_splits simp del: not_None_eq)

lemma entry_dated: "stays dated (item_entry render E ident v sn h)"
proof (rule stays_dated)
  show "unseen dial (item_entry render E ident v sn h)" unfolding item_entry_def Let_def
    by (intro unseen_bind unseen_option unseen_basic unseen_if dial_parts dial_on_stepper seen_apply_entry)
qed (auto dest!: item_entry_still simp del: not_None_eq)

lemma bar_for_current: "bar_for v s = (Inr b, s') \<Longrightarrow> pv_current s \<noteq> None"
  by (auto simp: bar_for_def sbind_ok_iff split: option.splits)

lemma settle_dated: "stays dated (item_settle E v d)"
proof (rule stays_dated)
  show "unseen dial (item_settle E v d)" unfolding item_settle_def
    by (intro unseen_bind unseen_option unseen_basic unseen_if dial_parts dial_on_stepper seen_apply_entry)
qed (auto simp: item_settle_def sbind_ok_iff dest!: bar_for_current split: option.splits)

lemma carry_dated: "stays dated (item_carry E v)"
proof -
  let ?v = "\<lambda>s. seen_bar (pv_stepper s)"
  have book: "unseen ?v (measured (Stepper.book_carry E b p))" for b p
    unfolding measured_def Let_def
    by (intro unseen_bind unseen_basic) (use dial_on_stepper [OF seen_book_carry] in \<open>auto simp: unseen_def dial_def\<close>)
  have bars: "steps ?v t (on_stepper (admit_bars E bs)) (\<lambda>_ u. u = (t \<or> bs \<noteq> []))" for t bs
    using admit_bars_sees [where t = t and E = E and bs = bs] by (auto simp: steps_def on_stepper_ok)
  have "steps ?v t (item_carry E v) (\<lambda>_ u. u = True)" for t
    unfolding item_carry_def Let_def
    by (intro steps_bind_eq [OF bars] steps_if steps_throw steps_get steps_lift steps_option steps_ret steps_prod
        steps_skip [OF book] steps_skip [where m = "smod f" for f] unseen_mod) simp_all
  then show ?thesis unfolding steps_def dated_def by blast
qed

lemma engine_hooks_keep: "engine_items su \<Longrightarrow> hooks_keep all_dated su"
  unfolding hooks_keep_def
  by (intro allI impI, rule engine_hook, assumption+, simp only:,
      intro conjI allI on_slot_dated carry_dated exit_dated entry_dated settle_dated)

section \<open>The final close of an item\<close>

lemma item_finalize_stance:
  assumes "item_finalize E v s = (Inr r, s')" "dated s"
  shows "item_stance s' = None" "item_stance s \<noteq> None \<Longrightarrow> r \<noteq> None" "dated s'"
proof -
  obtain paid rows where m: "measured (finalize_run E) s = (Inr (paid, rows), s')"
    using assms(1)
    by (auto simp: item_finalize_def closed_by_def sbind_ok_iff Let_def split: option.splits if_splits prod.splits)
  obtain t where t: "finalize_run E (pv_stepper s) = (Inr (), t)" "s' = s\<lparr>pv_stepper := t\<rparr>"
    using measured_ok(1) [OF m] by (auto simp: on_stepper_ok)
  obtain l x y z where r: "remains (pv_stepper s) = (l, x, y, z)" by (metis prod_cases4)
  have "if l = None then remains t = (l, x, y, z) else remains t = (l, False, False, False)"
    using stepsD [OF finalize_run_clears [of l x y z E, folded r] t(1)] r by simp
  with r assms(2) have gone: "st_position t = None"
    by (auto simp: remains_def dated_def seen_bar_def item_stance_def held_by_def split: if_splits)
  then show none: "item_stance s' = None" by (simp add: t(2) item_stance_def held_by_def)
  show "r \<noteq> None" if "item_stance s \<noteq> None"
    using closed_by_stance [OF assms(1) [unfolded item_finalize_def] finalize_lot that] none that by (auto split: if_splits)
  have "dial s' = dial s"
    using dial_closed_by [OF seen_finalize] assms(1) unfolding item_finalize_def unseen_def by (metis snd_conv)
  with assms(2) none show "dated s'" by (auto simp: dated_def dial_def)
qed

section \<open>The final close in the pool\<close>

definition engine_item :: "string \<Rightarrow> 'v slots participant \<Rightarrow> bool" where
  "engine_item i p \<longleftrightarrow> (\<exists>render E ident batches instrument.
     build_engine_participant render E ident batches instrument = Inr p \<and> id_item_id ident = i)"

lemma final_close_flattens:
  fixes ip :: "string \<times> 'v slots participant"
  assumes "engine_item (fst ip) (snd ip)" "final_close ip lv c = (Inr b, c')" "in_step c" "all_dated (rc_world c)"
  shows "in_step c' \<and> all_dated (rc_world c') \<and> (\<forall>k. pool_stance (rc_ledger c') k =
    (if k = fst ip \<and> lv \<noteq> None then None else pool_stance (rc_ledger c) k))"
proof (cases lv)
  case None
  with assms(2) have "c' = c" by (simp add: final_close_def)
  with assms(3,4) None show ?thesis by simp
next
  case (Some v)
  let ?i = "fst ip"
  from assms(1) obtain render E ident batches instrument where
    built: "build_engine_participant render E ident batches instrument = Inr (snd ip)" "id_item_id ident = ?i"
    by (auto simp: engine_item_def)
  have "snd ip = engine_hooks render E ident
      \<lparr>bs_item_id = ?i, bs_pin_ordinal = id_pin_ordinal ident, bs_batches = batches\<rparr> instrument"
    using built by (simp add: build_engine_participant_def split: if_splits)
  then have E: "pt_finalize (snd ip) = (\<lambda>v. on_slot ?i (item_finalize E v))"
    using built(2) by (simp add: engine_hooks_def Let_def)
  from assms(2) Some obtain r s where hook: "item_finalize E v (rc_world c ?i) = (Inr r, s)"
    and rest: "case r of None \<Rightarrow> c' = c\<lparr>rc_world := (rc_world c)(?i := s)\<rparr>
      | Some x \<Rightarrow> (case dget (lg_positions (rc_ledger c)) ?i of
          None \<Rightarrow> c' = c\<lparr>rc_world := (rc_world c)(?i := s)\<rparr>
        | Some h \<Rightarrow> \<exists>b. close_and_book ?i x (c\<lparr>rc_world := (rc_world c)(?i := s)\<rparr>) = (Inr b, c'))"
    by (auto simp: final_close_def call_ok E on_slot_ok split: option.splits)
  have "dated (rc_world c ?i)" using assms(4) by (simp add: all_dated_def)
  note s = item_finalize_stance [OF hook this]
  have pool: "pool_stance (rc_ledger c) ?i = item_stance (rc_world c ?i)" using assms(3) by (simp add: in_step_def)
  have flat: "pool_stance (rc_ledger c) ?i = None" if "r = None"
    using s(2) pool that by (cases "item_stance (rc_world c ?i)") auto
  have out: "rc_world c' = (rc_world c)(?i := s) \<and>
      pool_stance (rc_ledger c') k = (if k = ?i then None else pool_stance (rc_ledger c) k)" for k
  proof (cases "r = None \<or> dget (lg_positions (rc_ledger c)) ?i = None")
    case True
    then have "c' = c\<lparr>rc_world := (rc_world c)(?i := s)\<rparr>" using rest by (auto split: option.splits)
    then show ?thesis using True flat by (auto simp: pool_stance_def)
  next
    case False
    with rest obtain x b where "close_and_book ?i x (c\<lparr>rc_world := (rc_world c)(?i := s)\<rparr>) = (Inr b, c')" by auto
    from close_and_book_stance [OF this] show ?thesis by simp
  qed
  then have world: "rc_world c' = (rc_world c)(?i := s)"
    and ledger: "\<And>k. pool_stance (rc_ledger c') k = (if k = ?i then None else pool_stance (rc_ledger c) k)"
    by simp_all
  show ?thesis using assms(3,4) s(1,3) Some unfolding in_step_def all_dated_def world by (simp add: ledger)
qed

lemma final_closes_flatten:
  fixes ips :: "(string \<times> 'v slots participant) list"
  assumes "\<forall>ip \<in> set ips. engine_item (fst ip) (snd ip)"
  shows "final_closes ips lv c = (Inr bs, c') \<Longrightarrow> in_step c \<Longrightarrow> all_dated (rc_world c) \<Longrightarrow>
    pool_stance (rc_ledger c') k \<noteq> None \<Longrightarrow>
    pool_stance (rc_ledger c) k \<noteq> None \<and> \<not> (k \<in> fst ` set ips \<and> dget lv k \<noteq> None)"
  using assms
proof (induction ips arbitrary: c bs)
  case Nil
  then show ?case by simp
next
  case (Cons ip ips)
  from Cons.prems(1) obtain b c1 zs where one: "final_close ip (dget lv (fst ip)) c = (Inr b, c1)"
    and rest: "final_closes ips lv c1 = (Inr zs, c')" by (auto simp: sbind_ok_iff)
  have "engine_item (fst ip) (snd ip)" using Cons.prems(5) by simp
  note first = final_close_flattens [OF this one Cons.prems(2,3)]
  have "pool_stance (rc_ledger c1) k \<noteq> None \<and> \<not> (k \<in> fst ` set ips \<and> dget lv k \<noteq> None)"
    by (rule Cons.IH [OF rest]) (use first Cons.prems(4,5) in simp_all)
  with first show ?case by (auto split: if_splits)
qed

lemma dict_of_items_keys: "(i, p) \<in> set (dict_of_items ps) \<Longrightarrow> i = participant_id p"
proof -
  have "(i, p) \<in> set (foldl (\<lambda>d p. dset (participant_id p) p d) d ps) \<Longrightarrow> i = participant_id p \<or> (i, p) \<in> set d" for d
    by (induction ps arbitrary: d) (auto dest: dset_set)
  from this [of "[]"] show "(i, p) \<in> set (dict_of_items ps) \<Longrightarrow> i = participant_id p"
    by (simp add: dict_of_items_def)
qed

definition built_by_engine :: "'v slots participant \<Rightarrow> bool" where
  "built_by_engine p \<longleftrightarrow> (\<exists>render E ident batches instrument.
     build_engine_participant render E ident batches instrument = Inr p)"

definition new_slot :: "'v slot \<Rightarrow> bool" where
  "new_slot s \<longleftrightarrow> pv_current s = None \<and> held_by s = None"

lemma built_items:
  assumes "prepare_run q ps = Inr (ordered, l)" "\<forall>p \<in> set ps. built_by_engine p"
    and "(i, p) \<in> set (su_by_item (setup_of H Hr parse q ordered))"
  shows "engine_item i p"
proof -
  have "(i, p) \<in> set (dict_of_items ordered)" using assms(3) by (simp add: setup_of_def)
  then have "p \<in> set ps" "i = participant_id p"
    using dict_of_items_values dict_of_items_keys prepared_participants [OF assms(1)] by blast+
  with assms(2) show ?thesis
    by (fastforce simp: built_by_engine_def engine_item_def participant_id_def build_engine_participant_def
        engine_hooks_def Let_def split: if_splits)
qed

text \<open>C17. The end of the data leaves nothing open. A finished run of participants built by
  \<open>build_engine_participant\<close>, each with a slot that has seen no bar and holds nothing yet, holds no
  position in the pool: what an item still holds at the end of the data phase 10 closes on both sides,
  and an item that is flat at that point, whose final close reports nothing, has nothing in the pool
  either.\<close>

theorem finished_run_is_flat:
  fixes ps :: "'v slots participant list"
  assumes "run_portfolio H Hr key parse q ps w = Inr r" "\<forall>p \<in> set ps. built_by_engine p" "\<forall>i. new_slot (w i)"
  shows "lg_positions (pr_ledger r) = []"
proof (rule run_portfolioE [OF assms(1)])
  fix ordered :: "'v slots participant list" and l ks c
  let ?su = "setup_of H Hr parse q ordered" and ?c = "\<lparr>rc_ledger = l, rc_prices = [], rc_world = w\<rparr>"
  assume prep: "prepare_run q ps = Inr (ordered, l)"
    and run: "ticks_run ?su ks ?c (pr_ticks r) c"
    and fin: "finish_run ?su (views_seen ks []) (last_time None ks) (pr_ticks r) c = Inr r"
  from prep obtain pl where l: "l = ledger_init pl" by (rule prepare_ledger)
  then have "accounted ?su [] l" by (simp add: accounted_def ledger_init_def)
  with ticks_run_accounted [OF run, of "[]"] have acc: "accounted ?su (views_seen ks []) (rc_ledger c)" by simp
  note items = built_items [OF prep assms(2)]
  have eng: "engine_items ?su" using items unfolding engine_items_def engine_item_def by (blast dest: dget_in)
  have "in_step ?c" "all_dated w"
    using assms(3) by (simp_all add: in_step_def pool_stance_def l ledger_init_def item_stance_def new_slot_def
        all_dated_def dated_def)
  then have c: "in_step c" "all_dated (rc_world c)"
    using ticks_run_in_step [OF eng run] ticks_run_kept [OF engine_hooks_keep [OF eng] run] by simp_all
  have "dget (lg_positions (pr_ledger r)) i = None" for i
  proof (cases "ks = []")
    case True
    with run have "c = ?c" by (cases "pr_ticks r") auto
    with fin True show ?thesis by (simp add: finish_without_ticks last_time_def l ledger_init_def)
  next
    case False
    with fin have "finish_run ?su (views_seen ks []) (Some (ct_t_ms (last ks))) (pr_ticks r) c = Inr r"
      by (simp add: last_time_def)
    from finish_with_ticks [OF this] obtain c1 pt where closes: "final_closes (su_by_item ?su) (views_seen ks []) c
        = (Inr (pr_final_closes r), c1)" and fold: "fold_tick (ct_t_ms (last ks)) (rc_ledger c1) = (Inr pt, pr_ledger r)"
      by blast
    have "\<forall>ip \<in> set (su_by_item ?su). engine_item (fst ip) (snd ip)" using items by auto
    from final_closes_flatten [OF this closes c, of i] acc have gone: "dget (lg_positions (rc_ledger c1)) i = None"
      unfolding accounted_def dget_key
      by (cases "dget (lg_positions (rc_ledger c1)) i") (auto simp: pool_stance_def)
    have "exec_ledger H (FoldTick (ct_t_ms (last ks))) (rc_ledger c1) = (Inr (), pr_ledger r)"
      using fold by (simp add: void_ok)
    from op_positions [OF this, of i] gone show ?thesis
      by (cases "dget (lg_positions (pr_ledger r)) i") auto
  qed
  then have "dget (lg_positions (pr_ledger r)) = Map.empty" by (rule ext)
  then show ?thesis by simp
qed

end
