(* ===== verification/Shared_Demo.thy ===== *)
theory Shared_Demo
  imports Shared_Grants Shared_Finish Portfolio_Demo Stepper_Demo
begin

text \<open>
  A concrete shared run: the one participant is the buying strategy of \<open>Stepper_Demo\<close>, now
  with half of a pool of 1000 whose reserve is 100. It wants half of its sleeve of 450 at a price of
  100, is granted these 2.25 units, and holds them together with the pool until the end of the data
  closes them on both sides.
\<close>

definition item_env :: "unit stepper_env" where
  "item_env = replay_env\<lparr>se_ctx := demo_run_config\<lparr>rc_config := replay_config, rc_item_share := 50\<rparr>\<rparr>"

lemma item_gates:
  "entry_gates_ok item_env" "size_gates_ok item_env" "plan_active item_env" "\<not> strength_active item_env"
  "entry_sched item_env = Immediate" "\<not> order_is_limit item_env" "\<not> order_is_stop item_env"
  by code_simp+

lemma item_reads:
  "se_rules item_env = None" "se_plan item_env = Some replay_plan" "se_funding item_env = None"
  "sx_restrictions (se_extra item_env) = []" "rc_fill_costs (se_ctx item_env) = demo_fill_costs"
  "sx_direction_mode (se_extra item_env) = LongOnly" "rc_alloc_on (se_ctx item_env)"
  by (simp_all add: item_env_def replay_env_def replay_settings_def demo_run_config_def demo_fill_costs_def)

lemma item_capital_start: "se_initial_capital item_env = 1000"
  by (simp add: item_env_def replay_env_def)

lemma item_shapes: "True \<notin> set (unsupported_shapes item_env)"
  by code_simp

lemma item_sleeve: "sleeve_capital (se_ctx item_env) 1000 = 450"
  by (simp add: item_env_def replay_config_def sizing_eval cong: let_weak_cong)

lemma item_planned: "planned_size (se_parse item_env) (se_ctx item_env) l d 100 1 (Some 1000) = Inr (9/4)"
  by (simp add: item_env_def replay_env_def replay_config_def sizing_eval cong: let_weak_cong)

lemma item_desired: "position_size (se_parse item_env) (config_of item_env) 100 450 1 = Inr (9/4)"
  by (simp add: item_env_def replay_env_def replay_config_def sizing_eval cong: let_weak_cong)

definition shared_render :: "(string, detail) dict \<Rightarrow> (string, intent_value) dict" where
  "shared_render d = []"

definition shared_item :: "unit slots participant" where
  "shared_item = engine_hooks shared_render item_env (run_identity 0) (run_stream 0) (Some ''BTC'')"

lemma shared_item_built:
  "build_engine_participant shared_render item_env (run_identity 0) [[demo_row ''1'' 100]] (Some ''BTC'') = Inr shared_item"
  by (simp add: build_engine_participant_def item_shapes shared_item_def run_stream_def run_identity_def)

definition shared_setup :: "unit slots run_setup" where
  "shared_setup = setup_of (\<lambda>_. ''d'') (\<lambda>_. []) (\<lambda>_. None) run_request [shared_item]"

definition shared_slot :: "unit slot" where
  "shared_slot = \<lparr>pv_stepper = stepper_start item_env () None, pv_current = None, pv_pending = None,
     pv_pending_equity = None\<rparr>"

definition shared_start :: "unit slots run_context" where
  "shared_start = \<lparr>rc_ledger = ledger_init run_plan, rc_prices = [], rc_world = (\<lambda>_. shared_slot)\<rparr>"

lemma shared_setup_reads [simp]:
  "su_digest shared_setup = (\<lambda>_. ''d'')" "su_report_digest shared_setup = (\<lambda>_. [])"
  "su_conflict_policy shared_setup = None" "su_max_position shared_setup = None"
  "su_max_exposure shared_setup = None" "su_by_item shared_setup = [(''a'', shared_item)]"
  "su_profiles shared_setup = run_profiles 0 True"
  by (simp_all add: shared_setup_def setup_of_def run_request_def dict_of_items_def participant_id_def
      shared_item_def engine_hooks_def Let_def run_identity_def run_participant_def)

section \<open>The hooks\<close>

abbreviation shared_bar :: bar where
  "shared_bar \<equiv> demo_axis_bar ''1'' 100"

lemma item_admit:
  assumes "st_cursor s = None"
  shows "phase_admit item_env shared_bar s = (Inr (), s\<lparr>st_bars_seen := st_bars_seen s + 1,
    st_first_ts := (if st_first_ts s = [] then ''1'' else st_first_ts s), st_last_bar := Some shared_bar,
    st_bar_ticks := [], st_trades_before := length (rl_trades (st_led s)), st_bar_date := None,
    st_entry_signal := Some ''long'', st_exit_hit := False, st_scale_signal := None\<rparr>)"
  using assms
  by (simp add: phase_admit_def read_bar_ticks_def roll_day_def read_signals_def flat_collision_def st_simps
      item_reads replay_plan_def demo_axis_bar_def)

definition ready :: "unit slot \<Rightarrow> bool" where
  "ready s \<longleftrightarrow> pv_current s = Some shared_bar \<and> held_by s = None \<and> st_pending (pv_stepper s) = None \<and>
     st_limit (pv_stepper s) = None \<and> st_stop (pv_stepper s) = None \<and> st_entry_signal (pv_stepper s) = Some ''long'' \<and>
     st_last_bar (pv_stepper s) = Some shared_bar \<and> rl_equity (st_led (pv_stepper s)) = 1000 \<and>
     rl_peak (st_led (pv_stepper s)) = 1000"

lemma shared_carry:
  "\<exists>s. item_carry item_env (run_view 0) shared_slot = (Inr None, s) \<and> ready s"
  by (simp add: item_carry_def run_view_def on_stepper_def st_simps item_admit shared_slot_def stepper_start_def
      compute_carry_def item_reads ready_def held_by_def fresh_run_ledger_def item_capital_start Let_def)

definition shared_intent :: item_intent where
  "shared_intent = \<lparr>it_identity = run_identity 0, it_t_ms = 1, it_phase = P4, it_kind = EntryIntent,
     it_direction = Some ''long'', it_desired_size = 9/4, it_reference_price = Some 100,
     it_effective_price = Some 100, it_price_authority = FreshBarClose, it_reason = ''entry_signal'',
     it_contract_version = ''item-intent-v1'', it_evidence = [],
     it_dependencies = [(''root_id'', VNone), (''selected_revision_id'', VNone), (''item_kind'', VText ''strategy''),
       (''contract_version'', VText ''item-intent-v1''), (''sizing_base'', VDec 450),
       (''sizing_base_source'', VSource AllocationSleeve), (''snapshot_identity'', VText ''d''),
       (''snapshot_t_ms'', VInt 1), (''portfolio_equity'', VDec 1000), (''reserve_nominal'', VDec 100),
       (''sleeve_capacity'', VDec 450), (''remaining_sleeve_capacity'', VDec 450)],
     it_diagnostics = view_diagnostics (run_view 0)\<rparr>"

lemma shared_formed:
  "form_intent (se_parse item_env) (run_identity 0) (run_view 0) run_snapshot
     \<lparr>dn_kind = EntryIntent, dn_reason = ''entry_signal'', dn_direction = Some ''long'', dn_evidence = []\<rparr>
     (Some (EntrySizing \<lparr>es_config = config_of item_env, es_fill_costs = demo_fill_costs, es_base = 450,
        es_base_source = AllocationSleeve, es_strength = 1\<rparr>)) = Inr shared_intent"
proof -
  have eff: "effective_fill 100 True (fc_half_spread demo_fill_costs) (fc_slippage demo_fill_costs) = Inr 100"
    by (simp add: demo_fill_costs_def effective_fill_def dec_eval)
  show ?thesis
    by (simp add: form_intent_def build_intent_def price_for_def sized_def entry_size_def eff item_desired
        mandatory_kinds_def actionable_kinds_def is_decision_def snapshot_dependencies_def
        remaining_sleeve_capacity_def run_snapshot_def run_view_def run_identity_def demo_axis_bar_def
        Intents.opt_text_def shared_intent_def dec_eval)
qed

definition shared_plan :: "unit slot \<Rightarrow> entry_decision" where
  "shared_plan s = \<lparr>ed_want = Some ''long'', ed_strength = 1, ed_effects = [],
     ed_detail = [(''rule'', entry_rule_snapshot item_env (pv_stepper s) ''long'')]\<rparr>"

lemma shared_entry:
  assumes "ready s"
  shows "item_entry shared_render item_env (run_identity 0) (run_view 0) run_snapshot None s
     = (Inr (Some shared_intent), s\<lparr>pv_pending := Some (shared_plan s), pv_pending_equity := Some 1000\<rparr>)"
proof -
  have [simp]: "sn_equity run_snapshot = 1000" "dget (sn_sleeve_capacity run_snapshot) ''a'' = Some 450"
    "id_item_id (run_identity 0) = ''a''" "tv_bars (run_view 0) = [shared_bar]"
    by (simp_all add: run_snapshot_def run_identity_def run_view_def)
  show ?thesis using assms shared_formed
    by (simp add: item_entry_def item_sleeve ready_def st_simps bar_for_def evaluate_entry_def item_gates
        wanted_direction_def direction_flags_def item_reads strength_value_def strength_detail_def Let_def shared_render_def shared_plan_def)
qed

definition carrying :: "unit slot \<Rightarrow> bool" where
  "carrying s \<longleftrightarrow> (\<exists>n m. st_position (pv_stepper s) =
       Some (fresh_position item_env n m ''long'' shared_bar 100 100 (9/4) 225)) \<and>
     st_limit (pv_stepper s) = None \<and> st_stop (pv_stepper s) = None \<and>
     st_last_bar (pv_stepper s) = Some shared_bar \<and> rl_equity (st_led (pv_stepper s)) = 1000 \<and>
     rl_peak (st_led (pv_stepper s)) = 1000"

lemma shared_bar_reads: "br_close shared_bar = 100" "br_timestamp shared_bar = ''1''"
  by (simp_all add: demo_axis_bar_def)

lemma entered_reads:
  "ps_direction (fresh_position E n m d b x e z k) = d" "ps_size (fresh_position E n m d b x e z k) = z"
  "ps_entry_notional (fresh_position E n m d b x e z k) = k"
  by (simp_all add: fresh_position_def)

lemma shared_notional: "quantize 2 (dmul 100 (9/4)) = Inr 225"
  by (simp add: dec_eval)

lemma shared_settle:
  assumes "ready s" "ad_direction d = Some ''long''" "ad_granted_units d = 9/4"
  shows "\<exists>s'. item_settle item_env (run_view 0) d
     (s\<lparr>pv_pending := Some (shared_plan s), pv_pending_equity := Some 1000\<rparr>) = (Inr (), s') \<and> carrying s'"
  using assms
  by (simp add: item_settle_def ready_def st_simps bar_for_def run_view_def on_stepper_def apply_entry_def place_entry_def
      item_gates emit_def do_open_def open_position_run_def conflict_gate_def exposure_gate_def portfolio_headroom_def
      entry_planned_size_def item_planned item_reads replay_fill shared_notional open_filled_def charge_entry_def
      held_by_def shared_plan_def Let_def carrying_def emit_event_def entered_reads shared_bar_reads)
    blast

section \<open>The phases of the tick\<close>

lemma shared_hooks [simp]:
  "pt_carry shared_item = (\<lambda>v. on_slot ''a'' (item_carry item_env v))"
  "pt_entry shared_item = (\<lambda>v sn h. on_slot ''a'' (item_entry shared_render item_env (run_identity 0) v sn h))"
  "pt_settle shared_item = (\<lambda>v d. on_slot ''a'' (item_settle item_env v d))"
  by (simp_all add: shared_item_def engine_hooks_def Let_def run_identity_def)

lemma shared_view_reads [simp]:
  "is_decision (run_view 0)" "tv_item_id (run_view 0) = ''a''" "tv_bars (run_view 0) = [shared_bar]"
  "br_timestamp shared_bar = ''1''" "tv_t_ms (run_view 0) = 1" "sn_identity run_snapshot = ''d''"
  by (simp_all add: is_decision_def run_view_def demo_axis_bar_def run_snapshot_def)

lemma shared_validated: "validated_intent shared_intent (run_view 0) run_snapshot = Inr shared_intent"
  "is_actionable shared_intent" "entry_price shared_intent = Inr 100"
  by code_simp+

definition shared_pair :: pairing where
  "shared_pair = (\<lparr>ap_item_id = ''a'', ap_pin_ordinal = 0, ap_instrument_id = Some ''BTC''\<rparr>, shared_intent)"

lemma shared_valid: "validate run_frozen run_snapshot [shared_intent] (run_profiles 0 True) = Inr [shared_pair]"
  by code_simp

lemma shared_screened: "screen run_frozen (run_profiles 0 True) run_policy [shared_pair] [] [] = ([], [shared_pair])"
  by code_simp

lemma shared_capacity:
  "\<exists>d. decide_capacity run_frozen run_snapshot shared_intent 0 None None = Inr (d, False) \<and>
     cd_outcome d = Admitted \<and> cd_granted_units d = 9/4"
  by (simp add: decide_capacity_def shared_intent_def it_item_id_def run_identity_def price_of_def run_frozen_def
      run_snapshot_def run_plan_def capacity_eval cong: let_weak_cong)

lemma shared_report:
  "\<exists>r d. arbitrate (\<lambda>_. []) run_frozen run_snapshot [shared_intent] (run_profiles 0 True) None [] None = Inr r \<and>
     rp_decisions r = [d] \<and> is_granted d \<and> ad_kind d = EntryIntent \<and> ad_item_id d = ''a'' \<and>
     ad_direction d = Some ''long'' \<and> ad_granted_units d = 9/4"
proof -
  obtain d where d: "decide_capacity run_frozen run_snapshot shared_intent 0 None None = Inr (d, False)"
    "cd_outcome d = Admitted" "cd_granted_units d = 9/4" using shared_capacity by blast
  have [simp]: "snd shared_pair = shared_intent" by (simp add: shared_pair_def)
  have [simp]: "it_item_id shared_intent = ''a''" "it_kind shared_intent = EntryIntent"
    "it_direction shared_intent = Some ''long''"
    by (simp_all add: shared_intent_def it_item_id_def run_identity_def)
  show ?thesis using d
    by (simp add: arbitrate_def run_resolved shared_valid shared_screened capacity_result_def
        capacity_outcome_of_def decision_base_def is_granted_def is_admitted_def text_or_empty_def
        del: screen.simps)
qed

definition shared_held :: ledger where
  "shared_held = (ledger_init run_plan)\<lparr>lg_positions := [(''a'', \<lparr>op_item_id = ''a'', op_direction = ''long'',
     op_size = 9/4, op_entry_price = 100, op_notional = 225\<rparr>)]\<rparr>"

lemma shared_opened:
  "\<exists>pos. Portfolio_Ledger.set_position ''a'' ''long'' (9/4) 100 (ledger_init run_plan) = (Inr pos, shared_held)"
  "commit_tick 1 shared_held = (Inr None, shared_held)"
  by (simp_all add: shared_held_def run_plan_def ledger_eval plan_eval dec_eval cong: let_weak_cong)

lemma shared_tick: "\<exists>t c. run_tick shared_setup (run_clock_tick 0) shared_start = (Inr t, c) \<and> rc_ledger c = shared_held \<and>
  carrying (rc_world c ''a'')"
proof -
  obtain s where s: "item_carry item_env (run_view 0) shared_slot = (Inr None, s)" "ready s"
    using shared_carry by blast
  obtain r d where r: "arbitrate (\<lambda>_. []) run_frozen run_snapshot [shared_intent] (run_profiles 0 True) None [] None
      = Inr r" "rp_decisions r = [d]" "is_granted d" "ad_kind d = EntryIntent" "ad_item_id d = ''a''"
      "ad_direction d = Some ''long''" "ad_granted_units d = 9/4" using shared_report by blast
  obtain v where v: "valuation run_frozen 1 (marks_at [run_view 0]) = Inr v" using run_valued by blast
  obtain s' where s': "item_settle item_env (run_view 0) d
     (s\<lparr>pv_pending := Some (shared_plan s), pv_pending_equity := Some 1000\<rparr>) = (Inr (), s')" "carrying s'"
    using shared_settle [OF s(2) r(6,7)] by blast
  obtain pos where pos: "Portfolio_Ledger.set_position ''a'' ''long'' (9/4) 100 (ledger_init run_plan) = (Inr pos, shared_held)"
    using shared_opened(1) by blast
  have [simp]: "ct_views (run_clock_tick 0) = [run_view 0]" "ct_t_ms (run_clock_tick 0) = 1"
    by (simp_all add: run_clock_tick_def)
  have none: "dget (lg_positions (ledger_init run_plan)) i = None" "dget (lg_positions run_frozen) i = None" for i
    by (simp_all add: ledger_init_def run_frozen_def)
  define w where "w = (\<lambda>_. shared_slot)(''a'' := s\<lparr>pv_pending := Some (shared_plan s), pv_pending_equity := Some 1000\<rparr>)"
  have apply_one: "apply_decision shared_setup [(''a'', run_view 0)] d
      \<lparr>rc_ledger = ledger_init run_plan, rc_prices = [(''a'', 100)], rc_world = w\<rparr>
     = (Inr (), \<lparr>rc_ledger = shared_held, rc_prices = [(''a'', 100)], rc_world = w(''a'' := s')\<rparr>)"
    using r(3-6) pos [folded r(7)] s'(1) by (simp add: apply_decision_def st_simps on_ledger_def on_world_def on_slot_def dict_item_def
        text_or_empty_def w_def)
  have carried: "phase_1_carry shared_setup [run_view 0] [] shared_start
      = (Inr ''1'', shared_start\<lparr>rc_world := (\<lambda>_. shared_slot)(''a'' := s)\<rparr>)"
    by (simp add: st_simps on_world_def on_slot_def shared_start_def s(1) Portfolio_Engine.book_carry_def dict_item_def)
  have kept: "phase_3_mandatory shared_setup [run_view 0] c = (Inr ([], []), c)" if "rc_ledger c = ledger_init run_plan" for c
    using that by (simp add: st_simps exit_of_def held_position_def none)
  have formed: "phase_4_intents shared_setup run_snapshot [run_view 0]
      \<lparr>rc_ledger = run_frozen, rc_prices = [], rc_world = (\<lambda>_. shared_slot)(''a'' := s)\<rparr>
     = (Inr [shared_intent], \<lparr>rc_ledger = run_frozen, rc_prices = [(''a'', 100)], rc_world = w\<rparr>)"
    by (simp add: intent_of_def st_simps on_world_def on_slot_def held_position_def none dict_item_def
        shared_entry [OF s(2)] shared_validated w_def)
  show ?thesis
    using r(1,2) v apply_one s'(2)
    by (simp add: run_tick_def st_simps carried [unfolded shared_start_def] kept on_ledger_def shared_start_def run_published formed
        arbitrate_tick_def phase_7_apply_def run_opened shared_opened
        del: phase_1_carry.simps phase_3_mandatory.simps phase_4_intents.simps)
qed

section \<open>The end of the data\<close>

lemma shared_close:
  "effective_fill 100 False 0 0 = Inr 100" "fee demo_fill_costs (dmul 100 (9/4)) = Inr 0"
  "quantize 2 (dsub (dmul (dmul (dsub 100 100) (9/4)) 1) 0) = Inr 0"
  "quantize 2 (dadd 1000 0) = Inr 1000" "quantize 2 (dsub 1000 1000) = Inr 0" "exposure_of 225 1000 = Inr (45/2)"
  "dadd (dneg (dsub 1000 1000)) 0 = 0"
  by (simp_all add: demo_fill_costs_def effective_fill_def fee_def exposure_of_def dec_eval)

lemma recorded_trade: "length (rl_trades (record_trade p t y x z f g h k)) = Suc (length (rl_trades k))"
  "tr_exit_price (last (rl_trades (record_trade p t y x z f g h k))) = y"
  by (simp_all add: record_trade_def Let_def)

lemma shared_end:
  assumes "carrying s"
  shows "\<exists>t. finalize_run item_env (pv_stepper s) = (Inr (), t) \<and> st_position t = None \<and>
    length (rl_trades (st_led t)) = Suc (length (rl_trades (st_led (pv_stepper s)))) \<and>
    rl_equity (st_led t) = 1000 \<and> tr_exit_price (last (rl_trades (st_led t))) = 100"
proof -
  from assms obtain n m where p: "st_position (pv_stepper s) =
       Some (fresh_position item_env n m ''long'' shared_bar 100 100 (9/4) 225)"
     "st_limit (pv_stepper s) = None" "st_stop (pv_stepper s) = None"
     "st_last_bar (pv_stepper s) = Some shared_bar" "rl_equity (st_led (pv_stepper s)) = 1000"
     "rl_peak (st_led (pv_stepper s)) = 1000"
    by (auto simp: carrying_def)
  then show ?thesis
    by (simp add: finalize_run_def finalize_limit_def finalize_stop_def finalize_position_def close_all_def
      close_held_def on_held_def st_simps close_run_position_def fresh_position_def is_long_def item_reads
      demo_costs_reads shared_close shared_notional Let_def booking_reads shared_bar_reads recorded_trade)
qed

lemma shared_finalize:
  assumes "carrying s"
  shows "\<exists>x s'. item_finalize item_env v s = (Inr (Some x), s') \<and> me_gross_pnl x = 0 \<and> me_commission x = 0"
proof -
  obtain t where t: "finalize_run item_env (pv_stepper s) = (Inr (), t)" "st_position t = None"
    "length (rl_trades (st_led t)) = Suc (length (rl_trades (st_led (pv_stepper s))))"
    "rl_equity (st_led t) = 1000" "tr_exit_price (last (rl_trades (st_led t))) = 100"
    using shared_end [OF assms] by blast
  obtain n m where p: "st_position (pv_stepper s) =
       Some (fresh_position item_env n m ''long'' shared_bar 100 100 (9/4) 225)"
     "rl_equity (st_led (pv_stepper s)) = 1000"
    using assms by (auto simp: carrying_def)
  show ?thesis
    by (simp add: item_finalize_def closed_by_def measured_def on_stepper_def held_by_def st_simps Let_def t p
        entered_reads item_reads shared_close)
qed

lemma shared_pool_closed:
  "\<exists>h l l' b z. close_position ''a'' shared_held = (Inr h, l) \<and> book_trade ''a'' 0 0 l = (Inr b, l') \<and>
     fold_tick 1 l' = z \<and> is_ok (fst z)"
  by (simp add: shared_held_def run_plan_def ledger_eval plan_eval dec_eval cong: let_weak_cong)

definition shared_run :: "portfolio_run res" where
  "shared_run = run_portfolio (\<lambda>_. ''d'') (\<lambda>_. []) demo_key (\<lambda>_. None) run_request [shared_item] (\<lambda>_. shared_slot)"

lemma shared_prepared: "prepare_run run_request [shared_item] = Inr ([shared_item], ledger_init run_plan)"
  by (simp add: prepare_run_def ordered_participants_def participant_id_def shared_item_def engine_hooks_def
      run_identity_def run_stream_def run_request_def ledger_for_items_def plan_eval dec_eval run_plan_def
      cong: let_weak_cong)

lemma shared_run_closes:
  "\<exists>r b. shared_run = Inr r \<and> pr_final_closes r = [b] \<and> bk_item_id b = ''a''"
proof -
  obtain t c where t: "run_tick shared_setup (run_clock_tick 0) shared_start = (Inr t, c)" "rc_ledger c = shared_held"
    "carrying (rc_world c ''a'')" using shared_tick by blast
  obtain x s where x: "item_finalize item_env (run_view 0) (rc_world c ''a'') = (Inr (Some x), s)"
    "me_gross_pnl x = 0" "me_commission x = 0" using shared_finalize [OF t(3)] by blast
  obtain h l l' b z where l: "close_position ''a'' shared_held = (Inr h, l)" "book_trade ''a'' 0 0 l = (Inr b, l')"
    "fold_tick 1 l' = z" "is_ok (fst z)" using shared_pool_closed by blast
  then obtain pt l'' where z: "fold_tick 1 l' = (Inr pt, l'')" by (cases z) (auto simp: is_ok_iff)
  have streams: "map pt_stream [shared_item] = map pt_stream [run_participant 0 True]"
    by (simp add: shared_item_def engine_hooks_def run_participant_def Let_def run_stream_def run_identity_def)
  have [simp]: "pt_finalize shared_item = (\<lambda>v. on_slot ''a'' (item_finalize item_env v))"
    by (simp add: shared_item_def engine_hooks_def Let_def run_identity_def)
  obtain hp where [simp]: "dget (lg_positions shared_held) ''a'' = Some hp" by (simp add: shared_held_def)
  have [simp]: "ct_views (run_clock_tick 0) = [run_view 0]" "ct_t_ms (run_clock_tick 0) = 1"
    by (simp_all add: run_clock_tick_def)
  have "shared_run = snd (tick_loop shared_setup [run_clock_tick 0] None [] None [] shared_start)"
    by (simp add: shared_run_def run_portfolio_def iter_portfolio_def shared_prepared shared_setup_def shared_start_def
        streams run_ticks del: list.map)
  then show ?thesis using t(1,2) x l(1,2) z
    by (auto simp: finish_run_def phase_10_finalize_def note_views_def final_close_def st_simps on_world_def
        on_slot_def on_ledger_def held_position_def close_and_book_def)
qed

text \<open>The run to the end of the data: the item closes what it opened, and the pool holds nothing.\<close>

theorem finished_run_is_flat_witness:
  "\<exists>r b. shared_run = Inr r \<and> pr_final_closes r = [b] \<and> lg_positions (pr_ledger r) = []"
proof -
  obtain r b where r: "shared_run = Inr r" "pr_final_closes r = [b]" using shared_run_closes by blast
  have "built_by_engine shared_item" unfolding built_by_engine_def using shared_item_built by blast
  then have "\<forall>p \<in> set [shared_item]. built_by_engine p" by simp
  moreover have "\<forall>i. new_slot ((\<lambda>_. shared_slot) i)"
    by (simp add: new_slot_def shared_slot_def held_by_def stepper_start_def)
  ultimately show ?thesis using finished_run_is_flat [OF r(1) [unfolded shared_run_def]] r by blast
qed


text \<open>The tick, in which the pool opens the position and the item books it.\<close>

theorem pool_and_items_agree_witness:
  "\<exists>ts c. ticks_run shared_setup [run_clock_tick 0] shared_start ts c \<and> in_step c \<and>
     pool_stance (rc_ledger c) ''a'' = Some (''long'', 9/4) \<and> item_stance (rc_world c ''a'') = Some (''long'', 9/4)"
proof -
  obtain t c where t: "run_tick shared_setup (run_clock_tick 0) shared_start = (Inr t, c)" "rc_ledger c = shared_held"
    using shared_tick by blast
  have run: "ticks_run shared_setup [run_clock_tick 0] shared_start [t] c" using t(1) by simp
  have items: "engine_items shared_setup"
    unfolding engine_items_def
  proof (intro allI impI)
    fix i p
    assume "dget (su_by_item shared_setup) i = Some p"
    then have "p = shared_item" "id_item_id (run_identity 0) = i" by (auto simp: run_identity_def split: if_splits)
    with shared_item_built show "\<exists>render E ident batches instrument.
        build_engine_participant render E ident batches instrument = Inr p \<and> id_item_id ident = i" by blast
  qed
  have "in_step shared_start"
    by (simp add: in_step_def pool_stance_def item_stance_def held_by_def shared_start_def ledger_init_def
        shared_slot_def stepper_start_def)
  with items run have c: "in_step c" by (rule pool_and_items_agree)
  have "pool_stance (rc_ledger c) ''a'' = Some (''long'', 9/4)" by (simp add: t(2) pool_stance_def shared_held_def)
  with run c show ?thesis unfolding in_step_def by metis
qed

text \<open>The grant of 2.25 units, booked by the item.\<close>

theorem granted_entries_are_booked_witness:
  "\<exists>s d w w2. item_carry item_env (run_view 0) shared_slot = (Inr None, s) \<and>
     pt_entry shared_item (run_view 0) run_snapshot None (\<lambda>_. s) = (Inr (Some shared_intent), w) \<and>
     is_granted d \<and> pt_settle shared_item (run_view 0) d w = (Inr (), w2) \<and>
     item_stance (w2 ''a'') = Some (''long'', 9/4)"
proof -
  obtain s where s: "item_carry item_env (run_view 0) shared_slot = (Inr None, s)" "ready s"
    using shared_carry by blast
  obtain r d where r: "arbitrate (\<lambda>_. []) run_frozen run_snapshot [shared_intent] (run_profiles 0 True) None [] None
      = Inr r" "rp_decisions r = [d]" "is_granted d" "ad_item_id d = ''a''"
      "ad_direction d = Some ''long''" "ad_granted_units d = 9/4" using shared_report by blast
  have flat: "dget (lg_positions (ledger_init run_plan)) (id_item_id (run_identity 0)) = None"
    by (simp add: ledger_init_def)
  have now: "pv_current s = Some (last (tv_bars (run_view 0)))" using s(2) by (simp add: ready_def)
  have id: "id_item_id (run_identity 0) = ''a''" by (simp add: run_identity_def)
  let ?w = "(\<lambda>_. s)(''a'' := s\<lparr>pv_pending := Some (shared_plan s), pv_pending_equity := Some 1000\<rparr>)"
  have e: "pt_entry shared_item (run_view 0) run_snapshot None (\<lambda>_. s) = (Inr (Some shared_intent), ?w)"
    by (simp add: on_slot_def shared_entry [OF s(2)])
  have free: "\<not> 0 < fc_commission (costs_of item_env)" by (simp add: item_reads demo_fill_costs_def)
  from granted_entries_are_booked [OF shared_item_built run_published flat now e refl r(1), of d] r id free
  obtain w2 where "pt_settle shared_item (run_view 0) d ?w = (Inr (), w2)"
    "item_stance (w2 ''a'') = Some (''long'', 9/4)" by (auto simp: text_or_empty_def)
  with s(1) e r(3) show ?thesis by blast
qed

end
