(* ===== verification/Spec2Isabelle.thy ===== *)
theory Spec2Isabelle
  imports Ledger_Capacity Ledger_Safety Ledger_Books Costs Run_State Strategy_Config Sizing Fills Scaling Booking Rules Clock
    Intents Arbitration Arbitration_Safety Portfolio_Engine Portfolio_Run Portfolio_Safety Portfolio_Demo Lifecycles Idempotency Identity Roles Trash Trash_Safety Allocation Allocation_Safety Capability Dependency_Graph Dependency_Cycles
    Step_Logic Stepper_State Stepper Stepper_Books Stepper_Positions Stepper_Demo Stepper_Safety
    Engine_Participant Shared_Agreement Shared_Grants Shared_Finish Shared_Demo
begin

text \<open>
  Verification library of the Entropia back end's execution and policy core
  (\<^verbatim>\<open>src/backend/src/entropia\<close>; paths below are relative to that directory).

  \<^bold>\<open>The program.\<close> Entropia is a workbench for trading strategies. A user assembles strategies,
  packages and trade logs on a board, gives them shares of one capital pool, freezes that composition
  and runs a backtest over it. Three layers of the program carry logic of their own, and they are what
  is modelled here:

  \<^item> the execution of a run (\<^verbatim>\<open>domain/backtest\<close>): the bar by bar replay of one item, and the phase
    loop that lets several items trade from one pool;
  \<^item> the documents a run is started from (\<^verbatim>\<open>domain/allocation\<close>, the strategy configuration): their
    validation, and how the engine reads them back from a frozen snapshot;
  \<^item> the policy of the surrounding application (\<^verbatim>\<open>application/commands\<close>, \<^verbatim>\<open>domain/identity\<close> and the
    lifecycle modules): who may do what, and which state an object may move to.

  \<^bold>\<open>Correspondence of theories and code.\<close>

  \<^item> \<open>Py_Prelude\<close>: exceptions, results, a state and exception monad whose failing calls keep what
    they mutated, insertion-ordered dictionaries, stable sorting. \<open>Py_Decimal\<close>: \<^verbatim>\<open>decimal.Decimal\<close> under
    the default context, 28 significant digits rounded half-even, \<open>quantize\<close> and its overflow.
    \<open>Py_Json\<close>: parsed JSON documents. \<open>Step_Logic\<close>: the judgements \<open>upholds\<close>, \<open>steps\<close> and \<open>unseen\<close>
    on mutating calls, with one rule for each construct of the monad. \<open>Machine\<close>: the locale
    \<open>lifecycle\<close> of guarded transition tables.
  \<^item> \<open>Portfolio_Ledger\<close>, \<open>Snapshot\<close> (\<^verbatim>\<open>execution/portfolio_ledger.py\<close>, the snapshot in \<^verbatim>\<open>execution/intents.py\<close>): the pool, with every
    public method. \<open>Ledger_Safety\<close>, \<open>Ledger_Capacity\<close> and \<open>Ledger_Books\<close> hold its invariants.
  \<^item> \<open>Costs\<close>, \<open>Sizing\<close>, \<open>Fills\<close>, \<open>Scaling\<close>, \<open>Booking\<close>, \<open>Rules\<close>, \<open>Run_State\<close>
    (\<^verbatim>\<open>execution/costs.py\<close>, \<^verbatim>\<open>sizing.py\<close>, \<^verbatim>\<open>fills.py\<close>, \<^verbatim>\<open>scaling.py\<close>, \<^verbatim>\<open>booking.py\<close>, \<^verbatim>\<open>rules.py\<close>, \<^verbatim>\<open>state.py\<close>
    and \<^verbatim>\<open>funding.py\<close>): the calculations and the books of one item's run. \<open>Strategy_Config\<close>: the part of
    \<^verbatim>\<open>domain/strategy/config.py\<close> they branch on.
  \<^item> \<open>Stepper_State\<close>, \<open>Stepper\<close> (\<^verbatim>\<open>engine.py\<close>): the replay of one item. The variables
    \<^verbatim>\<open>_build_stepper\<close> closes over are the record \<open>stepper\<close>, what it reads only is \<open>stepper_env\<close>, and
    each inner function is a call on that record, down to the details of every journal event.
    \<open>Stepper_Books\<close>, \<open>Stepper_Positions\<close> and \<open>Stepper_Safety\<close> prove what a replay keeps;
    \<open>Stepper_Demo\<close> runs one.
  \<^item> \<open>Clock\<close> (\<^verbatim>\<open>execution/clock.py\<close>), \<open>Intents\<close> (\<^verbatim>\<open>execution/intents.py\<close>), \<open>Arbitration\<close>
    (\<^verbatim>\<open>execution/arbitration.py\<close>) and \<open>Portfolio_Engine\<close> (\<^verbatim>\<open>portfolio_engine.py\<close>): the shared run. The
    clock merges the items' bars into ticks; at each tick the loop carries, closes what must be closed,
    publishes one valuation, collects intents, arbitrates them, applies what was admitted and settles.
    \<open>Arbitration_Safety\<close>, \<open>Portfolio_Run\<close> and \<open>Portfolio_Safety\<close> hold its properties, \<open>Portfolio_Demo\<close>
    a concrete run.
  \<^item> \<open>Engine_Participant\<close> (\<^verbatim>\<open>participant.py\<close>, \<^verbatim>\<open>execution/shared_shapes.py\<close>): the adapter that lets the
    phase loop drive replays. \<open>Shared_Agreement\<close>, \<open>Shared_Grants\<close> and \<open>Shared_Finish\<close> prove that pool
    and items keep the same positions, that every grant is booked and that the end of the data leaves
    nothing open; \<open>Shared_Demo\<close> is a concrete run.
  \<^item> \<open>Allocation\<close>, \<open>Allocation_Safety\<close> (\<^verbatim>\<open>domain/allocation\<close> and the readers of the frozen plan in the
    engine): the shared capital plan from its validation to the ledger it funds.
  \<^item> \<open>Lifecycles\<close>: every guarded transition table of the domain, as interpretations of the locale.
    \<open>Capability\<close>, \<open>Dependency_Graph\<close> with \<open>Dependency_Cycles\<close>, \<open>Identity\<close>, \<open>Idempotency\<close>, \<open>Roles\<close>,
    \<open>Trash\<close> with \<open>Trash_Safety\<close>: the commands of \<^verbatim>\<open>application/commands\<close> over the tables they write,
    each a call on a record of those tables. A command that raises leaves the tables as they were
    before the transaction.

  \<^bold>\<open>What the lemmas show.\<close> Pool: the accounting identity and the attribution by item are exact after
  any successful operations, no grant exceeds what is free, a failing method mutates nothing (with the
  one exception that is a finding). Item: a closed trade moves the equity by exactly its result, sizes
  respect their limits, a reported stop was triggered and fills at the worse of its level and the open, books stay
  numbered and consistent however a replay ends, a replay trades only what its gates and mode admit,
  later bars never rewrite earlier bookings, and a successful replay ends without position or order.
  Shared run: each item holds what the pool holds for it and books what it was granted, the clock
  refines the sorted union of the streams, no two admitted items oppose each other, commitments fit
  the capital, the new entries among the admitted can all be opened, the final ledger is the replay of
  the published ticks and holds no position, and the order of the participants does not matter.
  Documents: a validated plan funds the run it is frozen into. Policy: refinement of the deletion
  table, consistency of the trash, round trip of delete and restore under fresh keys, no purge without
  a proof that is spent with it, an operational Admin always remains, an approved package request ends
  one chain of generation, draft and eligibility (which the table grants without a validation run too), a capability is active only after every gate, a published package closes no
  dependency cycle.

  \<^bold>\<open>Numbers, bounds, termination.\<close> Python's integers are \<open>int\<close> and \<open>nat\<close>. A decimal is the rational it
  denotes, and every operation of the code rounds to 28 digits where the context does; a quantisation
  that needs more digits raises \<open>InvalidOperation\<close>. Sums of money are exact as long as they have two
  decimals and stay below \<open>10 ^ 25\<close> (28 digits less two decimals, less one for the carry of a sum), so
  the exact theorems on the pool assume that bound on the figures; the
  column of a plan's capital, \<^verbatim>\<open>Numeric(38, 18)\<close>, holds amounts below \<open>10 ^ 20\<close>. No definition uses fuel: recursions over bars, rows and
  intents are structural, the merge of the clock and the worklist of the dependency guard have a measure, and the depth-first search
  of the dependency guard is a \<open>partial_function\<close> whose returning on every graph is a theorem.

  \<^bold>\<open>Parameters.\<close> What is not under \<^verbatim>\<open>src\<close>, or is a computation the modelled code only passes on, is an
  argument: digests (\<open>digest\<close>), the parser of timestamps and of number texts (\<open>parser\<close>), the texts of decimals and
  numbers shown in journals (\<open>dec\<close>, \<open>shown\<close>), the rendering of an instant (\<open>se_iso\<close>), the values of the indicator plan
  after a bar, the hooks of the participants of a shared run, and what the trash
  asks of other tables (\<open>trash_env\<close>: active runs, family assignments, trusted resolvers, task states). Hypotheses on them are stated where they are used and are met by
  the concrete functions of the witnesses.

  \<^bold>\<open>Not modelled.\<close> The indicator evaluators (numeric series on floats and decimals; their results are
  arguments), the summary, warnings and diagnostics that \<^verbatim>\<open>run_engine\<close> renders from the finished books,
  the parsing of restriction filters (the replay reads them parsed), and the projection of finished
  runs into rows, exports and metrics. Readiness checks, the strategy compiler and
  the ingestion of files produce messages and documents around schema and file libraries; their state
  machines are in \<open>Lifecycles\<close>. Commands of the remaining registries have one shape (guard, row version,
  write, audit row), which the modelled ones show. HTTP routes, queries, workers, repositories, clients
  and the web front end are input and output. Row locking is not modelled: a command runs alone, as it
  does under its locks.
\<close>

end
